(* ===== verification/Py_Prelude.thy ===== *)
theory Py_Prelude
  imports Complex_Main "HOL-Library.Log_Nat" "HOL-Library.AList"
begin

text \<open>
  The Python vocabulary the component theories share.

  \<^item> \<open>pyfloat\<close>: IEEE binary64 values as Python's \<open>float\<close> has them (the sign of zero is not
    kept: no operation of the modelled code observes it), with Python's comparisons, the
    arithmetic rounded to nearest-even by \<open>to_double\<close>, and Python's \<open>min\<close> and \<open>max\<close>.
  \<^item> \<open>pyval\<close>: the dynamic values that JSON can carry (\<open>None\<close>, booleans, integers, floats,
    strings, lists and string-keyed dictionaries), with truthiness and the type tests the code
    makes with \<open>isinstance\<close>. A dictionary is an association list in insertion order.
  \<^item> strings are \<open>char list\<close>: a character is a code point below 256.
  \<^item> \<open>'a result\<close>-style sums are used through \<open>bind_result\<close>.
  The lemma collections \<open>py_simps\<close> (evaluation of the Python primitives) and
  \<open>result_splits\<close>-style bundles carry the proofs of the component theories.
\<close>

named_theorems py_simps \<open>evaluation rules of the Python primitives\<close>

section \<open>Floating-point numbers\<close>

datatype pyfloat = Fin rat | PosInf | NegInf | NaN

fun flt :: "pyfloat \<Rightarrow> pyfloat \<Rightarrow> bool" where
  "flt (Fin a) (Fin b) \<longleftrightarrow> a < b"
| "flt (Fin a) PosInf \<longleftrightarrow> True"
| "flt NegInf (Fin b) \<longleftrightarrow> True"
| "flt NegInf PosInf \<longleftrightarrow> True"
| "flt _ _ \<longleftrightarrow> False"

definition fle :: "pyfloat \<Rightarrow> pyfloat \<Rightarrow> bool" where
  "fle a b \<longleftrightarrow> flt a b \<or> (a = b \<and> a \<noteq> NaN)"

definition feq :: "pyfloat \<Rightarrow> pyfloat \<Rightarrow> bool" where
  "feq a b \<longleftrightarrow> a = b \<and> a \<noteq> NaN"

text \<open>Python's \<open>max(a, b)\<close> keeps \<open>a\<close> unless \<open>b > a\<close>; \<open>min(a, b)\<close> keeps \<open>a\<close> unless \<open>b < a\<close>.\<close>

definition fmax :: "pyfloat \<Rightarrow> pyfloat \<Rightarrow> pyfloat" where
  "fmax a b = (if flt a b then b else a)"

definition fmin :: "pyfloat \<Rightarrow> pyfloat \<Rightarrow> pyfloat" where
  "fmin a b = (if flt b a then b else a)"

definition is_finite :: "pyfloat \<Rightarrow> bool" where
  "is_finite a \<longleftrightarrow> (case a of Fin _ \<Rightarrow> True | _ \<Rightarrow> False)"

lemma flt_irrefl [simp]: "\<not> flt a a"
  by (cases a) auto

lemma flt_asym: "flt a b \<Longrightarrow> \<not> flt b a"
  by (cases a; cases b) auto

lemma flt_trans: "flt a b \<Longrightarrow> flt b c \<Longrightarrow> flt a c"
  by (cases a; cases b; cases c) auto

lemma fle_refl [simp]: "fle a a \<longleftrightarrow> a \<noteq> NaN"
  by (simp add: fle_def)

lemma fle_trans: "fle a b \<Longrightarrow> fle b c \<Longrightarrow> fle a c"
  by (cases a; cases b; cases c) (auto simp: fle_def)

lemma fle_not_flt: "fle a b \<Longrightarrow> \<not> flt b a"
  by (cases a; cases b) (auto simp: fle_def)

lemma not_flt_fle: "\<not> flt b a \<Longrightarrow> a \<noteq> NaN \<Longrightarrow> b \<noteq> NaN \<Longrightarrow> fle a b"
  by (cases a; cases b) (auto simp: fle_def)

lemma fle_Fin [simp]: "fle (Fin a) (Fin b) \<longleftrightarrow> a \<le> b"
  by (auto simp: fle_def)

lemma fle_inf [simp]:
  "fle (Fin a) PosInf" "\<not> fle PosInf (Fin a)" "\<not> fle (Fin a) NegInf" "fle NegInf (Fin a)"
  by (simp_all add: fle_def)

lemma fle_NaN [simp]: "\<not> fle NaN b" "\<not> fle a NaN"
  by (cases b; simp add: fle_def) (cases a; simp add: fle_def)

lemma fmax_ge1: "a \<noteq> NaN \<Longrightarrow> fle a (fmax a b)"
  by (auto simp: fmax_def fle_def)

lemma fmax_not_lt: "\<not> flt (fmax a b) b"
  by (auto simp: fmax_def)

lemma fmax_idem [simp]: "fmax a a = a"
  by (simp add: fmax_def)

subsection \<open>Rounding to binary64\<close>

text \<open>
  \<open>bin_exponent q\<close> is the exponent of the leading binary digit of a positive rational, computed
  from the bit lengths of numerator and denominator.
\<close>

definition bin_exponent :: "rat \<Rightarrow> int" where
  "bin_exponent q =
     (let (n, d) = quotient_of q;
          k = bitlen n - bitlen d
      in if q < 2 powi k then k - 1 else k)"

definition round_half_even :: "rat \<Rightarrow> int" where
  "round_half_even x =
     (let f = \<lfloor>x\<rfloor>; r = x - of_int f
      in if r < 1 / 2 then f else if 1 / 2 < r then f + 1 else if even f then f else f + 1)"

definition to_double :: "rat \<Rightarrow> pyfloat" where
  "to_double q =
     (if q = 0 then Fin 0
      else let e = max (bin_exponent \<bar>q\<bar>) (- 1022) - 52;
               v = of_int (round_half_even (\<bar>q\<bar> / 2 powi e)) * 2 powi e
           in if 2 ^ 1024 \<le> v then (if 0 < q then PosInf else NegInf) else Fin (sgn q * v))"

text \<open>A rational is a finite double when rounding leaves it alone.\<close>

definition is_double :: "rat \<Rightarrow> bool" where
  "is_double q \<longleftrightarrow> to_double q = Fin q"

lemma bin_exponent_bounds:
  assumes "0 < q"
  shows "2 powi bin_exponent q \<le> q" and "q < 2 powi (bin_exponent q + 1)"
proof -
  obtain n d where nd: "quotient_of q = (n, d)" by force
  from quotient_of_denom_pos [OF nd] have d: "0 < d" .
  from quotient_of_div [OF nd] have q: "q = of_int n / of_int d" .
  with assms d have n: "0 < n" by (simp add: zero_less_divide_iff)
  define a where "a = floorlog 2 (nat n)"
  define b where "b = floorlog 2 (nat d)"
  have a: "2 ^ (a - 1) \<le> nat n" "nat n < 2 ^ a" "0 < a"
    using floorlog_bounds [of "nat n" 2] n unfolding a_def
    by (simp_all add: floorlog_def split: if_splits)
  have b: "2 ^ (b - 1) \<le> nat d" "nat d < 2 ^ b" "0 < b"
    using floorlog_bounds [of "nat d" 2] d unfolding b_def
    by (simp_all add: floorlog_def split: if_splits)
  have A: "(2::rat) powi (int a - 1) \<le> of_int n" "of_int n < (2::rat) powi int a"
  proof -
    have "(of_nat (2 ^ (a - 1)) :: rat) \<le> of_nat (nat n)" using a(1) by (simp only: of_nat_le_iff)
    then show "(2::rat) powi (int a - 1) \<le> of_int n"
      using a(3) n by (simp add: power_int_def nat_diff_distrib')
    have "(of_nat (nat n) :: rat) < of_nat (2 ^ a)" using a(2) by (simp only: of_nat_less_iff)
    then show "of_int n < (2::rat) powi int a" using n by simp
  qed
  have B: "(2::rat) powi (int b - 1) \<le> of_int d" "of_int d < (2::rat) powi int b"
  proof -
    have "(of_nat (2 ^ (b - 1)) :: rat) \<le> of_nat (nat d)" using b(1) by (simp only: of_nat_le_iff)
    then show "(2::rat) powi (int b - 1) \<le> of_int d"
      using b(3) d by (simp add: power_int_def nat_diff_distrib')
    have "(of_nat (nat d) :: rat) < of_nat (2 ^ b)" using b(2) by (simp only: of_nat_less_iff)
    then show "of_int d < (2::rat) powi int b" using d by simp
  qed
  have dpos: "0 < (of_int d :: rat)" using d by simp
  have lo: "(2::rat) powi (int a - int b - 1) \<le> q"
  proof -
    have "(2::rat) powi (int a - int b - 1) * of_int d \<le> 2 powi (int a - int b - 1) * 2 powi int b"
      using B(2) by (intro mult_left_mono) auto
    also have "\<dots> = 2 powi (int a - 1)"
      by (subst power_int_add [symmetric]) (auto simp del: power_int_of_nat)
    also have "\<dots> \<le> of_int n" by (rule A(1))
    finally show ?thesis using dpos by (simp add: q pos_le_divide_eq)
  qed
  have hi: "q < (2::rat) powi (int a - int b + 1)"
  proof -
    have "of_int n < (2::rat) powi int a" by (rule A(2))
    also have "\<dots> = 2 powi (int a - int b + 1) * 2 powi (int b - 1)"
      by (subst power_int_add [symmetric]) (auto simp del: power_int_of_nat)
    also have "\<dots> \<le> 2 powi (int a - int b + 1) * of_int d"
      using B(1) by (intro mult_left_mono) auto
    finally show ?thesis using dpos by (simp add: q pos_divide_less_eq)
  qed
  have e: "bin_exponent q = (if q < 2 powi (int a - int b) then int a - int b - 1 else int a - int b)"
    by (simp add: bin_exponent_def nd a_def b_def bitlen_def)
  show "2 powi bin_exponent q \<le> q" "q < 2 powi (bin_exponent q + 1)"
    using lo hi by (auto simp: e)
qed


lemma round_half_even_ge: "of_int k \<le> x \<Longrightarrow> k \<le> round_half_even x"
proof -
  assume "of_int k \<le> x"
  then have "k \<le> \<lfloor>x\<rfloor>" by (simp add: le_floor_iff)
  then show ?thesis by (simp add: round_half_even_def Let_def)
qed

lemma round_half_even_of_int [simp]: "round_half_even (of_int k) = k"
  by (simp add: round_half_even_def)

lemma bin_exponent_mono:
  assumes "0 < x" "x \<le> y"
  shows "bin_exponent x \<le> bin_exponent y"
proof -
  have "(2::rat) powi bin_exponent x \<le> x" using assms bin_exponent_bounds by blast
  also have "x \<le> y" by (rule assms)
  also have "y < 2 powi (bin_exponent y + 1)" using assms bin_exponent_bounds [of y] by simp
  finally have lt: "(2::rat) powi bin_exponent x < 2 powi (bin_exponent y + 1)" .
  show ?thesis
  proof (rule ccontr)
    assume "\<not> ?thesis"
    then have "(2::rat) powi (bin_exponent y + 1) \<le> 2 powi bin_exponent x"
      by (intro power_int_increasing) auto
    with lt show False by simp
  qed
qed

lemma to_double_nonneg: "0 \<le> q \<Longrightarrow> \<not> flt (to_double q) (Fin 0)"
proof -
  assume q: "0 \<le> q"
  have "0 \<le> round_half_even (\<bar>q\<bar> / 2 powi e)" for e
    by (rule round_half_even_ge) simp
  with q show ?thesis by (auto simp: to_double_def Let_def sgn_if zero_le_mult_iff not_less)
qed

text \<open>
  Rounding never falls below a double that lies below the exact result: the fact behind every
  monotonicity argument on timestamps.
\<close>

lemma to_double_ge_double:
  assumes "is_double x" "0 \<le> x" "x \<le> q"
  shows "\<not> flt (to_double q) (Fin x)"
proof (cases "x = 0")
  case True
  with assms show ?thesis using to_double_nonneg by simp
next
  case False
  with assms have x: "0 < x" and q: "0 < q" by auto
  define ex where "ex = max (bin_exponent x) (- 1022) - 52"
  define eq where "eq = max (bin_exponent q) (- 1022) - 52"
  from assms(1) x have xi: "x = of_int (round_half_even (x / 2 powi ex)) * 2 powi ex"
    by (auto simp: is_double_def to_double_def Let_def ex_def split: if_splits)
  have mono: "bin_exponent x \<le> bin_exponent q" using bin_exponent_mono [OF x assms(3)] .
  have key: "x \<le> of_int (round_half_even (q / 2 powi eq)) * 2 powi eq"
  proof (cases "ex = eq")
    case True
    have "of_int (round_half_even (x / 2 powi ex)) \<le> q / (2 powi eq :: rat)"
      using xi assms(3) True by (simp add: pos_le_divide_eq)
    then have "round_half_even (x / 2 powi ex) \<le> round_half_even (q / 2 powi eq)"
      by (rule round_half_even_ge)
    then have "(of_int (round_half_even (x / 2 powi ex)) :: rat) * 2 powi eq
        \<le> of_int (round_half_even (q / 2 powi eq)) * 2 powi eq"
      by (intro mult_right_mono) auto
    with xi True show ?thesis by simp
  next
    case False
    with mono have lt: "bin_exponent x < bin_exponent q" and e: "eq = bin_exponent q - 52"
      by (auto simp: ex_def eq_def max_def split: if_splits)
    have "(of_int (2 ^ 52) :: rat) * 2 powi eq = 2 powi bin_exponent q"
      by (simp add: e power_int_diff)
    also have "\<dots> \<le> q" by (rule bin_exponent_bounds(1) [OF q])
    finally have "of_int (2 ^ 52) \<le> q / (2 powi eq :: rat)" by (simp add: pos_le_divide_eq)
    then have "2 ^ 52 \<le> round_half_even (q / 2 powi eq)" by (rule round_half_even_ge)
    then have "(of_int (2 ^ 52) :: rat) \<le> of_int (round_half_even (q / 2 powi eq))"
      by (simp only: of_int_le_iff)
    then have "(of_int (2 ^ 52) :: rat) * 2 powi eq \<le> of_int (round_half_even (q / 2 powi eq)) * 2 powi eq"
      by (intro mult_right_mono) simp_all
    moreover have "(of_int (2 ^ 52) :: rat) * 2 powi eq = 2 powi bin_exponent q"
      by (simp add: e power_int_diff)
    moreover have "x < 2 powi (bin_exponent x + 1)" by (rule bin_exponent_bounds(2) [OF x])
    moreover have "(2::rat) powi (bin_exponent x + 1) \<le> 2 powi bin_exponent q"
      using lt by (intro power_int_increasing) auto
    ultimately show ?thesis by linarith
  qed
  then show ?thesis using q by (simp add: to_double_def Let_def eq_def [symmetric])
qed

text \<open>Rounding always yields a double (or an infinity).\<close>

lemma round_half_even_le: "x \<le> of_int k \<Longrightarrow> round_half_even x \<le> k"
proof -
  assume x: "x \<le> of_int k"
  show ?thesis
  proof (cases "x = of_int k")
    case False
    with x have "x < of_int k" by simp
    then have "\<lfloor>x\<rfloor> < k" by (simp add: floor_less_iff)
    then show ?thesis by (simp add: round_half_even_def Let_def)
  qed simp
qed

text \<open>Nothing between 0 and 1 overflows.\<close>

lemma to_double_unit_le:
  assumes "0 < q" "q \<le> 1"
  shows "\<exists>d. to_double q = Fin d \<and> 0 \<le> d \<and> d \<le> 1"
proof -
  define e where "e = max (bin_exponent q) (- 1022) - 52"
  define n where "n = round_half_even (q / 2 powi e)"
  have n0: "0 \<le> n" unfolding n_def using assms by (intro round_half_even_ge) simp
  have "bin_exponent q \<le> 0"
  proof (rule ccontr)
    assume "\<not> ?thesis"
    then have "(2::rat) powi 1 \<le> 2 powi bin_exponent q" by (intro power_int_increasing) auto
    with bin_exponent_bounds(1) [OF assms(1)] assms(2) show False by simp
  qed
  then have e: "e \<le> - 52" "- 1074 \<le> e" by (auto simp: e_def)
  have "q / 2 powi e \<le> 2 powi (- e)" using assms(2) by (simp add: power_int_minus field_simps)
  also have "\<dots> = of_int (2 ^ nat (- e))" using e by (simp add: power_int_def)
  finally have "n \<le> 2 ^ nat (- e)" unfolding n_def by (rule round_half_even_le)
  then have "(of_int n :: rat) \<le> of_int (2 ^ nat (- e))" by (simp only: of_int_le_iff)
  then have "of_int n * 2 powi e \<le> (of_int (2 ^ nat (- e)) * 2 powi e :: rat)"
    by (intro mult_right_mono) auto
  also have "\<dots> = 1"
    using e by (simp add: power_int_def flip: power_mult_distrib)
  finally have le: "(of_int n * 2 powi e :: rat) \<le> 1" .
  then have "\<not> 2 ^ 1024 \<le> (of_int n * 2 powi e :: rat)"
    by (simp add: not_le)
  then show ?thesis using assms n0 le by (simp add: to_double_def Let_def e_def [symmetric] n_def [symmetric])
qed

lemma to_double_unit: "0 < q \<Longrightarrow> q \<le> 1 \<Longrightarrow> \<exists>d. to_double q = Fin d \<and> 0 \<le> d"
  using to_double_unit_le by blast

lemma power_int_nat_shift: "0 \<le> k \<Longrightarrow> (2::rat) powi (e + k) = of_int (2 ^ nat k) * 2 powi e"
  by (simp add: power_int_add) (simp add: power_int_def)

lemma is_double_scaled:
  assumes y: "0 < y" "y = of_int n * 2 powi e" and n: "n \<le> 2 ^ 53" and e: "- 1074 \<le> e"
    and fin: "y < 2 ^ 1024"
  shows "is_double y"
proof -
  define ey where "ey = max (bin_exponent y) (- 1022) - 52"
  have "\<exists>m::int. y / 2 powi ey = of_int m"
  proof (cases "ey \<le> e")
    case True
    then have "(2::rat) powi e = of_int (2 ^ nat (e - ey)) * 2 powi ey"
      using power_int_nat_shift [of "e - ey" ey] by simp
    then show ?thesis using y by (intro exI [of _ "n * 2 ^ nat (e - ey)"]) simp
  next
    case False
    with e have ge: "e + 53 \<le> bin_exponent y" by (simp add: ey_def max_def split: if_splits)
    have "(2::rat) powi (e + 53) \<le> 2 powi bin_exponent y"
      using ge by (intro power_int_increasing) auto
    also have "\<dots> \<le> y" by (rule bin_exponent_bounds(1) [OF y(1)])
    finally have "of_int (2 ^ 53) * 2 powi e \<le> y" using power_int_nat_shift [of 53 e] by simp
    with y(2) have "(of_int (2 ^ 53) :: rat) \<le> of_int n" by simp
    then have "2 ^ 53 \<le> n" by (simp only: of_int_le_iff)
    with n y(2) have y2: "y = 2 powi (e + 53)" using power_int_nat_shift [of 53 e] by simp
    have "bin_exponent y \<le> e + 53"
    proof (rule ccontr)
      assume "\<not> ?thesis"
      then have "(2::rat) powi (e + 54) \<le> 2 powi bin_exponent y"
        by (intro power_int_increasing) auto
      with bin_exponent_bounds(1) [OF y(1)] have "(2::rat) powi (e + 54) \<le> 2 powi (e + 53)"
        by (simp add: y2)
      then show False by (simp add: power_int_add)
    qed
    with ge e have "ey = e + 1" by (simp add: ey_def)
    then show ?thesis using y2 power_int_nat_shift [of 52 "e + 1"]
      by (intro exI [of _ "2 ^ 52"]) (simp add: add.commute)
  qed
  then obtain m :: int where m: "y / 2 powi ey = of_int m" by blast
  then have "of_int (round_half_even (y / 2 powi ey)) * 2 powi ey = y"
    by (simp add: field_simps)
  then show ?thesis using y(1) fin by (simp add: is_double_def to_double_def Let_def ey_def [symmetric])
qed

lemma to_double_numeral:
  assumes "(numeral n :: int) \<le> 2 ^ 53"
  shows "to_double (numeral n) = Fin (numeral n)"
proof -
  have "(numeral n :: rat) = of_int (numeral n)" by simp
  also have "\<dots> \<le> of_int (2 ^ 53)" using assms by (simp only: of_int_le_iff)
  also have "\<dots> < (2 :: rat) ^ 1024" by (simp add: power_strict_increasing)
  finally have "is_double (numeral n)"
    using assms by (intro is_double_scaled [of _ "numeral n" 0]) simp_all
  then show ?thesis by (simp add: is_double_def)
qed

lemma is_double_neg: "is_double (- y) \<longleftrightarrow> is_double y"
  by (auto simp: is_double_def to_double_def Let_def sgn_if split: if_splits)

lemma to_double_is_double:
  assumes "to_double q = Fin y"
  shows "is_double y"
proof (cases "q = 0")
  case True
  with assms show ?thesis by (simp add: to_double_def is_double_def)
next
  case False
  define e where "e = max (bin_exponent \<bar>q\<bar>) (- 1022) - 52"
  define n where "n = round_half_even (\<bar>q\<bar> / 2 powi e)"
  define v :: rat where "v = of_int n * 2 powi e"
  from assms False have y: "y = sgn q * v" and fin: "v < 2 ^ 1024"
    by (auto simp: to_double_def Let_def v_def n_def e_def split: if_splits)
  have q: "0 < \<bar>q\<bar>" using False by simp
  have "\<bar>q\<bar> < 2 powi (bin_exponent \<bar>q\<bar> + 1)" by (rule bin_exponent_bounds(2) [OF q])
  also have "\<dots> \<le> 2 powi (e + 53)" by (intro power_int_increasing) (auto simp: e_def)
  finally have "\<bar>q\<bar> / 2 powi e \<le> of_int (2 ^ 53)"
    using power_int_nat_shift [of 53 e] by (simp add: pos_divide_le_eq)
  then have n: "n \<le> 2 ^ 53" unfolding n_def by (rule round_half_even_le)
  have n0: "0 \<le> n" unfolding n_def by (rule round_half_even_ge) simp
  show ?thesis
  proof (cases "n = 0")
    case True
    with y show ?thesis by (simp add: v_def is_double_def to_double_def)
  next
    case False
    with n0 have "0 < v" by (simp add: v_def)
    then have "is_double v" using n fin by (intro is_double_scaled [of v n e]) (auto simp: v_def e_def)
    then show ?thesis using y is_double_neg [of v] q by (cases "0 < q") (auto simp: sgn_if)
  qed
qed

subsection \<open>Float arithmetic\<close>

fun fadd :: "pyfloat \<Rightarrow> pyfloat \<Rightarrow> pyfloat" where
  "fadd (Fin a) (Fin b) = to_double (a + b)"
| "fadd NaN _ = NaN"
| "fadd _ NaN = NaN"
| "fadd PosInf NegInf = NaN"
| "fadd NegInf PosInf = NaN"
| "fadd PosInf _ = PosInf"
| "fadd _ PosInf = PosInf"
| "fadd NegInf _ = NegInf"
| "fadd _ NegInf = NegInf"

fun fneg :: "pyfloat \<Rightarrow> pyfloat" where
  "fneg (Fin a) = Fin (- a)"
| "fneg PosInf = NegInf"
| "fneg NegInf = PosInf"
| "fneg NaN = NaN"

definition fsub :: "pyfloat \<Rightarrow> pyfloat \<Rightarrow> pyfloat" where
  "fsub a b = fadd a (fneg b)"

definition fsign :: "pyfloat \<Rightarrow> int" where
  "fsign a = (case a of Fin x \<Rightarrow> (if x < 0 then - 1 else if x = 0 then 0 else 1)
                      | PosInf \<Rightarrow> 1 | NegInf \<Rightarrow> - 1 | NaN \<Rightarrow> 0)"

fun fmul :: "pyfloat \<Rightarrow> pyfloat \<Rightarrow> pyfloat" where
  "fmul (Fin a) (Fin b) = to_double (a * b)"
| "fmul NaN _ = NaN"
| "fmul _ NaN = NaN"
| "fmul a b = (if fsign a * fsign b = 0 then NaN
               else if 0 < fsign a * fsign b then PosInf else NegInf)"

text \<open>A float literal denotes the nearest double; \<open>float(i)\<close> raises \<open>OverflowError\<close> (here \<open>None\<close>).\<close>

abbreviation flit :: "rat \<Rightarrow> pyfloat" where
  "flit q \<equiv> to_double q"

definition float_of_int :: "int \<Rightarrow> pyfloat option" where
  "float_of_int i = (case to_double (of_int i) of Fin q \<Rightarrow> Some (Fin q) | _ \<Rightarrow> None)"

text \<open>Values a Python float can take.\<close>

definition wf_float :: "pyfloat \<Rightarrow> bool" where
  "wf_float a \<longleftrightarrow> (case a of Fin q \<Rightarrow> is_double q | _ \<Rightarrow> True)"

lemma wf_float_to_double [simp]: "wf_float (to_double q)"
  by (cases "to_double q") (auto simp: wf_float_def to_double_is_double)

lemma wf_float_fadd: "wf_float a \<Longrightarrow> wf_float b \<Longrightarrow> wf_float (fadd a b)"
  by (cases a; cases b) (auto simp: wf_float_def split: pyfloat.splits dest: to_double_is_double)

lemma wf_float_fmax: "wf_float a \<Longrightarrow> wf_float b \<Longrightarrow> wf_float (fmax a b)"
  by (simp add: fmax_def)

lemma fadd_nonneg_ge:
  assumes "wf_float a" "fle (Fin 0) a" "0 \<le> d"
  shows "\<not> flt (fadd a (Fin d)) a"
proof (cases a)
  case (Fin x)
  with assms have "is_double x" "0 \<le> x" "x \<le> x + d" by (auto simp: wf_float_def)
  then have "\<not> flt (to_double (x + d)) (Fin x)" by (rule to_double_ge_double)
  with Fin show ?thesis by simp
qed auto


section \<open>Dynamic values\<close>

datatype pyval =
    PNone
  | PBool bool
  | PInt int
  | PFloat pyfloat
  | PStr string
  | PList "pyval list"
  | PDict "(string \<times> pyval) list"

type_synonym pydict = "(string \<times> pyval) list"

text \<open>\<open>bool(v)\<close>\<close>

fun truthy :: "pyval \<Rightarrow> bool" where
  "truthy PNone \<longleftrightarrow> False"
| "truthy (PBool b) \<longleftrightarrow> b"
| "truthy (PInt i) \<longleftrightarrow> i \<noteq> 0"
| "truthy (PFloat f) \<longleftrightarrow> f \<noteq> Fin 0"
| "truthy (PStr s) \<longleftrightarrow> s \<noteq> []"
| "truthy (PList l) \<longleftrightarrow> l \<noteq> []"
| "truthy (PDict d) \<longleftrightarrow> d \<noteq> []"

text \<open>\<open>d.get(k, default)\<close>; a lookup that may fail is \<open>map_of d k\<close> and \<open>d[k] = v\<close> is \<open>AList.update k v d\<close>.\<close>

definition dget :: "pydict \<Rightarrow> string \<Rightarrow> pyval \<Rightarrow> pyval" where
  "dget d k v = (case map_of d k of Some w \<Rightarrow> w | None \<Rightarrow> v)"

definition has_key :: "pydict \<Rightarrow> string \<Rightarrow> bool" where
  "has_key d k \<longleftrightarrow> map_of d k \<noteq> None"

lemma dget_Nil [simp, py_simps]: "dget [] k v = v"
  by (simp add: dget_def)

lemma dget_Cons [simp, py_simps]: "dget ((k', w) # d) k v = (if k' = k then w else dget d k v)"
  by (simp add: dget_def)

lemma has_key_Nil [simp, py_simps]: "\<not> has_key [] k"
  by (simp add: has_key_def)

lemma has_key_Cons [simp, py_simps]: "has_key ((k', w) # d) k \<longleftrightarrow> k' = k \<or> has_key d k"
  by (simp add: has_key_def)

text \<open>\<open>isinstance(v, int)\<close> accepts booleans, which count as 0 and 1.\<close>

fun as_int :: "pyval \<Rightarrow> int option" where
  "as_int (PInt i) = Some i"
| "as_int (PBool b) = Some (if b then 1 else 0)"
| "as_int _ = None"

text \<open>\<open>isinstance(v, (int, float))\<close>\<close>

fun is_number :: "pyval \<Rightarrow> bool" where
  "is_number (PInt _) \<longleftrightarrow> True"
| "is_number (PBool _) \<longleftrightarrow> True"
| "is_number (PFloat _) \<longleftrightarrow> True"
| "is_number _ \<longleftrightarrow> False"

fun is_bool :: "pyval \<Rightarrow> bool" where
  "is_bool (PBool _) \<longleftrightarrow> True"
| "is_bool _ \<longleftrightarrow> False"

fun is_dict :: "pyval \<Rightarrow> bool" where
  "is_dict (PDict _) \<longleftrightarrow> True"
| "is_dict _ \<longleftrightarrow> False"

text \<open>\<open>float(v)\<close> on a number: \<open>None\<close> is the \<open>OverflowError\<close> of an integer beyond the doubles.\<close>

fun number_to_float :: "pyval \<Rightarrow> pyfloat option" where
  "number_to_float (PFloat f) = Some f"
| "number_to_float (PInt i) = float_of_int i"
| "number_to_float (PBool b) = Some (Fin (if b then 1 else 0))"
| "number_to_float _ = None"

text \<open>Whether a value can be a dictionary key.\<close>

fun hashable :: "pyval \<Rightarrow> bool" where
  "hashable (PList _) \<longleftrightarrow> False"
| "hashable (PDict _) \<longleftrightarrow> False"
| "hashable _ \<longleftrightarrow> True"

section \<open>Strings\<close>

text \<open>The test \<open>needle in s\<close> on strings.\<close>

fun substr :: "string \<Rightarrow> string \<Rightarrow> bool" where
  "substr n [] \<longleftrightarrow> n = []"
| "substr n (c # cs) \<longleftrightarrow> take (length n) (c # cs) = n \<or> substr n cs"

text \<open>\<open>upper()\<close> and \<open>lower()\<close>: the ASCII part, the only part the modelled searches look for.\<close>

definition upper_char :: "char \<Rightarrow> char" where
  "upper_char c = (let n = of_char c :: nat in if 97 \<le> n \<and> n \<le> 122 then char_of (n - 32) else c)"

definition lower_char :: "char \<Rightarrow> char" where
  "lower_char c = (let n = of_char c :: nat in if 65 \<le> n \<and> n \<le> 90 then char_of (n + 32) else c)"

abbreviation upper :: "string \<Rightarrow> string" where
  "upper s \<equiv> map upper_char s"

abbreviation lower :: "string \<Rightarrow> string" where
  "lower s \<equiv> map lower_char s"

text \<open>The characters \<open>str.strip\<close> removes.\<close>

definition is_space :: "char \<Rightarrow> bool" where
  "is_space c \<longleftrightarrow> (let n = of_char c :: nat in
     (9 \<le> n \<and> n \<le> 13) \<or> (28 \<le> n \<and> n \<le> 32) \<or> n = 133 \<or> n = 160)"

definition strip :: "string \<Rightarrow> string" where
  "strip s = rev (dropWhile is_space (rev (dropWhile is_space s)))"

lemma strip_empty_iff: "strip s = [] \<longleftrightarrow> list_all is_space s"
proof -
  have "strip s = [] \<longleftrightarrow> list_all is_space (dropWhile is_space s)"
    by (simp add: strip_def dropWhile_eq_Nil_conv list_all_iff)
  also have "\<dots> \<longleftrightarrow> list_all is_space s"
    by (induction s) (auto simp: list_all_iff)
  finally show ?thesis .
qed

text \<open>\<open>str(n)\<close> of a natural number.\<close>

fun nat_str :: "nat \<Rightarrow> string" where
  "nat_str n =
     (if n < 10 then [char_of (48 + n)] else nat_str (n div 10) @ [char_of (48 + n mod 10)])"

declare nat_str.simps [simp del]

section \<open>Results and stateful operations\<close>

definition bind_result :: "'e + 'a \<Rightarrow> ('a \<Rightarrow> 'e + 'b) \<Rightarrow> 'e + 'b" where
  "bind_result r f = (case r of Inl e \<Rightarrow> Inl e | Inr x \<Rightarrow> f x)"

lemma bind_result_simps [simp, py_simps]:
  "bind_result (Inl e) f = Inl e"
  "bind_result (Inr x) f = f x"
  by (simp_all add: bind_result_def)

lemma bind_result_Inr_iff: "bind_result r f = Inr y \<longleftrightarrow> (\<exists>x. r = Inr x \<and> f x = Inr y)"
  by (cases r) auto

lemma bind_result_Inl_iff: "bind_result r f = Inl e \<longleftrightarrow> r = Inl e \<or> (\<exists>x. r = Inr x \<and> f x = Inl e)"
  by (cases r) auto

text \<open>
  An operation that changes state and may raise keeps the state it reached when it raised:
  \<open>'s \<Rightarrow> ('e + 'a) \<times> 's\<close>. \<open>bind_op\<close> sequences two of them, stopping at an exception.
\<close>

definition bind_op :: "('s \<Rightarrow> ('e + 'a) \<times> 's) \<Rightarrow> ('a \<Rightarrow> 's \<Rightarrow> ('e + 'b) \<times> 's) \<Rightarrow> 's \<Rightarrow> ('e + 'b) \<times> 's" where
  "bind_op m f s = (case m s of (Inl e, s') \<Rightarrow> (Inl e, s') | (Inr x, s') \<Rightarrow> f x s')"

lemma bind_op_Inl [simp]: "m s = (Inl e, s') \<Longrightarrow> bind_op m f s = (Inl e, s')"
  by (simp add: bind_op_def)

lemma bind_op_Inr [simp]: "m s = (Inr x, s') \<Longrightarrow> bind_op m f s = f x s'"
  by (simp add: bind_op_def)

text \<open>A loop whose body may raise.\<close>

fun fold_result :: "('a \<Rightarrow> 's \<Rightarrow> 'e + 's) \<Rightarrow> 'a list \<Rightarrow> 's \<Rightarrow> 'e + 's" where
  "fold_result f [] s = Inr s"
| "fold_result f (x # xs) s = bind_result (f x s) (fold_result f xs)"

lemma fold_result_append:
  "fold_result f (xs @ ys) s = bind_result (fold_result f xs s) (fold_result f ys)"
  by (induction xs arbitrary: s) (auto simp: bind_result_def split: sum.splits)

lemma fold_result_snoc_Inr:
  "fold_result f (xs @ [x]) s = Inr t \<longleftrightarrow> (\<exists>u. fold_result f xs s = Inr u \<and> f x u = Inr t)"
  by (auto simp: fold_result_append bind_result_def split: sum.splits)

lemma fold_result_append_Inr:
  "fold_result f (xs @ ys) s = Inr t \<longleftrightarrow> (\<exists>u. fold_result f xs s = Inr u \<and> fold_result f ys u = Inr t)"
  by (auto simp: fold_result_append bind_result_def split: sum.splits)

lemma fold_result_invariant:
  assumes "fold_result f xs s = Inr t" "P s"
    and "\<And>x u v. x \<in> set xs \<Longrightarrow> P u \<Longrightarrow> f x u = Inr v \<Longrightarrow> P v"
  shows "P t"
  using assms
  by (induction xs arbitrary: s) (auto simp: bind_result_Inr_iff)

lemma sum_case_cases:
  obtains e where "r = Inl e" | x where "r = Inr x"
  by (cases r) auto

lemmas result_splits = sum.splits option.splits prod.splits if_splits

end
