(* ===== verification/Core_Types.thy ===== *)
theory Core_Types
  imports Py_Prelude
begin

text \<open>
  The enumerations, value classes and exceptions of \<open>src/core/types.py\<close>, \<open>src/core/errors.py\<close>,
  \<open>src/core/checkpoint_contract.py\<close>, \<open>src/core/idempotency_contract.py\<close> and
  \<open>src/agent/messages.py\<close>, and the serialisation of \<open>ToolResult\<close>.

  Every exception class the modelled code raises or catches is a constructor of \<open>exn\<close>; the
  formatted text of a message is replaced by a reason value that carries what the text is built
  from. Predicates such as \<open>is_exception\<close> and \<open>as_agent_exception\<close> state the class hierarchy the
  \<open>except\<close> clauses rely on.
\<close>

section \<open>Enumerations\<close>

datatype run_state =
  PENDING | RUNNING | LLM_WAITING | TOOL_EXECUTING | COMPLETED | FAILED | HALTED

datatype failure_domain =
  USER_APP | LLM_PROVIDER | TOOL_EXECUTION | CHECKPOINT_STORE | CORRUPTION_INTEGRITY | PROCESS_CRASH

datatype event_type =
    TASK_START | RUN_STARTED | LLM_REQUESTED | LLM_RESPONDED | TOOL_CALL_CREATED
  | TOOL_ATTEMPT_STARTED | TOOL_ATTEMPT_ENDED | RETRY_SCHEDULED | TOOL_RESULT_RECEIVED
  | TOOL_CALL_REJECTED | LLM_FINAL_RESPONSE | RUN_COMPLETED | RUN_FAILED | RUN_HALTED | TASK_END

fun event_type_value :: "event_type \<Rightarrow> string" where
  "event_type_value TASK_START = ''TASK_START''"
| "event_type_value RUN_STARTED = ''RUN_STARTED''"
| "event_type_value LLM_REQUESTED = ''LLM_REQUESTED''"
| "event_type_value LLM_RESPONDED = ''LLM_RESPONDED''"
| "event_type_value TOOL_CALL_CREATED = ''TOOL_CALL_CREATED''"
| "event_type_value TOOL_ATTEMPT_STARTED = ''TOOL_ATTEMPT_STARTED''"
| "event_type_value TOOL_ATTEMPT_ENDED = ''TOOL_ATTEMPT_ENDED''"
| "event_type_value RETRY_SCHEDULED = ''RETRY_SCHEDULED''"
| "event_type_value TOOL_RESULT_RECEIVED = ''TOOL_RESULT_RECEIVED''"
| "event_type_value TOOL_CALL_REJECTED = ''TOOL_CALL_REJECTED''"
| "event_type_value LLM_FINAL_RESPONSE = ''LLM_FINAL_RESPONSE''"
| "event_type_value RUN_COMPLETED = ''RUN_COMPLETED''"
| "event_type_value RUN_FAILED = ''RUN_FAILED''"
| "event_type_value RUN_HALTED = ''RUN_HALTED''"
| "event_type_value TASK_END = ''TASK_END''"

definition all_event_types :: "event_type list" where
  "all_event_types =
     [TASK_START, RUN_STARTED, LLM_REQUESTED, LLM_RESPONDED, TOOL_CALL_CREATED,
      TOOL_ATTEMPT_STARTED, TOOL_ATTEMPT_ENDED, RETRY_SCHEDULED, TOOL_RESULT_RECEIVED,
      TOOL_CALL_REJECTED, LLM_FINAL_RESPONSE, RUN_COMPLETED, RUN_FAILED, RUN_HALTED, TASK_END]"

text \<open>\<open>CheckpointEventType(v)\<close>: the member with that value, \<open>None\<close> for the exception.\<close>

definition parse_event_type :: "pyval \<Rightarrow> event_type option" where
  "parse_event_type v = find (\<lambda>t. v = PStr (event_type_value t)) all_event_types"

datatype record_status = R_NEW | R_IN_PROGRESS | R_COMPLETED | R_FAILED | R_RECOVERABLE

fun record_status_value :: "record_status \<Rightarrow> string" where
  "record_status_value R_NEW = ''NEW''"
| "record_status_value R_IN_PROGRESS = ''IN_PROGRESS''"
| "record_status_value R_COMPLETED = ''COMPLETED''"
| "record_status_value R_FAILED = ''FAILED''"
| "record_status_value R_RECOVERABLE = ''RECOVERABLE''"

definition parse_record_status :: "pyval \<Rightarrow> record_status option" where
  "parse_record_status v = find (\<lambda>t. v = PStr (record_status_value t))
     [R_NEW, R_IN_PROGRESS, R_COMPLETED, R_FAILED, R_RECOVERABLE]"

datatype claim_status = CLAIMED | ALREADY_IN_PROGRESS | ALREADY_COMPLETED | FAILED_PERMANENT

datatype tool_status = T_SUCCESS | T_PARTIAL_SUCCESS | T_FAILURE

fun tool_status_value :: "tool_status \<Rightarrow> string" where
  "tool_status_value T_SUCCESS = ''success''"
| "tool_status_value T_PARTIAL_SUCCESS = ''partial_success''"
| "tool_status_value T_FAILURE = ''failure''"

definition parse_tool_status :: "pyval \<Rightarrow> tool_status option" where
  "parse_tool_status v = find (\<lambda>t. v = PStr (tool_status_value t))
     [T_SUCCESS, T_PARTIAL_SUCCESS, T_FAILURE]"

lemma parse_event_type_value [simp]: "parse_event_type (PStr (event_type_value t)) = Some t"
  by (cases t) (simp_all add: parse_event_type_def all_event_types_def)

lemma parse_record_status_value [simp]: "parse_record_status (PStr (record_status_value t)) = Some t"
  by (cases t) (simp_all add: parse_record_status_def)

lemma parse_tool_status_value [simp]: "parse_tool_status (PStr (tool_status_value t)) = Some t"
  by (cases t) (simp_all add: parse_tool_status_def)

lemma parse_event_type_Some: "parse_event_type v = Some t \<Longrightarrow> v = PStr (event_type_value t)"
  by (auto simp: parse_event_type_def find_Some_iff)

section \<open>Exceptions\<close>

record record_key =
  operation_key :: string
  idempotency_key :: string

text \<open>
  Python does not check the types of these attributes, and \<open>ToolResult.from_dict\<close> fills them
  from JSON: they hold dynamic values.
\<close>

record agent_exception =
  ae_message :: pyval
  ae_code :: pyval
  ae_retryable :: pyval
  ae_details :: pyval

text \<open>Why a checkpoint line or event sequence is corrupt.\<close>

datatype cp_corruption =
    NotAnObject
  | MissingFields "string list"
  | RunIdInvalid
  | SequenceNotInteger
  | SequenceBelowOne int
  | TimestampNotNumber
  | InvalidEventType pyval
  | PayloadNotObject
  | FirstSequenceNotOne int
  | DuplicateSequence int
  | SequenceRollback int int
  | SequenceGap int int
  | TimestampRollback pyfloat pyfloat
  | InvalidJsonLine nat
  | ReadFailed
  | IntegrityFailed
  | ClassifiedCorrupt

text \<open>Why an idempotency record is corrupt.\<close>

datatype idem_corruption =
    NotARecord
  | LineNotObject
  | LineMissingFields "string list"
  | LineKeyNotObject
  | LineInvalidKey
  | LineInvalidStatus pyval
  | CreatedNotNumeric
  | UpdatedNotNumeric
  | OwnerInvalid
  | AttemptNotInteger
  | AttemptBelowOne
  | DataNotObject
  | KeyMismatch string
  | UpdatedBeforeCreated
  | TimestampMovedBackwards nat
  | LineInvalidJson
  | StoreReadFailed
  | NonTrailingCorruption
  | InvalidRecordDict

datatype recovery_reason =
    TerminalState run_state
  | CorruptCheckpoint
  | UnknownPotential

datatype exn =
    AgentException agent_exception
  | RecoveryStateError recovery_reason
  | SystemStateError string "exn option"
  | CheckpointCorruptionError pyval "nat option" cp_corruption
  | CheckpointStateError string run_state event_type
  | IdempotencyOwnershipError record_key pyval string
  | IdempotencyStateError record_key record_status record_status
  | IdempotencyCorruptionError string idem_corruption
  | TypeError string
  | ValueError string
  | KeyError string
  | AttributeError
  | OverflowError
  | OSError string
  | FileNotFoundError
  | TimeoutError
  | RuntimeError string
  | OtherError string "pyval option" "pyval option"
  | CancelledError

text \<open>
  \<open>asyncio.CancelledError\<close> is a \<open>BaseException\<close>: \<open>except Exception\<close> does not catch it.
  \<open>FileNotFoundError\<close> and \<open>TimeoutError\<close> are subclasses of \<open>OSError\<close>.
\<close>

definition is_exception :: "exn \<Rightarrow> bool" where
  "is_exception e \<longleftrightarrow> e \<noteq> CancelledError"

fun is_os_error :: "exn \<Rightarrow> bool" where
  "is_os_error (OSError _) \<longleftrightarrow> True"
| "is_os_error FileNotFoundError \<longleftrightarrow> True"
| "is_os_error TimeoutError \<longleftrightarrow> True"
| "is_os_error _ \<longleftrightarrow> False"

fun is_system_state_error :: "exn \<Rightarrow> bool" where
  "is_system_state_error (SystemStateError _ _) \<longleftrightarrow> True"
| "is_system_state_error _ \<longleftrightarrow> False"

fun is_checkpoint_error :: "exn \<Rightarrow> bool" where
  "is_checkpoint_error (CheckpointCorruptionError _ _ _) \<longleftrightarrow> True"
| "is_checkpoint_error (CheckpointStateError _ _ _) \<longleftrightarrow> True"
| "is_checkpoint_error _ \<longleftrightarrow> False"

fun is_idempotency_error :: "exn \<Rightarrow> bool" where
  "is_idempotency_error (IdempotencyOwnershipError _ _ _) \<longleftrightarrow> True"
| "is_idempotency_error (IdempotencyStateError _ _ _) \<longleftrightarrow> True"
| "is_idempotency_error (IdempotencyCorruptionError _ _) \<longleftrightarrow> True"
| "is_idempotency_error _ \<longleftrightarrow> False"

text \<open>\<open>RecoveryStateError\<close> is an \<open>AgentException\<close> with its own code that is not retryable.\<close>

fun as_agent_exception :: "exn \<Rightarrow> agent_exception option" where
  "as_agent_exception (AgentException a) = Some a"
| "as_agent_exception (RecoveryStateError r) =
     Some \<lparr>ae_message = PStr ''Cannot resume run'', ae_code = PStr ''RECOVERY_STATE_ERROR'',
           ae_retryable = PBool False, ae_details = PDict []\<rparr>"
| "as_agent_exception _ = None"

text \<open>The constructor of \<open>AgentException\<close>: \<open>details or {}\<close> replaces a falsy value.\<close>

definition mk_agent_exception :: "pyval \<Rightarrow> pyval \<Rightarrow> pyval \<Rightarrow> pyval \<Rightarrow> agent_exception" where
  "mk_agent_exception msg code retryable details =
     \<lparr>ae_message = msg, ae_code = code, ae_retryable = retryable,
      ae_details = (if truthy details then details else PDict [])\<rparr>"

definition wf_agent_exception :: "agent_exception \<Rightarrow> bool" where
  "wf_agent_exception e \<longleftrightarrow> truthy (ae_details e) \<or> ae_details e = PDict []"

lemma wf_agent_exception_mk [simp]: "wf_agent_exception (mk_agent_exception m c r d)"
  by (simp add: wf_agent_exception_def mk_agent_exception_def)

section \<open>Tool calls and tool results\<close>

record tool_call =
  tc_name :: string
  tc_arguments :: pyval
  tc_call_id :: pyval
  tc_run_id :: string
  tc_operation_key :: string
  tc_idempotency_key :: pyval

text \<open>
  \<open>ToolCall.__post_init__\<close>. \<open>md5_hex name args\<close> stands for the hexadecimal MD5 digest of the tool
  name followed by \<open>json.dumps(args, sort_keys=True)\<close>; the digest is an argument of the model.
  A name that is not a string has no \<open>encode\<close>.
\<close>

definition mk_tool_call ::
  "(string \<Rightarrow> pyval \<Rightarrow> string) \<Rightarrow> pyval \<Rightarrow> pyval \<Rightarrow> pyval \<Rightarrow> string \<Rightarrow> exn + tool_call" where
  "mk_tool_call md5_hex name args call_id run_id =
     (case name of
        PStr n \<Rightarrow>
          Inr \<lparr>tc_name = n, tc_arguments = args, tc_call_id = call_id, tc_run_id = run_id,
               tc_operation_key = md5_hex n args,
               tc_idempotency_key = PStr (run_id @ ''_'' @ md5_hex n args)\<rparr>
      | _ \<Rightarrow> Inl AttributeError)"

record tool_result =
  tr_call_id :: pyval
  tr_run_id :: pyval
  tr_tool_name :: pyval
  tr_status :: tool_status
  tr_data :: pyval
  tr_error :: "agent_exception option"
  tr_duration_ms :: pyval
  tr_logs :: pyval

definition error_to_dict :: "agent_exception \<Rightarrow> pydict" where
  "error_to_dict e =
     [(''message'', ae_message e), (''code'', ae_code e),
      (''retryable'', ae_retryable e), (''details'', ae_details e)]"

definition tool_result_to_dict :: "tool_result \<Rightarrow> pydict" where
  "tool_result_to_dict r =
     [(''call_id'', tr_call_id r),
      (''run_id'', tr_run_id r),
      (''tool_name'', tr_tool_name r),
      (''status'', PStr (tool_status_value (tr_status r))),
      (''data'', tr_data r),
      (''error'', (case tr_error r of Some e \<Rightarrow> PDict (error_to_dict e) | None \<Rightarrow> PNone)),
      (''duration_ms'', tr_duration_ms r),
      (''logs'', tr_logs r)]"

text \<open>
  \<open>ToolResult.from_dict\<close>: a missing key is a \<open>KeyError\<close>, an unknown status a \<open>ValueError\<close>, a
  truthy \<open>error\<close> that is not a dictionary an \<open>AttributeError\<close> (it has no \<open>get\<close>).
\<close>

definition error_from_dict :: "pydict \<Rightarrow> agent_exception" where
  "error_from_dict e =
     mk_agent_exception (dget e ''message'' (PStr [])) (dget e ''code'' (PStr ''UNKNOWN_ERROR''))
       (dget e ''retryable'' (PBool False)) (dget e ''details'' (PDict []))"

definition dindex :: "pydict \<Rightarrow> string \<Rightarrow> exn + pyval" where
  "dindex d k = (case map_of d k of None \<Rightarrow> Inl (KeyError k) | Some v \<Rightarrow> Inr v)"

definition tool_result_from_dict :: "pydict \<Rightarrow> exn + tool_result" where
  "tool_result_from_dict d =
     bind_result
       (let ev = dget d ''error'' PNone in
        if truthy ev
        then (case ev of PDict e \<Rightarrow> Inr (Some (error_from_dict e)) | _ \<Rightarrow> Inl AttributeError)
        else Inr None)
       (\<lambda>err.
     bind_result (dindex d ''call_id'') (\<lambda>cid.
     bind_result (dindex d ''run_id'') (\<lambda>rid.
     bind_result (dindex d ''tool_name'') (\<lambda>tn.
     bind_result (dindex d ''status'') (\<lambda>sv.
     case parse_tool_status sv of
       None \<Rightarrow> Inl (ValueError ''status'')
     | Some st \<Rightarrow>
        Inr \<lparr>tr_call_id = cid, tr_run_id = rid, tr_tool_name = tn, tr_status = st,
             tr_data = dget d ''data'' PNone, tr_error = err,
             tr_duration_ms = dget d ''duration_ms'' (PInt 0),
             tr_logs = dget d ''logs'' (PList [])\<rparr>)))))"

text \<open>Serialising a tool result and reading it back gives the same result.\<close>

definition wf_tool_result :: "tool_result \<Rightarrow> bool" where
  "wf_tool_result r \<longleftrightarrow> (case tr_error r of Some e \<Rightarrow> wf_agent_exception e | None \<Rightarrow> True)"

lemma error_from_to_dict [simp]: "wf_agent_exception e \<Longrightarrow> error_from_dict (error_to_dict e) = e"
  by (cases e) (auto simp: error_to_dict_def error_from_dict_def mk_agent_exception_def wf_agent_exception_def)

lemma error_to_dict_nonempty [simp]: "error_to_dict e \<noteq> []"
  by (simp add: error_to_dict_def)

lemma tool_result_roundtrip [simp]:
  "wf_tool_result r \<Longrightarrow> tool_result_from_dict (tool_result_to_dict r) = Inr r"
  by (cases r)
    (auto simp: tool_result_from_dict_def tool_result_to_dict_def dindex_def wf_tool_result_def
          split: option.splits)

lemma dindex_simps [simp]:
  "dindex [] k = Inl (KeyError k)"
  "dindex ((k', v) # d) k = (if k' = k then Inr v else dindex d k)"
  by (simp_all add: dindex_def)

text \<open>\<open>for x in v\<close>: what iterating over a dynamic value yields, or the \<open>TypeError\<close>.\<close>

fun iter_items :: "pyval \<Rightarrow> exn + pyval list" where
  "iter_items (PList l) = Inr l"
| "iter_items (PStr s) = Inr (map (\<lambda>c. PStr [c]) s)"
| "iter_items (PDict d) = Inr (map (\<lambda>(k, _). PStr k) d)"
| "iter_items _ = Inl (TypeError ''not iterable'')"

text \<open>
  \<open>float(v)\<close> and \<open>int(v)\<close> of a dynamic value. Parsing a number out of a string is an argument, the
  rest is written out: \<open>int\<close> truncates a float towards zero.
\<close>

fun py_float :: "(string \<Rightarrow> pyfloat option) \<Rightarrow> pyval \<Rightarrow> exn + pyfloat" where
  "py_float parse (PStr s) = (case parse s of Some f \<Rightarrow> Inr f | None \<Rightarrow> Inl (ValueError ''float''))"
| "py_float parse v =
     (if is_number v
      then (case number_to_float v of Some f \<Rightarrow> Inr f | None \<Rightarrow> Inl OverflowError)
      else Inl (TypeError ''float''))"

fun py_int :: "(string \<Rightarrow> int option) \<Rightarrow> pyval \<Rightarrow> exn + int" where
  "py_int parse (PStr s) = (case parse s of Some i \<Rightarrow> Inr i | None \<Rightarrow> Inl (ValueError ''int''))"
| "py_int parse (PFloat (Fin q)) = Inr (if 0 \<le> q then \<lfloor>q\<rfloor> else \<lceil>q\<rceil>)"
| "py_int parse (PFloat NaN) = Inl (ValueError ''cannot convert float NaN to integer'')"
| "py_int parse (PFloat _) = Inl OverflowError"
| "py_int parse (PInt i) = Inr i"
| "py_int parse (PBool b) = Inr (if b then 1 else 0)"
| "py_int parse v = Inl (TypeError ''int'')"

section \<open>Messages\<close>

text \<open>
  The content of a message is a dynamic value (a string or \<open>None\<close>) or the text
  \<open>json.dumps(d)\<close> of a dictionary, kept as that dictionary.
\<close>

datatype message_role = SYSTEM | USER | ASSISTANT | TOOL

datatype content = Val pyval | Dumped pydict

fun content_truthy :: "content \<Rightarrow> bool" where
  "content_truthy (Val v) = truthy v"
| "content_truthy (Dumped d) = True"

record assistant_tool_call =
  atc_call_id :: pyval
  atc_name :: pyval
  atc_arguments :: pyval

record llm_message =
  msg_role :: message_role
  msg_content :: content
  msg_tool_call_id :: pyval
  msg_tool_name :: pyval
  msg_tool_calls :: "assistant_tool_call list"

end
