(* ===== verification/Checkpoint_Contract.thy ===== *)
theory Checkpoint_Contract
  imports Core_Types
begin

text \<open>
  \<open>src/core/checkpoint_contract.py\<close>: the checkpoint event, its dictionary form, the validation of
  an event sequence (\<open>validate_event_sequence\<close>) and the run state machine
  (\<open>validate_state_transition\<close>).
\<close>

section \<open>Events and their dictionary form\<close>

record checkpoint_event =
  ev_run_id :: string
  ev_sequence_id :: int
  ev_timestamp :: pyfloat
  ev_type :: event_type
  ev_payload :: pydict

text \<open>\<open>CheckpointEvent.to_dict\<close>: the payload is also spread over the top level, never overwriting.\<close>

definition spread_payload :: "pydict \<Rightarrow> pydict \<Rightarrow> pydict" where
  "spread_payload payload d = fold (\<lambda>(k, v) d. if has_key d k then d else d @ [(k, v)]) payload d"

definition event_to_dict :: "checkpoint_event \<Rightarrow> pydict" where
  "event_to_dict e =
     spread_payload (ev_payload e)
       [(''run_id'', PStr (ev_run_id e)),
        (''sequence_id'', PInt (ev_sequence_id e)),
        (''timestamp'', PFloat (ev_timestamp e)),
        (''event_type'', PStr (event_type_value (ev_type e))),
        (''event'', PStr (event_type_value (ev_type e))),
        (''payload'', PDict (ev_payload e))]"

definition missing_fields :: "pydict \<Rightarrow> string list" where
  "missing_fields d =
     filter (\<lambda>k. \<not> has_key d k) [''event_type'', ''run_id'', ''sequence_id'', ''timestamp'']"

text \<open>\<open>CheckpointEvent.from_dict\<close>, each \<open>raise\<close> in the order of the source.\<close>

definition event_from_dict :: "pyval \<Rightarrow> nat option \<Rightarrow> exn + checkpoint_event" where
  "event_from_dict data line =
     (case data of
        PDict d \<Rightarrow>
          if missing_fields d \<noteq> []
          then Inl (CheckpointCorruptionError (dget d ''run_id'' (PStr ''<unknown>'')) line
                      (MissingFields (missing_fields d)))
          else
            (let rid = dget d ''run_id'' PNone; sq = dget d ''sequence_id'' PNone;
                 ts = dget d ''timestamp'' PNone; et = dget d ''event_type'' PNone
             in case rid of
                  PStr run_id \<Rightarrow>
                    if strip run_id = [] then Inl (CheckpointCorruptionError rid line RunIdInvalid)
                    else (case sq of
                      PInt seq \<Rightarrow>
                        if seq < 1 then Inl (CheckpointCorruptionError rid line (SequenceBelowOne seq))
                        else if is_bool ts \<or> \<not> is_number ts
                        then Inl (CheckpointCorruptionError rid line TimestampNotNumber)
                        else (case parse_event_type et of
                          None \<Rightarrow> Inl (CheckpointCorruptionError rid line (InvalidEventType et))
                        | Some t \<Rightarrow>
                            (case (case dget d ''payload'' (PDict []) of
                                     PNone \<Rightarrow> Some [] | PDict p \<Rightarrow> Some p | _ \<Rightarrow> None) of
                               None \<Rightarrow> Inl (CheckpointCorruptionError rid line PayloadNotObject)
                             | Some p \<Rightarrow>
                                 (case number_to_float ts of
                                    None \<Rightarrow> Inl OverflowError
                                  | Some f \<Rightarrow>
                                      Inr \<lparr>ev_run_id = run_id, ev_sequence_id = seq,
                                           ev_timestamp = f, ev_type = t, ev_payload = p\<rparr>)))
                    | _ \<Rightarrow> Inl (CheckpointCorruptionError rid line SequenceNotInteger))
                | _ \<Rightarrow> Inl (CheckpointCorruptionError rid line RunIdInvalid))
      | _ \<Rightarrow> Inl (CheckpointCorruptionError (PStr ''<unknown>'') line NotAnObject))"

definition wf_event :: "checkpoint_event \<Rightarrow> bool" where
  "wf_event e \<longleftrightarrow> strip (ev_run_id e) \<noteq> [] \<and> 1 \<le> ev_sequence_id e"

lemma map_of_spread: "has_key d k \<Longrightarrow> map_of (spread_payload p d) k = map_of d k"
proof (induction p arbitrary: d)
  case Nil
  then show ?case by (simp add: spread_payload_def)
next
  case (Cons a p)
  obtain k' v where a: "a = (k', v)" by force
  have "has_key (if has_key d k' then d else d @ [(k', v)]) k"
    using Cons.prems by (auto simp: has_key_def map_add_def split: option.splits)
  then have "map_of (spread_payload p (if has_key d k' then d else d @ [(k', v)])) k
      = map_of (if has_key d k' then d else d @ [(k', v)]) k"
    by (rule Cons.IH)
  also have "\<dots> = map_of d k"
    using Cons.prems by (auto simp: has_key_def map_add_def split: option.splits)
  finally show ?case by (simp add: spread_payload_def a)
qed

lemma dget_spread: "has_key d k \<Longrightarrow> dget (spread_payload p d) k w = dget d k w"
  by (simp add: dget_def map_of_spread)

lemma has_key_spread: "has_key d k \<Longrightarrow> has_key (spread_payload p d) k"
  by (simp add: has_key_def map_of_spread)

lemma event_from_to_dict [simp]:
  assumes "wf_event e"
  shows "event_from_dict (PDict (event_to_dict e)) line = Inr e"
proof -
  have "missing_fields (event_to_dict e) = []"
    by (simp add: missing_fields_def event_to_dict_def has_key_spread)
  then show ?thesis using assms
    by (cases e) (simp add: event_from_dict_def event_to_dict_def dget_spread wf_event_def Let_def)
qed

lemma event_from_dict_wf: "event_from_dict d line = Inr e \<Longrightarrow> wf_event e"
  by (auto simp: event_from_dict_def wf_event_def Let_def split: pyval.splits option.splits if_splits)

section \<open>Event sequences\<close>

text \<open>
  One iteration of the loop of \<open>validate_event_sequence\<close>; the state is the pair of dictionaries
  \<open>last_sequence\<close> and \<open>last_timestamp\<close>.
\<close>

type_synonym seq_state = "(string \<rightharpoonup> int) \<times> (string \<rightharpoonup> pyfloat)"

definition validate_sequence_step :: "checkpoint_event \<Rightarrow> seq_state \<Rightarrow> exn + seq_state" where
  "validate_sequence_step e st =
     (let (last_sequence, last_timestamp) = st;
          r = ev_run_id e; s = ev_sequence_id e; ts = ev_timestamp e;
          bad = (\<lambda>why. Inl (CheckpointCorruptionError (PStr r) None why));
          next_st = Inr (last_sequence(r \<mapsto> s), last_timestamp(r \<mapsto> ts))
      in case last_sequence r of
           None \<Rightarrow> if s \<noteq> 1 then bad (FirstSequenceNotOne s) else next_st
         | Some prev \<Rightarrow>
             if s = prev then bad (DuplicateSequence s)
             else if s < prev then bad (SequenceRollback prev s)
             else if prev + 1 < s then bad (SequenceGap (prev + 1) s)
             else (case last_timestamp r of
                     None \<Rightarrow> Inl (KeyError r)
                   | Some prev_ts \<Rightarrow>
                       if flt ts prev_ts then bad (TimestampRollback prev_ts ts) else next_st))"

definition validate_event_sequence :: "checkpoint_event list \<Rightarrow> exn + unit" where
  "validate_event_sequence evs =
     bind_result (fold_result validate_sequence_step evs (Map.empty, Map.empty)) (\<lambda>_. Inr ())"

definition run_events :: "string \<Rightarrow> checkpoint_event list \<Rightarrow> checkpoint_event list" where
  "run_events r evs = filter (\<lambda>e. ev_run_id e = r) evs"

text \<open>The specification of one run: sequence ids count from 1, no timestamp falls below its predecessor.\<close>

definition valid_run :: "checkpoint_event list \<Rightarrow> bool" where
  "valid_run rs \<longleftrightarrow>
     map ev_sequence_id rs = map int [1..<Suc (length rs)] \<and>
     successively (\<lambda>a b. \<not> flt (ev_timestamp b) (ev_timestamp a)) rs"

definition seq_state_of :: "checkpoint_event list \<Rightarrow> seq_state" where
  "seq_state_of evs =
     ((\<lambda>r. if run_events r evs = [] then None else Some (int (length (run_events r evs)))),
      (\<lambda>r. if run_events r evs = [] then None else Some (ev_timestamp (last (run_events r evs)))))"

lemma run_events_Nil [simp]: "run_events r [] = []"
  by (simp add: run_events_def)

lemma run_events_append [simp]: "run_events r (xs @ ys) = run_events r xs @ run_events r ys"
  by (simp add: run_events_def)

lemma run_events_Cons [simp]:
  "run_events r (e # es) = (if ev_run_id e = r then e # run_events r es else run_events r es)"
  by (simp add: run_events_def)

lemma valid_run_Nil [simp]: "valid_run []"
  by (simp add: valid_run_def)

lemma valid_run_snoc:
  "valid_run (rs @ [e]) \<longleftrightarrow>
     valid_run rs \<and> ev_sequence_id e = int (length rs) + 1 \<and>
     (rs \<noteq> [] \<longrightarrow> \<not> flt (ev_timestamp e) (ev_timestamp (last rs)))"
  by (auto simp: valid_run_def successively_append_iff)

lemma validate_sequence_step_iff:
  "validate_sequence_step e (seq_state_of evs) = Inr st \<longleftrightarrow>
     ev_sequence_id e = int (length (run_events (ev_run_id e) evs)) + 1 \<and>
     (run_events (ev_run_id e) evs \<noteq> [] \<longrightarrow>
        \<not> flt (ev_timestamp e) (ev_timestamp (last (run_events (ev_run_id e) evs)))) \<and>
     st = seq_state_of (evs @ [e])"
proof (cases "run_events (ev_run_id e) evs = []")
  case True
  then show ?thesis
    by (auto simp: validate_sequence_step_def seq_state_of_def Let_def fun_eq_iff)
next
  case False
  then show ?thesis
    by (auto simp: validate_sequence_step_def seq_state_of_def Let_def fun_eq_iff)
qed

lemma fold_validate_sequence:
  "fold_result validate_sequence_step evs (Map.empty, Map.empty) = Inr st \<longleftrightarrow>
     (\<forall>r. valid_run (run_events r evs)) \<and> st = seq_state_of evs"
proof (induction evs arbitrary: st rule: rev_induct)
  case Nil
  show ?case by (auto simp: seq_state_of_def)
next
  case (snoc e evs)
  have "fold_result validate_sequence_step (evs @ [e]) (Map.empty, Map.empty) = Inr st \<longleftrightarrow>
      (\<forall>r. valid_run (run_events r evs)) \<and> validate_sequence_step e (seq_state_of evs) = Inr st"
    unfolding fold_result_snoc_Inr snoc.IH by auto
  also have "\<dots> \<longleftrightarrow> (\<forall>r. valid_run (run_events r (evs @ [e]))) \<and> st = seq_state_of (evs @ [e])"
    unfolding validate_sequence_step_iff by (auto simp: valid_run_snoc)
  finally show ?case .
qed

lemma validate_event_sequence_iff:
  "validate_event_sequence evs = Inr () \<longleftrightarrow> (\<forall>r. valid_run (run_events r evs))"
  by (auto simp: validate_event_sequence_def bind_result_Inr_iff fold_validate_sequence)

lemma run_events_idem [simp]:
  "run_events r (run_events r evs) = run_events r evs"
  "r \<noteq> r' \<Longrightarrow> run_events r (run_events r' evs) = []"
  by (auto simp: run_events_def filter_empty_conv)

section \<open>The run state machine\<close>

definition is_terminal :: "run_state \<Rightarrow> bool" where
  "is_terminal s \<longleftrightarrow> s = COMPLETED \<or> s = FAILED \<or> s = HALTED"

text \<open>\<open>v > 0\<close> for a dynamic value: a \<open>TypeError\<close> unless it is a number.\<close>

fun py_positive :: "pyval \<Rightarrow> exn + bool" where
  "py_positive (PInt i) = Inr (0 < i)"
| "py_positive (PBool b) = Inr b"
| "py_positive (PFloat f) = Inr (flt (Fin 0) f)"
| "py_positive _ = Inl (TypeError '''>' not supported'')"

definition validate_state_transition :: "run_state \<Rightarrow> checkpoint_event \<Rightarrow> exn + run_state" where
  "validate_state_transition s e =
     (let t = ev_type e; p = ev_payload e;
          illegal = Inl (CheckpointStateError (ev_run_id e) s t)
      in if s = COMPLETED then
           (if t \<in> {RUN_COMPLETED, LLM_FINAL_RESPONSE, TASK_END} then Inr COMPLETED else illegal)
         else if s = FAILED then
           (if t \<in> {RUN_FAILED, TASK_END} then Inr FAILED else illegal)
         else if s = HALTED then
           (if t = RUN_HALTED then Inr HALTED else illegal)
         else if t \<in> {RUN_COMPLETED, LLM_FINAL_RESPONSE} then Inr COMPLETED
         else if t = RUN_FAILED then Inr FAILED
         else if t = RUN_HALTED then Inr HALTED
         else if t = TASK_END then
           (if dget p ''status'' (PStr ''SUCCESS'') = PStr ''SUCCESS'' then Inr COMPLETED else Inr FAILED)
         else if s = PENDING then
           (if t \<in> {TASK_START, RUN_STARTED} then Inr RUNNING
            else if t \<in> {TOOL_CALL_CREATED, TOOL_ATTEMPT_STARTED} then Inr TOOL_EXECUTING
            else illegal)
         else if s = RUNNING then
           (if t \<in> {TASK_START, RUN_STARTED, RETRY_SCHEDULED} then Inr RUNNING
            else if t = LLM_REQUESTED then Inr LLM_WAITING
            else if t \<in> {TOOL_CALL_CREATED, TOOL_ATTEMPT_STARTED} then Inr TOOL_EXECUTING
            else illegal)
         else if s = LLM_WAITING then
           (if t = LLM_REQUESTED then Inr LLM_WAITING
            else if t = LLM_RESPONDED then
              (let has_tools = truthy (dget p ''tool_calls'' PNone)
               in bind_result (py_positive (dget p ''num_tool_calls'' (PInt 0)))
                    (\<lambda>b. Inr (if b \<or> has_tools then TOOL_EXECUTING else COMPLETED)))
            else if t \<in> {TOOL_CALL_CREATED, TOOL_ATTEMPT_STARTED} then Inr TOOL_EXECUTING
            else if t = LLM_FINAL_RESPONSE then Inr COMPLETED
            else illegal)
         else if s = TOOL_EXECUTING then
           (if t \<in> {TOOL_CALL_CREATED, TOOL_ATTEMPT_STARTED, TOOL_ATTEMPT_ENDED, RETRY_SCHEDULED,
                    TOOL_CALL_REJECTED} then Inr TOOL_EXECUTING
            else if t = TOOL_RESULT_RECEIVED then
              Inr (if truthy (dget p ''iteration_complete'' (PBool True))
                   then LLM_WAITING else TOOL_EXECUTING)
            else illegal)
         else illegal)"

text \<open>The state after a whole list of events of one run.\<close>

definition run_transitions :: "checkpoint_event list \<Rightarrow> run_state \<Rightarrow> exn + run_state" where
  "run_transitions evs s = fold_result (\<lambda>e s. validate_state_transition s e) evs s"

lemma run_transitions_simps [simp]:
  "run_transitions [] s = Inr s"
  "run_transitions (e # es) s = bind_result (validate_state_transition s e) (run_transitions es)"
  by (auto simp: run_transitions_def bind_result_def split: sum.splits)

lemma run_transitions_append_Inr:
  "run_transitions (xs @ ys) s = Inr t \<longleftrightarrow>
     (\<exists>u. run_transitions xs s = Inr u \<and> run_transitions ys u = Inr t)"
  unfolding run_transitions_def by (rule fold_result_append_Inr)

lemma terminal_transition:
  "is_terminal s \<Longrightarrow> validate_state_transition s e = Inr s' \<Longrightarrow> s' = s"
  by (auto simp: is_terminal_def validate_state_transition_def Let_def split: if_splits)

lemma terminal_transitions:
  "is_terminal s \<Longrightarrow> run_transitions evs s = Inr s' \<Longrightarrow> s' = s"
  unfolding run_transitions_def
  by (rule fold_result_invariant [where P = "\<lambda>u. u = s"]) (auto dest: terminal_transition)

text \<open>Steps of the state machine as a relation, and what a run can reach.\<close>

inductive run_step :: "run_state \<Rightarrow> event_type \<Rightarrow> run_state \<Rightarrow> bool" where
  run_step: "validate_state_transition s e = Inr s' \<Longrightarrow> run_step s (ev_type e) s'"

inductive run_path :: "run_state \<Rightarrow> event_type list \<Rightarrow> run_state \<Rightarrow> bool" where
  path_nil: "run_path s [] s"
| path_snoc: "run_path s ts u \<Longrightarrow> run_step u t v \<Longrightarrow> run_path s (ts @ [t]) v"

inductive_cases run_stepE: "run_step s t s'"

lemma run_step_responded: "run_step s LLM_RESPONDED s' \<Longrightarrow> s = LLM_WAITING"
  by (erule run_stepE) (cases s; auto simp: validate_state_transition_def Let_def split: if_splits)

lemma run_step_result:
  "run_step s TOOL_RESULT_RECEIVED s' \<Longrightarrow> s = TOOL_EXECUTING \<and> s' \<in> {LLM_WAITING, TOOL_EXECUTING}"
  by (erule run_stepE) (cases s; auto simp: validate_state_transition_def Let_def split: if_splits)

lemma run_transitions_path:
  "run_transitions evs s = Inr s' \<Longrightarrow> run_path s (map ev_type evs) s'"
proof (induction evs arbitrary: s' rule: rev_induct)
  case Nil
  then show ?case by (auto intro: run_path.intros)
next
  case (snoc e evs)
  then obtain u where "run_transitions evs s = Inr u" "validate_state_transition u e = Inr s'"
    by (auto simp: run_transitions_append_Inr bind_result_Inr_iff)
  with snoc.IH show ?case
    by (auto intro: run_path.path_snoc run_step.run_step)
qed

end
