(* ===== verification/Retry_Policy.thy ===== *)
theory Retry_Policy
  imports Checkpoint_Contract
begin

text \<open>
  \<open>src/core/retry_policy.py\<close>: the pure retry decision (\<open>RetryPolicyEngine\<close>) and the classification
  of failures (\<open>FailureClassifier\<close>).
\<close>

datatype retry_operation = OP_LLM | OP_TOOL

datatype retry_reason =
    RETRYABLE_TRANSIENT | RETRYABLE_RATE_LIMIT | RETRYABLE_PROVIDER_UNAVAILABLE | RETRYABLE_TIMEOUT
  | NON_RETRYABLE | MAX_ATTEMPTS_EXCEEDED | CANCELLED | TERMINAL_STATE | CORRUPTION

fun retry_reason_value :: "retry_reason \<Rightarrow> string" where
  "retry_reason_value RETRYABLE_TRANSIENT = ''RETRYABLE_TRANSIENT''"
| "retry_reason_value RETRYABLE_RATE_LIMIT = ''RETRYABLE_RATE_LIMIT''"
| "retry_reason_value RETRYABLE_PROVIDER_UNAVAILABLE = ''RETRYABLE_PROVIDER_UNAVAILABLE''"
| "retry_reason_value RETRYABLE_TIMEOUT = ''RETRYABLE_TIMEOUT''"
| "retry_reason_value NON_RETRYABLE = ''NON_RETRYABLE''"
| "retry_reason_value MAX_ATTEMPTS_EXCEEDED = ''MAX_ATTEMPTS_EXCEEDED''"
| "retry_reason_value CANCELLED = ''CANCELLED''"
| "retry_reason_value TERMINAL_STATE = ''TERMINAL_STATE''"
| "retry_reason_value CORRUPTION = ''CORRUPTION''"

fun failure_domain_value :: "failure_domain \<Rightarrow> string" where
  "failure_domain_value USER_APP = ''USER_APP''"
| "failure_domain_value LLM_PROVIDER = ''LLM_PROVIDER''"
| "failure_domain_value TOOL_EXECUTION = ''TOOL_EXECUTION''"
| "failure_domain_value CHECKPOINT_STORE = ''CHECKPOINT_STORE''"
| "failure_domain_value CORRUPTION_INTEGRITY = ''CORRUPTION_INTEGRITY''"
| "failure_domain_value PROCESS_CRASH = ''PROCESS_CRASH''"

record retry_context =
  rc_operation :: retry_operation
  rc_attempt :: int
  rc_max_attempts :: int
  rc_failure_domain :: failure_domain
  rc_error_code :: pyval
  rc_transient :: bool
  rc_cancelled :: bool
  rc_run_state :: run_state

record retry_decision =
  rd_should_retry :: bool
  rd_delay_seconds :: pyfloat
  rd_next_attempt :: int
  rd_reason :: retry_reason
  rd_failure_domain :: failure_domain

section \<open>Backoff\<close>

text \<open>\<open>x * i\<close> for a float and an integer: the integer is converted first and may overflow.\<close>

definition fmul_int :: "pyfloat \<Rightarrow> int \<Rightarrow> exn + pyfloat" where
  "fmul_int x i = (case float_of_int i of None \<Rightarrow> Inl OverflowError | Some y \<Rightarrow> Inr (fmul x y))"

definition calculate_backoff :: "int \<Rightarrow> pyfloat \<Rightarrow> pyfloat \<Rightarrow> exn + pyfloat" where
  "calculate_backoff attempt base_delay max_delay =
     (let attempt = (if attempt < 1 then 1 else attempt)
      in bind_result (fmul_int base_delay (2 ^ nat (attempt - 1)))
           (\<lambda>raw. Inr (fmin raw max_delay)))"

section \<open>The decision\<close>

definition stop_decision :: "retry_context \<Rightarrow> retry_reason \<Rightarrow> retry_decision" where
  "stop_decision ctx why =
     \<lparr>rd_should_retry = False, rd_delay_seconds = Fin 0, rd_next_attempt = rc_attempt ctx,
      rd_reason = why, rd_failure_domain = rc_failure_domain ctx\<rparr>"

definition retry_reason_of_code :: "string \<Rightarrow> retry_reason" where
  "retry_reason_of_code code =
     (let c = upper code
      in if substr ''RATE_LIMIT'' c \<or> substr ''429'' c then RETRYABLE_RATE_LIMIT
         else if substr ''UNAVAILABLE'' c \<or> substr ''503'' c then RETRYABLE_PROVIDER_UNAVAILABLE
         else if substr ''TIMEOUT'' c \<or> substr ''TIMED_OUT'' c then RETRYABLE_TIMEOUT
         else RETRYABLE_TRANSIENT)"

definition retry_decide :: "retry_context \<Rightarrow> pyfloat \<Rightarrow> pyfloat \<Rightarrow> exn + retry_decision" where
  "retry_decide ctx base_delay max_delay =
     (if rc_failure_domain ctx = CORRUPTION_INTEGRITY then Inr (stop_decision ctx CORRUPTION)
      else if rc_failure_domain ctx = CHECKPOINT_STORE then Inr (stop_decision ctx NON_RETRYABLE)
      else if rc_cancelled ctx then Inr (stop_decision ctx CANCELLED)
      else if rc_run_state ctx \<in> {HALTED, FAILED, COMPLETED} then Inr (stop_decision ctx TERMINAL_STATE)
      else if rc_attempt ctx \<ge> rc_max_attempts ctx then Inr (stop_decision ctx MAX_ATTEMPTS_EXCEEDED)
      else if \<not> rc_transient ctx then Inr (stop_decision ctx NON_RETRYABLE)
      else
        bind_result (calculate_backoff (rc_attempt ctx) base_delay max_delay) (\<lambda>delay.
          case rc_error_code ctx of
            PStr code \<Rightarrow>
              Inr \<lparr>rd_should_retry = True, rd_delay_seconds = delay,
                   rd_next_attempt = rc_attempt ctx + 1, rd_reason = retry_reason_of_code code,
                   rd_failure_domain = rc_failure_domain ctx\<rparr>
          | _ \<Rightarrow> Inl AttributeError))"

section \<open>Classification\<close>

fun exn_type_name :: "exn \<Rightarrow> string" where
  "exn_type_name (AgentException _) = ''AgentException''"
| "exn_type_name (RecoveryStateError _) = ''RecoveryStateError''"
| "exn_type_name (SystemStateError _ _) = ''SystemStateError''"
| "exn_type_name (CheckpointCorruptionError _ _ _) = ''CheckpointCorruptionError''"
| "exn_type_name (CheckpointStateError _ _ _) = ''CheckpointStateError''"
| "exn_type_name (IdempotencyOwnershipError _ _ _) = ''IdempotencyOwnershipError''"
| "exn_type_name (IdempotencyStateError _ _ _) = ''IdempotencyStateError''"
| "exn_type_name (IdempotencyCorruptionError _ _) = ''IdempotencyCorruptionError''"
| "exn_type_name (TypeError _) = ''TypeError''"
| "exn_type_name (ValueError _) = ''ValueError''"
| "exn_type_name (KeyError _) = ''KeyError''"
| "exn_type_name AttributeError = ''AttributeError''"
| "exn_type_name OverflowError = ''OverflowError''"
| "exn_type_name (OSError _) = ''OSError''"
| "exn_type_name FileNotFoundError = ''FileNotFoundError''"
| "exn_type_name TimeoutError = ''TimeoutError''"
| "exn_type_name (RuntimeError _) = ''RuntimeError''"
| "exn_type_name (OtherError n _ _) = n"
| "exn_type_name CancelledError = ''CancelledError''"

text \<open>\<open>getattr(error, "retryable", False)\<close> and \<open>getattr(error, "code", type(error).__name__)\<close>.\<close>

fun exn_retryable :: "exn \<Rightarrow> pyval" where
  "exn_retryable (OtherError _ (Some r) _) = r"
| "exn_retryable _ = PBool False"

fun exn_code :: "exn \<Rightarrow> pyval" where
  "exn_code (OtherError _ _ (Some c)) = c"
| "exn_code e = PStr (exn_type_name e)"

definition classify :: "exn option \<Rightarrow> retry_operation \<Rightarrow> failure_domain \<times> bool \<times> pyval" where
  "classify err op =
     (let default_domain = (if op = OP_TOOL then TOOL_EXECUTION else LLM_PROVIDER)
      in case err of
           None \<Rightarrow> (default_domain, False, PStr ''UNKNOWN'')
         | Some e \<Rightarrow>
             if is_checkpoint_error e then (CORRUPTION_INTEGRITY, False, PStr (exn_type_name e))
             else if is_system_state_error e then (CHECKPOINT_STORE, False, PStr ''SYSTEM_STATE_ERROR'')
             else (case as_agent_exception e of
                     Some a \<Rightarrow> (default_domain, truthy (ae_retryable a), ae_code a)
                   | None \<Rightarrow>
                       if e = TimeoutError then (default_domain, True, PStr ''TIMEOUT'')
                       else (default_domain, truthy (exn_retryable e), exn_code e)))"

section \<open>Facts\<close>

text \<open>When the engine asks for a retry: every one of the six vetoes is absent, and conversely.\<close>

lemma decide_retry_iff:
  "(\<exists>d. retry_decide ctx b m = Inr d \<and> rd_should_retry d) \<longleftrightarrow>
     rc_failure_domain ctx \<notin> {CORRUPTION_INTEGRITY, CHECKPOINT_STORE} \<and> \<not> rc_cancelled ctx \<and>
     \<not> is_terminal (rc_run_state ctx) \<and> rc_attempt ctx < rc_max_attempts ctx \<and> rc_transient ctx \<and>
     (\<exists>x. calculate_backoff (rc_attempt ctx) b m = Inr x) \<and> (\<exists>c. rc_error_code ctx = PStr c)"
  by (cases "rc_error_code ctx")
    (auto simp: retry_decide_def stop_decision_def is_terminal_def bind_result_Inr_iff not_le
           split: if_splits)

lemma decide_retry:
  assumes "retry_decide ctx b m = Inr d" "rd_should_retry d"
  shows "rd_next_attempt d = rc_attempt ctx + 1" and "rc_attempt ctx < rc_max_attempts ctx"
  using assms
  by (cases "rc_error_code ctx";
      auto simp: retry_decide_def stop_decision_def bind_result_Inr_iff not_le split: if_splits)+

text \<open>A stop names the first veto, in the documented order of precedence.\<close>

lemma decide_stop_reason:
  assumes "retry_decide ctx b m = Inr d" "\<not> rd_should_retry d"
  shows "rd_reason d =
    (if rc_failure_domain ctx = CORRUPTION_INTEGRITY then CORRUPTION
     else if rc_failure_domain ctx = CHECKPOINT_STORE then NON_RETRYABLE
     else if rc_cancelled ctx then CANCELLED
     else if is_terminal (rc_run_state ctx) then TERMINAL_STATE
     else if rc_max_attempts ctx \<le> rc_attempt ctx then MAX_ATTEMPTS_EXCEEDED
     else NON_RETRYABLE)"
    and "rd_next_attempt d = rc_attempt ctx" and "rd_delay_seconds d = Fin 0"
  using assms
  by (cases "rc_error_code ctx";
      auto simp: retry_decide_def stop_decision_def is_terminal_def bind_result_Inr_iff
           split: if_splits)+

text \<open>Integrity and persistence failures are never retried, whatever else the context says.\<close>

lemma classify_never_retried:
  assumes "is_checkpoint_error e \<or> is_system_state_error e" "classify (Some e) op = (fd, tr, code)"
    and "rc_failure_domain ctx = fd"
  shows "\<exists>d. retry_decide ctx b m = Inr d \<and> \<not> rd_should_retry d"
  using assms by (cases e) (auto simp: classify_def retry_decide_def stop_decision_def Let_def)

subsection \<open>Backoff is exact doubling up to the cap\<close>

lemma is_double_pos_scaled:
  assumes "is_double b" "0 < b"
  obtains n e where "b = of_int n * 2 powi e" "n \<le> 2 ^ 53" "- 1074 \<le> e"
proof -
  define e where "e = max (bin_exponent b) (- 1022) - 52"
  define n where "n = round_half_even (b / 2 powi e)"
  have b: "b = of_int n * 2 powi e"
    using assms by (auto simp: is_double_def to_double_def Let_def n_def e_def split: if_splits)
  have "b < 2 powi (bin_exponent b + 1)" by (rule bin_exponent_bounds(2) [OF assms(2)])
  also have "\<dots> \<le> 2 powi (e + 53)" by (intro power_int_increasing) (auto simp: e_def)
  finally have "b / 2 powi e \<le> of_int (2 ^ 53)"
    using power_int_nat_shift [of 53 e] by (simp add: pos_divide_le_eq)
  then have "n \<le> 2 ^ 53" unfolding n_def by (rule round_half_even_le)
  then show thesis using b by (intro that [of n e]) (auto simp: e_def)
qed

lemma is_double_shift:
  assumes "is_double b" "0 < b" "b * 2 ^ k < 2 ^ 1024"
  shows "is_double (b * 2 ^ k)"
proof -
  obtain n e where ne: "b = of_int n * 2 powi e" "n \<le> 2 ^ 53" "- 1074 \<le> e"
    by (rule is_double_pos_scaled [OF assms(1,2)])
  have "b * 2 ^ k = of_int n * 2 powi (e + int k)" by (simp add: ne power_int_add)
  then show ?thesis using ne assms by (intro is_double_scaled [of _ n "e + int k"]) auto
qed

lemma is_double_one: "is_double 1"
  using is_double_scaled [of 1 1 0] by simp

lemma float_of_int_power:
  assumes "k < 1024"
  shows "float_of_int (2 ^ k) = Some (Fin (2 ^ k))"
proof -
  have "(1::rat) * 2 ^ k < 2 ^ 1024"
    using power_strict_increasing [OF assms, of "2::rat"] by (simp only: mult_1_left one_less_numeral_iff) simp
  then have "is_double (1 * 2 ^ k)" by (intro is_double_shift is_double_one) auto
  then show ?thesis by (simp add: float_of_int_def is_double_def)
qed

lemma calculate_backoff_exact:
  assumes b: "is_double b" "0 < b" and k: "k < 1024" "b * 2 ^ k < 2 ^ 1024"
  shows "calculate_backoff (int k + 1) (Fin b) m = Inr (fmin (Fin (b * 2 ^ k)) m)"
proof -
  have "to_double (b * 2 ^ k) = Fin (b * 2 ^ k)"
    using is_double_shift [OF b k(2)] by (simp add: is_double_def)
  then show ?thesis using float_of_int_power [OF k(1)]
    by (simp add: calculate_backoff_def fmul_int_def)
qed

lemma calculate_backoff_capped:
  "calculate_backoff a b m = Inr x \<Longrightarrow> \<not> flt m x"
  by (auto simp: calculate_backoff_def bind_result_Inr_iff fmin_def Let_def split: if_splits)

end
