(* ===== verification/Retry.thy ===== *)
theory Retry
  imports Retry_Policy
begin

text \<open>
  \<open>src/core/retry.py\<close>: the delay of \<open>RetryPolicy.get_delay\<close> and the loop of
  \<open>RetryManager.execute_with_retry\<close>.

  The operation, the four callbacks, \<open>random.random\<close> and \<open>asyncio.sleep\<close> are the fields of a record
  \<open>'s retry_env\<close>, functions on a state \<open>'s\<close> that may raise; so is \<open>str(e)\<close> of an exception and
  \<open>float(s)\<close> of a string. A cancelled \<open>await\<close> is the exception \<open>CancelledError\<close>, which no handler of
  the loop catches.
\<close>

record retry_policy =
  rp_max_attempts :: int
  rp_base_delay :: pyfloat
  rp_max_delay :: pyfloat
  rp_jitter :: bool

datatype op_result = TR tool_result | OtherResult pyval

type_synonym ('s, 'a) op = "'s \<Rightarrow> (exn + 'a) \<times> 's"

record 's retry_env =
  re_operation :: "('s, op_result) op"
  re_on_attempt_start :: "(int \<Rightarrow> ('s, unit) op) option"
  re_on_attempt_complete :: "(int \<Rightarrow> string \<Rightarrow> pyval \<Rightarrow> ('s, unit) op) option"
  re_on_retry_scheduled :: "(int \<Rightarrow> int \<Rightarrow> pyfloat \<Rightarrow> string \<Rightarrow> string \<Rightarrow> ('s, unit) op) option"
  re_before_retry_attempt :: "(int \<Rightarrow> ('s, bool) op) option"
  re_random :: "'s \<Rightarrow> pyfloat \<times> 's"
  re_sleep :: "pyfloat \<Rightarrow> ('s, unit) op"
  re_str_exn :: "exn \<Rightarrow> string"
  re_parse_float :: "string \<Rightarrow> pyfloat option"

section \<open>The delay\<close>

definition power_of_two_times :: "pyfloat \<Rightarrow> int \<Rightarrow> exn + pyfloat" where
  "power_of_two_times b k =
     (if 0 \<le> k then fmul_int b (2 ^ nat k) else Inr (fmul b (to_double (2 powi k))))"

text \<open>
  \<open>get_delay\<close>: the \<open>retry_after\<close> of a rate limit wins; otherwise exponential backoff under the cap,
  with jitter. The result also says whether a random number was drawn.
\<close>

definition retry_after_of :: "agent_exception option \<Rightarrow> exn + pyval" where
  "retry_after_of err =
     (case err of
        None \<Rightarrow> Inr PNone
      | Some a \<Rightarrow>
          if ae_code a \<in> {PStr ''RATE_LIMIT'', PStr ''RATE_LIMIT_ERROR''} \<and> truthy (ae_details a)
          then (case ae_details a of PDict d \<Rightarrow> Inr (dget d ''retry_after'' PNone)
                | _ \<Rightarrow> Inl AttributeError)
          else Inr PNone)"

definition get_delay ::
  "'s retry_env \<Rightarrow> retry_policy \<Rightarrow> int \<Rightarrow> agent_exception option \<Rightarrow> ('s, pyfloat) op" where
  "get_delay env pol attempt err s =
     (case retry_after_of err of
        Inl x \<Rightarrow> (Inl x, s)
      | Inr ra \<Rightarrow>
          if truthy ra then (py_float (re_parse_float env) ra, s)
          else (case power_of_two_times (rp_base_delay pol) (attempt - 1) of
                  Inl x \<Rightarrow> (Inl x, s)
                | Inr raw \<Rightarrow>
                    (let delay = fmin (rp_max_delay pol) raw
                     in if rp_jitter pol
                        then (let (r, s) = re_random env s
                              in (Inr (fmul delay (fadd (flit (1 / 2)) r)), s))
                        else (Inr delay, s))))"

section \<open>One attempt\<close>

text \<open>
  The \<open>try\<close> statement of the loop body: either the loop returns a result, or \<open>current_result\<close>,
  \<open>current_exception\<close> and \<open>target_err\<close> are set, or an exception leaves the loop.
\<close>

datatype attempt_outcome =
    Returned op_result
  | Failed "tool_result option" "exn option" "exn option"

definition call_complete ::
  "'s retry_env \<Rightarrow> int \<Rightarrow> string \<Rightarrow> pyval \<Rightarrow> ('s, unit) op" where
  "call_complete env attempt status err s =
     (case re_on_attempt_complete env of None \<Rightarrow> (Inr (), s) | Some f \<Rightarrow> f attempt status err s)"

definition failure_status :: "tool_result \<Rightarrow> string" where
  "failure_status r =
     (case tr_error r of
        Some a \<Rightarrow> if truthy (ae_retryable a) then ''FAILURE'' else ''FATAL_FAILURE''
      | None \<Rightarrow> ''FATAL_FAILURE'')"

definition failure_message :: "tool_result \<Rightarrow> pyval" where
  "failure_message r =
     (case tr_error r of Some a \<Rightarrow> ae_message a | None \<Rightarrow> PStr ''Unknown tool failure'')"

text \<open>The two \<open>except\<close> clauses; the callback they make may raise again, which nothing catches.\<close>

definition handle_exception ::
  "'s retry_env \<Rightarrow> int \<Rightarrow> tool_result option \<Rightarrow> exn \<Rightarrow> ('s, attempt_outcome) op" where
  "handle_exception env attempt cur e s =
     (if \<not> is_exception e then (Inl e, s)
      else
        bind_op
          (case as_agent_exception e of
             Some a \<Rightarrow>
               call_complete env attempt
                 (if truthy (ae_retryable a) then ''EXCEPTION'' else ''FATAL_EXCEPTION'') (ae_message a)
           | None \<Rightarrow> call_complete env attempt ''UNEXPECTED_EXCEPTION'' (PStr (re_str_exn env e)))
          (\<lambda>_ s. (Inr (Failed cur (Some e) (Some e)), s)) s)"

definition try_operation :: "'s retry_env \<Rightarrow> int \<Rightarrow> ('s, attempt_outcome) op" where
  "try_operation env attempt s =
     (case re_operation env s of
        (Inl e, s1) \<Rightarrow> handle_exception env attempt None e s1
      | (Inr (TR r), s1) \<Rightarrow>
          if tr_status r = T_FAILURE then
            (case call_complete env attempt (failure_status r) (failure_message r) s1 of
               (Inl e, s2) \<Rightarrow> handle_exception env attempt (Some r) e s2
             | (Inr _, s2) \<Rightarrow>
                 (Inr (Failed (Some r) None (map_option AgentException (tr_error r))), s2))
          else
            (case call_complete env attempt (tool_status_value (tr_status r)) PNone s1 of
               (Inl e, s2) \<Rightarrow> handle_exception env attempt None e s2
             | (Inr _, s2) \<Rightarrow> (Inr (Returned (TR r)), s2))
      | (Inr (OtherResult v), s1) \<Rightarrow>
          (case call_complete env attempt ''SUCCESS'' PNone s1 of
             (Inl e, s2) \<Rightarrow> handle_exception env attempt None e s2
           | (Inr _, s2) \<Rightarrow> (Inr (Returned (OtherResult v)), s2)))"

section \<open>The loop\<close>

datatype step_result = Stop "exn + op_result option" | Continue int

text \<open>Giving up: the exception of the last attempt, else its failed result, else a \<open>RuntimeError\<close>.\<close>

definition give_up :: "tool_result option \<Rightarrow> exn option \<Rightarrow> string \<Rightarrow> step_result" where
  "give_up cur exc msg =
     Stop (case exc of
             Some e \<Rightarrow> Inl e
           | None \<Rightarrow> (case cur of Some r \<Rightarrow> Inr (Some (TR r)) | None \<Rightarrow> Inl (RuntimeError msg)))"

definition call_scheduled ::
  "'s retry_env \<Rightarrow> int \<Rightarrow> retry_decision \<Rightarrow> pyfloat \<Rightarrow> failure_domain \<Rightarrow> ('s, unit) op" where
  "call_scheduled env attempt d delay fd s =
     (case re_on_retry_scheduled env of
        None \<Rightarrow> (Inr (), s)
      | Some f \<Rightarrow>
          f attempt (rd_next_attempt d) delay (retry_reason_value (rd_reason d))
            (failure_domain_value fd) s)"

definition call_before_retry :: "'s retry_env \<Rightarrow> int \<Rightarrow> ('s, bool) op" where
  "call_before_retry env n s =
     (case re_before_retry_attempt env of None \<Rightarrow> (Inr True, s) | Some f \<Rightarrow> f n s)"

text \<open>What follows a failed attempt: classify, decide, wait, ask the guard.\<close>

definition after_failure ::
  "'s retry_env \<Rightarrow> retry_policy \<Rightarrow> int \<Rightarrow> tool_result option \<Rightarrow> exn option \<Rightarrow> exn option
     \<Rightarrow> 's \<Rightarrow> step_result \<times> 's" where
  "after_failure env pol attempt cur exc target s =
     (let (fd, transient, code) = classify target OP_TOOL;
          ctx = \<lparr>rc_operation = OP_TOOL, rc_attempt = attempt, rc_max_attempts = rp_max_attempts pol,
                 rc_failure_domain = fd, rc_error_code = code, rc_transient = transient,
                 rc_cancelled = False, rc_run_state = RUNNING\<rparr>
      in case retry_decide ctx (rp_base_delay pol) (rp_max_delay pol) of
           Inl x \<Rightarrow> (Stop (Inl x), s)
         | Inr d \<Rightarrow>
             if \<not> rd_should_retry d
             then (give_up cur exc ''Retry stopped by RetryPolicyEngine.'', s)
             else
               (case bind_op
                       (get_delay env pol attempt
                          (case target of Some e \<Rightarrow> as_agent_exception e | None \<Rightarrow> None))
                       (\<lambda>delay. bind_op (call_scheduled env attempt d delay fd)
                         (\<lambda>_. bind_op (re_sleep env delay)
                           (\<lambda>_. call_before_retry env (rd_next_attempt d)))) s of
                  (Inl x, s') \<Rightarrow> (Stop (Inl x), s')
                | (Inr go, s') \<Rightarrow>
                    if go then (Continue (rd_next_attempt d), s')
                    else (give_up cur exc ''Retry stopped by cancellation or terminal run state.'', s')))"

definition retry_iteration :: "'s retry_env \<Rightarrow> retry_policy \<Rightarrow> int \<Rightarrow> 's \<Rightarrow> step_result \<times> 's" where
  "retry_iteration env pol attempt s =
     (case bind_op
             (case re_on_attempt_start env of None \<Rightarrow> (\<lambda>s. (Inr (), s)) | Some f \<Rightarrow> f attempt)
             (\<lambda>_. try_operation env attempt) s of
        (Inl x, s') \<Rightarrow> (Stop (Inl x), s')
      | (Inr (Returned r), s') \<Rightarrow> (Stop (Inr (Some r)), s')
      | (Inr (Failed cur exc target), s') \<Rightarrow> after_failure env pol attempt cur exc target s')"

lemma retry_iteration_continue:
  assumes "retry_iteration env pol a s = (Continue n, s')"
  shows "n = a + 1" and "a < rp_max_attempts pol"
proof -
  have "n = a + 1 \<and> a < rp_max_attempts pol"
    using assms
    by (auto simp: retry_iteration_def after_failure_def give_up_def Let_def
             split: sum.splits prod.splits attempt_outcome.splits if_splits
             dest: decide_retry)
  then show "n = a + 1" "a < rp_max_attempts pol" by auto
qed

text \<open>The \<open>while\<close> loop; it falls through with \<open>None\<close> when no attempt is allowed at all.\<close>

function retry_loop ::
  "'s retry_env \<Rightarrow> retry_policy \<Rightarrow> int \<Rightarrow> 's \<Rightarrow> (exn + op_result option) \<times> 's" where
  "retry_loop env pol attempt s =
     (if attempt \<le> rp_max_attempts pol
      then (case retry_iteration env pol attempt s of
              (Stop r, s') \<Rightarrow> (r, s')
            | (Continue n, s') \<Rightarrow> retry_loop env pol n s')
      else (Inr None, s))"
  by pat_completeness auto
termination
proof (relation "measure (\<lambda>(env, pol, a, s). nat (rp_max_attempts pol + 1 - a))", goal_cases)
  case 1
  show ?case by simp
next
  case (2 env pol a s x y n)
  then have "retry_iteration env pol a s = (Continue n, y)" by simp
  with 2 retry_iteration_continue [OF this] show ?case by simp
qed

declare retry_loop.simps [simp del]

definition execute_with_retry ::
  "'s retry_env \<Rightarrow> retry_policy \<Rightarrow> ('s, op_result option) op" where
  "execute_with_retry env pol s = retry_loop env pol 1 s"

section \<open>Facts\<close>

text \<open>
  How often the operation can run: \<open>cnt\<close> counts its calls in the state. The callbacks, the random
  source and \<open>sleep\<close> leave the count alone and one call of the operation adds at most one.
\<close>

definition keeps :: "('s \<Rightarrow> nat) \<Rightarrow> ('s, 'a) op \<Rightarrow> bool" where
  "keeps cnt f \<longleftrightarrow> (\<forall>s. cnt (snd (f s)) = cnt s)"

definition hooks_keep :: "('s \<Rightarrow> nat) \<Rightarrow> 's retry_env \<Rightarrow> bool" where
  "hooks_keep cnt env \<longleftrightarrow>
     (\<forall>f a. re_on_attempt_start env = Some f \<longrightarrow> keeps cnt (f a)) \<and>
     (\<forall>f a st v. re_on_attempt_complete env = Some f \<longrightarrow> keeps cnt (f a st v)) \<and>
     (\<forall>f a n d r x. re_on_retry_scheduled env = Some f \<longrightarrow> keeps cnt (f a n d r x)) \<and>
     (\<forall>f n. re_before_retry_attempt env = Some f \<longrightarrow> keeps cnt (f n)) \<and>
     (\<forall>s. cnt (snd (re_random env s)) = cnt s) \<and>
     (\<forall>d. keeps cnt (re_sleep env d))"

named_theorems keeps_intros

lemma keeps_bind [keeps_intros]:
  "keeps cnt m \<Longrightarrow> (\<And>x. keeps cnt (f x)) \<Longrightarrow> keeps cnt (bind_op m f)"
  by (auto simp: keeps_def bind_op_def split: prod.splits sum.splits) (metis snd_conv)+

lemma keeps_return [keeps_intros]: "keeps cnt (\<lambda>s. (r, s))"
  by (simp add: keeps_def)

lemma keeps_call_complete [keeps_intros]:
  "hooks_keep cnt env \<Longrightarrow> keeps cnt (call_complete env a st v)"
  by (auto simp: keeps_def hooks_keep_def call_complete_def split: option.splits)

lemma keeps_call_scheduled [keeps_intros]:
  "hooks_keep cnt env \<Longrightarrow> keeps cnt (call_scheduled env a d x fd)"
  by (auto simp: keeps_def hooks_keep_def call_scheduled_def split: option.splits)

lemma keeps_call_before_retry [keeps_intros]:
  "hooks_keep cnt env \<Longrightarrow> keeps cnt (call_before_retry env n)"
  by (auto simp: keeps_def hooks_keep_def call_before_retry_def split: option.splits)

lemma keeps_sleep [keeps_intros]: "hooks_keep cnt env \<Longrightarrow> keeps cnt (re_sleep env d)"
  by (auto simp: hooks_keep_def)

lemma keeps_get_delay [keeps_intros]: "hooks_keep cnt env \<Longrightarrow> keeps cnt (get_delay env pol a err)"
  by (auto simp: keeps_def hooks_keep_def get_delay_def Let_def split: sum.splits prod.splits)
    (metis snd_conv)

lemma keeps_handle_exception [keeps_intros]:
  assumes "hooks_keep cnt env"
  shows "keeps cnt (handle_exception env a cur e)"
proof -
  have "keeps cnt
    (bind_op
      (case as_agent_exception e of
         Some x \<Rightarrow>
           call_complete env a
             (if truthy (ae_retryable x) then ''EXCEPTION'' else ''FATAL_EXCEPTION'') (ae_message x)
       | None \<Rightarrow> call_complete env a ''UNEXPECTED_EXCEPTION'' (PStr (re_str_exn env e)))
      (\<lambda>_ s. (Inr (Failed cur (Some e) (Some e)), s)))"
    using assms by (intro keeps_bind) (auto intro!: keeps_intros split: option.splits)
  then show ?thesis by (auto simp: keeps_def handle_exception_def)
qed

lemma keeps_snd: "keeps cnt f \<Longrightarrow> f s = (r, s') \<Longrightarrow> cnt s' = cnt s"
  by (metis keeps_def snd_conv)

lemma try_operation_count:
  assumes "hooks_keep cnt env" "\<And>s. cnt (snd (re_operation env s)) \<le> Suc (cnt s)"
  shows "cnt (snd (try_operation env a s)) \<le> Suc (cnt s)"
proof -
  obtain r s1 where op: "re_operation env s = (r, s1)" by force
  have c: "cnt s1 \<le> Suc (cnt s)" using assms(2) [of s] op by simp
  have "cnt (snd (try_operation env a s)) = cnt s1"
    using op keeps_handle_exception [OF assms(1)] keeps_call_complete [OF assms(1)]
    by (auto simp: try_operation_def split: sum.splits op_result.splits prod.splits)
      (metis keeps_def keeps_snd snd_conv)+
  with c show ?thesis by simp
qed

lemma after_failure_keeps:
  assumes "hooks_keep cnt env"
  shows "cnt (snd (after_failure env pol a cur exc target s)) = cnt s"
proof -
  have "keeps cnt (bind_op (get_delay env pol a err)
          (\<lambda>delay. bind_op (call_scheduled env a d delay fd)
            (\<lambda>_. bind_op (re_sleep env delay) (\<lambda>_. call_before_retry env n))))" for err d fd n
    by (intro keeps_intros assms)
  from keeps_snd [OF this] show ?thesis
    by (auto simp: after_failure_def Let_def split: prod.splits sum.splits if_splits)
qed

lemma retry_iteration_count:
  assumes "hooks_keep cnt env" "\<And>s. cnt (snd (re_operation env s)) \<le> Suc (cnt s)"
  shows "cnt (snd (retry_iteration env pol a s)) \<le> Suc (cnt s)"
proof -
  define start where "start =
    (case re_on_attempt_start env of None \<Rightarrow> (\<lambda>s. (Inr (), s)) | Some f \<Rightarrow> f a)"
  have "keeps cnt start"
    using assms(1) by (auto simp: start_def hooks_keep_def keeps_def split: option.splits)
  then have b: "cnt (snd (bind_op start (\<lambda>_. try_operation env a) s)) \<le> Suc (cnt s)"
    using try_operation_count [of cnt env a "snd (start s)", OF assms]
    by (cases "start s"; cases "fst (start s)") (auto simp: keeps_def bind_op_def dest!: spec [of _ s])
  obtain r s' where eq: "bind_op start (\<lambda>_. try_operation env a) s = (r, s')" by force
  have "cnt (snd (retry_iteration env pol a s)) = cnt s'"
    using eq after_failure_keeps [OF assms(1)]
    by (simp add: retry_iteration_def start_def [symmetric] split: sum.split attempt_outcome.split)
  with b eq show ?thesis by simp
qed

lemma retry_loop_count:
  assumes "hooks_keep cnt env" "\<And>s. cnt (snd (re_operation env s)) \<le> Suc (cnt s)"
  shows "cnt (snd (retry_loop env pol a s)) \<le> cnt s + nat (rp_max_attempts pol + 1 - a)"
  using assms
proof (induction env pol a s rule: retry_loop.induct)
  case (1 env pol a s)
  obtain r s' where it: "retry_iteration env pol a s = (r, s')" by force
  have c: "cnt s' \<le> Suc (cnt s)" using retry_iteration_count [OF 1(2,3), of pol a s] it by simp
  show ?case
  proof (cases "a \<le> rp_max_attempts pol")
    case True
    show ?thesis
    proof (cases r)
      case (Stop x)
      with True it c show ?thesis by (simp add: retry_loop.simps [of env pol a s])
    next
      case (Continue n)
      with it have n: "n = a + 1" by (auto dest: retry_iteration_continue(1))
      have "cnt (snd (retry_loop env pol n s')) \<le> cnt s' + nat (rp_max_attempts pol + 1 - n)"
        using 1 True it Continue by simp
      with True it c n Continue show ?thesis by (simp add: retry_loop.simps [of env pol a s])
    qed
  qed (simp add: retry_loop.simps [of env pol a s])
qed

text \<open>One attempt decides when its error is an integrity or persistence error.\<close>

lemma after_failure_never_retried:
  assumes "is_checkpoint_error e \<or> is_system_state_error e"
  shows "after_failure env pol a cur (Some e) (Some e) s = (Stop (Inl e), s)"
  using assms
  by (cases e)
    (auto simp: after_failure_def classify_def retry_decide_def stop_decision_def give_up_def Let_def)

lemma handle_exception_no_callback:
  "is_exception e \<Longrightarrow> re_on_attempt_complete env = None \<Longrightarrow>
     handle_exception env a cur e s = (Inr (Failed cur (Some e) (Some e)), s)"
  by (auto simp: handle_exception_def call_complete_def bind_op_def split: option.splits)

end
