(* ===== verification/Jsonl_File.thy ===== *)
theory Jsonl_File
  imports Core_Types
begin

text \<open>
  The append-only JSON-lines files under the checkpoint log and the idempotency store.

  A file is what its readers see: one entry per line, which after \<open>line.strip()\<close> is blank, is
  rejected by \<open>json.loads\<close>, or decodes to a value (\<open>json.loads\<close> inverts \<open>json.dumps\<close> on the values
  of \<open>pyval\<close>; the order of the keys inside an object is not observed by any reader). The flag
  \<open>jl_open\<close> says that the last line has no newline yet, as a torn write leaves it: the next append
  then continues that line, and the text of an unfinished or finished JSON object followed by a
  second object is not JSON. \<open>None\<close> is a file that does not exist.

  \<open>append_outcome\<close> lists what \<open>open(path, "a")\<close>, \<open>write\<close>, \<open>flush\<close> and \<open>os.fsync\<close> can do: succeed, fail
  before or after creating the file, leave a strict prefix of the line, leave the whole line
  without its newline, or leave the whole line and fail to sync it.
\<close>

datatype line = Blank | Malformed | Json pyval

record jsonl =
  jl_lines :: "line list"
  jl_open :: bool

datatype append_outcome =
  Written | OpenFailed | Untouched | TornPrefix | NoNewline | WrittenUnsynced

definition file_lines :: "jsonl option \<Rightarrow> line list" where
  "file_lines f = (case f of None \<Rightarrow> [] | Some j \<Rightarrow> jl_lines j)"

text \<open>Adding the text of one line, with or without its newline.\<close>

definition add_text :: "line \<Rightarrow> bool \<Rightarrow> jsonl option \<Rightarrow> jsonl option" where
  "add_text l newline f =
     (case f of
        None \<Rightarrow> Some \<lparr>jl_lines = [l], jl_open = \<not> newline\<rparr>
      | Some j \<Rightarrow>
          if jl_open j \<and> jl_lines j \<noteq> [] \<and> last (jl_lines j) \<noteq> Blank
          then Some \<lparr>jl_lines = butlast (jl_lines j) @ [Malformed], jl_open = \<not> newline\<rparr>
          else if jl_open j \<and> jl_lines j \<noteq> []
          then Some \<lparr>jl_lines = butlast (jl_lines j) @ [l], jl_open = \<not> newline\<rparr>
          else Some \<lparr>jl_lines = jl_lines j @ [l], jl_open = \<not> newline\<rparr>)"

definition create_file :: "jsonl option \<Rightarrow> jsonl option" where
  "create_file f = (case f of None \<Rightarrow> Some \<lparr>jl_lines = [], jl_open = False\<rparr> | Some j \<Rightarrow> Some j)"

fun append_effect :: "append_outcome \<Rightarrow> pyval \<Rightarrow> jsonl option \<Rightarrow> jsonl option" where
  "append_effect Written v f = add_text (Json v) True f"
| "append_effect OpenFailed v f = f"
| "append_effect Untouched v f = create_file f"
| "append_effect TornPrefix v f = add_text Malformed False f"
| "append_effect NoNewline v f = add_text (Json v) False f"
| "append_effect WrittenUnsynced v f = add_text (Json v) True f"

text \<open>Outcomes that leave no torn line behind.\<close>

definition untorn :: "append_outcome \<Rightarrow> bool" where
  "untorn out \<longleftrightarrow> out \<noteq> TornPrefix \<and> out \<noteq> NoNewline"

definition closed_file :: "jsonl option \<Rightarrow> bool" where
  "closed_file f \<longleftrightarrow> (case f of None \<Rightarrow> True | Some j \<Rightarrow> \<not> jl_open j)"

lemma add_text_closed:
  "closed_file f \<Longrightarrow> add_text l nl f = Some \<lparr>jl_lines = file_lines f @ [l], jl_open = \<not> nl\<rparr>"
  by (auto simp: add_text_def closed_file_def file_lines_def split: option.splits)

lemma create_file_lines [simp]: "file_lines (create_file f) = file_lines f"
  by (simp add: create_file_def file_lines_def split: option.splits)

lemma create_file_closed [simp]: "closed_file (create_file f) = closed_file f"
  by (simp add: create_file_def closed_file_def split: option.splits)

lemma append_effect_untorn:
  assumes "closed_file f" "untorn out"
  shows "closed_file (append_effect out v f)"
    and "file_lines (append_effect out v f) =
      (if out = Written \<or> out = WrittenUnsynced then file_lines f @ [Json v] else file_lines f)"
proof -
  show "closed_file (append_effect out v f)"
    using assms by (cases out) (simp_all add: untorn_def add_text_closed, simp_all add: closed_file_def)
  show "file_lines (append_effect out v f) =
      (if out = Written \<or> out = WrittenUnsynced then file_lines f @ [Json v] else file_lines f)"
    using assms
    by (cases out) (simp_all add: untorn_def add_text_closed, simp_all add: file_lines_def)
qed

text \<open>
  After a write that was torn, the next line that is written is lost: it merges with the torn one
  into a line that no reader can decode.
\<close>

lemma append_after_torn:
  assumes "closed_file f"
  shows "file_lines (append_effect Written w (append_effect TornPrefix v f)) = file_lines f @ [Malformed]"
  using assms by (simp add: add_text_closed) (simp add: add_text_def file_lines_def)

end
