(* ===== verification/Checkpoint.thy ===== *)
theory Checkpoint
  imports Checkpoint_Contract Jsonl_File "HOL-Library.Sublist"
begin

text \<open>
  \<open>src/core/checkpoint.py\<close>: the \<open>CheckpointManager\<close>. Its state is the JSON-lines file and the three
  dictionaries that \<open>_reload_locked\<close> rebuilds from it. Everything \<open>log_event\<close> does happens while it
  holds the store lock, so one call is one atomic step on the file. \<open>cp_io\<close> carries the outcomes
  of the file operations a call makes and \<open>now\<close> the reading of \<open>time.time()\<close>.
\<close>

record checkpoint_manager =
  cm_file :: "jsonl option"
  cm_last_sequences :: "pyval \<rightharpoonup> int"
  cm_last_timestamps :: "pyval \<rightharpoonup> pyfloat"
  cm_last_states :: "pyval \<rightharpoonup> run_state"

record cp_io =
  io_lock :: bool
  io_read :: bool
  io_append :: append_outcome

definition io_fine :: cp_io where
  "io_fine = \<lparr>io_lock = True, io_read = True, io_append = Written\<rparr>"

definition get_or :: "('k \<rightharpoonup> 'v) \<Rightarrow> 'k \<Rightarrow> 'v \<Rightarrow> 'v" where
  "get_or m k d = (case m k of Some v \<Rightarrow> v | None \<Rightarrow> d)"

section \<open>Reloading\<close>

text \<open>
  One line of \<open>_reload_locked\<close>. Every exception inside the loop body is swallowed, so the body is a
  function; what was updated before the exception stays updated.
\<close>

definition reload_state :: "pydict \<Rightarrow> pyval \<Rightarrow> checkpoint_manager \<Rightarrow> checkpoint_manager" where
  "reload_state d rid cm =
     (case event_from_dict (PDict d) None of
        Inl _ \<Rightarrow> cm
      | Inr e \<Rightarrow>
          (let curr = get_or (cm_last_states cm) rid PENDING
           in if is_terminal curr then cm
              else (case validate_state_transition curr e of
                      Inl _ \<Rightarrow> cm
                    | Inr s \<Rightarrow> cm\<lparr>cm_last_states := (cm_last_states cm)(rid \<mapsto> s)\<rparr>)))"

definition reload_timestamp :: "pydict \<Rightarrow> pyval \<Rightarrow> pyval \<Rightarrow> checkpoint_manager \<Rightarrow> checkpoint_manager" where
  "reload_timestamp d rid ts cm =
     (if is_number ts
      then (if hashable rid
            then (case number_to_float ts of
                    None \<Rightarrow> cm
                  | Some f \<Rightarrow>
                      reload_state d rid
                        (cm\<lparr>cm_last_timestamps := (cm_last_timestamps cm)
                             (rid \<mapsto> fmax (get_or (cm_last_timestamps cm) rid (Fin 0)) f)\<rparr>))
            else cm)
      else reload_state d rid cm)"

definition reload_line :: "line \<Rightarrow> checkpoint_manager \<Rightarrow> checkpoint_manager" where
  "reload_line l cm =
     (case l of
        Json (PDict d) \<Rightarrow>
          if has_key d ''run_id'' \<and> has_key d ''sequence_id'' then
            (let rid = dget d ''run_id'' PNone; sq = dget d ''sequence_id'' PNone;
                 ts = dget d ''timestamp'' (PFloat (Fin 0))
             in case as_int sq of
                  Some n \<Rightarrow>
                    if hashable rid
                    then reload_timestamp d rid ts
                           (cm\<lparr>cm_last_sequences := (cm_last_sequences cm)
                                (rid \<mapsto> max (get_or (cm_last_sequences cm) rid 0) n)\<rparr>)
                    else cm
                | None \<Rightarrow> reload_timestamp d rid ts cm)
          else cm
      | _ \<Rightarrow> cm)"

definition clear_maps :: "checkpoint_manager \<Rightarrow> checkpoint_manager" where
  "clear_maps cm =
     cm\<lparr>cm_last_sequences := Map.empty, cm_last_timestamps := Map.empty, cm_last_states := Map.empty\<rparr>"

definition reload_locked :: "bool \<Rightarrow> checkpoint_manager \<Rightarrow> (exn + unit) \<times> checkpoint_manager" where
  "reload_locked read_ok cm =
     (case cm_file cm of
        None \<Rightarrow> (Inr (), clear_maps cm)
      | Some f \<Rightarrow>
          if read_ok then (Inr (), fold reload_line (jl_lines f) (clear_maps cm))
          else (Inl (SystemStateError ''Failed to reload checkpoints'' (Some (OSError ''read''))),
                clear_maps cm))"

text \<open>\<open>CheckpointManager.__init__\<close>\<close>

definition checkpoint_manager_init ::
  "cp_io \<Rightarrow> jsonl option \<Rightarrow> (exn + unit) \<times> checkpoint_manager" where
  "checkpoint_manager_init io f =
     (let cm = \<lparr>cm_file = f, cm_last_sequences = Map.empty, cm_last_timestamps = Map.empty,
                cm_last_states = Map.empty\<rparr>
      in if f = None then (Inr (), cm)
         else if \<not> io_lock io
         then (Inl (SystemStateError ''Failed to acquire lock'' (Some (OSError ''lock''))), cm)
         else reload_locked (io_read io) cm)"

section \<open>Appending\<close>

definition append_locked ::
  "append_outcome \<Rightarrow> checkpoint_event \<Rightarrow> checkpoint_manager \<Rightarrow> (exn + unit) \<times> checkpoint_manager" where
  "append_locked out e cm =
     ((if out = Written then Inr ()
       else Inl (SystemStateError ''Checkpoint write failed'' (Some (OSError ''append'')))),
      cm\<lparr>cm_file := append_effect out (PDict (event_to_dict e)) (cm_file cm)\<rparr>)"

definition event_type_of_name :: "string \<Rightarrow> event_type" where
  "event_type_of_name name =
     (case parse_event_type (PStr name) of Some t \<Rightarrow> t | None \<Rightarrow> RUN_STARTED)"

definition next_event ::
  "pyfloat \<Rightarrow> string \<Rightarrow> event_type \<Rightarrow> pydict \<Rightarrow> checkpoint_manager \<Rightarrow> checkpoint_event" where
  "next_event now run_id t payload cm =
     \<lparr>ev_run_id = run_id,
      ev_sequence_id = get_or (cm_last_sequences cm) (PStr run_id) 0 + 1,
      ev_timestamp = fmax now (fadd (get_or (cm_last_timestamps cm) (PStr run_id) (Fin 0))
                                    (flit (1 / 1000000))),
      ev_type = t, ev_payload = payload\<rparr>"

definition log_event ::
  "cp_io \<Rightarrow> pyfloat \<Rightarrow> string \<Rightarrow> string \<Rightarrow> pydict \<Rightarrow> checkpoint_manager
     \<Rightarrow> (exn + unit) \<times> checkpoint_manager" where
  "log_event io now run_id name payload cm =
     (if \<not> io_lock io
      then (Inl (SystemStateError ''Failed to acquire lock'' (Some (OSError ''lock''))), cm)
      else
        bind_op (reload_locked (io_read io)) (\<lambda>_ cm.
          let e = next_event now run_id (event_type_of_name name) payload cm
          in case validate_state_transition (get_or (cm_last_states cm) (PStr run_id) PENDING) e of
               Inl ex \<Rightarrow> (Inl ex, cm)
             | Inr s \<Rightarrow>
                 bind_op (append_locked (io_append io) e) (\<lambda>_ cm.
                   (Inr (),
                    cm\<lparr>cm_last_sequences := (cm_last_sequences cm)(PStr run_id \<mapsto> ev_sequence_id e),
                       cm_last_timestamps := (cm_last_timestamps cm)(PStr run_id \<mapsto> ev_timestamp e),
                       cm_last_states := (cm_last_states cm)(PStr run_id \<mapsto> s)\<rparr>)) cm) cm)"

section \<open>The log methods\<close>

definition log_task_start where
  "log_task_start io now run_id task_context =
     log_event io now run_id ''TASK_START''
       [(''task_context'', PStr task_context), (''status'', PStr ''PENDING''), (''retry_count'', PInt 0)]"

definition log_run_started where
  "log_run_started io now run_id system_prompt user_prompt =
     log_event io now run_id ''RUN_STARTED''
       [(''system_prompt'', system_prompt), (''user_prompt'', user_prompt)]"

definition log_llm_requested where
  "log_llm_requested io now run_id iteration =
     log_event io now run_id ''LLM_REQUESTED'' [(''iteration'', PInt iteration)]"

definition log_llm_responded where
  "log_llm_responded io now run_id iteration content num_tool_calls tool_calls =
     log_event io now run_id ''LLM_RESPONDED''
       [(''iteration'', PInt iteration), (''has_content'', PBool (truthy content)),
        (''content'', content), (''num_tool_calls'', PInt num_tool_calls),
        (''tool_calls'', PList tool_calls)]"

definition log_tool_call_created where
  "log_tool_call_created io now run_id call_id tool_name arguments =
     log_event io now run_id ''TOOL_CALL_CREATED''
       [(''call_id'', call_id), (''tool_name'', tool_name), (''arguments'', arguments)]"

definition log_tool_attempt_started where
  "log_tool_attempt_started io now run_id call_id attempt tool_name arguments =
     log_event io now run_id ''TOOL_ATTEMPT_STARTED''
       ([(''call_id'', call_id), (''attempt'', PInt attempt)]
        @ (if truthy tool_name then [(''tool_name'', tool_name)] else [])
        @ (if arguments \<noteq> PNone then [(''arguments'', arguments)] else []))"

definition log_retry_scheduled where
  "log_retry_scheduled io now run_id operation attempt next_attempt delay reason domain call_id error_code =
     log_event io now run_id ''RETRY_SCHEDULED''
       ([(''operation'', PStr operation), (''attempt'', PInt attempt),
         (''next_attempt'', PInt next_attempt), (''delay_seconds'', PFloat delay),
         (''reason'', PStr reason), (''failure_domain'', PStr domain)]
        @ (if truthy call_id then [(''call_id'', call_id)] else [])
        @ (if truthy error_code then [(''error_code'', error_code)] else []))"

definition log_tool_attempt_ended where
  "log_tool_attempt_ended io now run_id call_id attempt status error_msg =
     log_event io now run_id ''TOOL_ATTEMPT_ENDED''
       [(''call_id'', call_id), (''attempt'', PInt attempt), (''status'', PStr status),
        (''error'', error_msg)]"

definition log_tool_result_received where
  "log_tool_result_received io now run_id call_id status tool_name result iteration_complete =
     log_event io now run_id ''TOOL_RESULT_RECEIVED''
       [(''call_id'', call_id), (''tool_name'', tool_name), (''status'', PStr status),
        (''result'', if truthy result then result else PDict []),
        (''iteration_complete'', PBool iteration_complete)]"

definition log_tool_call_rejected where
  "log_tool_call_rejected io now run_id call_id reason =
     log_event io now run_id ''TOOL_CALL_REJECTED'' [(''call_id'', call_id), (''reason'', PStr reason)]"

definition log_llm_final_response where
  "log_llm_final_response io now run_id content =
     log_event io now run_id ''LLM_FINAL_RESPONSE''
       [(''has_content'', PBool (truthy content)), (''content'', content)]"

definition log_run_completed where
  "log_run_completed io now run_id = log_event io now run_id ''RUN_COMPLETED'' []"

definition log_run_failed where
  "log_run_failed io now run_id err = log_event io now run_id ''RUN_FAILED'' [(''error'', PStr err)]"

definition log_run_halted where
  "log_run_halted io now run_id reason =
     log_event io now run_id ''RUN_HALTED'' [(''reason'', PStr reason)]"

definition log_task_end where
  "log_task_end io now run_id success retry_count data =
     log_event io now run_id ''TASK_END''
       [(''status'', PStr (if success then ''SUCCESS'' else ''FAILED'')),
        (''retry_count'', PInt retry_count),
        (''data'', if truthy data then data else PDict [])]"

section \<open>The log a manager maintains\<close>

definition event_line :: "checkpoint_event \<Rightarrow> line" where
  "event_line e = Json (PDict (event_to_dict e))"

text \<open>Timestamps that are numbers from the epoch on (NaN and negative values are not).\<close>

definition good_ts :: "pyfloat \<Rightarrow> bool" where
  "good_ts t \<longleftrightarrow> wf_float t \<and> fle (Fin 0) t"

definition wf_log :: "checkpoint_event list \<Rightarrow> bool" where
  "wf_log evs \<longleftrightarrow>
     (\<forall>e \<in> set evs. wf_event e \<and> good_ts (ev_timestamp e)) \<and>
     (\<forall>r. valid_run (run_events r evs)) \<and>
     (\<forall>r. \<exists>s. run_transitions (run_events r evs) PENDING = Inr s)"

definition log_repr :: "jsonl option \<Rightarrow> checkpoint_event list \<Rightarrow> bool" where
  "log_repr f evs \<longleftrightarrow> closed_file f \<and> file_lines f = map event_line evs \<and> wf_log evs"

text \<open>The state of a run according to the log.\<close>

definition run_state_of :: "checkpoint_event list \<Rightarrow> string \<Rightarrow> run_state" where
  "run_state_of evs r =
     (case run_transitions (run_events r evs) PENDING of Inr s \<Rightarrow> s | Inl _ \<Rightarrow> PENDING)"

definition last_ts :: "checkpoint_event list \<Rightarrow> string \<Rightarrow> pyfloat" where
  "last_ts evs r = (if run_events r evs = [] then Fin 0 else ev_timestamp (last (run_events r evs)))"

definition spec_event ::
  "pyfloat \<Rightarrow> string \<Rightarrow> event_type \<Rightarrow> pydict \<Rightarrow> checkpoint_event list \<Rightarrow> checkpoint_event" where
  "spec_event now r t payload evs =
     \<lparr>ev_run_id = r, ev_sequence_id = int (length (run_events r evs)) + 1,
      ev_timestamp = fmax now (fadd (last_ts evs r) (flit (1 / 1000000))),
      ev_type = t, ev_payload = payload\<rparr>"

lemma wf_log_Nil [simp]: "wf_log []"
  by (simp add: wf_log_def)

lemma wf_log_transitions:
  "wf_log evs \<Longrightarrow> run_transitions (run_events r evs) PENDING = Inr (run_state_of evs r)"
  by (auto simp: wf_log_def run_state_of_def split: sum.splits dest!: spec [of _ r])

lemma wf_log_snoc:
  "wf_log (evs @ [e]) \<longleftrightarrow>
     wf_log evs \<and> wf_event e \<and> good_ts (ev_timestamp e) \<and>
     ev_sequence_id e = int (length (run_events (ev_run_id e) evs)) + 1 \<and>
     (run_events (ev_run_id e) evs \<noteq> [] \<longrightarrow>
        \<not> flt (ev_timestamp e) (ev_timestamp (last (run_events (ev_run_id e) evs)))) \<and>
     (\<exists>s. validate_state_transition (run_state_of evs (ev_run_id e)) e = Inr s)"
  (is "?L \<longleftrightarrow> ?R")
proof
  assume L: ?L
  have tr: "\<exists>s. run_transitions (run_events r evs) PENDING = Inr s" for r
    using L unfolding wf_log_def
    by (auto simp: run_transitions_append_Inr split: if_splits dest!: spec [of _ r])
  have vr: "valid_run (run_events r evs)" for r
    using L by (auto simp: wf_log_def valid_run_snoc split: if_splits dest!: spec [of _ r])
  have wf: "wf_log evs" using L tr vr by (simp add: wf_log_def)
  obtain s where "run_transitions (run_events (ev_run_id e) evs @ [e]) PENDING = Inr s"
    using L by (auto simp: wf_log_def dest!: spec [of _ "ev_run_id e"])
  with wf_log_transitions [OF wf] have
    "validate_state_transition (run_state_of evs (ev_run_id e)) e = Inr s"
    by (auto simp: run_transitions_append_Inr bind_result_Inr_iff)
  moreover have "valid_run (run_events (ev_run_id e) evs @ [e])"
    using L by (auto simp: wf_log_def dest!: spec [of _ "ev_run_id e"])
  ultimately show ?R using L wf by (auto simp: wf_log_def valid_run_snoc)
next
  assume R: ?R
  then have wf: "wf_log evs" by simp
  have "\<exists>s. run_transitions (run_events r (evs @ [e])) PENDING = Inr s" for r
    using R wf_log_transitions [OF wf, of r]
    by (cases "ev_run_id e = r") (auto simp: run_transitions_append_Inr)
  moreover have "valid_run (run_events r (evs @ [e]))" for r
    using R by (auto simp: wf_log_def valid_run_snoc)
  ultimately show ?L using R by (auto simp: wf_log_def)
qed

lemma run_state_of_snoc:
  assumes "wf_log (evs @ [e])"
  shows "run_state_of (evs @ [e]) r =
    (if ev_run_id e = r
     then (case validate_state_transition (run_state_of evs r) e of Inr s \<Rightarrow> s | Inl _ \<Rightarrow> PENDING)
     else run_state_of evs r)"
proof (cases "ev_run_id e = r")
  case True
  from assms have wf: "wf_log evs" by (simp add: wf_log_snoc)
  from wf_log_transitions [OF wf, of r] wf_log_transitions [OF assms, of r] True
  show ?thesis by (auto simp: run_transitions_append_Inr bind_result_Inr_iff)
qed (simp add: run_state_of_def)

subsection \<open>What reloading finds in such a log\<close>

lemma good_ts_fmax: "good_ts t \<Longrightarrow> fmax (Fin 0) t = t"
  by (cases t) (auto simp: good_ts_def fmax_def)

lemma fmax_next: "good_ts t \<Longrightarrow> good_ts u \<Longrightarrow> \<not> flt u t \<Longrightarrow> fmax t u = u"
  by (cases t; cases u) (auto simp: good_ts_def fmax_def)

lemma reload_line_event:
  assumes "wf_event e"
  shows "reload_line (event_line e) cm =
    (let r = PStr (ev_run_id e);
         cm1 = cm\<lparr>cm_last_sequences := (cm_last_sequences cm)
                    (r \<mapsto> max (get_or (cm_last_sequences cm) r 0) (ev_sequence_id e)),
                  cm_last_timestamps := (cm_last_timestamps cm)
                    (r \<mapsto> fmax (get_or (cm_last_timestamps cm) r (Fin 0)) (ev_timestamp e))\<rparr>;
         curr = get_or (cm_last_states cm) r PENDING
     in if is_terminal curr then cm1
        else (case validate_state_transition curr e of
                Inl _ \<Rightarrow> cm1
              | Inr s \<Rightarrow> cm1\<lparr>cm_last_states := (cm_last_states cm)(r \<mapsto> s)\<rparr>))"
proof -
  let ?d = "event_to_dict e"
  have base: "has_key ?d ''run_id''" "has_key ?d ''sequence_id''"
    "dget ?d ''run_id'' PNone = PStr (ev_run_id e)" "dget ?d ''sequence_id'' PNone = PInt (ev_sequence_id e)"
    "dget ?d ''timestamp'' (PFloat (Fin 0)) = PFloat (ev_timestamp e)"
    by (simp_all add: event_to_dict_def has_key_spread dget_spread)
  show ?thesis
    using assms base
    by (simp add: reload_line_def event_line_def reload_timestamp_def reload_state_def Let_def
             split: sum.splits)
qed

definition reload_spec :: "checkpoint_event list \<Rightarrow> checkpoint_manager \<Rightarrow> bool" where
  "reload_spec evs cm \<longleftrightarrow>
     (\<forall>r. get_or (cm_last_sequences cm) (PStr r) 0 = int (length (run_events r evs)) \<and>
          get_or (cm_last_timestamps cm) (PStr r) (Fin 0) = last_ts evs r \<and>
          get_or (cm_last_states cm) (PStr r) PENDING = run_state_of evs r)"

lemma get_or_upd [simp]: "get_or (m(k \<mapsto> v)) k' d = (if k' = k then v else get_or m k' d)"
  by (simp add: get_or_def)

lemma get_or_empty [simp]: "get_or Map.empty k d = d"
  by (simp add: get_or_def)

lemma last_ts_good: "wf_log evs \<Longrightarrow> good_ts (last_ts evs r)"
proof (cases "run_events r evs = []")
  case True
  then show ?thesis by (simp add: last_ts_def good_ts_def wf_float_def is_double_def to_double_def)
next
  case False
  assume wf: "wf_log evs"
  from False have "last (run_events r evs) \<in> set evs"
    using last_in_set [OF False] by (simp add: run_events_def)
  with wf False show ?thesis by (simp add: last_ts_def wf_log_def)
qed

lemma reload_spec_step:
  assumes spec: "reload_spec evs cm" and wf: "wf_log (evs @ [e])"
  shows "reload_spec (evs @ [e]) (reload_line (event_line e) cm)"
proof -
  from wf have wfe: "wf_event e" and wfl: "wf_log evs" and ts: "good_ts (ev_timestamp e)"
    and sq: "ev_sequence_id e = int (length (run_events (ev_run_id e) evs)) + 1"
    and mono: "run_events (ev_run_id e) evs \<noteq> [] \<longrightarrow>
        \<not> flt (ev_timestamp e) (ev_timestamp (last (run_events (ev_run_id e) evs)))"
    by (auto simp: wf_log_snoc)
  obtain s where s: "validate_state_transition (run_state_of evs (ev_run_id e)) e = Inr s"
    using wf by (auto simp: wf_log_snoc)
  have tmax: "fmax (last_ts evs (ev_run_id e)) (ev_timestamp e) = ev_timestamp e"
    using ts mono last_ts_good [OF wfl, of "ev_run_id e"]
    by (auto simp: last_ts_def good_ts_fmax fmax_next)
  have st: "run_state_of (evs @ [e]) (ev_run_id e) = s"
    using s run_state_of_snoc [OF wf] by simp
  have tm: "is_terminal (run_state_of evs (ev_run_id e)) \<Longrightarrow> s = run_state_of evs (ev_run_id e)"
    using s by (rule terminal_transition [rotated])
  show ?thesis
    unfolding reload_spec_def
    using spec sq tmax st s tm
    by (auto simp: reload_spec_def reload_line_event [OF wfe] Let_def last_ts_def
          run_state_of_snoc [OF wf] max_def)
qed

lemma reload_spec_fold:
  "wf_log evs \<Longrightarrow> reload_spec evs (fold reload_line (map event_line evs) (clear_maps cm))"
proof (induction evs rule: rev_induct)
  case Nil
  show ?case by (simp add: reload_spec_def clear_maps_def last_ts_def run_state_of_def)
next
  case (snoc e evs)
  then have "wf_log evs" by (simp add: wf_log_snoc)
  with snoc show ?case by (simp add: reload_spec_step)
qed

lemma reload_line_file [simp]: "cm_file (reload_line l cm) = cm_file cm"
  by (simp add: reload_line_def reload_timestamp_def reload_state_def Let_def
       split: line.splits pyval.splits option.splits sum.splits)

lemma fold_reload_line_file [simp]: "cm_file (fold reload_line ls cm) = cm_file cm"
  by (induction ls arbitrary: cm) simp_all

lemma clear_maps_file [simp]: "cm_file (clear_maps cm) = cm_file cm"
  by (simp add: clear_maps_def)

lemma reload_locked_spec:
  assumes "log_repr (cm_file cm) evs" "reload_locked ok cm = (Inr (), cm')"
  shows "cm_file cm' = cm_file cm \<and> reload_spec evs cm'"
  using assms reload_spec_fold [of evs cm]
  by (auto simp: reload_locked_def log_repr_def file_lines_def split: option.splits if_splits)

lemma reload_locked_ok: "ok \<or> cm_file cm = None \<Longrightarrow> \<exists>cm'. reload_locked ok cm = (Inr (), cm')"
  by (cases "cm_file cm") (auto simp: reload_locked_def)

lemma reload_locked_file: "cm_file (snd (reload_locked ok cm)) = cm_file cm"
  by (simp add: reload_locked_def split: option.splits)

subsection \<open>One call of \<open>log_event\<close>\<close>

definition good_now :: "pyfloat \<Rightarrow> bool" where
  "good_now t \<longleftrightarrow> wf_float t \<and> t \<noteq> NaN"

lemma microsecond: "\<exists>d. flit (1 / 1000000) = Fin d \<and> 0 \<le> d"
  by (rule to_double_unit) simp_all

lemma next_event_spec: "reload_spec evs cm \<Longrightarrow> next_event now r t p cm = spec_event now r t p evs"
  by (simp add: next_event_def spec_event_def reload_spec_def)

lemma spec_event_timestamp:
  fixes r :: string and t :: event_type and p :: pydict
  assumes "wf_log evs" "good_now now"
  defines "ts \<equiv> ev_timestamp (spec_event now r t p evs)"
  shows "good_ts ts" and "\<not> flt ts (last_ts evs r)"
proof -
  obtain d where d: "flit (1 / 1000000) = Fin d" "0 \<le> d" using microsecond by blast
  let ?l = "last_ts evs r" and ?n = "fadd (last_ts evs r) (Fin d)"
  have l: "good_ts ?l" by (rule last_ts_good [OF assms(1)])
  have ge: "\<not> flt ?n ?l" using l d by (intro fadd_nonneg_ge) (auto simp: good_ts_def)
  have wfd: "wf_float (Fin d)" using d wf_float_to_double by metis
  have nn: "?n \<noteq> NaN" using l by (cases ?l) (auto simp: good_ts_def to_double_def Let_def)
  have nl: "fle ?l ?n" using ge nn l by (intro not_flt_fle) (auto simp: good_ts_def)
  have ts: "ts = fmax now ?n" by (simp add: ts_def spec_event_def d)
  have tn: "ts \<noteq> NaN" using ts nn assms(2) by (auto simp: fmax_def good_now_def)
  have le: "fle ?n ts" using ts fmax_not_lt [of now ?n] tn nn by (auto intro: not_flt_fle)
  have "wf_float ts" unfolding ts
    using assms(2) l wfd by (auto simp: good_now_def good_ts_def intro!: wf_float_fmax wf_float_fadd)
  moreover have "fle (Fin 0) ts" using l nl le by (auto simp: good_ts_def intro: fle_trans)
  ultimately show "good_ts ts" by (simp add: good_ts_def)
  show "\<not> flt ts ?l" using nl le by (intro fle_not_flt) (rule fle_trans)
qed

lemma spec_event_wf_log:
  assumes "wf_log evs" "good_now now" "strip r \<noteq> []"
    and "validate_state_transition (run_state_of evs r) (spec_event now r t p evs) = Inr s"
  shows "wf_log (evs @ [spec_event now r t p evs])"
proof -
  have *: "ev_run_id (spec_event now r t p evs) = r" by (simp add: spec_event_def)
  show ?thesis
    unfolding wf_log_snoc *
    using assms spec_event_timestamp [OF assms(1,2), of r t p]
    by (auto simp: wf_event_def last_ts_def) (auto simp: spec_event_def)
qed

lemma log_event_cases:
  fixes name :: string and p :: pydict
  assumes repr: "log_repr (cm_file cm) evs" and io: "untorn (io_append io)"
    and now: "good_now now" and r: "strip r \<noteq> []"
    and run: "log_event io now r name p cm = (res, cm')"
  defines "e \<equiv> spec_event now r (event_type_of_name name) p evs"
  shows "(\<exists>s. res = Inr () \<and> validate_state_transition (run_state_of evs r) e = Inr s \<and>
            log_repr (cm_file cm') (evs @ [e]))
       \<or> (\<exists>x. res = Inl x \<and> io_append io = WrittenUnsynced \<and> log_repr (cm_file cm') (evs @ [e]))
       \<or> (\<exists>x. res = Inl x \<and> log_repr (cm_file cm') evs)"
proof (cases "io_lock io \<and> (io_read io \<or> cm_file cm = None)")
  case False
  with run repr show ?thesis
    by (auto simp: log_event_def bind_op_def reload_locked_def split: if_splits option.splits)
next
  case True
  then obtain cm1 where rl: "reload_locked (io_read io) cm = (Inr (), cm1)"
    using reload_locked_ok by blast
  from reload_locked_spec [OF repr rl] have f1: "cm_file cm1 = cm_file cm" and sp: "reload_spec evs cm1"
    by auto
  have ne: "next_event now r (event_type_of_name name) p cm1 = e"
    using next_event_spec [OF sp] by (simp add: e_def)
  have st: "get_or (cm_last_states cm1) (PStr r) PENDING = run_state_of evs r"
    using sp by (simp add: reload_spec_def)
  show ?thesis
  proof (cases "validate_state_transition (run_state_of evs r) e")
    case (Inl x)
    with run True rl ne st f1 repr show ?thesis by (auto simp: log_event_def Let_def)
  next
    case (Inr s)
    have wf: "wf_log (evs @ [e])"
      using Inr repr now r unfolding e_def by (intro spec_event_wf_log) (auto simp: log_repr_def)
    have cl: "closed_file (cm_file cm)" using repr by (simp add: log_repr_def)
    note ae = append_effect_untorn [OF cl io, of "PDict (event_to_dict e)"]
    have fl: "cm_file cm' = append_effect (io_append io) (PDict (event_to_dict e)) (cm_file cm)"
      and res: "res = Inr () \<longleftrightarrow> io_append io = Written"
      using run True rl ne st Inr f1
      by (auto simp: log_event_def Let_def append_locked_def bind_op_def split: if_splits)
    show ?thesis
      using ae wf Inr res repr unfolding fl
      by (cases res) (auto simp: log_repr_def event_line_def split: if_splits)
  qed
qed

text \<open>With working I/O a legal event is always written.\<close>

lemma log_event_succeeds:
  assumes repr: "log_repr (cm_file cm) evs"
    and io: "io_lock io" "io_read io" "io_append io = Written"
    and legal: "validate_state_transition (run_state_of evs r)
       (spec_event now r (event_type_of_name name) p evs) = Inr s"
  shows "fst (log_event io now r name p cm) = Inr ()"
proof -
  obtain cm1 where rl: "reload_locked (io_read io) cm = (Inr (), cm1)"
    using io reload_locked_ok by blast
  from reload_locked_spec [OF repr rl] have sp: "reload_spec evs cm1" by auto
  then have "get_or (cm_last_states cm1) (PStr r) PENDING = run_state_of evs r"
    by (simp add: reload_spec_def)
  with io rl next_event_spec [OF sp] legal show ?thesis
    by (simp add: log_event_def Let_def append_locked_def bind_op_def)
qed

text \<open>What the manager remembers from earlier calls never matters: only the file does.\<close>

lemma reload_locked_memory_irrelevant:
  assumes "cm_file cm1 = cm_file cm2"
  shows "reload_locked ok cm1 = reload_locked ok cm2"
proof -
  have "clear_maps cm1 = clear_maps cm2" using assms by (simp add: clear_maps_def)
  then show ?thesis using assms by (cases "cm_file cm2") (simp_all add: reload_locked_def)
qed

lemma log_event_memory_irrelevant:
  assumes "cm_file cm1 = cm_file cm2"
  shows "fst (log_event io now r name p cm1) = fst (log_event io now r name p cm2)"
    and "cm_file (snd (log_event io now r name p cm1)) = cm_file (snd (log_event io now r name p cm2))"
  using assms reload_locked_memory_irrelevant [OF assms, of "io_read io"]
  by (simp_all add: log_event_def bind_op_def)

text \<open>An append that fails leaves the in-memory dictionaries as the reload made them.\<close>

lemma log_event_commit_before_memory:
  assumes "log_event io now r name p cm = (Inl x, cm')" "io_lock io"
  shows "cm_last_sequences cm' = cm_last_sequences (snd (reload_locked (io_read io) cm)) \<and>
         cm_last_timestamps cm' = cm_last_timestamps (snd (reload_locked (io_read io) cm)) \<and>
         cm_last_states cm' = cm_last_states (snd (reload_locked (io_read io) cm))"
  using assms
  by (auto simp: log_event_def bind_op_def append_locked_def Let_def split: sum.splits prod.splits if_splits)

section \<open>The interface of an event log\<close>

text \<open>
  What the users of the log rely on: the log always represents a well-formed list of events, and
  one call adds at most one event, of the run, type and payload it was given; it adds exactly that
  event when it reports success. A context \<open>'c\<close> stands for everything a call depends on besides
  the log (I/O outcomes and the clock). The lemmas lift this to any sequence of calls, whoever
  makes them.
\<close>

locale event_log =
  fixes log_op :: "'c \<Rightarrow> string \<Rightarrow> string \<Rightarrow> pydict \<Rightarrow> 's \<Rightarrow> (exn + unit) \<times> 's"
    and represents :: "'s \<Rightarrow> checkpoint_event list \<Rightarrow> bool"
    and good_ctx :: "'c \<Rightarrow> bool"
  assumes represents_wf: "represents s evs \<Longrightarrow> wf_log evs"
    and log_op_step:
      "represents s evs \<Longrightarrow> good_ctx c \<Longrightarrow> strip r \<noteq> [] \<Longrightarrow> log_op c r name p s = (res, s') \<Longrightarrow>
         (\<exists>e. ev_run_id e = r \<and> ev_type e = event_type_of_name name \<and> ev_payload e = p \<and>
              represents s' (evs @ [e]))
         \<or> (res \<noteq> Inr () \<and> represents s' evs)"
begin

fun log_calls :: "('c \<times> string \<times> string \<times> pydict) list \<Rightarrow> 's \<Rightarrow> 's" where
  "log_calls [] s = s"
| "log_calls ((c, r, name, p) # cs) s = log_calls cs (snd (log_op c r name p s))"

definition good_calls :: "('c \<times> string \<times> string \<times> pydict) list \<Rightarrow> bool" where
  "good_calls cs \<longleftrightarrow> (\<forall>(c, r, name, p) \<in> set cs. good_ctx c \<and> strip r \<noteq> [])"

lemma one_call:
  assumes "represents s evs" "good_ctx c" "strip r \<noteq> []"
  obtains evs' where "represents (snd (log_op c r name p s)) evs'"
    "evs' = evs \<or> (\<exists>e. ev_run_id e = r \<and> evs' = evs @ [e])"
proof -
  obtain res s' where "log_op c r name p s = (res, s')" by force
  with log_op_step [OF assms this] show thesis by (auto intro: that)
qed

lemma terminal_call:
  assumes "wf_log (evs @ [e])" "is_terminal (run_state_of evs r)"
  shows "run_state_of (evs @ [e]) r = run_state_of evs r"
proof (cases "ev_run_id e = r")
  case True
  with assms(1) obtain s where s: "validate_state_transition (run_state_of evs r) e = Inr s"
    by (auto simp: wf_log_snoc)
  with terminal_transition [OF assms(2) s] True run_state_of_snoc [OF assms(1)] show ?thesis by simp
qed (simp add: run_state_of_snoc [OF assms(1)])

lemma calls_extend:
  assumes "represents s evs" "good_calls cs"
  shows "\<exists>evs'. represents (log_calls cs s) evs' \<and> prefix evs evs' \<and>
           (\<forall>r. r \<notin> (fst \<circ> snd) ` set cs \<longrightarrow> run_events r evs' = run_events r evs) \<and>
           (\<forall>r. is_terminal (run_state_of evs r) \<longrightarrow> run_state_of evs' r = run_state_of evs r)"
  using assms
proof (induction cs arbitrary: s evs)
  case Nil
  then show ?case by auto
next
  case (Cons a cs)
  obtain c r name p where a: "a = (c, r, name, p)" by (cases a) auto
  from Cons.prems a have ok: "good_ctx c" "strip r \<noteq> []" "good_calls cs"
    by (auto simp: good_calls_def)
  obtain evs1 where r1: "represents (snd (log_op c r name p s)) evs1"
    and d: "evs1 = evs \<or> (\<exists>e. ev_run_id e = r \<and> evs1 = evs @ [e])"
    by (rule one_call [OF Cons.prems(1) ok(1,2)])
  from Cons.IH [OF r1 ok(3)] obtain evs' where e:
    "represents (log_calls cs (snd (log_op c r name p s))) evs'" "prefix evs1 evs'"
    "\<forall>r. r \<notin> (fst \<circ> snd) ` set cs \<longrightarrow> run_events r evs' = run_events r evs1"
    "\<forall>r. is_terminal (run_state_of evs1 r) \<longrightarrow> run_state_of evs' r = run_state_of evs1 r"
    by blast
  have pre: "prefix evs evs'" using d e(2) by (auto intro: append_prefixD)
  have oth: "run_events q evs' = run_events q evs"
    if "q \<notin> (fst \<circ> snd) ` set (a # cs)" for q
    using that d e(3) a by auto
  have ter: "run_state_of evs' q = run_state_of evs q" if "is_terminal (run_state_of evs q)" for q
  proof -
    have "run_state_of evs1 q = run_state_of evs q"
      using d represents_wf [OF r1] terminal_call that by auto
    with e(4) that show ?thesis by simp
  qed
  show ?case using e(1) pre oth ter unfolding a by auto
qed

end

text \<open>The checkpoint manager is such a log, for every I/O outcome that does not tear a line.\<close>

definition cm_represents :: "checkpoint_manager \<Rightarrow> checkpoint_event list \<Rightarrow> bool" where
  "cm_represents cm evs \<longleftrightarrow> log_repr (cm_file cm) evs"

definition cm_good_ctx :: "cp_io \<times> pyfloat \<Rightarrow> bool" where
  "cm_good_ctx c \<longleftrightarrow> untorn (io_append (fst c)) \<and> good_now (snd c)"

definition cm_log_op ::
  "cp_io \<times> pyfloat \<Rightarrow> string \<Rightarrow> string \<Rightarrow> pydict \<Rightarrow> checkpoint_manager
     \<Rightarrow> (exn + unit) \<times> checkpoint_manager" where
  "cm_log_op c r name p cm = log_event (fst c) (snd c) r name p cm"

lemma spec_event_fields [simp]:
  "ev_run_id (spec_event now r t p evs) = r"
  "ev_type (spec_event now r t p evs) = t"
  "ev_payload (spec_event now r t p evs) = p"
  by (simp_all add: spec_event_def)

interpretation cm: event_log cm_log_op cm_represents cm_good_ctx
proof
  fix s evs assume "cm_represents s evs"
  then show "wf_log evs" by (simp add: cm_represents_def log_repr_def)
next
  fix s evs c r name p res s'
  assume "cm_represents s evs" "cm_good_ctx c" "strip r \<noteq> []" "cm_log_op c r name p s = (res, s')"
  then show "(\<exists>e. ev_run_id e = r \<and> ev_type e = event_type_of_name name \<and> ev_payload e = p \<and>
              cm_represents s' (evs @ [e])) \<or> (res \<noteq> Inr () \<and> cm_represents s' evs)"
    using log_event_cases [of s evs "fst c" "snd c" r name p res s']
    by (auto simp: cm_represents_def cm_good_ctx_def cm_log_op_def intro: exI [of _ "spec_event _ _ _ _ _"])
qed

section \<open>Summaries and completed tasks\<close>

text \<open>\<open>a + b\<close> for a number \<open>a\<close> and a dynamic value \<open>b\<close>.\<close>

definition py_add :: "pyval \<Rightarrow> pyval \<Rightarrow> exn + pyval" where
  "py_add a b =
     (case (as_int a, as_int b) of
        (Some i, Some j) \<Rightarrow> Inr (PInt (i + j))
      | _ \<Rightarrow>
          if is_number a \<and> is_number b then
            (case (number_to_float a, number_to_float b) of
               (Some x, Some y) \<Rightarrow> Inr (PFloat (fadd x y))
             | _ \<Rightarrow> Inl OverflowError)
          else Inl (TypeError ''unsupported operand''))"

record run_summary =
  rs_run_id :: string
  rs_start_timestamp :: pyfloat
  rs_end_timestamp :: "pyfloat option"
  rs_final_state :: run_state
  rs_iteration_count :: int
  rs_tool_call_count :: pyval

record summary_state =
  ss_state :: run_state
  ss_end :: "pyfloat option"
  ss_iterations :: int
  ss_tool_calls :: pyval

text \<open>The loop body of \<open>get_run_summary\<close>.\<close>

definition summary_step :: "checkpoint_event \<Rightarrow> summary_state \<Rightarrow> exn + summary_state" where
  "summary_step e st =
     bind_result
       (if ev_type e = LLM_REQUESTED then Inr (st\<lparr>ss_iterations := ss_iterations st + 1\<rparr>)
        else if ev_type e = LLM_RESPONDED then
          bind_result (py_add (ss_tool_calls st) (dget (ev_payload e) ''num_tool_calls'' (PInt 0)))
            (\<lambda>n. Inr (st\<lparr>ss_tool_calls := n\<rparr>))
        else Inr st)
       (\<lambda>st.
         if \<not> is_terminal (ss_state st) then
           bind_result (validate_state_transition (ss_state st) e) (\<lambda>s.
             Inr (if is_terminal s then st\<lparr>ss_state := s, ss_end := Some (ev_timestamp e)\<rparr>
                  else st\<lparr>ss_state := s\<rparr>))
         else if ev_type e \<in> {RUN_COMPLETED, RUN_FAILED, RUN_HALTED, TASK_END}
         then Inr (st\<lparr>ss_end := Some (ev_timestamp e)\<rparr>)
         else Inr st)"

text \<open>The lines that decode to an event of the run; anything else is skipped.\<close>

definition readable_events :: "string \<Rightarrow> line list \<Rightarrow> checkpoint_event list" where
  "readable_events r ls =
     run_events r
       (concat (map (\<lambda>l. case l of
                           Json v \<Rightarrow> (case event_from_dict v None of Inr e \<Rightarrow> [e] | Inl _ \<Rightarrow> [])
                         | _ \<Rightarrow> []) ls))"

definition get_run_summary ::
  "cp_io \<Rightarrow> bool \<Rightarrow> string \<Rightarrow> checkpoint_manager \<Rightarrow> (exn + run_summary option) \<times> checkpoint_manager" where
  "get_run_summary io second_read r cm =
     (if \<not> io_lock io
      then (Inl (SystemStateError ''Failed to acquire lock'' (Some (OSError ''lock''))), cm)
      else
        bind_op (reload_locked (io_read io)) (\<lambda>_ cm.
          case cm_file cm of
            None \<Rightarrow> (Inr None, cm)
          | Some f \<Rightarrow>
              if \<not> second_read then (Inr None, cm)
              else (case readable_events r (jl_lines f) of
                      [] \<Rightarrow> (Inr None, cm)
                    | e0 # es \<Rightarrow>
                        (bind_result
                           (fold_result summary_step (e0 # es)
                              \<lparr>ss_state = PENDING, ss_end = None, ss_iterations = 0,
                               ss_tool_calls = PInt 0\<rparr>)
                           (\<lambda>st. Inr (Some
                              \<lparr>rs_run_id = r, rs_start_timestamp = ev_timestamp e0,
                               rs_end_timestamp = ss_end st, rs_final_state = ss_state st,
                               rs_iteration_count = ss_iterations st,
                               rs_tool_call_count = ss_tool_calls st\<rparr>)), cm))) cm)"

text \<open>
  \<open>get_completed_tasks\<close>: the loop keeps the task context of each run and the contexts of the runs
  that ended with \<open>SUCCESS\<close>; a line that raises is skipped. The source returns the set as a list
  in no particular order.
\<close>

definition completed_step :: "line \<Rightarrow> (pyval \<rightharpoonup> pyval) \<times> pyval list \<Rightarrow> (pyval \<rightharpoonup> pyval) \<times> pyval list" where
  "completed_step l st =
     (case l of
        Json (PDict d) \<Rightarrow>
          (let (starts, completed) = st;
               run_id = dget d ''run_id'' PNone;
               et = (let v = dget d ''event_type'' PNone in if truthy v then v else dget d ''event'' PNone);
               payload = (let v = dget d ''payload'' (PDict []) in if truthy v then v else PDict d)
           in case payload of
                PDict p \<Rightarrow>
                  if et = PStr ''TASK_START'' then
                    (if hashable run_id
                     then (starts(run_id \<mapsto> dget p ''task_context'' (PStr [])), completed) else st)
                  else if et = PStr ''TASK_END'' then
                    (if dget p ''status'' PNone = PStr ''SUCCESS'' \<and> hashable run_id then
                       (case starts run_id of
                          Some ctx \<Rightarrow>
                            if truthy ctx \<and> hashable ctx then (starts, List.insert ctx completed) else st
                        | None \<Rightarrow> st)
                     else st)
                  else st
              | _ \<Rightarrow> st)
      | _ \<Rightarrow> st)"

definition get_completed_tasks ::
  "cp_io \<Rightarrow> bool \<Rightarrow> checkpoint_manager \<Rightarrow> (exn + pyval list) \<times> checkpoint_manager" where
  "get_completed_tasks io second_read cm =
     (if \<not> io_lock io
      then (Inl (SystemStateError ''Failed to acquire lock'' (Some (OSError ''lock''))), cm)
      else
        bind_op (reload_locked (io_read io)) (\<lambda>_ cm.
          case cm_file cm of
            None \<Rightarrow> (Inr [], cm)
          | Some f \<Rightarrow>
              (Inr (if second_read then snd (fold completed_step (jl_lines f) (Map.empty, [])) else []),
               cm)) cm)"

subsection \<open>Summaries of a well-formed log\<close>

lemma readable_events_lines:
  "(\<forall>e \<in> set evs. wf_event e) \<Longrightarrow> readable_events r (map event_line evs) = run_events r evs"
  by (induction evs) (auto simp: readable_events_def event_line_def)

definition counts_are_ints :: "checkpoint_event list \<Rightarrow> bool" where
  "counts_are_ints evs \<longleftrightarrow>
     list_all (\<lambda>e. ev_type e = LLM_RESPONDED \<longrightarrow>
        as_int (dget (ev_payload e) ''num_tool_calls'' (PInt 0)) \<noteq> None) evs"

lemma py_add_int: "as_int v = Some k \<Longrightarrow> py_add (PInt n) v = Inr (PInt (n + k))"
  by (simp add: py_add_def)

lemma summary_fold:
  assumes "run_transitions rs PENDING = Inr s" "counts_are_ints rs"
  shows "\<exists>st. fold_result summary_step rs
              \<lparr>ss_state = PENDING, ss_end = None, ss_iterations = 0, ss_tool_calls = PInt 0\<rparr> = Inr st \<and>
            ss_state st = s \<and> (\<exists>n. ss_tool_calls st = PInt n) \<and>
            ss_iterations st = int (length (filter (\<lambda>e. ev_type e = LLM_REQUESTED) rs)) \<and>
            (ss_end st \<noteq> None \<longleftrightarrow> is_terminal s)"
  using assms
proof (induction rs arbitrary: s rule: rev_induct)
  case Nil
  then show ?case by (auto simp: is_terminal_def)
next
  case (snoc e rs)
  then obtain u where u: "run_transitions rs PENDING = Inr u" "validate_state_transition u e = Inr s"
    by (auto simp: run_transitions_append_Inr bind_result_Inr_iff)
  have ci: "counts_are_ints rs" "ev_type e = LLM_RESPONDED \<Longrightarrow>
      \<exists>k. as_int (dget (ev_payload e) ''num_tool_calls'' (PInt 0)) = Some k"
    using snoc.prems(2) by (auto simp: counts_are_ints_def)
  from snoc.IH [OF u(1) ci(1)] obtain st n where st:
    "fold_result summary_step rs
       \<lparr>ss_state = PENDING, ss_end = None, ss_iterations = 0, ss_tool_calls = PInt 0\<rparr> = Inr st"
    "ss_state st = u" "ss_tool_calls st = PInt n"
    "ss_iterations st = int (length (filter (\<lambda>e. ev_type e = LLM_REQUESTED) rs))"
    "ss_end st \<noteq> None \<longleftrightarrow> is_terminal u"
    by auto
  have tm: "is_terminal u \<Longrightarrow> s = u" using u(2) by (rule terminal_transition [rotated])
  have "\<exists>st'. summary_step e st = Inr st' \<and> ss_state st' = s \<and> (\<exists>n. ss_tool_calls st' = PInt n) \<and>
    ss_iterations st' = ss_iterations st + (if ev_type e = LLM_REQUESTED then 1 else 0) \<and>
    (ss_end st' \<noteq> None \<longleftrightarrow> is_terminal s)"
    using st(2,3,5) u(2) tm ci(2)
    by (cases "ev_type e = LLM_REQUESTED"; cases "ev_type e = LLM_RESPONDED"; cases "is_terminal u")
      (auto simp: summary_step_def py_add_int)
  with st(1,4) show ?case by (auto simp: fold_result_append)
qed

lemma get_run_summary_spec:
  assumes repr: "log_repr (cm_file cm) evs" and io: "io_lock io" "io_read io"
    and ne: "run_events r evs \<noteq> []" and ci: "counts_are_ints (run_events r evs)"
  shows "\<exists>sm. fst (get_run_summary io True r cm) = Inr (Some sm) \<and>
            rs_run_id sm = r \<and> rs_final_state sm = run_state_of evs r \<and>
            rs_start_timestamp sm = ev_timestamp (hd (run_events r evs)) \<and>
            rs_iteration_count sm =
              int (length (filter (\<lambda>e. ev_type e = LLM_REQUESTED) (run_events r evs))) \<and>
            (rs_end_timestamp sm \<noteq> None \<longleftrightarrow> is_terminal (run_state_of evs r))"
proof -
  obtain cm1 where rl: "reload_locked (io_read io) cm = (Inr (), cm1)"
    using io reload_locked_ok by blast
  have f1: "cm_file cm1 = cm_file cm" using reload_locked_spec [OF repr rl] by simp
  from ne have "evs \<noteq> []" by auto
  with repr obtain f where f: "cm_file cm = Some f" "jl_lines f = map event_line evs"
    by (auto simp: log_repr_def file_lines_def split: option.splits)
  have wf: "wf_log evs" using repr by (simp add: log_repr_def)
  have re: "readable_events r (jl_lines f) = run_events r evs"
    unfolding f(2) using wf by (intro readable_events_lines) (auto simp: wf_log_def)
  obtain e0 es where es: "run_events r evs = e0 # es" using ne by (cases "run_events r evs") auto
  show ?thesis
    using summary_fold [OF wf_log_transitions [OF wf, of r] ci] io rl f f1 re
    unfolding es by (auto simp: get_run_summary_def)
qed

end
