(* ===== verification/Run_Budget.thy ===== *)
theory Run_Budget
  imports Checkpoint_Contract
begin

text \<open>
  \<open>src/agent/policy.py\<close> and \<open>src/core/run_budget.py\<close>: the limits of a run, the decision whether
  requested work fits into them, and the reconstruction of what a run has used from its durable
  events.
\<close>

section \<open>Policy\<close>

record run_policy =
  pol_max_iterations :: int
  pol_max_tool_calls :: int
  pol_timeout_seconds :: pyfloat

text \<open>\<open>RunPolicy.__post_init__\<close>\<close>

definition mk_run_policy :: "int \<Rightarrow> int \<Rightarrow> pyfloat \<Rightarrow> exn + run_policy" where
  "mk_run_policy max_iterations max_tool_calls timeout =
     (if max_iterations < 0 then Inl (ValueError ''max_iterations must be non-negative'')
      else if max_tool_calls < 0 then Inl (ValueError ''max_tool_calls must be non-negative'')
      else if fle timeout (Fin 0) then Inl (ValueError ''timeout_seconds must be positive'')
      else Inr \<lparr>pol_max_iterations = max_iterations, pol_max_tool_calls = max_tool_calls,
                pol_timeout_seconds = timeout\<rparr>)"

section \<open>Sets of dynamic values\<close>

text \<open>
  Membership in a Python set: booleans and whole floats equal the integer of the same value, and a
  NaN read from a file equals nothing. A set is the list of its members in insertion order.
\<close>

fun py_norm :: "pyval \<Rightarrow> pyval" where
  "py_norm (PBool b) = PInt (if b then 1 else 0)"
| "py_norm (PFloat (Fin q)) = (if q = of_int \<lfloor>q\<rfloor> then PInt \<lfloor>q\<rfloor> else PFloat (Fin q))"
| "py_norm v = v"

definition py_key_eq :: "pyval \<Rightarrow> pyval \<Rightarrow> bool" where
  "py_key_eq v w \<longleftrightarrow> py_norm v = py_norm w \<and> v \<noteq> PFloat NaN"

definition py_in :: "pyval \<Rightarrow> pyval list \<Rightarrow> bool" where
  "py_in v l \<longleftrightarrow> list_ex (py_key_eq v) l"

definition set_add :: "pyval \<Rightarrow> pyval list \<Rightarrow> exn + pyval list" where
  "set_add v l =
     (if \<not> hashable v then Inl (TypeError ''unhashable type'')
      else Inr (if py_in v l then l else l @ [v]))"

section \<open>Usage and decision\<close>

datatype budget_dimension = ITERATIONS | TOOL_CALLS | TIME

record budget_usage =
  bu_iterations_used :: int
  bu_tool_calls_used :: int
  bu_seen_tool_call_ids :: "pyval list"
  bu_elapsed_seconds :: pyfloat

record budget_decision =
  bd_allowed :: bool
  bd_exhausted_dimension :: "budget_dimension option"
  bd_reason :: "string option"

definition budget_decide :: "run_policy \<Rightarrow> budget_usage \<Rightarrow> int \<Rightarrow> int \<Rightarrow> budget_decision" where
  "budget_decide policy usage requested_iterations requested_tool_calls =
     (if bu_iterations_used usage + requested_iterations > pol_max_iterations policy
      then \<lparr>bd_allowed = False, bd_exhausted_dimension = Some ITERATIONS,
            bd_reason = Some ''MAX_ITERATIONS_REACHED''\<rparr>
      else if bu_tool_calls_used usage + requested_tool_calls > pol_max_tool_calls policy
      then \<lparr>bd_allowed = False, bd_exhausted_dimension = Some TOOL_CALLS,
            bd_reason = Some ''MAX_TOOL_CALLS_REACHED''\<rparr>
      else \<lparr>bd_allowed = True, bd_exhausted_dimension = None, bd_reason = None\<rparr>)"

section \<open>Reconstruction\<close>

text \<open>The loop body of \<open>reconstruct_usage\<close>; the state is \<open>iterations\<close> and \<open>logical_tool_call_ids\<close>.\<close>

definition add_iteration :: "checkpoint_event \<Rightarrow> int list \<Rightarrow> int list" where
  "add_iteration e its =
     (if ev_type e \<in> {LLM_REQUESTED, LLM_RESPONDED} then
        (case as_int (dget (ev_payload e) ''iteration'' PNone) of
           Some n \<Rightarrow> if 0 < n then List.insert n its else its
         | None \<Rightarrow> its)
      else its)"

definition add_listed_call :: "pyval \<Rightarrow> pyval list \<Rightarrow> exn + pyval list" where
  "add_listed_call tc ids =
     (case tc of
        PDict d \<Rightarrow>
          if truthy (dget d ''call_id'' PNone) then set_add (dget d ''call_id'' PNone) ids else Inr ids
      | _ \<Rightarrow> Inr ids)"

definition add_responded_calls :: "checkpoint_event \<Rightarrow> pyval list \<Rightarrow> exn + pyval list" where
  "add_responded_calls e ids =
     (if ev_type e = LLM_RESPONDED then
        (case dget (ev_payload e) ''tool_calls'' PNone of
           PList tcs \<Rightarrow> fold_result add_listed_call tcs ids
         | _ \<Rightarrow> Inr ids)
      else Inr ids)"

definition add_executed_call :: "checkpoint_event \<Rightarrow> pyval list \<Rightarrow> exn + pyval list" where
  "add_executed_call e ids =
     (if ev_type e \<in> {TOOL_ATTEMPT_STARTED, TOOL_RESULT_RECEIVED, TOOL_ATTEMPT_ENDED} then
        (let cid = dget (ev_payload e) ''call_id'' PNone
         in if truthy cid then set_add cid ids else Inr ids)
      else Inr ids)"

definition usage_step ::
  "checkpoint_event \<Rightarrow> int list \<times> pyval list \<Rightarrow> exn + int list \<times> pyval list" where
  "usage_step e st =
     (let (its, ids) = st
      in bind_result (add_responded_calls e ids) (\<lambda>ids.
         bind_result (add_executed_call e ids) (\<lambda>ids.
         Inr (add_iteration e its, ids))))"

definition reconstruct_usage :: "checkpoint_event list \<Rightarrow> exn + budget_usage" where
  "reconstruct_usage evs =
     bind_result (fold_result usage_step evs ([], [])) (\<lambda>(its, ids).
       Inr \<lparr>bu_iterations_used = (if its = [] then 0 else Max (set its)),
            bu_tool_calls_used = int (length ids),
            bu_seen_tool_call_ids = ids,
            bu_elapsed_seconds = Fin 0\<rparr>)"

section \<open>Facts\<close>

lemma budget_decide_allowed:
  "bd_allowed (budget_decide p u i t) \<longleftrightarrow>
     bu_iterations_used u + i \<le> pol_max_iterations p \<and>
     bu_tool_calls_used u + t \<le> pol_max_tool_calls p"
  by (simp add: budget_decide_def)

lemma budget_decide_exhausted:
  "\<not> bd_allowed (budget_decide p u i t) \<Longrightarrow>
     bd_exhausted_dimension (budget_decide p u i t) =
       Some (if pol_max_iterations p < bu_iterations_used u + i then ITERATIONS else TOOL_CALLS)"
  by (simp add: budget_decide_def split: if_splits)

text \<open>
  The specification of usage: the iteration numbers and the logical call ids that the events name.
  The code agrees with it on events whose call ids are strings, as the agent writes them.
\<close>

definition event_iterations :: "checkpoint_event \<Rightarrow> int set" where
  "event_iterations e =
     (if ev_type e \<in> {LLM_REQUESTED, LLM_RESPONDED}
      then {n. 0 < n \<and> as_int (dget (ev_payload e) ''iteration'' PNone) = Some n} else {})"

definition listed_ids :: "pyval list \<Rightarrow> string set" where
  "listed_ids tcs = {s. s \<noteq> [] \<and> (\<exists>d. PDict d \<in> set tcs \<and> dget d ''call_id'' PNone = PStr s)}"

definition event_call_ids :: "checkpoint_event \<Rightarrow> string set" where
  "event_call_ids e =
     (case dget (ev_payload e) ''tool_calls'' PNone of
        PList tcs \<Rightarrow> if ev_type e = LLM_RESPONDED then listed_ids tcs else {}
      | _ \<Rightarrow> {}) \<union>
     (if ev_type e \<in> {TOOL_ATTEMPT_STARTED, TOOL_RESULT_RECEIVED, TOOL_ATTEMPT_ENDED}
      then {s. s \<noteq> [] \<and> dget (ev_payload e) ''call_id'' PNone = PStr s} else {})"

definition str_or_none :: "pyval \<Rightarrow> bool" where
  "str_or_none v \<longleftrightarrow> v = PNone \<or> (\<exists>s. v = PStr s)"

definition string_call_ids :: "checkpoint_event \<Rightarrow> bool" where
  "string_call_ids e \<longleftrightarrow>
     str_or_none (dget (ev_payload e) ''call_id'' PNone) \<and>
     (\<forall>tcs d. dget (ev_payload e) ''tool_calls'' PNone = PList tcs \<and> PDict d \<in> set tcs \<longrightarrow>
        str_or_none (dget d ''call_id'' PNone))"

text \<open>A list that stands for a set of strings.\<close>

definition str_set :: "pyval list \<Rightarrow> string set \<Rightarrow> bool" where
  "str_set l A \<longleftrightarrow> distinct l \<and> set l = PStr ` A"

lemma str_set_length: "str_set l A \<Longrightarrow> length l = card A"
  by (metis card_image distinct_card inj_onI pyval.inject(4) str_set_def)

lemma py_in_str_set: "str_set l A \<Longrightarrow> py_in (PStr s) l \<longleftrightarrow> s \<in> A"
  by (auto simp: str_set_def py_in_def list_ex_iff py_key_eq_def)

lemma set_add_str_set:
  assumes "str_set l A"
  shows "\<exists>l'. set_add (PStr s) l = Inr l' \<and> str_set l' (insert s A)"
proof (cases "s \<in> A")
  case True
  with assms show ?thesis by (auto simp: set_add_def py_in_str_set insert_absorb)
next
  case False
  with assms show ?thesis by (auto simp: set_add_def py_in_str_set str_set_def)
qed

lemma add_listed_call_str_set:
  assumes "str_set l A" "\<And>d. tc = PDict d \<Longrightarrow> str_or_none (dget d ''call_id'' PNone)"
  shows "\<exists>l'. add_listed_call tc l = Inr l' \<and> str_set l' (A \<union> listed_ids [tc])"
proof (cases tc)
  case (PDict d)
  with assms(2) consider "dget d ''call_id'' PNone = PNone" | s where "dget d ''call_id'' PNone = PStr s"
    by (auto simp: str_or_none_def)
  then show ?thesis
  proof cases
    case 1
    with PDict assms(1) show ?thesis by (simp add: add_listed_call_def listed_ids_def)
  next
    case (2 s)
    then have "listed_ids [tc] = (if s = [] then {} else {s})"
      using PDict by (auto simp: listed_ids_def)
    with 2 PDict assms(1) set_add_str_set [OF assms(1), of s] show ?thesis
      by (auto simp: add_listed_call_def)
  qed
qed (use assms(1) in \<open>auto simp: add_listed_call_def listed_ids_def\<close>)

lemma add_listed_calls_str_set:
  assumes "str_set l A" "\<And>d. PDict d \<in> set tcs \<Longrightarrow> str_or_none (dget d ''call_id'' PNone)"
  shows "\<exists>l'. fold_result add_listed_call tcs l = Inr l' \<and> str_set l' (A \<union> listed_ids tcs)"
  using assms
proof (induction tcs arbitrary: l A)
  case Nil
  then show ?case by (simp add: listed_ids_def)
next
  case (Cons tc tcs)
  then obtain l1 where l1: "add_listed_call tc l = Inr l1" "str_set l1 (A \<union> listed_ids [tc])"
    using add_listed_call_str_set [of l A tc] by auto
  have "A \<union> listed_ids [tc] \<union> listed_ids tcs = A \<union> listed_ids (tc # tcs)"
    by (auto simp: listed_ids_def)
  with Cons.IH [OF l1(2)] Cons.prems(2) l1(1) show ?case by auto
qed

lemma usage_step_str_set:
  assumes "str_set ids A" "string_call_ids e"
  shows "\<exists>ids'. usage_step e (its, ids) = Inr (add_iteration e its, ids') \<and>
           str_set ids' (A \<union> event_call_ids e)"
proof -
  define B where "B = (case dget (ev_payload e) ''tool_calls'' PNone of
    PList tcs \<Rightarrow> if ev_type e = LLM_RESPONDED then listed_ids tcs else {} | _ \<Rightarrow> {})"
  have "\<exists>l. add_responded_calls e ids = Inr l \<and> str_set l (A \<union> B)"
    using assms add_listed_calls_str_set [OF assms(1)]
    by (cases "dget (ev_payload e) ''tool_calls'' PNone")
      (auto simp: add_responded_calls_def B_def string_call_ids_def)
  then obtain l where l: "add_responded_calls e ids = Inr l" "str_set l (A \<union> B)" by blast
  from assms(2) consider "dget (ev_payload e) ''call_id'' PNone = PNone"
    | s where "dget (ev_payload e) ''call_id'' PNone = PStr s"
    by (auto simp: string_call_ids_def str_or_none_def)
  then have "\<exists>l'. add_executed_call e l = Inr l' \<and> str_set l' (A \<union> event_call_ids e)"
  proof cases
    case 1
    then have "event_call_ids e = B" by (simp add: event_call_ids_def B_def)
    with 1 l show ?thesis by (simp add: add_executed_call_def Let_def)
  next
    case (2 s)
    then have "event_call_ids e = B \<union>
        (if ev_type e \<in> {TOOL_ATTEMPT_STARTED, TOOL_RESULT_RECEIVED, TOOL_ATTEMPT_ENDED} \<and> s \<noteq> []
         then {s} else {})"
      by (auto simp: event_call_ids_def B_def [symmetric])
    with 2 l set_add_str_set [OF l(2), of s] show ?thesis
      by (auto simp: add_executed_call_def Let_def)
  qed
  with l(1) show ?thesis by (auto simp: usage_step_def)
qed

lemma set_add_iteration: "set (add_iteration e its) = set its \<union> event_iterations e"
  by (auto simp: add_iteration_def event_iterations_def split: option.splits)

lemma usage_fold:
  assumes "\<forall>e \<in> set evs. string_call_ids e" "str_set ids A" "set its = I"
  shows "\<exists>its' ids'. fold_result usage_step evs (its, ids) = Inr (its', ids') \<and>
           set its' = I \<union> (\<Union>e \<in> set evs. event_iterations e) \<and>
           str_set ids' (A \<union> (\<Union>e \<in> set evs. event_call_ids e))"
  using assms
proof (induction evs arbitrary: its ids A I)
  case Nil
  then show ?case by simp
next
  case (Cons e evs)
  obtain ids1 where s: "usage_step e (its, ids) = Inr (add_iteration e its, ids1)"
    "str_set ids1 (A \<union> event_call_ids e)"
    using usage_step_str_set [of ids A e its] Cons.prems by auto
  have "set (add_iteration e its) = I \<union> event_iterations e"
    using Cons.prems by (simp add: set_add_iteration)
  from Cons.IH [OF _ s(2) this] Cons.prems s(1) show ?case
    by (auto simp: Un_assoc)
qed

lemma reconstruct_usage_spec:
  assumes "\<forall>e \<in> set evs. string_call_ids e"
  shows "\<exists>u. reconstruct_usage evs = Inr u \<and>
     bu_iterations_used u =
       (let I = (\<Union>e \<in> set evs. event_iterations e) in if I = {} then 0 else Max I) \<and>
     bu_tool_calls_used u = int (card (\<Union>e \<in> set evs. event_call_ids e)) \<and>
     set (bu_seen_tool_call_ids u) = PStr ` (\<Union>e \<in> set evs. event_call_ids e)"
proof -
  have "str_set [] {}" by (simp add: str_set_def)
  then obtain its' ids' where
    f: "fold_result usage_step evs ([], []) = Inr (its', ids')"
    "set its' = (\<Union>e \<in> set evs. event_iterations e)"
    "str_set ids' (\<Union>e \<in> set evs. event_call_ids e)"
    using usage_fold [OF assms, of "[]" "{}" "[]" "{}"] by auto
  then show ?thesis using str_set_length [OF f(3)]
    by (cases "its' = []") (auto simp: reconstruct_usage_def Let_def str_set_def)
qed

end
