(* ===== verification/Replay_Engine.thy ===== *)
theory Replay_Engine
  imports Checkpoint Run_Budget
begin

text \<open>
  \<open>src/agent/replay_engine.py\<close>: reading the events of one run from the checkpoint file and rebuilding
  the session (messages, completed and pending tool calls, state) from them. Both operations take
  the file as it is and return a value; neither can change it. \<open>md5_hex\<close> is the digest used by
  \<open>ToolCall\<close>; \<open>read_ok\<close> says whether the file could be read.
\<close>

section \<open>Dictionaries keyed by dynamic values\<close>

fun pd_set :: "pyval \<Rightarrow> 'v \<Rightarrow> (pyval \<times> 'v) list \<Rightarrow> (pyval \<times> 'v) list" where
  "pd_set k v [] = [(k, v)]"
| "pd_set k v ((k', w) # d) = (if py_key_eq k k' then (k', v) # d else (k', w) # pd_set k v d)"

definition pd_put :: "pyval \<Rightarrow> 'v \<Rightarrow> (pyval \<times> 'v) list \<Rightarrow> exn + (pyval \<times> 'v) list" where
  "pd_put k v d = (if hashable k then Inr (pd_set k v d) else Inl (TypeError ''unhashable type''))"

text \<open>\<open>d.pop(k, None)\<close> does not even hash the key of an empty dictionary.\<close>

definition pd_pop :: "pyval \<Rightarrow> (pyval \<times> 'v) list \<Rightarrow> exn + (pyval \<times> 'v) list" where
  "pd_pop k d =
     (if d = [] then Inr []
      else if hashable k then Inr (filter (\<lambda>(k', _). \<not> py_key_eq k k') d)
      else Inl (TypeError ''unhashable type''))"

section \<open>Loading\<close>

definition load_event_line ::
  "string \<Rightarrow> nat \<times> line \<Rightarrow> checkpoint_event list \<Rightarrow> exn + checkpoint_event list" where
  "load_event_line run_id nl evs =
     (case snd nl of
        Blank \<Rightarrow> Inr evs
      | Malformed \<Rightarrow> Inl (CheckpointCorruptionError (PStr run_id) (Some (fst nl)) (InvalidJsonLine (fst nl)))
      | Json v \<Rightarrow> bind_result (event_from_dict v (Some (fst nl))) (\<lambda>e. Inr (evs @ [e])))"

definition load_events_for_run ::
  "bool \<Rightarrow> jsonl option \<Rightarrow> string \<Rightarrow> exn + checkpoint_event list" where
  "load_events_for_run read_ok f run_id =
     (case f of
        None \<Rightarrow> Inr []
      | Some j \<Rightarrow>
          if \<not> read_ok then Inl (CheckpointCorruptionError (PStr run_id) None ReadFailed)
          else
            bind_result (fold_result (load_event_line run_id) (List.enumerate 1 (jl_lines j)) []) (\<lambda>all_events.
            bind_result (validate_event_sequence all_events) (\<lambda>_.
            Inr (run_events run_id all_events))))"

section \<open>Replaying\<close>

record session =
  se_run_id :: string
  se_system_prompt :: pyval
  se_user_prompt :: pyval
  se_messages :: "llm_message list"
  se_last_state :: run_state
  se_completed :: "(pyval \<times> tool_result) list"
  se_pending :: "(pyval \<times> tool_call) list"
  se_next_sequence_id :: int
  se_last_event :: "checkpoint_event option"

definition empty_session :: "string \<Rightarrow> session" where
  "empty_session run_id =
     \<lparr>se_run_id = run_id, se_system_prompt = PStr [], se_user_prompt = PStr [], se_messages = [],
      se_last_state = PENDING, se_completed = [], se_pending = [], se_next_sequence_id = 1,
      se_last_event = None\<rparr>"

definition mk_message :: "message_role \<Rightarrow> content \<Rightarrow> llm_message" where
  "mk_message role c =
     \<lparr>msg_role = role, msg_content = c, msg_tool_call_id = PNone, msg_tool_name = PNone, msg_tool_calls = []\<rparr>"

definition replay_start :: "pydict \<Rightarrow> session \<Rightarrow> session" where
  "replay_start p s =
     (let sp = dget p ''system_prompt'' (dget p ''task_context'' (PStr []));
          up = dget p ''user_prompt'' (PStr [])
      in s\<lparr>se_system_prompt := sp, se_user_prompt := up,
           se_messages := [mk_message SYSTEM (Val sp), mk_message USER (Val up)]\<rparr>)"

text \<open>One entry of \<open>tool_calls\<close>; indexing anything but a dictionary with a string is a \<open>TypeError\<close>.\<close>

definition replay_tool_call ::
  "(string \<Rightarrow> pyval \<Rightarrow> string) \<Rightarrow> string \<Rightarrow> pyval
     \<Rightarrow> assistant_tool_call list \<times> (pyval \<times> tool_call) list
     \<Rightarrow> exn + assistant_tool_call list \<times> (pyval \<times> tool_call) list" where
  "replay_tool_call md5_hex run_id tc st =
     (case tc of
        PDict d \<Rightarrow>
          bind_result (dindex d ''call_id'') (\<lambda>cid.
          bind_result (dindex d ''name'') (\<lambda>name.
          let args = dget d ''arguments'' (PDict []) in
          bind_result (mk_tool_call md5_hex name args cid run_id) (\<lambda>call.
          let call = (if has_key d ''idempotency_key''
                      then call\<lparr>tc_idempotency_key := dget d ''idempotency_key'' PNone\<rparr> else call) in
          bind_result (pd_put cid call (snd st)) (\<lambda>pending.
          Inr (fst st @ [\<lparr>atc_call_id = cid, atc_name = name, atc_arguments = args\<rparr>], pending)))))
      | _ \<Rightarrow> Inl (TypeError ''indices must be integers''))"

definition replay_responded ::
  "(string \<Rightarrow> pyval \<Rightarrow> string) \<Rightarrow> string \<Rightarrow> pydict \<Rightarrow> session \<Rightarrow> exn + session" where
  "replay_responded md5_hex run_id p s =
     bind_result (iter_items (dget p ''tool_calls'' (PList []))) (\<lambda>tcs.
     bind_result (fold_result (replay_tool_call md5_hex run_id) tcs ([], se_pending s)) (\<lambda>(atcs, pending).
     Inr (s\<lparr>se_pending := pending,
            se_messages := se_messages s @
              [(mk_message ASSISTANT (Val (dget p ''content'' PNone)))\<lparr>msg_tool_calls := atcs\<rparr>]\<rparr>)))"

definition replayed_result :: "string \<Rightarrow> pydict \<Rightarrow> pyval \<Rightarrow> exn + tool_result" where
  "replayed_result run_id p call_id =
     (let rd = dget p ''result'' (PDict []); st = dget p ''status'' (PStr ''success'')
      in case rd of
           PDict d \<Rightarrow>
             if has_key d ''call_id'' then tool_result_from_dict d
             else (case parse_tool_status st of
                     None \<Rightarrow> Inl (ValueError ''status'')
                   | Some t \<Rightarrow>
                       Inr \<lparr>tr_call_id = call_id, tr_run_id = PStr run_id,
                            tr_tool_name = dget p ''tool_name'' (PStr []), tr_status = t,
                            tr_data = dget d ''data'' PNone, tr_error = None,
                            tr_duration_ms = PInt 0, tr_logs = PList []\<rparr>)
         | _ \<Rightarrow>
             (case parse_tool_status st of
                None \<Rightarrow> Inl (ValueError ''status'')
              | Some t \<Rightarrow>
                  Inr \<lparr>tr_call_id = call_id, tr_run_id = PStr run_id,
                       tr_tool_name = dget p ''tool_name'' (PStr []), tr_status = t,
                       tr_data = rd, tr_error = None,
                       tr_duration_ms = PInt 0, tr_logs = PList []\<rparr>))"

definition tool_response_content :: "tool_result \<Rightarrow> pydict" where
  "tool_response_content r =
     [(''status'', PStr (tool_status_value (tr_status r))), (''data'', tr_data r)]
     @ (case tr_error r of
          Some e \<Rightarrow> [(''error'', PDict [(''code'', ae_code e), (''message'', ae_message e)])]
        | None \<Rightarrow> [])"

definition tool_message :: "pyval \<Rightarrow> tool_result \<Rightarrow> llm_message" where
  "tool_message call_id r =
     \<lparr>msg_role = TOOL, msg_content = Dumped (tool_response_content r), msg_tool_call_id = call_id,
      msg_tool_name = tr_tool_name r, msg_tool_calls = []\<rparr>"

definition replay_result :: "string \<Rightarrow> pydict \<Rightarrow> session \<Rightarrow> exn + session" where
  "replay_result run_id p s =
     (let call_id = dget p ''call_id'' (PStr []) in
      bind_result (pd_pop call_id (se_pending s)) (\<lambda>pending.
      bind_result (replayed_result run_id p call_id) (\<lambda>r.
      bind_result (pd_put call_id r (se_completed s)) (\<lambda>completed.
      Inr (s\<lparr>se_pending := pending, se_completed := completed,
             se_messages := se_messages s @ [tool_message call_id r]\<rparr>)))))"

definition replay_event ::
  "(string \<Rightarrow> pyval \<Rightarrow> string) \<Rightarrow> string \<Rightarrow> checkpoint_event \<Rightarrow> session \<Rightarrow> exn + session" where
  "replay_event md5_hex run_id e s =
     bind_result (validate_state_transition (se_last_state s) e) (\<lambda>st.
       let s = s\<lparr>se_last_state := st\<rparr>; p = ev_payload e; t = ev_type e
       in if t \<in> {TASK_START, RUN_STARTED} then Inr (replay_start p s)
          else if t = LLM_RESPONDED then replay_responded md5_hex run_id p s
          else if t = TOOL_RESULT_RECEIVED then replay_result run_id p s
          else Inr s)"

definition reconstruct_session ::
  "(string \<Rightarrow> pyval \<Rightarrow> string) \<Rightarrow> bool \<Rightarrow> jsonl option \<Rightarrow> string \<Rightarrow> exn + session" where
  "reconstruct_session md5_hex read_ok f run_id =
     bind_result (load_events_for_run read_ok f run_id) (\<lambda>evs.
       if evs = [] then Inr (empty_session run_id)
       else bind_result (fold_result (replay_event md5_hex run_id) evs (empty_session run_id)) (\<lambda>s.
              Inr (s\<lparr>se_next_sequence_id := Max (set (map ev_sequence_id evs)) + 1,
                     se_last_event := Some (last evs)\<rparr>)))"

text \<open>\<open>RunBudgetEngine.reconstruct_from_db\<close> of \<open>src/core/run_budget.py\<close>\<close>

definition reconstruct_from_db :: "bool \<Rightarrow> jsonl option \<Rightarrow> string \<Rightarrow> exn + budget_usage" where
  "reconstruct_from_db read_ok f run_id = bind_result (load_events_for_run read_ok f run_id) reconstruct_usage"

section \<open>Replaying a well-formed log\<close>

lemma load_event_lines:
  "(\<forall>e \<in> set evs. wf_event e) \<Longrightarrow>
     fold_result (load_event_line r) (List.enumerate n (map event_line evs)) acc = Inr (acc @ evs)"
  by (induction evs arbitrary: n acc) (auto simp: load_event_line_def event_line_def)

lemma load_events_log:
  assumes "log_repr f evs"
  shows "load_events_for_run True f r = Inr (run_events r evs)"
proof (cases f)
  case None
  with assms show ?thesis by (simp add: load_events_for_run_def log_repr_def file_lines_def)
next
  case (Some j)
  with assms have "jl_lines j = map event_line evs" "\<forall>e \<in> set evs. wf_event e"
    "validate_event_sequence evs = Inr ()"
    by (auto simp: log_repr_def file_lines_def wf_log_def validate_event_sequence_iff)
  with Some show ?thesis by (simp add: load_events_for_run_def load_event_lines)
qed

lemma replay_event_state:
  "replay_event md5 r e s = Inr s' \<Longrightarrow> validate_state_transition (se_last_state s) e = Inr (se_last_state s')"
  by (auto simp: replay_event_def bind_result_Inr_iff replay_start_def replay_responded_def replay_result_def
           Let_def split: if_splits)

lemma replay_fold_state:
  "fold_result (replay_event md5 r) evs s = Inr s' \<Longrightarrow> run_transitions evs (se_last_state s) = Inr (se_last_state s')"
  by (induction evs arbitrary: s) (auto simp: bind_result_Inr_iff dest: replay_event_state)

text \<open>Whatever the file holds: a successful replay ends in the state the state machine assigns.\<close>

lemma reconstruct_session_state:
  assumes "load_events_for_run ok f r = Inr evs" "reconstruct_session md5 ok f r = Inr s"
  shows "run_transitions evs PENDING = Inr (se_last_state s)"
  using assms
  by (cases "evs = []")
    (auto simp: reconstruct_session_def bind_result_Inr_iff empty_session_def dest!: replay_fold_state)

section \<open>Pending and completed calls\<close>

definition requests :: "checkpoint_event \<Rightarrow> string \<Rightarrow> bool" where
  "requests e c \<longleftrightarrow>
     ev_type e = LLM_RESPONDED \<and>
     (\<exists>tcs d. iter_items (dget (ev_payload e) ''tool_calls'' (PList [])) = Inr tcs \<and> PDict d \<in> set tcs \<and>
        map_of d ''call_id'' = Some (PStr c))"

definition answers :: "checkpoint_event \<Rightarrow> string \<Rightarrow> bool" where
  "answers e c \<longleftrightarrow>
     ev_type e = TOOL_RESULT_RECEIVED \<and> dget (ev_payload e) ''call_id'' (PStr []) = PStr c"

definition unanswered :: "checkpoint_event list \<Rightarrow> string \<Rightarrow> bool" where
  "unanswered evs c \<longleftrightarrow> (\<exists>xs e ys. evs = xs @ e # ys \<and> requests e c \<and> (\<forall>e' \<in> set ys. \<not> answers e' c))"

lemma py_norm_str: "py_norm v = PStr c \<longleftrightarrow> v = PStr c"
  by (cases v rule: py_norm.cases) auto

lemma py_key_eq_str [simp]:
  "py_key_eq (PStr c) v \<longleftrightarrow> v = PStr c" "py_key_eq v (PStr c) \<longleftrightarrow> v = PStr c"
  using py_norm_str [of v c] by (auto simp: py_key_eq_def)

lemma pd_set_ids: "PStr c \<in> fst ` set (pd_set k v d) \<longleftrightarrow> k = PStr c \<or> PStr c \<in> fst ` set d"
  by (induction k v d rule: pd_set.induct) (auto split: if_splits)

lemma pd_put_ids:
  "pd_put k v d = Inr d' \<Longrightarrow> PStr c \<in> fst ` set d' \<longleftrightarrow> k = PStr c \<or> PStr c \<in> fst ` set d"
  using pd_set_ids [of c k v d] by (simp add: pd_put_def split: if_splits)

lemma pd_pop_ids:
  "pd_pop k d = Inr d' \<Longrightarrow> PStr c \<in> fst ` set d' \<longleftrightarrow> k \<noteq> PStr c \<and> PStr c \<in> fst ` set d"
  by (force simp: pd_pop_def split: if_splits)

lemma replay_tool_call_ids:
  assumes "replay_tool_call md5 r tc st = Inr st'"
  shows "PStr c \<in> fst ` set (snd st') \<longleftrightarrow>
    (\<exists>d. tc = PDict d \<and> map_of d ''call_id'' = Some (PStr c)) \<or> PStr c \<in> fst ` set (snd st)"
proof (cases tc)
  case (PDict d)
  with assms obtain cid call where "map_of d ''call_id'' = Some cid" "pd_put cid call (snd st) = Inr (snd st')"
    by (auto simp: replay_tool_call_def bind_result_Inr_iff dindex_def Let_def split: option.splits if_splits)
  with pd_put_ids [of cid call "snd st" "snd st'" c] PDict show ?thesis by auto
qed (use assms in \<open>auto simp: replay_tool_call_def\<close>)

lemma replay_tool_calls_ids:
  "fold_result (replay_tool_call md5 r) tcs st = Inr st' \<Longrightarrow>
     PStr c \<in> fst ` set (snd st') \<longleftrightarrow>
       (\<exists>d. PDict d \<in> set tcs \<and> map_of d ''call_id'' = Some (PStr c)) \<or> PStr c \<in> fst ` set (snd st)"
proof (induction tcs arbitrary: st)
  case (Cons tc tcs)
  then obtain st1 where "replay_tool_call md5 r tc st = Inr st1"
    "fold_result (replay_tool_call md5 r) tcs st1 = Inr st'"
    by (auto simp: bind_result_Inr_iff)
  with Cons.IH [of st1] replay_tool_call_ids [of md5 r tc st st1 c] show ?case by auto
qed simp

lemma replay_event_pending:
  assumes "replay_event md5 r e s = Inr s'"
  shows "PStr c \<in> fst ` set (se_pending s') \<longleftrightarrow>
    requests e c \<or> PStr c \<in> fst ` set (se_pending s) \<and> \<not> answers e c"
proof -
  consider "ev_type e = LLM_RESPONDED" | "ev_type e = TOOL_RESULT_RECEIVED"
    | "ev_type e \<notin> {LLM_RESPONDED, TOOL_RESULT_RECEIVED}" by auto
  then show ?thesis
  proof cases
    case 1
    then obtain tcs atcs where tcs: "iter_items (dget (ev_payload e) ''tool_calls'' (PList [])) = Inr tcs"
      "fold_result (replay_tool_call md5 r) tcs ([], se_pending s) = Inr (atcs, se_pending s')"
      using assms by (auto simp: replay_event_def replay_responded_def bind_result_Inr_iff Let_def)
    from replay_tool_calls_ids [OF tcs(2), of c] 1 tcs(1) show ?thesis
      by (auto simp: requests_def answers_def)
  next
    case 2
    then have "pd_pop (dget (ev_payload e) ''call_id'' (PStr [])) (se_pending s) = Inr (se_pending s')"
      using assms by (auto simp: replay_event_def replay_result_def bind_result_Inr_iff Let_def)
    from pd_pop_ids [OF this, of c] 2 show ?thesis by (auto simp: requests_def answers_def)
  next
    case 3
    then have "se_pending s' = se_pending s"
      using assms by (auto simp: replay_event_def replay_start_def bind_result_Inr_iff Let_def split: if_splits)
    with 3 show ?thesis by (auto simp: requests_def answers_def)
  qed
qed

lemma replay_event_completed:
  assumes "replay_event md5 r e s = Inr s'"
  shows "PStr c \<in> fst ` set (se_completed s') \<longleftrightarrow> answers e c \<or> PStr c \<in> fst ` set (se_completed s)"
proof (cases "ev_type e = TOOL_RESULT_RECEIVED")
  case True
  then obtain t where
    "pd_put (dget (ev_payload e) ''call_id'' (PStr [])) t (se_completed s) = Inr (se_completed s')"
    using assms by (auto simp: replay_event_def replay_result_def bind_result_Inr_iff Let_def)
  from pd_put_ids [OF this, of c] True show ?thesis by (auto simp: answers_def)
next
  case False
  then have "se_completed s' = se_completed s"
    using assms by (auto simp: replay_event_def replay_start_def replay_responded_def bind_result_Inr_iff
        Let_def split: if_splits)
  with False show ?thesis by (auto simp: answers_def)
qed

lemma unanswered_snoc: "unanswered (evs @ [e]) c \<longleftrightarrow> requests e c \<or> unanswered evs c \<and> \<not> answers e c"
proof
  assume "unanswered (evs @ [e]) c"
  then obtain xs x ys where x: "evs @ [e] = xs @ x # ys" "requests x c" "\<forall>e' \<in> set ys. \<not> answers e' c"
    by (auto simp: unanswered_def)
  then show "requests e c \<or> unanswered evs c \<and> \<not> answers e c"
    by (cases ys rule: rev_cases) (auto simp: unanswered_def)
next
  assume "requests e c \<or> unanswered evs c \<and> \<not> answers e c"
  then show "unanswered (evs @ [e]) c"
  proof
    assume "unanswered evs c \<and> \<not> answers e c"
    then obtain xs x ys where "evs = xs @ x # ys" "requests x c" "\<forall>e' \<in> set ys. \<not> answers e' c" "\<not> answers e c"
      by (auto simp: unanswered_def)
    then show ?thesis unfolding unanswered_def
      by (intro exI [of _ xs] exI [of _ x] exI [of _ "ys @ [e]"]) auto
  next
    assume "requests e c"
    then show ?thesis unfolding unanswered_def
      by (intro exI [of _ evs] exI [of _ e] exI [of _ "[]"]) simp
  qed
qed

lemma replay_fold_calls:
  assumes "fold_result (replay_event md5 r) evs (empty_session r) = Inr s"
  shows "(PStr c \<in> fst ` set (se_pending s) \<longleftrightarrow> unanswered evs c) \<and>
         (PStr c \<in> fst ` set (se_completed s) \<longleftrightarrow> (\<exists>e \<in> set evs. answers e c))"
  using assms
proof (induction evs arbitrary: s rule: rev_induct)
  case Nil
  then show ?case by (auto simp: empty_session_def unanswered_def)
next
  case (snoc e evs)
  then obtain u where u: "fold_result (replay_event md5 r) evs (empty_session r) = Inr u" "replay_event md5 r e u = Inr s"
    by (auto simp: fold_result_snoc_Inr)
  from snoc.IH [OF u(1)] replay_event_pending [OF u(2), of c] replay_event_completed [OF u(2), of c]
  show ?case by (auto simp: unanswered_snoc)
qed

lemma reconstruct_session_calls:
  assumes "load_events_for_run ok f r = Inr evs" "reconstruct_session md5 ok f r = Inr s"
  shows "(PStr c \<in> fst ` set (se_pending s) \<longleftrightarrow> unanswered evs c) \<and>
         (PStr c \<in> fst ` set (se_completed s) \<longleftrightarrow> (\<exists>e \<in> set evs. answers e c))"
proof (cases "evs = []")
  case True
  with assms show ?thesis by (auto simp: reconstruct_session_def empty_session_def unanswered_def)
next
  case False
  with assms obtain u where u: "fold_result (replay_event md5 r) evs (empty_session r) = Inr u"
    "se_pending s = se_pending u" "se_completed s = se_completed u"
    by (auto simp: reconstruct_session_def bind_result_Inr_iff)
  from replay_fold_calls [OF u(1), of c] u(2,3) show ?thesis by simp
qed

end
