(* ===== verification/Idempotency_Contract.thy ===== *)
theory Idempotency_Contract
  imports Core_Types "HOL-Library.List_Lexorder" "HOL-Library.Char_ord"
begin

text \<open>
  \<open>src/core/idempotency_contract.py\<close>: the composite \<open>RecordKey\<close> with its canonical string, the
  record with its dictionary form, the result of a claim, and the protocol of a store. The protocol
  is given twice: as a specification on maps (\<open>spec_claim\<close>, \<open>spec_transition\<close>) and as the locale
  \<open>idempotency_store\<close>, whose laws say that an implementation behaves like that specification and
  whose lemmas follow any interleaving of calls.
\<close>

section \<open>Keys and their canonical form\<close>

text \<open>\<open>RecordKey.__post_init__\<close>\<close>

definition mk_record_key :: "pyval \<Rightarrow> pyval \<Rightarrow> exn + record_key" where
  "mk_record_key op idem =
     (case op of
        PStr o' \<Rightarrow>
          (case idem of
             PStr i \<Rightarrow>
               if o' = [] then Inl (ValueError ''operation_key cannot be empty'')
               else if i = [] then Inl (ValueError ''idempotency_key cannot be empty'')
               else Inr \<lparr>operation_key = o', idempotency_key = i\<rparr>
           | _ \<Rightarrow> Inl (TypeError ''idempotency_key must be str''))
      | _ \<Rightarrow> Inl (TypeError ''operation_key must be str''))"

definition wf_key :: "record_key \<Rightarrow> bool" where
  "wf_key k \<longleftrightarrow> operation_key k \<noteq> [] \<and> idempotency_key k \<noteq> []"

lemma mk_record_key_wf [simp]:
  "wf_key k \<Longrightarrow> mk_record_key (PStr (operation_key k)) (PStr (idempotency_key k)) = Inr k"
  by (simp add: mk_record_key_def wf_key_def)

lemma mk_record_key_Inr: "mk_record_key a b = Inr k \<Longrightarrow> wf_key k"
  by (cases a; cases b) (auto simp: mk_record_key_def wf_key_def split: if_splits)

text \<open>
  The string literal \<open>json.dumps\<close> writes. Quotes, backslashes and control characters are escaped;
  with \<open>ensure_ascii\<close> everything beyond \<open>~\<close> is escaped as well.
\<close>

definition hex_digit :: "nat \<Rightarrow> char" where
  "hex_digit n = ''0123456789abcdef'' ! n"

definition unicode_escape :: "nat \<Rightarrow> string" where
  "unicode_escape n = [CHR 0x5C, CHR ''u'', CHR ''0'', CHR ''0'', hex_digit (n div 16), hex_digit (n mod 16)]"

definition short_escape :: "char \<Rightarrow> char option" where
  "short_escape c =
     map_of [(CHR 0x22, CHR 0x22), (CHR 0x5C, CHR 0x5C), (CHR 0x08, CHR ''b''), (CHR 0x0C, CHR ''f''),
             (CHR 0x0A, CHR ''n''), (CHR 0x0D, CHR ''r''), (CHR 0x09, CHR ''t'')] c"

definition json_char :: "bool \<Rightarrow> char \<Rightarrow> string" where
  "json_char ensure_ascii c =
     (case short_escape c of
        Some e \<Rightarrow> [CHR 0x5C, e]
      | None \<Rightarrow>
          if (of_char c :: nat) < 32 \<or> (ensure_ascii \<and> 126 < (of_char c :: nat))
          then unicode_escape (of_char c) else [c])"

definition json_str :: "bool \<Rightarrow> string \<Rightarrow> string" where
  "json_str ensure_ascii s = CHR 0x22 # concat (map (json_char ensure_ascii) s) @ [CHR 0x22]"

text \<open>\<open>RecordKey.canonical\<close>\<close>

definition canonical :: "record_key \<Rightarrow> string" where
  "canonical k =
     CHR ''['' # json_str False (operation_key k) @ CHR '','' # json_str False (idempotency_key k) @ [CHR '']'']"

text \<open>The escapes form a prefix code that never starts with the closing quote.\<close>

lemma hex_digit_inj: "m < 16 \<Longrightarrow> n < 16 \<Longrightarrow> hex_digit m = hex_digit n \<longleftrightarrow> m = n"
proof -
  assume "m < 16" "n < 16"
  moreover have "distinct ''0123456789abcdef''" by simp
  ultimately show ?thesis unfolding hex_digit_def
    by (subst nth_eq_iff_index_eq) simp_all
qed

lemma unicode_escape_inj:
  assumes "m < 256" "n < 256" "unicode_escape m = unicode_escape n"
  shows "m = n"
proof -
  from assms have "m div 16 = n div 16" "m mod 16 = n mod 16"
    by (auto simp: unicode_escape_def hex_digit_inj)
  then show ?thesis by (metis div_mult_mod_eq)
qed

lemma short_escape_Some:
  "short_escape c = Some e \<Longrightarrow> (c, e) \<in> set [(CHR 0x22, CHR 0x22), (CHR 0x5C, CHR 0x5C),
     (CHR 0x08, CHR ''b''), (CHR 0x0C, CHR ''f''), (CHR 0x0A, CHR ''n''), (CHR 0x0D, CHR ''r''),
     (CHR 0x09, CHR ''t'')]"
  unfolding short_escape_def by (drule map_of_SomeD)

lemma json_char_cases:
  obtains (short) e where "short_escape c = Some e" "json_char a c = [CHR 0x5C, e]" "e \<noteq> CHR ''u''"
  | (unicode) "short_escape c = None" "json_char a c = unicode_escape (of_char c)"
  | (plain) "short_escape c = None" "json_char a c = [c]" "c \<noteq> CHR 0x22" "c \<noteq> CHR 0x5C"
proof (cases "short_escape c")
  case None
  then have "c \<noteq> CHR 0x22" "c \<noteq> CHR 0x5C" by (auto simp: short_escape_def)
  with None show ?thesis by (cases "json_char a c = [c]") (auto simp: json_char_def intro: that split: if_splits)
next
  case (Some e)
  with short_escape_Some [OF Some] show ?thesis by (auto simp: json_char_def intro: that)
qed

lemma json_char_prefix_code:
  assumes "json_char a c @ r = json_char a d @ s"
  shows "c = d \<and> r = s"
proof -
  have short: "short_escape c = Some e \<Longrightarrow> short_escape d = Some e \<Longrightarrow> c = d" for e
    by (drule short_escape_Some, drule short_escape_Some) auto
  have uni: "hex_digit (of_char c div 16) = hex_digit (of_char d div 16) \<Longrightarrow>
      hex_digit (of_char c mod 16) = hex_digit (of_char d mod 16) \<Longrightarrow> c = d"
    using unicode_escape_inj [of "of_char c" "of_char d"] by (simp add: unicode_escape_def)
  show ?thesis
    using assms
    by (cases a c rule: json_char_cases; cases a d rule: json_char_cases)
      (auto dest: short uni simp: unicode_escape_def [of "of_char c"] unicode_escape_def [of "of_char d"])
qed

lemma json_char_no_quote: "json_char a c \<noteq> [] \<and> hd (json_char a c) \<noteq> CHR 0x22"
  by (cases a c rule: json_char_cases) (auto simp: unicode_escape_def)

lemma json_chars_inj:
  "concat (map (json_char a) s) @ CHR 0x22 # r = concat (map (json_char a) t) @ CHR 0x22 # q
     \<Longrightarrow> s = t \<and> r = q"
proof (induction s arbitrary: t)
  case Nil
  show ?case
  proof (cases t)
    case (Cons d t')
    with Nil json_char_no_quote [of a d] show ?thesis by (cases "json_char a d") auto
  qed (use Nil in simp)
next
  case (Cons c s)
  show ?case
  proof (cases t)
    case Nil
    with Cons.prems json_char_no_quote [of a c] show ?thesis by (cases "json_char a c") auto
  next
    case (Cons d t')
    with Cons.prems json_char_prefix_code [of a c _ d]
    have "c = d" "concat (map (json_char a) s) @ CHR 0x22 # r = concat (map (json_char a) t') @ CHR 0x22 # q"
      by fastforce+
    with Cons.IH Cons show ?thesis by blast
  qed
qed

lemma canonical_inj: "canonical k = canonical k' \<Longrightarrow> k = k'"
proof -
  assume "canonical k = canonical k'"
  then have "concat (map (json_char False) (operation_key k)) @ CHR 0x22 #
        (CHR '','' # json_str False (idempotency_key k) @ [CHR '']''])
      = concat (map (json_char False) (operation_key k')) @ CHR 0x22 #
        (CHR '','' # json_str False (idempotency_key k') @ [CHR '']''])"
    by (simp add: canonical_def json_str_def)
  from json_chars_inj [OF this] have op: "operation_key k = operation_key k'"
    and rest: "json_str False (idempotency_key k) @ [CHR '']''] = json_str False (idempotency_key k') @ [CHR '']'']"
    by auto
  from rest have "concat (map (json_char False) (idempotency_key k)) @ CHR 0x22 # [CHR '']'']
      = concat (map (json_char False) (idempotency_key k')) @ CHR 0x22 # [CHR '']'']"
    by (simp add: json_str_def)
  from json_chars_inj [OF this] have "idempotency_key k = idempotency_key k'" by simp
  with op show ?thesis by (cases k; cases k') simp
qed

lemma canonical_eq_iff [simp]: "canonical k = canonical k' \<longleftrightarrow> k = k'"
  by (auto dest: canonical_inj)

lemma canonical_inj_on: "inj_on canonical A"
  by (simp add: inj_on_def)

section \<open>Records\<close>

record idem_record =
  ir_key :: record_key
  ir_status :: record_status
  ir_created_at :: pyfloat
  ir_updated_at :: pyfloat
  ir_owner_id :: string
  ir_attempt :: int
  ir_data :: pyval

definition idem_to_dict :: "idem_record \<Rightarrow> pydict" where
  "idem_to_dict r =
     [(''operation_key'', PStr (operation_key (ir_key r))),
      (''idempotency_key'', PStr (idempotency_key (ir_key r))),
      (''status'', PStr (record_status_value (ir_status r))),
      (''created_at'', PFloat (ir_created_at r)),
      (''updated_at'', PFloat (ir_updated_at r)),
      (''owner_id'', PStr (ir_owner_id r)),
      (''attempt'', PInt (ir_attempt r)),
      (''data'', ir_data r)]"

text \<open>
  \<open>IdempotencyRecord.from_dict\<close>. Numbers in strings and \<open>str(v)\<close> are arguments. Only \<open>KeyError\<close>,
  \<open>ValueError\<close> and \<open>TypeError\<close> become a corruption error; an \<open>OverflowError\<close> leaves as it is.
\<close>

record py_text =
  parse_float :: "string \<Rightarrow> pyfloat option"
  parse_int :: "string \<Rightarrow> int option"
  str_of :: "pyval \<Rightarrow> string"

definition idem_parse :: "py_text \<Rightarrow> pydict \<Rightarrow> exn + idem_record" where
  "idem_parse tx d =
     bind_result (dindex d ''operation_key'') (\<lambda>ok.
     bind_result (dindex d ''idempotency_key'') (\<lambda>ik.
     bind_result (mk_record_key ok ik) (\<lambda>key.
     bind_result (dindex d ''status'') (\<lambda>sv.
     bind_result (case parse_record_status sv of
                    None \<Rightarrow> Inl (ValueError ''RecordStatus'') | Some st \<Rightarrow> Inr st) (\<lambda>st.
     bind_result (bind_result (dindex d ''created_at'') (py_float (parse_float tx))) (\<lambda>c.
     bind_result (bind_result (dindex d ''updated_at'') (py_float (parse_float tx))) (\<lambda>u.
     bind_result (dindex d ''owner_id'') (\<lambda>ow.
     bind_result (bind_result (dindex d ''attempt'') (py_int (parse_int tx))) (\<lambda>n.
     Inr \<lparr>ir_key = key, ir_status = st, ir_created_at = c, ir_updated_at = u,
          ir_owner_id = (case ow of PStr s \<Rightarrow> s | v \<Rightarrow> str_of tx v), ir_attempt = n,
          ir_data = dget d ''data'' PNone\<rparr>)))))))))"

fun is_format_error :: "exn \<Rightarrow> bool" where
  "is_format_error (KeyError _) \<longleftrightarrow> True"
| "is_format_error (ValueError _) \<longleftrightarrow> True"
| "is_format_error (TypeError _) \<longleftrightarrow> True"
| "is_format_error _ \<longleftrightarrow> False"

definition text_of :: "py_text \<Rightarrow> pyval \<Rightarrow> string" where
  "text_of tx v = (case v of PStr s \<Rightarrow> s | _ \<Rightarrow> str_of tx v)"

definition idem_from_dict :: "py_text \<Rightarrow> pydict \<Rightarrow> exn + idem_record" where
  "idem_from_dict tx d =
     (case idem_parse tx d of
        Inl e \<Rightarrow>
          if is_format_error e
          then Inl (IdempotencyCorruptionError
                 (text_of tx (dget d ''operation_key'' (PStr [])) @ ''::''
                    @ text_of tx (dget d ''idempotency_key'' (PStr []))) InvalidRecordDict)
          else Inl e
      | Inr r \<Rightarrow> Inr r)"

lemma idem_dict_roundtrip: "wf_key (ir_key r) \<Longrightarrow> idem_from_dict tx (idem_to_dict r) = Inr r"
  by (cases r) (simp add: idem_from_dict_def idem_parse_def idem_to_dict_def)

record claim_result =
  cr_status :: claim_status
  cr_record :: idem_record

section \<open>The specification of a store\<close>

text \<open>
  \<open>num_val\<close> compares an integer with a float exactly, as Python does. A lease of \<open>ttl\<close> seconds has
  expired when more than that passed since the last update; \<open>None\<close> never expires.
\<close>

fun num_val :: "pyval \<Rightarrow> pyfloat" where
  "num_val (PInt i) = Fin (of_int i)"
| "num_val (PBool b) = Fin (if b then 1 else 0)"
| "num_val (PFloat f) = f"
| "num_val _ = NaN"

definition expired :: "pyval \<Rightarrow> pyfloat \<Rightarrow> idem_record \<Rightarrow> bool" where
  "expired ttl now r \<longleftrightarrow> ttl \<noteq> PNone \<and> flt (num_val ttl) (fsub now (ir_updated_at r))"

definition validate_ttl :: "pyval \<Rightarrow> exn + unit" where
  "validate_ttl ttl =
     (if ttl = PNone then Inr ()
      else if is_bool ttl \<or> \<not> is_number ttl then Inl (TypeError ''ttl_seconds must be a number or None'')
      else if fle (num_val ttl) (Fin 0) then Inl (ValueError ''ttl_seconds must be > 0'')
      else Inr ())"

definition validate_max_age :: "pyval \<Rightarrow> exn + unit" where
  "validate_max_age m =
     (if is_bool m \<or> \<not> is_number m then Inl (TypeError ''max_age_seconds must be a number'')
      else if fle (num_val m) (Fin 0) then Inl (ValueError ''max_age_seconds must be > 0'')
      else Inr ())"

definition validate_owner_id :: "pyval \<Rightarrow> exn + string" where
  "validate_owner_id ow =
     (case ow of
        PStr s \<Rightarrow> if s = [] then Inl (ValueError ''owner_id cannot be empty'') else Inr s
      | _ \<Rightarrow> Inl (TypeError ''owner_id must be str''))"

definition claim_record :: "record_key \<Rightarrow> string \<Rightarrow> int \<Rightarrow> pyfloat \<Rightarrow> pyfloat \<Rightarrow> idem_record" where
  "claim_record k ow attempt created now =
     \<lparr>ir_key = k, ir_status = R_IN_PROGRESS, ir_created_at = created, ir_updated_at = now,
      ir_owner_id = ow, ir_attempt = attempt, ir_data = PNone\<rparr>"

type_synonym idem_map = "record_key \<rightharpoonup> idem_record"

text \<open>
  What a claim finds and does: \<open>now\<close> is the clock when the decision is taken, \<open>now'\<close> when the new
  record is stamped (an implementation may read the clock once or twice).
\<close>

definition spec_claim ::
  "pyval \<Rightarrow> pyfloat \<Rightarrow> pyfloat \<Rightarrow> record_key \<Rightarrow> string \<Rightarrow> idem_map \<Rightarrow> claim_result \<times> idem_map" where
  "spec_claim ttl now now' k ow m =
     (case m k of
        None \<Rightarrow> (let r = claim_record k ow 1 now now in (\<lparr>cr_status = CLAIMED, cr_record = r\<rparr>, m(k \<mapsto> r)))
      | Some old \<Rightarrow>
          (let reclaim = (\<lambda>t. let r = claim_record k ow (ir_attempt old + 1) (ir_created_at old) t
                              in (\<lparr>cr_status = CLAIMED, cr_record = r\<rparr>, m(k \<mapsto> r)));
               refuse = (\<lambda>st. (\<lparr>cr_status = st, cr_record = old\<rparr>, m))
           in case ir_status old of
                R_IN_PROGRESS \<Rightarrow> if expired ttl now old then reclaim now' else refuse ALREADY_IN_PROGRESS
              | R_COMPLETED \<Rightarrow> refuse ALREADY_COMPLETED
              | R_FAILED \<Rightarrow> refuse FAILED_PERMANENT
              | R_RECOVERABLE \<Rightarrow> reclaim now
              | R_NEW \<Rightarrow> reclaim now))"

definition spec_transition ::
  "pyfloat \<Rightarrow> record_key \<Rightarrow> string \<Rightarrow> record_status \<Rightarrow> pyval \<Rightarrow> idem_map \<Rightarrow> (exn + unit) \<times> idem_map" where
  "spec_transition now k ow target data m =
     (case m k of
        None \<Rightarrow> (Inl (IdempotencyStateError k R_NEW target), m)
      | Some r \<Rightarrow>
          if ir_owner_id r \<noteq> ow then (Inl (IdempotencyOwnershipError k (PStr ow) (ir_owner_id r)), m)
          else if ir_status r \<noteq> R_IN_PROGRESS then (Inl (IdempotencyStateError k (ir_status r) target), m)
          else (Inr (), m(k \<mapsto> r\<lparr>ir_key := k, ir_status := target, ir_updated_at := now, ir_data := data\<rparr>)))"

text \<open>
  Calls of any number of workers. A context \<open>'c\<close> is what one call depends on besides the store:
  the clock readings and, for a store on disk, the outcomes of its file operations.
\<close>

datatype 'c idem_call =
    Claim (call_ctx: 'c) (call_key: record_key) (call_owner: string)
  | Complete (call_ctx: 'c) (call_key: record_key) (call_owner: string) pyval
  | Fail (call_ctx: 'c) (call_key: record_key) (call_owner: string) bool pyval

datatype call_result = ClaimDone "exn + claim_result" | TransitionDone "exn + unit"

fun raised :: "call_result \<Rightarrow> bool" where
  "raised (ClaimDone r) = (\<exists>e. r = Inl e)"
| "raised (TransitionDone r) = (\<exists>e. r = Inl e)"

fun took_effect :: "call_result \<Rightarrow> bool" where
  "took_effect (ClaimDone (Inr cr)) \<longleftrightarrow> cr_status cr = CLAIMED"
| "took_effect (ClaimDone (Inl _)) \<longleftrightarrow> False"
| "took_effect (TransitionDone r) \<longleftrightarrow> r = Inr ()"

definition fail_target :: "bool \<Rightarrow> record_status" where
  "fail_target retryable = (if retryable then R_RECOVERABLE else R_FAILED)"

definition spec_call ::
  "pyval \<Rightarrow> ('c \<Rightarrow> pyfloat \<times> pyfloat) \<Rightarrow> 'c idem_call \<Rightarrow> idem_map \<Rightarrow> call_result \<times> idem_map" where
  "spec_call ttl clock call m =
     (case call of
        Claim c k ow \<Rightarrow>
          map_prod (\<lambda>r. ClaimDone (Inr r)) id (spec_claim ttl (fst (clock c)) (snd (clock c)) k ow m)
      | Complete c k ow data \<Rightarrow>
          map_prod TransitionDone id (spec_transition (fst (clock c)) k ow R_COMPLETED data m)
      | Fail c k ow retryable data \<Rightarrow>
          map_prod TransitionDone id (spec_transition (fst (clock c)) k ow (fail_target retryable) data m))"

text \<open>What the arguments of a call must satisfy for the store to be able to read its record back.\<close>

fun call_args_ok :: "'c idem_call \<Rightarrow> bool" where
  "call_args_ok (Claim _ k ow) \<longleftrightarrow> wf_key k \<and> ow \<noteq> []"
| "call_args_ok (Complete _ k ow d) \<longleftrightarrow> wf_key k \<and> ow \<noteq> [] \<and> (d = PNone \<or> is_dict d)"
| "call_args_ok (Fail _ k ow _ d) \<longleftrightarrow> wf_key k \<and> ow \<noteq> [] \<and> (d = PNone \<or> is_dict d)"

subsection \<open>One call, according to the specification\<close>

lemmas spec_defs = spec_call_def spec_claim_def spec_transition_def claim_record_def Let_def

lemma spec_call_other:
  "call_key call \<noteq> k \<Longrightarrow> snd (spec_call ttl clk call m) k = m k"
  by (cases call) (auto simp: spec_defs split: option.splits record_status.splits)

lemma spec_call_terminal:
  assumes "m k = Some r" "ir_status r \<in> {R_COMPLETED, R_FAILED}"
  shows "snd (spec_call ttl clk call m) k = Some r"
  using assms
  by (cases call) (auto simp: spec_defs split: option.splits record_status.splits)

lemma spec_call_attempt:
  assumes "m k = Some r"
  shows "\<exists>r'. snd (spec_call ttl clk call m) k = Some r' \<and> ir_attempt r \<le> ir_attempt r' \<and>
           ir_created_at r' = ir_created_at r"
  using assms
  by (cases call) (auto simp: spec_defs split: option.splits record_status.splits)

text \<open>While a lease is live, nobody but its owner can change the record or be told it is theirs.\<close>

definition keeps_lease ::
  "pyval \<Rightarrow> ('c \<Rightarrow> pyfloat \<times> pyfloat) \<Rightarrow> record_key \<Rightarrow> idem_record \<Rightarrow> 'c idem_call \<Rightarrow> bool" where
  "keeps_lease ttl clk k r call \<longleftrightarrow>
     call_key call = k \<longrightarrow>
       call_owner call \<noteq> ir_owner_id r \<and> \<not> expired ttl (fst (clk (call_ctx call))) r
     \<or> (\<exists>c. call = Claim c k (ir_owner_id r)) \<and> \<not> expired ttl (fst (clk (call_ctx call))) r"

lemma spec_call_lease:
  assumes "m k = Some r" "ir_status r = R_IN_PROGRESS" "keeps_lease ttl clk k r call"
  shows "snd (spec_call ttl clk call m) k = Some r"
    and "call_key call = k \<Longrightarrow> \<not> took_effect (fst (spec_call ttl clk call m))"
  using assms
  by (cases call; auto simp: spec_defs keeps_lease_def split: option.splits record_status.splits)+

text \<open>A successful claim hands out the next attempt number and makes the caller the owner.\<close>

lemma spec_claim_fresh:
  assumes "cr_status (fst (spec_claim ttl t t' k ow m)) = CLAIMED"
  shows "snd (spec_claim ttl t t' k ow m) k = Some (cr_record (fst (spec_claim ttl t t' k ow m)))"
    and "ir_owner_id (cr_record (fst (spec_claim ttl t t' k ow m))) = ow"
    and "ir_status (cr_record (fst (spec_claim ttl t t' k ow m))) = R_IN_PROGRESS"
    and "ir_attempt (cr_record (fst (spec_claim ttl t t' k ow m))) =
           (case m k of None \<Rightarrow> 1 | Some r \<Rightarrow> ir_attempt r + 1)"
  using assms by (auto simp: spec_defs split: option.splits record_status.splits if_splits)

section \<open>The protocol\<close>

locale idempotency_store =
  fixes claim :: "'c \<Rightarrow> record_key \<Rightarrow> pyval \<Rightarrow> 's \<Rightarrow> (exn + claim_result) \<times> 's"
    and complete :: "'c \<Rightarrow> record_key \<Rightarrow> pyval \<Rightarrow> pyval \<Rightarrow> 's \<Rightarrow> (exn + unit) \<times> 's"
    and fail :: "'c \<Rightarrow> record_key \<Rightarrow> pyval \<Rightarrow> bool \<Rightarrow> pyval \<Rightarrow> 's \<Rightarrow> (exn + unit) \<times> 's"
    and view :: "'s \<Rightarrow> idem_map"
    and valid :: "'s \<Rightarrow> bool"
    and ttl :: "'s \<Rightarrow> pyval"
    and good :: "'c \<Rightarrow> 's \<Rightarrow> bool"
    and fine :: "'c \<Rightarrow> bool"
    and clock :: "'c \<Rightarrow> pyfloat \<times> pyfloat"
  assumes claim_law:
      "valid s \<Longrightarrow> good c s \<Longrightarrow> wf_key k \<Longrightarrow> ow \<noteq> [] \<Longrightarrow> claim c k (PStr ow) s = (res, s') \<Longrightarrow>
         spec_claim (ttl s) (fst (clock c)) (snd (clock c)) k ow (view s) = (sr, m') \<Longrightarrow>
         valid s' \<and> ttl s' = ttl s \<and>
         (res = Inr sr \<and> view s' = m' \<or>
          \<not> fine c \<and> (\<exists>e. res = Inl e) \<and> (view s' = view s \<or> view s' = m'))"
    and complete_law:
      "valid s \<Longrightarrow> good c s \<Longrightarrow> wf_key k \<Longrightarrow> ow \<noteq> [] \<Longrightarrow> data = PNone \<or> is_dict data \<Longrightarrow>
         complete c k (PStr ow) data s = (tres, s') \<Longrightarrow>
         spec_transition (fst (clock c)) k ow R_COMPLETED data (view s) = (tsr, m') \<Longrightarrow>
         valid s' \<and> ttl s' = ttl s \<and>
         (tres = tsr \<and> view s' = m' \<or>
          \<not> fine c \<and> (\<exists>e. tres = Inl e) \<and> (view s' = view s \<or> view s' = m'))"
    and fail_law:
      "valid s \<Longrightarrow> good c s \<Longrightarrow> wf_key k \<Longrightarrow> ow \<noteq> [] \<Longrightarrow> data = PNone \<or> is_dict data \<Longrightarrow>
         fail c k (PStr ow) retryable data s = (tres, s') \<Longrightarrow>
         spec_transition (fst (clock c)) k ow (fail_target retryable) data (view s) = (tsr, m') \<Longrightarrow>
         valid s' \<and> ttl s' = ttl s \<and>
         (tres = tsr \<and> view s' = m' \<or>
          \<not> fine c \<and> (\<exists>e. tres = Inl e) \<and> (view s' = view s \<or> view s' = m'))"
begin

fun call_step :: "'c idem_call \<Rightarrow> 's \<Rightarrow> call_result \<times> 's" where
  "call_step (Claim c k ow) s = map_prod ClaimDone id (claim c k (PStr ow) s)"
| "call_step (Complete c k ow d) s = map_prod TransitionDone id (complete c k (PStr ow) d s)"
| "call_step (Fail c k ow b d) s = map_prod TransitionDone id (fail c k (PStr ow) b d s)"

fun run_calls :: "'c idem_call list \<Rightarrow> 's \<Rightarrow> call_result list \<times> 's" where
  "run_calls [] s = ([], s)"
| "run_calls (c # cs) s =
     (let (r, s1) = call_step c s; (rs, s2) = run_calls cs s1 in (r # rs, s2))"

fun good_calls :: "'c idem_call list \<Rightarrow> 's \<Rightarrow> bool" where
  "good_calls [] s \<longleftrightarrow> True"
| "good_calls (c # cs) s \<longleftrightarrow>
     good (call_ctx c) s \<and> call_args_ok c \<and> good_calls cs (snd (call_step c s))"

lemma call_step_law:
  assumes "valid s" "good (call_ctx call) s" "call_args_ok call" "call_step call s = (res, s')"
  shows "valid s' \<and> ttl s' = ttl s \<and>
    (res = fst (spec_call (ttl s) clock call (view s)) \<and> view s' = snd (spec_call (ttl s) clock call (view s))
     \<or> \<not> fine (call_ctx call) \<and> raised res \<and>
        (view s' = view s \<or> view s' = snd (spec_call (ttl s) clock call (view s))))"
proof (cases call)
  case (Claim c k ow)
  obtain r s1 sr m' where cl: "claim c k (PStr ow) s = (r, s1)"
    "spec_claim (ttl s) (fst (clock c)) (snd (clock c)) k ow (view s) = (sr, m')" by fastforce
  with claim_law [OF assms(1), of c k ow r s1 sr m'] assms Claim show ?thesis
    by (auto simp: spec_call_def)
next
  case (Complete c k ow d)
  obtain r s1 sr m' where cl: "complete c k (PStr ow) d s = (r, s1)"
    "spec_transition (fst (clock c)) k ow R_COMPLETED d (view s) = (sr, m')" by fastforce
  with complete_law [OF assms(1), of c k ow d r s1 sr m'] assms Complete show ?thesis
    by (auto simp: spec_call_def)
next
  case (Fail c k ow b d)
  obtain r s1 sr m' where cl: "fail c k (PStr ow) b d s = (r, s1)"
    "spec_transition (fst (clock c)) k ow (fail_target b) d (view s) = (sr, m')" by fastforce
  with fail_law [OF assms(1), of c k ow d b r s1 sr m'] assms Fail show ?thesis
    by (auto simp: spec_call_def)
qed

lemma call_step_fine:
  assumes "valid s" "good (call_ctx call) s" "call_args_ok call" "fine (call_ctx call)"
  shows "fst (call_step call s) = fst (spec_call (ttl s) clock call (view s)) \<and>
    view (snd (call_step call s)) = snd (spec_call (ttl s) clock call (view s)) \<and>
    valid (snd (call_step call s)) \<and> ttl (snd (call_step call s)) = ttl s"
  using call_step_law [OF assms(1-3), of "fst (call_step call s)" "snd (call_step call s)"] assms(4)
  by simp

text \<open>A property of the map that every specified call keeps is kept by every sequence of calls.\<close>

lemma run_calls_keeps:
  assumes "valid s" "good_calls cs s" "P (view s)"
    and "\<And>call m. call \<in> set cs \<Longrightarrow> P m \<Longrightarrow> P (snd (spec_call (ttl s) clock call m))"
  shows "valid (snd (run_calls cs s)) \<and> ttl (snd (run_calls cs s)) = ttl s \<and> P (view (snd (run_calls cs s)))"
  using assms
proof (induction cs arbitrary: s)
  case Nil
  then show ?case by simp
next
  case (Cons c cs)
  obtain r s1 where st: "call_step c s = (r, s1)" by force
  with call_step_law [of s c r s1] Cons.prems have
    s1: "valid s1" "ttl s1 = ttl s" "P (view s1)" "good_calls cs s1"
    by auto
  with Cons.IH [of s1] Cons.prems(4) st show ?case by (auto split: prod.splits)
qed

lemma terminal_kept:
  assumes "valid s" "good_calls cs s" "view s k = Some r" "ir_status r \<in> {R_COMPLETED, R_FAILED}"
  shows "view (snd (run_calls cs s)) k = Some r"
  using run_calls_keeps [OF assms(1,2), of "\<lambda>m. m k = Some r"] assms(3,4) spec_call_terminal
  by blast

lemma other_keys_kept:
  assumes "valid s" "good_calls cs s" "k \<notin> call_key ` set cs"
  shows "view (snd (run_calls cs s)) k = view s k"
proof -
  have "snd (spec_call (ttl s) clock call m) k = view s k"
    if "call \<in> set cs" "m k = view s k" for call m
    using that assms(3) spec_call_other [of call k] by (metis image_eqI)
  with run_calls_keeps [OF assms(1,2), of "\<lambda>m. m k = view s k"] show ?thesis by blast
qed

lemma attempts_grow:
  assumes "valid s" "good_calls cs s" "view s k = Some r"
  shows "\<exists>r'. view (snd (run_calls cs s)) k = Some r' \<and> ir_attempt r \<le> ir_attempt r' \<and>
           ir_created_at r' = ir_created_at r"
proof -
  let ?P = "\<lambda>m. \<exists>r'. m k = Some r' \<and> ir_attempt r \<le> ir_attempt r' \<and> ir_created_at r' = ir_created_at r"
  have "?P (snd (spec_call (ttl s) clock call m))" if m: "?P m" for call m
  proof -
    from m obtain r1 where "m k = Some r1" "ir_attempt r \<le> ir_attempt r1" "ir_created_at r1 = ir_created_at r"
      by blast
    with spec_call_attempt [of m k r1 "ttl s" clock call] show ?thesis by force
  qed
  with run_calls_keeps [OF assms(1,2), of ?P] assms(3) show ?thesis by auto
qed

lemma lease_kept:
  assumes "valid s" "good_calls cs s" "view s k = Some r" "ir_status r = R_IN_PROGRESS"
    and "\<forall>call \<in> set cs. keeps_lease (ttl s) clock k r call"
  shows "view (snd (run_calls cs s)) k = Some r \<and>
    (\<forall>(call, res) \<in> set (zip cs (fst (run_calls cs s))). call_key call = k \<longrightarrow> \<not> took_effect res)"
  using assms
proof (induction cs arbitrary: s)
  case Nil
  then show ?case by simp
next
  case (Cons c cs)
  obtain res s1 where st: "call_step c s = (res, s1)" by force
  have law: "valid s1" "ttl s1 = ttl s" "good_calls cs s1"
    "res = fst (spec_call (ttl s) clock c (view s)) \<and> view s1 = snd (spec_call (ttl s) clock c (view s))
     \<or> raised res \<and> (view s1 = view s \<or> view s1 = snd (spec_call (ttl s) clock c (view s)))"
    using call_step_law [of s c res s1] Cons.prems st by auto
  have keep: "snd (spec_call (ttl s) clock c (view s)) k = Some r"
    "call_key c = k \<Longrightarrow> \<not> took_effect (fst (spec_call (ttl s) clock c (view s)))"
    using spec_call_lease [of "view s" k r "ttl s" clock c] Cons.prems by auto
  have v1: "view s1 k = Some r" using law(4) keep(1) Cons.prems(3) by auto
  have "raised res \<Longrightarrow> \<not> took_effect res" by (cases res rule: took_effect.cases) auto
  with law(4) keep(2) have "call_key c = k \<Longrightarrow> \<not> took_effect res" by auto
  with Cons.IH [OF law(1,3) v1] Cons.prems law(2) st show ?case by (auto split: prod.splits)
qed

end

end
