(* ===== verification/Memory_Store.thy ===== *)
theory Memory_Store
  imports Idempotency_Contract "HOL-Library.AList"
begin

text \<open>
  The \<open>InMemoryIdempotencyStore\<close> of \<open>src/core/idempotency_store_v2.py\<close>, the reference implementation
  of the store protocol. Its dictionary is an association list in insertion order, keyed by the
  canonical string; a value is a record or, after \<open>_inject_raw\<close>, anything else. \<open>now\<close> is the reading
  of \<open>time.time()\<close>.
\<close>

datatype stored = Good idem_record | is_raw: Raw pyval

record mem_store =
  ms_ttl :: pyval
  ms_records :: "(string \<times> stored) list"

definition mem_init :: "pyval \<Rightarrow> exn + mem_store" where
  "mem_init ttl = bind_result (validate_ttl ttl) (\<lambda>_. Inr \<lparr>ms_ttl = ttl, ms_records = []\<rparr>)"

definition mem_put :: "string \<Rightarrow> stored \<Rightarrow> mem_store \<Rightarrow> mem_store" where
  "mem_put c v ms = ms\<lparr>ms_records := AList.update c v (ms_records ms)\<rparr>"

definition inject_raw :: "string \<Rightarrow> pyval \<Rightarrow> mem_store \<Rightarrow> mem_store" where
  "inject_raw c raw ms = mem_put c (Raw raw) ms"

definition mem_get_validated :: "string \<Rightarrow> mem_store \<Rightarrow> exn + idem_record option" where
  "mem_get_validated c ms =
     (case map_of (ms_records ms) c of
        None \<Rightarrow> Inr None
      | Some (Raw PNone) \<Rightarrow> Inr None
      | Some (Raw _) \<Rightarrow> Inl (IdempotencyCorruptionError c NotARecord)
      | Some (Good r) \<Rightarrow> Inr (Some r))"

definition mem_claim ::
  "pyfloat \<Rightarrow> record_key \<Rightarrow> pyval \<Rightarrow> mem_store \<Rightarrow> (exn + claim_result) \<times> mem_store" where
  "mem_claim now k owner ms =
     (case validate_owner_id owner of
        Inl e \<Rightarrow> (Inl e, ms)
      | Inr ow \<Rightarrow>
          (let c = canonical k;
               grant = (\<lambda>r. (Inr \<lparr>cr_status = CLAIMED, cr_record = r\<rparr>, mem_put c (Good r) ms));
               refuse = (\<lambda>st r. (Inr \<lparr>cr_status = st, cr_record = r\<rparr>, ms))
           in case map_of (ms_records ms) c of
                None \<Rightarrow> grant (claim_record k ow 1 now now)
              | Some (Raw PNone) \<Rightarrow> grant (claim_record k ow 1 now now)
              | Some (Raw _) \<Rightarrow> (Inl (IdempotencyCorruptionError c NotARecord), ms)
              | Some (Good r) \<Rightarrow>
                  if ir_status r = R_IN_PROGRESS then
                    (if expired (ms_ttl ms) now r
                     then grant (claim_record k ow (ir_attempt r + 1) (ir_created_at r) now)
                     else refuse ALREADY_IN_PROGRESS r)
                  else if ir_status r = R_COMPLETED then refuse ALREADY_COMPLETED r
                  else if ir_status r = R_FAILED then refuse FAILED_PERMANENT r
                  else grant (claim_record k ow (ir_attempt r + 1) (ir_created_at r) now)))"

text \<open>\<open>complete\<close> and \<open>fail\<close> share everything but the target status; they do not validate the owner.\<close>

definition mem_transition ::
  "pyfloat \<Rightarrow> record_key \<Rightarrow> pyval \<Rightarrow> record_status \<Rightarrow> pyval \<Rightarrow> mem_store \<Rightarrow> (exn + unit) \<times> mem_store" where
  "mem_transition now k owner target data ms =
     (case mem_get_validated (canonical k) ms of
        Inl e \<Rightarrow> (Inl e, ms)
      | Inr None \<Rightarrow> (Inl (IdempotencyStateError k R_NEW target), ms)
      | Inr (Some r) \<Rightarrow>
          if PStr (ir_owner_id r) \<noteq> owner
          then (Inl (IdempotencyOwnershipError k owner (ir_owner_id r)), ms)
          else if ir_status r \<noteq> R_IN_PROGRESS
          then (Inl (IdempotencyStateError k (ir_status r) target), ms)
          else (Inr (),
                mem_put (canonical k)
                  (Good \<lparr>ir_key = k, ir_status = target, ir_created_at = ir_created_at r,
                         ir_updated_at = now, ir_owner_id = ir_owner_id r,
                         ir_attempt = ir_attempt r, ir_data = data\<rparr>) ms))"

definition mem_complete where
  "mem_complete now k owner data ms = mem_transition now k owner R_COMPLETED data ms"

definition mem_fail where
  "mem_fail now k owner retryable data ms =
     mem_transition now k owner (if retryable then R_RECOVERABLE else R_FAILED) data ms"

text \<open>\<open>get\<close> shows an expired lease as recoverable without changing the store.\<close>

definition present_lease :: "pyval \<Rightarrow> pyfloat \<Rightarrow> idem_record \<Rightarrow> idem_record" where
  "present_lease ttl now r =
     (if ir_status r = R_IN_PROGRESS \<and> expired ttl now r then r\<lparr>ir_status := R_RECOVERABLE\<rparr> else r)"

definition mem_get :: "pyfloat \<Rightarrow> record_key \<Rightarrow> mem_store \<Rightarrow> exn + idem_record option" where
  "mem_get now k ms =
     bind_result (mem_get_validated (canonical k) ms)
       (\<lambda>r. Inr (map_option (present_lease (ms_ttl ms) now) r))"

definition mem_get_all_records :: "mem_store \<Rightarrow> (record_key \<times> idem_record) list" where
  "mem_get_all_records ms =
     fold (\<lambda>(c, v) d. case v of Good r \<Rightarrow> AList.update (ir_key r) r d | Raw _ \<Rightarrow> d) (ms_records ms) []"

text \<open>\<open>prune\<close>: a value without \<open>status\<close> makes the comprehension raise before anything is deleted.\<close>

definition prunable :: "pyval \<Rightarrow> pyfloat \<Rightarrow> idem_record \<Rightarrow> bool" where
  "prunable max_age now r \<longleftrightarrow>
     ir_status r \<in> {R_COMPLETED, R_FAILED} \<and> flt (num_val max_age) (fsub now (ir_updated_at r))"

definition mem_prune :: "pyfloat \<Rightarrow> pyval \<Rightarrow> mem_store \<Rightarrow> (exn + unit) \<times> mem_store" where
  "mem_prune now max_age ms =
     (case validate_max_age max_age of
        Inl e \<Rightarrow> (Inl e, ms)
      | Inr _ \<Rightarrow>
          if list_ex (\<lambda>(c, v). is_raw v) (ms_records ms) then (Inl AttributeError, ms)
          else (Inr (),
                ms\<lparr>ms_records :=
                     filter (\<lambda>(c, v). case v of Good r \<Rightarrow> \<not> prunable max_age now r | Raw _ \<Rightarrow> True)
                       (ms_records ms)\<rparr>))"

section \<open>The store refines the specification\<close>

definition mem_view :: "mem_store \<Rightarrow> idem_map" where
  "mem_view ms k =
     (case map_of (ms_records ms) (canonical k) of Some (Good r) \<Rightarrow> Some r | _ \<Rightarrow> None)"

definition mem_valid :: "mem_store \<Rightarrow> bool" where
  "mem_valid ms \<longleftrightarrow>
     distinct (map fst (ms_records ms)) \<and>
     (\<forall>(c, v) \<in> set (ms_records ms). \<exists>r. v = Good r \<and> c = canonical (ir_key r))"

lemma mem_valid_lookup:
  assumes "mem_valid ms" "map_of (ms_records ms) (canonical k) = Some v"
  obtains r where "v = Good r" "ir_key r = k"
  using assms by (auto simp: mem_valid_def dest!: map_of_SomeD)

lemma mem_view_put [simp]: "mem_view (mem_put (canonical k) (Good r) ms) = (mem_view ms)(k \<mapsto> r)"
  by (auto simp: mem_view_def mem_put_def update_conv fun_eq_iff)

lemma mem_ttl_put [simp]: "ms_ttl (mem_put c v ms) = ms_ttl ms"
  by (simp add: mem_put_def)

lemma update_set_subset: "set (AList.update k v al) \<subseteq> insert (k, v) (set al)"
  by (induction al) auto

lemma mem_valid_put:
  assumes "mem_valid ms" "ir_key r = k"
  shows "mem_valid (mem_put (canonical k) (Good r) ms)"
  using assms update_set_subset [of "canonical k" "Good r" "ms_records ms"]
  by (auto simp: mem_valid_def mem_put_def distinct_update)

lemma mem_init_valid: "mem_init ttl = Inr ms \<Longrightarrow> mem_valid ms \<and> mem_view ms = Map.empty"
  by (auto simp: mem_init_def bind_result_Inr_iff mem_valid_def mem_view_def fun_eq_iff)

lemma mem_claim_spec:
  assumes "mem_valid ms" "ow \<noteq> []" "spec_claim (ms_ttl ms) now now k ow (mem_view ms) = (sr, m')"
  shows "\<exists>ms'. mem_claim now k (PStr ow) ms = (Inr sr, ms') \<and> mem_view ms' = m' \<and> mem_valid ms' \<and>
           ms_ttl ms' = ms_ttl ms"
proof (cases "map_of (ms_records ms) (canonical k)")
  case None
  with assms show ?thesis
    by (auto simp: mem_claim_def validate_owner_id_def spec_claim_def mem_view_def Let_def
             intro!: mem_valid_put simp: claim_record_def)
next
  case (Some v)
  with assms(1) obtain r where r: "v = Good r" "ir_key r = k" by (rule mem_valid_lookup)
  with Some have v: "mem_view ms k = Some r" by (simp add: mem_view_def)
  show ?thesis using assms Some r v
    by (cases "ir_status r")
      (auto simp: mem_claim_def validate_owner_id_def spec_claim_def Let_def
            intro!: mem_valid_put simp: claim_record_def)
qed

lemma mem_transition_spec:
  assumes "mem_valid ms" "spec_transition now k ow target data (mem_view ms) = (sr, m')"
  shows "\<exists>ms'. mem_transition now k (PStr ow) target data ms = (sr, ms') \<and> mem_view ms' = m' \<and>
           mem_valid ms' \<and> ms_ttl ms' = ms_ttl ms"
proof (cases "map_of (ms_records ms) (canonical k)")
  case None
  with assms show ?thesis
    by (auto simp: mem_transition_def mem_get_validated_def spec_transition_def mem_view_def)
next
  case (Some v)
  with assms(1) obtain r where r: "v = Good r" "ir_key r = k" by (rule mem_valid_lookup)
  with Some have v: "mem_view ms k = Some r" by (simp add: mem_view_def)
  show ?thesis using assms Some r v
    by (auto simp: mem_transition_def mem_get_validated_def spec_transition_def
             intro!: mem_valid_put split: if_splits)
qed

definition mem_good :: "pyfloat \<Rightarrow> mem_store \<Rightarrow> bool" where
  "mem_good now ms \<longleftrightarrow> True"

definition mem_fine :: "pyfloat \<Rightarrow> bool" where
  "mem_fine now \<longleftrightarrow> True"

definition mem_clock :: "pyfloat \<Rightarrow> pyfloat \<times> pyfloat" where
  "mem_clock now = (now, now)"

interpretation mem: idempotency_store
  mem_claim mem_complete mem_fail mem_view mem_valid ms_ttl mem_good mem_fine mem_clock
proof
  fix s c k ow res s' sr m'
  assume a: "mem_valid s" "(ow::string) \<noteq> []" "mem_claim c k (PStr ow) s = (res, s')"
    "spec_claim (ms_ttl s) (fst (mem_clock c)) (snd (mem_clock c)) k ow (mem_view s) = (sr, m')"
  then show "mem_valid s' \<and> ms_ttl s' = ms_ttl s \<and>
      (res = Inr sr \<and> mem_view s' = m' \<or> \<not> mem_fine c \<and> (\<exists>e. res = Inl e) \<and> (mem_view s' = mem_view s \<or> mem_view s' = m'))"
    using mem_claim_spec [of s ow c k sr m'] by (auto simp: mem_clock_def)
next
  fix s c k ow data tres s' tsr m'
  assume "mem_valid s" "mem_complete c k (PStr ow) data s = (tres, s')"
    "spec_transition (fst (mem_clock c)) k ow R_COMPLETED data (mem_view s) = (tsr, m')"
  then show "mem_valid s' \<and> ms_ttl s' = ms_ttl s \<and>
      (tres = tsr \<and> mem_view s' = m' \<or> \<not> mem_fine c \<and> (\<exists>e. tres = Inl e) \<and> (mem_view s' = mem_view s \<or> mem_view s' = m'))"
    using mem_transition_spec [of s c k ow R_COMPLETED data tsr m']
    by (auto simp: mem_clock_def mem_complete_def)
next
  fix s c k ow data retryable tres s' tsr m'
  assume "mem_valid s" "mem_fail c k (PStr ow) retryable data s = (tres, s')"
    "spec_transition (fst (mem_clock c)) k ow (fail_target retryable) data (mem_view s) = (tsr, m')"
  then show "mem_valid s' \<and> ms_ttl s' = ms_ttl s \<and>
      (tres = tsr \<and> mem_view s' = m' \<or> \<not> mem_fine c \<and> (\<exists>e. tres = Inl e) \<and> (mem_view s' = mem_view s \<or> mem_view s' = m'))"
    using mem_transition_spec [of s c k ow "fail_target retryable" data tsr m']
    by (auto simp: mem_clock_def mem_fail_def fail_target_def)
qed

end
