(* ===== verification/Jsonl_Store.thy ===== *)
theory Jsonl_Store
  imports Memory_Store Jsonl_File
begin

text \<open>
  The \<open>JsonlIdempotencyStore\<close> of \<open>src/core/idempotency_store_v2.py\<close>. Its state is the data file and
  the dictionary of records that every operation rebuilds from the file before it decides
  anything. Each operation runs inside \<open>_store_lock\<close>, so it is one atomic step on the file; a
  second process is a second dictionary over the same file. \<open>store_io\<close> carries the outcomes of the
  file operations, \<open>now\<close> and \<open>now'\<close> the first and the second reading of \<open>time.time()\<close>.
\<close>

record jsonl_store =
  js_file :: "jsonl option"
  js_ttl :: pyval
  js_records :: "(string \<times> idem_record) list"

datatype truncate_outcome = Truncated | TruncateFailed | TruncatedUnsynced

record store_io =
  si_lock :: bool
  si_read :: bool
  si_append :: append_outcome
  si_snapshot :: bool
  si_replace :: bool
  si_reread :: bool
  si_truncate :: truncate_outcome

definition si_fine :: store_io where
  "si_fine = \<lparr>si_lock = True, si_read = True, si_append = Written, si_snapshot = True,
              si_replace = True, si_reread = True, si_truncate = Truncated\<rparr>"

section \<open>Serialisation\<close>

definition record_to_dict :: "idem_record \<Rightarrow> pydict" where
  "record_to_dict r =
     [(''key'', PDict [(''operation_key'', PStr (operation_key (ir_key r))),
                       (''idempotency_key'', PStr (idempotency_key (ir_key r)))]),
      (''status'', PStr (record_status_value (ir_status r))),
      (''created_at'', PFloat (ir_created_at r)),
      (''updated_at'', PFloat (ir_updated_at r)),
      (''owner_id'', PStr (ir_owner_id r)),
      (''attempt'', PInt (ir_attempt r)),
      (''data'', ir_data r)]"

definition line_name :: "nat \<Rightarrow> string" where
  "line_name n = ''<line:'' @ nat_str n @ ''>''"

definition missing_record_fields :: "pydict \<Rightarrow> string list" where
  "missing_record_fields d =
     filter (\<lambda>k. \<not> has_key d k)
       [''attempt'', ''created_at'', ''data'', ''key'', ''owner_id'', ''status'', ''updated_at'']"

text \<open>The key object: a missing part, a part of the wrong type and an empty part are all corruption.\<close>

definition key_from_dict :: "pydict \<Rightarrow> nat \<Rightarrow> exn + record_key" where
  "key_from_dict kd n =
     (case bind_result (dindex kd ''operation_key'') (\<lambda>a.
           bind_result (dindex kd ''idempotency_key'') (mk_record_key a)) of
        Inl _ \<Rightarrow> Inl (IdempotencyCorruptionError (line_name n) LineInvalidKey)
      | Inr k \<Rightarrow> Inr k)"

definition fields_from_dict :: "pydict \<Rightarrow> record_key \<Rightarrow> exn + idem_record" where
  "fields_from_dict d key =
     (let bad = (\<lambda>why. Inl (IdempotencyCorruptionError (canonical key) why));
          ca = dget d ''created_at'' PNone; ua = dget d ''updated_at'' PNone;
          ow = dget d ''owner_id'' PNone; att = dget d ''attempt'' PNone; da = dget d ''data'' PNone
      in case parse_record_status (dget d ''status'' PNone) of
           None \<Rightarrow> bad (LineInvalidStatus (dget d ''status'' PNone))
         | Some st \<Rightarrow>
             if \<not> is_number ca then bad CreatedNotNumeric
             else if \<not> is_number ua then bad UpdatedNotNumeric
             else (case ow of
               PStr owner \<Rightarrow>
                 if owner = [] then bad OwnerInvalid
                 else (case att of
                   PInt n \<Rightarrow>
                     if n < 1 then bad AttemptBelowOne
                     else if da \<noteq> PNone \<and> \<not> is_dict da then bad DataNotObject
                     else (case (number_to_float ca, number_to_float ua) of
                             (Some c, Some u) \<Rightarrow>
                               Inr \<lparr>ir_key = key, ir_status = st, ir_created_at = c,
                                    ir_updated_at = u, ir_owner_id = owner, ir_attempt = n,
                                    ir_data = da\<rparr>
                           | _ \<Rightarrow> Inl OverflowError)
                 | _ \<Rightarrow> bad AttemptNotInteger)
             | _ \<Rightarrow> bad OwnerInvalid))"

definition record_from_dict :: "pyval \<Rightarrow> nat \<Rightarrow> exn + idem_record" where
  "record_from_dict payload n =
     (case payload of
        PDict d \<Rightarrow>
          if missing_record_fields d \<noteq> []
          then Inl (IdempotencyCorruptionError (line_name n) (LineMissingFields (missing_record_fields d)))
          else (case dget d ''key'' PNone of
                  PDict kd \<Rightarrow> bind_result (key_from_dict kd n) (fields_from_dict d)
                | _ \<Rightarrow> Inl (IdempotencyCorruptionError (line_name n) LineKeyNotObject))
      | _ \<Rightarrow> Inl (IdempotencyCorruptionError (line_name n) LineNotObject))"

definition validate_record :: "string \<Rightarrow> idem_record \<Rightarrow> exn + idem_record" where
  "validate_record c r =
     (if canonical (ir_key r) \<noteq> c
      then Inl (IdempotencyCorruptionError c (KeyMismatch (canonical (ir_key r))))
      else if ir_owner_id r = [] then Inl (IdempotencyCorruptionError c OwnerInvalid)
      else if ir_attempt r < 1 then Inl (IdempotencyCorruptionError c AttemptBelowOne)
      else if flt (ir_updated_at r) (ir_created_at r)
      then Inl (IdempotencyCorruptionError c UpdatedBeforeCreated)
      else if ir_data r \<noteq> PNone \<and> \<not> is_dict (ir_data r)
      then Inl (IdempotencyCorruptionError c DataNotObject)
      else Inr r)"

section \<open>Loading\<close>

definition load_line ::
  "nat \<Rightarrow> line \<Rightarrow> (string \<times> idem_record) list \<Rightarrow> exn + (string \<times> idem_record) list" where
  "load_line n l recs =
     (case l of
        Blank \<Rightarrow> Inr recs
      | Malformed \<Rightarrow> Inl (IdempotencyCorruptionError (line_name n) LineInvalidJson)
      | Json payload \<Rightarrow>
          bind_result (record_from_dict payload n) (\<lambda>r.
            let c = canonical (ir_key r)
            in case map_of recs c of
                 Some previous \<Rightarrow>
                   if flt (ir_updated_at r) (ir_updated_at previous)
                   then Inl (IdempotencyCorruptionError c (TimestampMovedBackwards n))
                   else Inr (AList.update c r recs)
               | None \<Rightarrow> Inr (AList.update c r recs)))"

fun load_lines ::
  "nat \<Rightarrow> line list \<Rightarrow> (string \<times> idem_record) list \<Rightarrow> (exn + unit) \<times> (string \<times> idem_record) list" where
  "load_lines n [] recs = (Inr (), recs)"
| "load_lines n (l # ls) recs =
     (case load_line n l recs of
        Inl e \<Rightarrow> (Inl e, recs)
      | Inr recs' \<Rightarrow> load_lines (Suc n) ls recs')"

text \<open>\<open>_reload_locked\<close>: clear, then load; an exception leaves the lines before it loaded.\<close>

definition store_reload :: "bool \<Rightarrow> jsonl_store \<Rightarrow> (exn + unit) \<times> jsonl_store" where
  "store_reload read_ok js =
     (case js_file js of
        None \<Rightarrow> (Inr (), js\<lparr>js_records := []\<rparr>)
      | Some f \<Rightarrow>
          if \<not> read_ok
          then (Inl (IdempotencyCorruptionError ''<store>'' StoreReadFailed), js\<lparr>js_records := []\<rparr>)
          else (let (res, recs) = load_lines 1 (jl_lines f) [] in (res, js\<lparr>js_records := recs\<rparr>)))"

text \<open>\<open>_append\<close>\<close>

definition store_append ::
  "append_outcome \<Rightarrow> idem_record \<Rightarrow> jsonl_store \<Rightarrow> (exn + unit) \<times> jsonl_store" where
  "store_append out r js =
     ((if out = Written then Inr () else Inl (OSError ''Failed to persist idempotency record'')),
      js\<lparr>js_file := append_effect out (PDict (record_to_dict r)) (js_file js)\<rparr>)"

text \<open>\<open>with self._store_lock()\<close>: an operation that cannot take the lock does nothing.\<close>

definition with_lock ::
  "store_io \<Rightarrow> (jsonl_store \<Rightarrow> (exn + 'a) \<times> jsonl_store) \<Rightarrow> jsonl_store \<Rightarrow> (exn + 'a) \<times> jsonl_store" where
  "with_lock io body js = (if si_lock io then body js else (Inl (OSError ''lock''), js))"

definition store_init :: "store_io \<Rightarrow> pyval \<Rightarrow> jsonl option \<Rightarrow> exn + jsonl_store" where
  "store_init io ttl f =
     bind_result (validate_ttl ttl) (\<lambda>_.
       case with_lock io (store_reload (si_read io)) \<lparr>js_file = f, js_ttl = ttl, js_records = []\<rparr> of
         (Inl e, _) \<Rightarrow> Inl e
       | (Inr _, js) \<Rightarrow> Inr js)"

section \<open>The protocol operations\<close>

definition new_claim :: "pyfloat \<Rightarrow> record_key \<Rightarrow> string \<Rightarrow> int \<Rightarrow> pyfloat option \<Rightarrow> idem_record" where
  "new_claim now k ow attempt created_at =
     \<lparr>ir_key = k, ir_status = R_IN_PROGRESS,
      ir_created_at = (case created_at of None \<Rightarrow> now | Some c \<Rightarrow> c), ir_updated_at = now,
      ir_owner_id = ow, ir_attempt = attempt, ir_data = PNone\<rparr>"

text \<open>The durable commit comes first, the dictionary follows only when it succeeded.\<close>

definition commit :: "store_io \<Rightarrow> idem_record \<Rightarrow> 'a \<Rightarrow> jsonl_store \<Rightarrow> (exn + 'a) \<times> jsonl_store" where
  "commit io r result =
     bind_op (store_append (si_append io) r) (\<lambda>_ js.
       (Inr result, js\<lparr>js_records := AList.update (canonical (ir_key r)) r (js_records js)\<rparr>))"

definition claim_locked ::
  "store_io \<Rightarrow> pyfloat \<Rightarrow> pyfloat \<Rightarrow> record_key \<Rightarrow> string \<Rightarrow> jsonl_store \<Rightarrow> (exn + claim_result) \<times> jsonl_store" where
  "claim_locked io now now' k ow js =
     (let grant = (\<lambda>r. commit io r \<lparr>cr_status = CLAIMED, cr_record = r\<rparr> js);
          refuse = (\<lambda>st r. (Inr \<lparr>cr_status = st, cr_record = r\<rparr>, js))
      in case map_of (js_records js) (canonical k) of
           None \<Rightarrow> grant (new_claim now k ow 1 None)
         | Some existing \<Rightarrow>
             (case validate_record (canonical k) existing of
                Inl e \<Rightarrow> (Inl e, js)
              | Inr r \<Rightarrow>
                  if ir_status r = R_IN_PROGRESS then
                    (if expired (js_ttl js) now r
                     then grant (new_claim now' k ow (ir_attempt r + 1) (Some (ir_created_at r)))
                     else refuse ALREADY_IN_PROGRESS r)
                  else if ir_status r = R_COMPLETED then refuse ALREADY_COMPLETED r
                  else if ir_status r = R_FAILED then refuse FAILED_PERMANENT r
                  else grant (new_claim now k ow (ir_attempt r + 1) (Some (ir_created_at r)))))"

definition jsonl_claim ::
  "store_io \<times> pyfloat \<times> pyfloat \<Rightarrow> record_key \<Rightarrow> pyval \<Rightarrow> jsonl_store \<Rightarrow> (exn + claim_result) \<times> jsonl_store" where
  "jsonl_claim ctx k owner js =
     (let (io, now, now') = ctx
      in case validate_owner_id owner of
           Inl e \<Rightarrow> (Inl e, js)
         | Inr ow \<Rightarrow>
             with_lock io
               (bind_op (store_reload (si_read io)) (\<lambda>_. claim_locked io now now' k ow)) js)"

definition transition_locked ::
  "store_io \<Rightarrow> pyfloat \<Rightarrow> record_key \<Rightarrow> pyval \<Rightarrow> record_status \<Rightarrow> pyval \<Rightarrow> jsonl_store
     \<Rightarrow> (exn + unit) \<times> jsonl_store" where
  "transition_locked io now k owner target data js =
     (case validate_owner_id owner of
        Inl e \<Rightarrow> (Inl e, js)
      | Inr ow \<Rightarrow>
          (case map_of (js_records js) (canonical k) of
             None \<Rightarrow> (Inl (IdempotencyStateError k R_NEW target), js)
           | Some raw \<Rightarrow>
               (case validate_record (canonical k) raw of
                  Inl e \<Rightarrow> (Inl e, js)
                | Inr r \<Rightarrow>
                    if ir_owner_id r \<noteq> ow
                    then (Inl (IdempotencyOwnershipError k owner (ir_owner_id r)), js)
                    else if ir_status r \<noteq> R_IN_PROGRESS
                    then (Inl (IdempotencyStateError k (ir_status r) target), js)
                    else commit io
                           \<lparr>ir_key = k, ir_status = target, ir_created_at = ir_created_at r,
                            ir_updated_at = now, ir_owner_id = ir_owner_id r,
                            ir_attempt = ir_attempt r, ir_data = data\<rparr> () js)))"

definition jsonl_transition ::
  "store_io \<times> pyfloat \<times> pyfloat \<Rightarrow> record_key \<Rightarrow> pyval \<Rightarrow> record_status \<Rightarrow> pyval \<Rightarrow> jsonl_store
     \<Rightarrow> (exn + unit) \<times> jsonl_store" where
  "jsonl_transition ctx k owner target data =
     (let (io, now, _) = ctx
      in with_lock io
           (bind_op (store_reload (si_read io)) (\<lambda>_. transition_locked io now k owner target data)))"

definition jsonl_complete where
  "jsonl_complete ctx k owner data = jsonl_transition ctx k owner R_COMPLETED data"

definition jsonl_fail where
  "jsonl_fail ctx k owner retryable data =
     jsonl_transition ctx k owner (if retryable then R_RECOVERABLE else R_FAILED) data"

definition jsonl_get ::
  "store_io \<Rightarrow> pyfloat \<Rightarrow> record_key \<Rightarrow> jsonl_store \<Rightarrow> (exn + idem_record option) \<times> jsonl_store" where
  "jsonl_get io now k =
     with_lock io
       (bind_op (store_reload (si_read io)) (\<lambda>_ js.
          case map_of (js_records js) (canonical k) of
            None \<Rightarrow> (Inr None, js)
          | Some raw \<Rightarrow>
              (case validate_record (canonical k) raw of
                 Inl e \<Rightarrow> (Inl e, js)
               | Inr r \<Rightarrow> (Inr (Some (present_lease (js_ttl js) now r)), js))))"

definition jsonl_get_all_records ::
  "store_io \<Rightarrow> jsonl_store \<Rightarrow> (exn + (record_key \<times> idem_record) list) \<times> jsonl_store" where
  "jsonl_get_all_records io =
     with_lock io
       (bind_op (store_reload (si_read io)) (\<lambda>_ js.
          (Inr (fold (\<lambda>(c, r) d. AList.update (ir_key r) r d) (js_records js) []), js)))"

section \<open>Maintenance\<close>

text \<open>A snapshot is written to a temporary file, one line per record, sorted by canonical key.\<close>

definition write_snapshot :: "bool \<Rightarrow> (string \<times> idem_record) list \<Rightarrow> exn + jsonl" where
  "write_snapshot ok recs =
     (if ok
      then Inr \<lparr>jl_lines = map (\<lambda>r. Json (PDict (record_to_dict r)))
                             (sort_key (\<lambda>r. canonical (ir_key r)) (map snd recs)),
                jl_open = False\<rparr>
      else Inl (OSError ''Failed to write snapshot''))"

definition replace_snapshot :: "bool \<Rightarrow> jsonl \<Rightarrow> jsonl_store \<Rightarrow> (exn + unit) \<times> jsonl_store" where
  "replace_snapshot ok tmp js =
     (if ok then (Inr (), js\<lparr>js_file := Some tmp\<rparr>) else (Inl (OSError ''Failed to replace snapshot''), js))"

definition rewrite_locked ::
  "store_io \<Rightarrow> (idem_record \<Rightarrow> bool) \<Rightarrow> jsonl_store \<Rightarrow> (exn + unit) \<times> jsonl_store" where
  "rewrite_locked io keep =
     bind_op (store_reload (si_read io)) (\<lambda>_ js.
       case write_snapshot (si_snapshot io) (filter (\<lambda>(c, r). keep r) (js_records js)) of
         Inl e \<Rightarrow> (Inl e, js)
       | Inr tmp \<Rightarrow>
           bind_op (replace_snapshot (si_replace io) tmp) (\<lambda>_. store_reload (si_reread io)) js)"

definition compact :: "store_io \<Rightarrow> jsonl_store \<Rightarrow> (exn + unit) \<times> jsonl_store" where
  "compact io = with_lock io (rewrite_locked io (\<lambda>_. True))"

definition prune :: "store_io \<Rightarrow> pyfloat \<Rightarrow> pyval \<Rightarrow> jsonl_store \<Rightarrow> (exn + unit) \<times> jsonl_store" where
  "prune io now max_age js =
     (case validate_max_age max_age of
        Inl e \<Rightarrow> (Inl e, js)
      | Inr _ \<Rightarrow> with_lock io (rewrite_locked io (\<lambda>r. \<not> prunable max_age now r)) js)"

text \<open>\<open>repair\<close>: the first line that is neither blank nor a record is cut off if it is the last line.\<close>

definition corrupt_line :: "nat \<times> line \<Rightarrow> bool" where
  "corrupt_line nl =
     (case snd nl of
        Blank \<Rightarrow> False
      | Malformed \<Rightarrow> True
      | Json payload \<Rightarrow> (case record_from_dict payload (fst nl) of Inl _ \<Rightarrow> True | Inr _ \<Rightarrow> False))"

definition corrupt_index :: "line list \<Rightarrow> nat option" where
  "corrupt_index ls = map_option (\<lambda>(n, _). n - 1) (find corrupt_line (List.enumerate 1 ls))"

definition truncate_file :: "truncate_outcome \<Rightarrow> nat \<Rightarrow> jsonl_store \<Rightarrow> (exn + unit) \<times> jsonl_store" where
  "truncate_file out i js =
     (let cut = js\<lparr>js_file := map_option (\<lambda>f. \<lparr>jl_lines = take i (jl_lines f), jl_open = False\<rparr>) (js_file js)\<rparr>
      in case out of
           Truncated \<Rightarrow> (Inr (), cut)
         | TruncateFailed \<Rightarrow> (Inl (OSError ''truncate''), js)
         | TruncatedUnsynced \<Rightarrow> (Inl (OSError ''fsync''), cut))"

definition repair :: "store_io \<Rightarrow> jsonl_store \<Rightarrow> (exn + bool) \<times> jsonl_store" where
  "repair io =
     with_lock io (\<lambda>js.
       case js_file js of
         None \<Rightarrow> (Inr False, js)
       | Some f \<Rightarrow>
           if \<not> si_read io then (Inl (OSError ''read''), js)
           else (case corrupt_index (jl_lines f) of
                   None \<Rightarrow> (Inr False, js)
                 | Some i \<Rightarrow>
                     if i < length (jl_lines f) - 1
                     then (Inl (IdempotencyCorruptionError (line_name (i + 1)) NonTrailingCorruption), js)
                     else bind_op (truncate_file (si_truncate io) i)
                            (\<lambda>_. bind_op (store_reload (si_reread io)) (\<lambda>_ js. (Inr True, js))) js))"

section \<open>What a healthy store file holds\<close>

definition rec_line :: "idem_record \<Rightarrow> line" where
  "rec_line r = Json (PDict (record_to_dict r))"

definition wf_record :: "idem_record \<Rightarrow> bool" where
  "wf_record r \<longleftrightarrow>
     wf_key (ir_key r) \<and> ir_owner_id r \<noteq> [] \<and> 1 \<le> ir_attempt r \<and>
     \<not> flt (ir_updated_at r) (ir_created_at r) \<and> (ir_data r = PNone \<or> is_dict (ir_data r))"

definition latest :: "idem_record list \<Rightarrow> idem_map" where
  "latest rs k = (let xs = filter (\<lambda>r. ir_key r = k) rs in if xs = [] then None else Some (last xs))"

definition wf_history :: "idem_record list \<Rightarrow> bool" where
  "wf_history rs \<longleftrightarrow>
     (\<forall>r \<in> set rs. wf_record r) \<and>
     (\<forall>k. successively (\<lambda>a b. \<not> flt (ir_updated_at b) (ir_updated_at a)) (filter (\<lambda>r. ir_key r = k) rs))"

definition line_record :: "line \<Rightarrow> idem_record option" where
  "line_record l =
     (case l of
        Json p \<Rightarrow> (case record_from_dict p 0 of Inr r \<Rightarrow> Some r | Inl _ \<Rightarrow> None)
      | _ \<Rightarrow> None)"

definition file_records :: "jsonl option \<Rightarrow> idem_record list" where
  "file_records f = List.map_filter line_record (file_lines f)"

definition js_valid :: "jsonl_store \<Rightarrow> bool" where
  "js_valid js \<longleftrightarrow>
     closed_file (js_file js) \<and> file_lines (js_file js) = map rec_line (file_records (js_file js)) \<and>
     wf_history (file_records (js_file js))"

definition js_view :: "jsonl_store \<Rightarrow> idem_map" where
  "js_view js = latest (file_records (js_file js))"

lemma latest_Nil [simp]: "latest [] = Map.empty"
  by (simp add: latest_def fun_eq_iff)

lemma latest_snoc [simp]: "latest (rs @ [r]) = (latest rs)(ir_key r \<mapsto> r)"
  by (auto simp: latest_def fun_eq_iff)

lemma latest_SomeD: "latest rs k = Some r \<Longrightarrow> r \<in> set rs \<and> ir_key r = k"
  using last_in_set [of "filter (\<lambda>r. ir_key r = k) rs"]
  by (auto simp: latest_def Let_def split: if_splits)

lemma wf_history_Nil [simp]: "wf_history []"
  by (simp add: wf_history_def)

lemma wf_history_snoc:
  "wf_history (rs @ [r]) \<longleftrightarrow>
     wf_history rs \<and> wf_record r \<and>
     (\<forall>p. latest rs (ir_key r) = Some p \<longrightarrow> \<not> flt (ir_updated_at r) (ir_updated_at p))"
  by (auto simp: wf_history_def latest_def successively_append_iff Let_def)

lemma record_fields_roundtrip:
  assumes "wf_key (ir_key r)" "ir_owner_id r \<noteq> []" "1 \<le> ir_attempt r" "ir_data r = PNone \<or> is_dict (ir_data r)"
  shows "record_from_dict (PDict (record_to_dict r)) n = Inr r"
  using assms
  by (cases r)
    (auto simp: record_from_dict_def record_to_dict_def missing_record_fields_def key_from_dict_def
       fields_from_dict_def wf_key_def mk_record_key_def Let_def)

lemma record_from_to_dict: "wf_record r \<Longrightarrow> record_from_dict (PDict (record_to_dict r)) n = Inr r"
  by (rule record_fields_roundtrip) (auto simp: wf_record_def)

lemma line_record_line [simp]: "wf_record r \<Longrightarrow> line_record (rec_line r) = Some r"
  by (simp add: line_record_def rec_line_def record_from_to_dict)

lemma file_records_lines:
  assumes "file_lines f = map rec_line rs" "\<forall>r \<in> set rs. wf_record r"
  shows "file_records f = rs"
proof -
  have "List.map_filter line_record (map rec_line rs) = rs"
    using assms(2) by (induction rs) (auto simp: List.map_filter_simps)
  with assms(1) show ?thesis by (simp add: file_records_def)
qed

lemma ran_view: "r \<in> ran (js_view js) \<Longrightarrow> r \<in> set (file_records (js_file js))"
  using latest_SomeD by (auto simp: ran_def js_view_def)

lemma js_valid_iff:
  "js_valid js \<longleftrightarrow>
     (\<exists>rs. closed_file (js_file js) \<and> file_lines (js_file js) = map rec_line rs \<and> wf_history rs)"
  using file_records_lines by (auto simp: js_valid_def wf_history_def)

lemma js_valid_view:
  "closed_file f \<Longrightarrow> file_lines f = map rec_line rs \<Longrightarrow> wf_history rs \<Longrightarrow>
     js_file js = f \<Longrightarrow> js_valid js \<and> js_view js = latest rs"
  using file_records_lines [of f rs] by (auto simp: js_valid_def js_view_def wf_history_def)

subsection \<open>Reloading finds the latest record of every key\<close>

definition index_records :: "idem_record list \<Rightarrow> (string \<times> idem_record) list" where
  "index_records rs = fold (\<lambda>r d. AList.update (canonical (ir_key r)) r d) rs []"

lemma index_records_snoc [simp]:
  "index_records (rs @ [r]) = AList.update (canonical (ir_key r)) r (index_records rs)"
  by (simp add: index_records_def)

lemma map_of_index_records: "map_of (index_records rs) (canonical k) = latest rs k"
proof (induction rs rule: rev_induct)
  case Nil
  then show ?case by (simp add: index_records_def)
next
  case (snoc r rs)
  then show ?case by (simp add: update_conv)
qed

lemma index_records_keys:
  "(c, r) \<in> set (index_records rs) \<Longrightarrow> c = canonical (ir_key r) \<and> latest rs (ir_key r) = Some r"
proof -
  assume a: "(c, r) \<in> set (index_records rs)"
  have "\<forall>(c, r) \<in> set (index_records rs). c = canonical (ir_key r)"
  proof (induction rs rule: rev_induct)
    case (snoc r rs)
    then show ?case using update_set_subset [of "canonical (ir_key r)" r "index_records rs"] by auto
  qed (simp add: index_records_def)
  with a have c: "c = canonical (ir_key r)" by auto
  have "distinct (map fst (index_records rs))"
    by (induction rs rule: rev_induct) (simp_all add: index_records_def distinct_update)
  with a have "map_of (index_records rs) c = Some r" by simp
  with c map_of_index_records [of rs "ir_key r"] show ?thesis by simp
qed

lemma load_lines_history:
  "wf_history (rs0 @ rs) \<Longrightarrow>
     load_lines n (map rec_line rs) (index_records rs0) = (Inr (), index_records (rs0 @ rs))"
proof (induction rs arbitrary: rs0 n)
  case Nil
  then show ?case by simp
next
  case (Cons r rs)
  from Cons.prems have "wf_history ((rs0 @ [r]) @ rs)" by simp
  then have h: "wf_history (rs0 @ [r])"
    by (auto simp: wf_history_def successively_append_iff)
  then have "load_line n (rec_line r) (index_records rs0) = Inr (index_records (rs0 @ [r]))"
    by (auto simp: load_line_def rec_line_def record_from_to_dict wf_history_snoc map_of_index_records Let_def
             split: option.splits)
  with Cons.IH [of "rs0 @ [r]" "Suc n"] Cons.prems show ?case by simp
qed

lemma load_lines_append:
  "load_lines n xs recs = (Inr (), recs') \<Longrightarrow>
     load_lines n (xs @ ys) recs = load_lines (n + length xs) ys recs'"
  by (induction xs arbitrary: n recs) (auto split: sum.splits)

lemma store_reload_valid:
  assumes "closed_file (js_file js)" "file_lines (js_file js) = map rec_line rs" "wf_history rs"
  shows "store_reload True js = (Inr (), js\<lparr>js_records := index_records rs\<rparr>)"
  using assms load_lines_history [of "[]" rs 1]
  by (cases "js_file js") (auto simp: store_reload_def file_lines_def index_records_def)

lemma store_reload_other [simp]:
  "js_file (snd (store_reload b js)) = js_file js" "js_ttl (snd (store_reload b js)) = js_ttl js"
  by (auto simp: store_reload_def split: option.splits prod.splits)

lemma validate_record_latest:
  "wf_history rs \<Longrightarrow> latest rs k = Some r \<Longrightarrow> validate_record (canonical k) r = Inr r"
  by (drule latest_SomeD) (auto simp: validate_record_def wf_history_def wf_record_def)

subsection \<open>The store refines the specification\<close>

definition js_good :: "store_io \<times> pyfloat \<times> pyfloat \<Rightarrow> jsonl_store \<Rightarrow> bool" where
  "js_good ctx js \<longleftrightarrow>
     (let (io, now, now') = ctx
      in untorn (si_append io) \<and>
         (\<forall>r \<in> set (file_records (js_file js)). \<forall>t \<in> {now, now'}.
            \<not> flt t (ir_updated_at r) \<and> \<not> flt t (ir_created_at r)))"

definition js_fine :: "store_io \<times> pyfloat \<times> pyfloat \<Rightarrow> bool" where
  "js_fine ctx \<longleftrightarrow> (let (io, _) = ctx in si_lock io \<and> si_read io \<and> si_append io = Written)"

definition js_clock :: "store_io \<times> pyfloat \<times> pyfloat \<Rightarrow> pyfloat \<times> pyfloat" where
  "js_clock ctx = snd ctx"

text \<open>Appending a record that may follow the history keeps the file healthy, whatever the outcome.\<close>

lemma commit_valid:
  assumes f: "closed_file (js_file js)" "file_lines (js_file js) = map rec_line rs"
    and h: "wf_history (rs @ [r])" and out: "untorn (si_append io)"
    and c: "commit io r x js = (res, js')"
  shows "js_valid js' \<and> js_ttl js' = js_ttl js \<and>
    (res = Inr x \<and> js_view js' = (latest rs)(ir_key r \<mapsto> r) \<or>
     si_append io \<noteq> Written \<and> (\<exists>e. res = Inl e) \<and> (js_view js' = latest rs \<or> js_view js' = (latest rs)(ir_key r \<mapsto> r)))"
proof -
  let ?f = "append_effect (si_append io) (PDict (record_to_dict r)) (js_file js)"
  have js': "js_file js' = ?f" "js_ttl js' = js_ttl js" "res = Inr x \<longleftrightarrow> si_append io = Written"
    "(\<exists>e. res = Inl e) \<longleftrightarrow> si_append io \<noteq> Written"
    using c by (auto simp: commit_def store_append_def bind_op_def split: if_splits)
  have h': "wf_history rs" using h by (simp add: wf_history_snoc)
  have l: "closed_file ?f" "file_lines ?f =
      (if si_append io = Written \<or> si_append io = WrittenUnsynced
       then map rec_line (rs @ [r]) else map rec_line rs)"
    using append_effect_untorn [OF f(1) out, of "PDict (record_to_dict r)"] f(2)
    by (auto simp: rec_line_def)
  show ?thesis
  proof (cases "si_append io = Written \<or> si_append io = WrittenUnsynced")
    case True
    then have "js_valid js' \<and> js_view js' = latest (rs @ [r])"
      using js_valid_view [OF l(1) _ h js'(1)] l(2) by auto
    with js' True show ?thesis by auto
  next
    case False
    then have "js_valid js' \<and> js_view js' = latest rs"
      using js_valid_view [OF l(1) _ h' js'(1)] l(2) by auto
    with js' False show ?thesis by auto
  qed
qed

lemma with_lock_reload:
  assumes "js_valid js" "with_lock io (bind_op (store_reload (si_read io)) (\<lambda>_. body)) js = (res, js')"
  obtains (failed) e where "\<not> (si_lock io \<and> si_read io)" "res = Inl e" "js_valid js'" "js_view js' = js_view js" "js_ttl js' = js_ttl js"
  | (ran) rs where "closed_file (js_file js)" "file_lines (js_file js) = map rec_line rs" "wf_history rs"
      "js_view js = latest rs" "body (js\<lparr>js_records := index_records rs\<rparr>) = (res, js')"
proof -
  obtain rs where rs: "closed_file (js_file js)" "file_lines (js_file js) = map rec_line rs" "wf_history rs"
    using assms(1) by (auto simp: js_valid_iff)
  note v = js_valid_view [OF rs refl]
  show thesis
  proof (cases "si_lock io \<and> (si_read io \<or> js_file js = None)")
    case True
    then have "store_reload (si_read io) js = (Inr (), js\<lparr>js_records := index_records rs\<rparr>)"
      using store_reload_valid [OF rs] by (cases "si_read io") (auto simp: store_reload_def)
    with True assms(2) rs v show thesis by (intro ran) (auto simp: with_lock_def)
  next
    case False
    then have "(\<exists>e. res = Inl e) \<and> js_file js' = js_file js \<and> js_ttl js' = js_ttl js"
      using assms(2)
      by (auto simp: with_lock_def store_reload_def bind_op_def split: if_splits option.splits prod.splits)
    then obtain e where "res = Inl e" "js_file js' = js_file js" "js_ttl js' = js_ttl js" by blast
    then show thesis using assms(1) failed False by (auto simp: js_valid_def js_view_def)
  qed
qed

lemma wf_claim_record:
  assumes h: "wf_history rs" and k: "wf_key k" "ow \<noteq> []"
    and g: "\<forall>p \<in> ran (latest rs). \<not> flt t (ir_updated_at p) \<and> \<not> flt t (ir_created_at p)"
  shows "latest rs k = None \<Longrightarrow> wf_history (rs @ [claim_record k ow 1 t t])"
    and "latest rs k = Some r \<Longrightarrow>
      wf_history (rs @ [claim_record k ow (ir_attempt r + 1) (ir_created_at r) t])"
proof -
  have "\<not> flt t t" by (cases t) auto
  then show "latest rs k = None \<Longrightarrow> wf_history (rs @ [claim_record k ow 1 t t])"
    using h k by (auto simp: wf_history_snoc wf_record_def claim_record_def)
next
  assume l: "latest rs k = Some r"
  then have "wf_record r" using h latest_SomeD by (auto simp: wf_history_def)
  moreover have "r \<in> ran (latest rs)" using l by (rule ranI)
  ultimately show "wf_history (rs @ [claim_record k ow (ir_attempt r + 1) (ir_created_at r) t])"
    using h k g l by (auto simp: wf_history_snoc wf_record_def claim_record_def)
qed

lemma new_claim_claim_record:
  "new_claim t k ow n None = claim_record k ow n t t"
  "new_claim t k ow n (Some c) = claim_record k ow n c t"
  by (simp_all add: new_claim_def claim_record_def)

lemma claim_record_key [simp]: "ir_key (claim_record k ow n c t) = k"
  by (simp add: claim_record_def)

text \<open>A claim of a key that has a record: granted as the next attempt, or refused.\<close>

lemma claim_locked_Some:
  assumes "wf_history rs" "latest rs k = Some r" "js_records js = index_records rs"
  shows "(\<exists>t \<in> {now, now'}.
      claim_locked io now now' k ow js =
        (let c = claim_record k ow (ir_attempt r + 1) (ir_created_at r) t
         in commit io c \<lparr>cr_status = CLAIMED, cr_record = c\<rparr> js) \<and>
      spec_claim (js_ttl js) now now' k ow (latest rs) =
        (\<lparr>cr_status = CLAIMED, cr_record = claim_record k ow (ir_attempt r + 1) (ir_created_at r) t\<rparr>,
         (latest rs)(k \<mapsto> claim_record k ow (ir_attempt r + 1) (ir_created_at r) t)))
    \<or> (\<exists>sr. claim_locked io now now' k ow js = (Inr sr, js) \<and>
          spec_claim (js_ttl js) now now' k ow (latest rs) = (sr, latest rs))"
proof -
  have cl: "claim_locked io now now' k ow js =
     (let grant = (\<lambda>r. commit io r \<lparr>cr_status = CLAIMED, cr_record = r\<rparr> js);
          refuse = (\<lambda>st r. (Inr \<lparr>cr_status = st, cr_record = r\<rparr>, js))
      in if ir_status r = R_IN_PROGRESS then
           (if expired (js_ttl js) now r
            then grant (claim_record k ow (ir_attempt r + 1) (ir_created_at r) now')
            else refuse ALREADY_IN_PROGRESS r)
         else if ir_status r = R_COMPLETED then refuse ALREADY_COMPLETED r
         else if ir_status r = R_FAILED then refuse FAILED_PERMANENT r
         else grant (claim_record k ow (ir_attempt r + 1) (ir_created_at r) now))"
    using assms(2,3) validate_record_latest [OF assms(1,2)]
    by (simp add: claim_locked_def map_of_index_records new_claim_claim_record Let_def)
  show ?thesis unfolding cl spec_claim_def using assms(2)
    by (cases "ir_status r") (simp_all add: Let_def)
qed

lemma jsonl_claim_law:
  assumes "js_valid js" "js_good ctx js" "wf_key k" "ow \<noteq> []"
    and run: "jsonl_claim ctx k (PStr ow) js = (res, js')"
    and spec: "spec_claim (js_ttl js) (fst (js_clock ctx)) (snd (js_clock ctx)) k ow (js_view js) = (sr, m')"
  shows "js_valid js' \<and> js_ttl js' = js_ttl js \<and>
    (res = Inr sr \<and> js_view js' = m' \<or>
     \<not> js_fine ctx \<and> (\<exists>e. res = Inl e) \<and> (js_view js' = js_view js \<or> js_view js' = m'))"
proof -
  obtain io now now' where ctx: "ctx = (io, now, now')" by (cases ctx) auto
  from run ctx assms(4) have wl:
    "with_lock io (bind_op (store_reload (si_read io)) (\<lambda>_. claim_locked io now now' k ow)) js = (res, js')"
    by (simp add: jsonl_claim_def validate_owner_id_def)
  show ?thesis
  proof (cases rule: with_lock_reload [OF assms(1) wl])
    case (2 rs)
    let ?js = "js\<lparr>js_records := index_records rs\<rparr>"
    have g: "\<forall>p \<in> ran (latest rs). \<not> flt t (ir_updated_at p) \<and> \<not> flt t (ir_created_at p)"
      if "t \<in> {now, now'}" for t
      using assms(2) 2(4) ctx that ran_view [of _ js] by (auto simp: js_good_def)
    have out: "untorn (si_append io)" using assms(2) ctx by (simp add: js_good_def)
    have f: "closed_file (js_file ?js)" "file_lines (js_file ?js) = map rec_line rs" using 2 by simp_all
    have v: "js_valid ?js \<and> js_view ?js = latest rs" using js_valid_view [OF f 2(3) refl] .
    show ?thesis
    proof (cases "latest rs k")
      case None
      with 2(5) have "commit io (claim_record k ow 1 now now)
          \<lparr>cr_status = CLAIMED, cr_record = claim_record k ow 1 now now\<rparr> ?js = (res, js')"
        by (simp add: claim_locked_def map_of_index_records new_claim_claim_record)
      from commit_valid [OF f wf_claim_record(1) [OF 2(3) assms(3,4) g None] out this] None spec ctx 2(4)
      show ?thesis by (auto simp: spec_claim_def js_clock_def js_fine_def Let_def)
    next
      case (Some r)
      from claim_locked_Some [OF 2(3) Some, of ?js now now' io ow] spec ctx 2(4)
      consider t where "t \<in> {now, now'}"
          "claim_locked io now now' k ow ?js =
             (let c = claim_record k ow (ir_attempt r + 1) (ir_created_at r) t
              in commit io c \<lparr>cr_status = CLAIMED, cr_record = c\<rparr> ?js)"
          "sr = \<lparr>cr_status = CLAIMED, cr_record = claim_record k ow (ir_attempt r + 1) (ir_created_at r) t\<rparr>"
          "m' = (latest rs)(k \<mapsto> claim_record k ow (ir_attempt r + 1) (ir_created_at r) t)"
        | "claim_locked io now now' k ow ?js = (Inr sr, ?js)" "m' = latest rs"
        by (auto simp: js_clock_def)
      then show ?thesis
      proof cases
        case (1 t)
        with 2(5) have c: "commit io (claim_record k ow (ir_attempt r + 1) (ir_created_at r) t)
            \<lparr>cr_status = CLAIMED, cr_record = claim_record k ow (ir_attempt r + 1) (ir_created_at r) t\<rparr> ?js
            = (res, js')" by (simp add: Let_def)
        from commit_valid [OF f wf_claim_record(2) [OF 2(3) assms(3,4) g [OF 1(1)] Some] out c] 1(3,4) 2(4) ctx
        show ?thesis by (auto simp: js_fine_def)
      next
        case 2
        with \<open>claim_locked io now now' k ow ?js = (res, js')\<close> v \<open>js_view js = latest rs\<close>
        show ?thesis by auto
      qed
    qed
  qed (use ctx in \<open>auto simp: js_fine_def\<close>)
qed

lemma jsonl_transition_law:
  assumes "js_valid js" "js_good ctx js" "wf_key k" "ow \<noteq> []" "data = PNone \<or> is_dict data"
    and run: "jsonl_transition ctx k (PStr ow) target data js = (res, js')"
    and spec: "spec_transition (fst (js_clock ctx)) k ow target data (js_view js) = (sr, m')"
  shows "js_valid js' \<and> js_ttl js' = js_ttl js \<and>
    (res = sr \<and> js_view js' = m' \<or>
     \<not> js_fine ctx \<and> (\<exists>e. res = Inl e) \<and> (js_view js' = js_view js \<or> js_view js' = m'))"
proof -
  obtain io now now' where ctx: "ctx = (io, now, now')" by (cases ctx) auto
  from run ctx have wl:
    "with_lock io (bind_op (store_reload (si_read io))
       (\<lambda>_. transition_locked io now k (PStr ow) target data)) js = (res, js')"
    by (simp add: jsonl_transition_def)
  show ?thesis
  proof (cases rule: with_lock_reload [OF assms(1) wl])
    case (2 rs)
    let ?js = "js\<lparr>js_records := index_records rs\<rparr>"
    have out: "untorn (si_append io)" using assms(2) ctx by (simp add: js_good_def)
    have f: "closed_file (js_file ?js)" "file_lines (js_file ?js) = map rec_line rs" using 2 by simp_all
    have v: "js_valid ?js \<and> js_view ?js = latest rs" using js_valid_view [OF f 2(3) refl] .
    show ?thesis
    proof (cases "\<exists>r. latest rs k = Some r \<and> ir_owner_id r = ow \<and> ir_status r = R_IN_PROGRESS")
      case True
      then obtain r where r: "latest rs k = Some r" "ir_owner_id r = ow" "ir_status r = R_IN_PROGRESS" by blast
      let ?u = "\<lparr>ir_key = k, ir_status = target, ir_created_at = ir_created_at r, ir_updated_at = now,
                 ir_owner_id = ir_owner_id r, ir_attempt = ir_attempt r, ir_data = data\<rparr>"
      have wr: "wf_record r" using 2(3) r(1) latest_SomeD by (auto simp: wf_history_def)
      have ran: "r \<in> ran (latest rs)" using r(1) by (rule ranI)
      then have g: "\<not> flt now (ir_updated_at r)" "\<not> flt now (ir_created_at r)"
        using assms(2) 2(4) ctx ran_view [of _ js] by (auto simp: js_good_def)
      have h: "wf_history (rs @ [?u])"
        using 2(3) wr g r assms(3-5) by (auto simp: wf_history_snoc wf_record_def)
      have "commit io ?u () ?js = (res, js')"
        using 2(5) r assms(4) validate_record_latest [OF 2(3) r(1)]
        by (simp add: transition_locked_def validate_owner_id_def map_of_index_records)
      from commit_valid [OF f h out this] spec ctx 2(4) r show ?thesis
        by (cases r) (auto simp: spec_transition_def js_clock_def js_fine_def)
    next
      case False
      have "res = sr \<and> js' = ?js \<and> m' = latest rs"
        using False 2(5) spec ctx 2(4) assms(4) validate_record_latest [OF 2(3)]
        by (cases "latest rs k")
          (auto simp: transition_locked_def validate_owner_id_def map_of_index_records
             spec_transition_def js_clock_def split: if_splits)
      with v 2(4) show ?thesis by simp
    qed
  qed (use ctx in \<open>auto simp: js_fine_def\<close>)
qed

interpretation js: idempotency_store
  jsonl_claim jsonl_complete jsonl_fail js_view js_valid js_ttl js_good js_fine js_clock
proof (unfold_locales, goal_cases)
  case 1
  then show ?case by (rule jsonl_claim_law)
next
  case 2
  then show ?case unfolding jsonl_complete_def by (rule jsonl_transition_law)
next
  case 3
  then show ?case unfolding jsonl_fail_def fail_target_def by (rule jsonl_transition_law)
qed

subsection \<open>Maintenance keeps what it should keep\<close>

lemma distinct_keys_history:
  assumes "distinct (map ir_key xs)" "\<forall>r \<in> set xs. wf_record r"
  shows "wf_history xs" and "latest xs k = Some r \<longleftrightarrow> r \<in> set xs \<and> ir_key r = k"
proof -
  have "wf_history xs \<and> (\<forall>k r. latest xs k = Some r \<longleftrightarrow> r \<in> set xs \<and> ir_key r = k)"
    using assms
  proof (induction xs rule: rev_induct)
    case (snoc x xs)
    then have IH: "wf_history xs" "\<forall>k r. latest xs k = Some r \<longleftrightarrow> r \<in> set xs \<and> ir_key r = k"
      by simp_all
    with snoc.prems have "latest xs (ir_key x) = None"
      by (metis (no_types, lifting) distinct_append distinct_map image_eqI list.set_map map_append
          not_Cons_self2 not_None_eq disjoint_iff list.set_intros(1) list.simps(9))
    with IH snoc.prems show ?case by (auto simp: wf_history_snoc image_iff)
  qed simp
  then show "wf_history xs" "latest xs k = Some r \<longleftrightarrow> r \<in> set xs \<and> ir_key r = k" by auto
qed

lemma option_eq_by_Some: "(\<And>y. a = Some y \<longleftrightarrow> b = Some y) \<Longrightarrow> a = b"
  by (cases a; cases b) auto

definition kept :: "(idem_record \<Rightarrow> bool) \<Rightarrow> idem_map \<Rightarrow> idem_map" where
  "kept keep m k = (case m k of Some r \<Rightarrow> if keep r then Some r else None | None \<Rightarrow> None)"

definition snapshot :: "(idem_record \<Rightarrow> bool) \<Rightarrow> idem_record list \<Rightarrow> idem_record list" where
  "snapshot keep rs =
     sort_key (\<lambda>r. canonical (ir_key r)) (map snd (filter (\<lambda>(c, r). keep r) (index_records rs)))"

lemma index_records_distinct: "distinct (map fst (index_records rs))"
  by (induction rs rule: rev_induct) (simp_all add: index_records_def distinct_update)

lemma set_snapshot:
  "set (snapshot keep rs) = {r. latest rs (ir_key r) = Some r \<and> keep r}"
proof -
  have "(canonical (ir_key r), r) \<in> set (index_records rs)" if "latest rs (ir_key r) = Some r" for r
    using that map_of_index_records [of rs "ir_key r"] by (simp add: map_of_SomeD)
  then have "r \<in> set (snapshot keep rs)" if "latest rs (ir_key r) = Some r" "keep r" for r
    using that by (force simp: snapshot_def)
  moreover have "latest rs (ir_key r) = Some r \<and> keep r" if "r \<in> set (snapshot keep rs)" for r
    using that index_records_keys [of _ r rs] by (auto simp: snapshot_def)
  ultimately show ?thesis by blast
qed

lemma snapshot_distinct: "distinct (map ir_key (snapshot keep rs))"
proof -
  let ?xs = "filter (\<lambda>(c, r). keep r) (index_records rs)"
  have "map fst ?xs = map canonical (map ir_key (map snd ?xs))"
    using index_records_keys [of _ _ rs] by (auto simp: comp_def)
  moreover have "distinct (map fst ?xs)"
    using index_records_distinct [of rs] by (rule distinct_map_filter)
  ultimately have "distinct (map ir_key (map snd ?xs))"
    by (metis distinct_map)
  then have "distinct (map snd ?xs) \<and> inj_on ir_key (set (map snd ?xs))"
    by (simp only: distinct_map)
  then show ?thesis by (simp add: snapshot_def distinct_map)
qed

lemma snapshot_history:
  assumes "wf_history rs"
  shows "wf_history (snapshot keep rs)" and "latest (snapshot keep rs) = kept keep (latest rs)"
proof -
  have wf: "\<forall>r \<in> set (snapshot keep rs). wf_record r"
    using assms latest_SomeD [of rs] by (auto simp: set_snapshot wf_history_def)
  note h = distinct_keys_history [OF snapshot_distinct wf]
  show "wf_history (snapshot keep rs)" by (rule h)
  have "latest (snapshot keep rs) k = Some r \<longleftrightarrow> kept keep (latest rs) k = Some r" for k r
  proof -
    have "latest (snapshot keep rs) k = Some r \<longleftrightarrow> latest rs (ir_key r) = Some r \<and> keep r \<and> ir_key r = k"
      by (simp add: h(2) set_snapshot)
    also have "\<dots> \<longleftrightarrow> latest rs k = Some r \<and> keep r" using latest_SomeD [of rs k r] by blast
    also have "\<dots> \<longleftrightarrow> kept keep (latest rs) k = Some r"
      by (auto simp: kept_def split: option.splits if_splits)
    finally show ?thesis .
  qed
  then show "latest (snapshot keep rs) = kept keep (latest rs)"
    by (auto simp: fun_eq_iff intro: option_eq_by_Some)
qed

text \<open>
  Rewriting the file: afterwards the store holds exactly the records to keep, or, when a file
  operation failed, what it held before or what it should hold now.
\<close>

lemma rewrite_law:
  assumes "js_valid js" "with_lock io (rewrite_locked io keep) js = (res, js')"
  shows "js_valid js' \<and> js_ttl js' = js_ttl js \<and>
    (js_view js' = kept keep (js_view js) \<or> (\<exists>e. res = Inl e) \<and> js_view js' = js_view js)"
proof (cases rule: with_lock_reload [OF assms(1) assms(2) [unfolded rewrite_locked_def]])
  case (2 rs)
  let ?js = "js\<lparr>js_records := index_records rs\<rparr>"
  let ?tmp = "\<lparr>jl_lines = map rec_line (snapshot keep rs), jl_open = False\<rparr>"
  have old: "js_valid js1 \<and> js_view js1 = latest rs" if "js_file js1 = js_file js" for js1
    using js_valid_view [OF 2(1-3) that] .
  have new: "js_valid js1 \<and> js_view js1 = kept keep (latest rs)" if "js_file js1 = Some ?tmp" for js1
  proof -
    have "closed_file (Some ?tmp)" "file_lines (Some ?tmp) = map rec_line (snapshot keep rs)"
      by (simp_all add: closed_file_def file_lines_def)
    from js_valid_view [OF this snapshot_history(1) [OF 2(3)] that] snapshot_history(2) [OF 2(3)]
    show ?thesis by simp
  qed
  consider e where "res = Inl e" "js_file js' = js_file js" "js_ttl js' = js_ttl js"
    | "js_file js' = Some ?tmp" "js_ttl js' = js_ttl js"
    using 2(5)
    by (cases "si_snapshot io"; cases "si_replace io")
      (auto simp: write_snapshot_def replace_snapshot_def snapshot_def rec_line_def [abs_def]
         dest!: arg_cong [of _ _ snd])
  then show ?thesis using old new 2(4) by cases auto
qed auto

lemma rewrite_fine:
  assumes "js_valid js"
  shows "fst (with_lock si_fine (rewrite_locked si_fine keep) js) = Inr ()"
proof -
  obtain rs where rs: "closed_file (js_file js)" "file_lines (js_file js) = map rec_line rs" "wf_history rs"
    using assms by (auto simp: js_valid_iff)
  let ?js = "js\<lparr>js_records := index_records rs,
                js_file := Some \<lparr>jl_lines = map rec_line (snapshot keep rs), jl_open = False\<rparr>\<rparr>"
  have "closed_file (js_file ?js)" "file_lines (js_file ?js) = map rec_line (snapshot keep rs)"
    by (simp_all add: closed_file_def file_lines_def)
  from store_reload_valid [OF this snapshot_history(1) [OF rs(3)]] store_reload_valid [OF rs]
  show ?thesis
    by (simp add: with_lock_def rewrite_locked_def si_fine_def write_snapshot_def replace_snapshot_def
        snapshot_def rec_line_def [abs_def])
qed

subsection \<open>Repair\<close>

lemma corrupt_line_record [simp]: "wf_record r \<Longrightarrow> \<not> corrupt_line (n, rec_line r)"
  by (simp add: corrupt_line_def rec_line_def record_from_to_dict)

lemma find_corrupt_records:
  "\<forall>r \<in> set rs. wf_record r \<Longrightarrow> find corrupt_line (List.enumerate n (map rec_line rs)) = None"
  by (induction rs arbitrary: n) auto

lemma find_append: "find P (xs @ ys) = (case find P xs of None \<Rightarrow> find P ys | Some x \<Rightarrow> Some x)"
  by (induction xs) auto

lemma corrupt_index_healthy:
  "\<forall>r \<in> set rs. wf_record r \<Longrightarrow> corrupt_index (map rec_line rs) = None"
  by (simp add: corrupt_index_def find_corrupt_records)

lemma corrupt_index_first:
  assumes "\<forall>r \<in> set rs. wf_record r" "corrupt_line (length rs + 1, l)"
  shows "corrupt_index (map rec_line rs @ l # ls) = Some (length rs)"
  using assms by (simp add: corrupt_index_def enumerate_append_eq find_append find_corrupt_records)

text \<open>Repair leaves a healthy file alone, and puts a file with one bad last line back in order.\<close>

lemma repair_healthy:
  assumes "js_valid js"
  shows "repair si_fine js = (Inr False, js)"
proof -
  obtain rs where rs: "file_lines (js_file js) = map rec_line rs" "wf_history rs"
    using assms by (auto simp: js_valid_iff)
  then have "\<forall>r \<in> set rs. wf_record r" by (simp add: wf_history_def)
  with rs(1) show ?thesis
    by (cases "js_file js")
      (simp_all add: repair_def with_lock_def si_fine_def file_lines_def corrupt_index_healthy)
qed

lemma repair_trailing:
  assumes f: "js_file js = Some \<lparr>jl_lines = map rec_line rs @ [l], jl_open = b\<rparr>"
    and h: "wf_history rs" and l: "corrupt_line (length rs + 1, l)"
  shows "\<exists>js'. repair si_fine js = (Inr True, js') \<and> js_valid js' \<and> js_view js' = latest rs \<and>
           js_records js' = index_records rs"
proof -
  have wf: "\<forall>r \<in> set rs. wf_record r" using h by (simp add: wf_history_def)
  let ?js = "js\<lparr>js_file := Some \<lparr>jl_lines = map rec_line rs, jl_open = False\<rparr>\<rparr>"
  have c: "closed_file (js_file ?js)" "file_lines (js_file ?js) = map rec_line rs"
    by (simp_all add: closed_file_def file_lines_def)
  have "repair si_fine js = (Inr True, ?js\<lparr>js_records := index_records rs\<rparr>)"
    using f corrupt_index_first [OF wf l, of "[]"] store_reload_valid [OF c h]
    by (simp add: repair_def with_lock_def si_fine_def truncate_file_def)
  with js_valid_view [OF c h, of "?js\<lparr>js_records := index_records rs\<rparr>"] show ?thesis by simp
qed

lemma repair_middle:
  assumes f: "js_file js = Some \<lparr>jl_lines = map rec_line rs @ l # ls, jl_open = b\<rparr>" "ls \<noteq> []"
    and h: "wf_history rs" and l: "corrupt_line (length rs + 1, l)"
  shows "repair si_fine js =
    (Inl (IdempotencyCorruptionError (line_name (length rs + 1)) NonTrailingCorruption), js)"
  using f corrupt_index_first [OF _ l, of ls] h
  by (cases ls) (simp_all add: repair_def with_lock_def si_fine_def wf_history_def)

end
