(* ===== verification/Recovery.thy ===== *)
theory Recovery
  imports Replay_Engine Jsonl_Store
begin

text \<open>
  \<open>src/core/recovery_diagnostics.py\<close>, \<open>src/core/integrity_verifier.py\<close> and
  \<open>src/core/recovery_controller.py\<close>: the read-only analysis of a run, the integrity audit, and the
  gate that decides whether the agent loop may resume it. A message text is a value that carries
  what the text is built from. \<open>read_ok\<close> says whether the checkpoint file can be read during the
  call; \<open>md5_hex\<close> and \<open>py_text\<close> are the digest and the text conversions of the earlier theories.
\<close>

section \<open>Diagnostics\<close>

datatype recovery_potential = P_COMPLETED | P_RECOVERABLE | P_NON_RECOVERABLE | P_CORRUPT

datatype diag_message =
    NoMessage
  | NoEventsFound string
  | InFailedState
  | InHaltedState string
  | CanContinueFrom run_state
  | AnalysisError exn

record recovery_diagnostics =
  dg_run_id :: string
  dg_current_state :: run_state
  dg_potential :: recovery_potential
  dg_failure_domain :: "failure_domain option"
  dg_error_message :: diag_message
  dg_pending :: nat
  dg_completed :: nat

definition dg_can_resume :: "recovery_diagnostics \<Rightarrow> bool" where
  "dg_can_resume d \<longleftrightarrow> dg_potential d = P_COMPLETED \<or> dg_potential d = P_RECOVERABLE"

definition dg_is_deterministic :: "recovery_diagnostics \<Rightarrow> bool" where
  "dg_is_deterministic d \<longleftrightarrow> dg_potential d \<noteq> P_CORRUPT"

text \<open>The loop of \<open>_extract_failure_domain\<close>, on the reversed events.\<close>

fun failure_domain_of :: "checkpoint_event list \<Rightarrow> exn + failure_domain option" where
  "failure_domain_of [] = Inr None"
| "failure_domain_of (e # es) =
     (let p = ev_payload e; t = ev_type e
      in if t = LLM_RESPONDED \<and> has_key p ''error'' then Inr (Some LLM_PROVIDER)
         else if t \<in> {TOOL_RESULT_RECEIVED, TOOL_ATTEMPT_ENDED} \<and>
                 (dget p ''status'' PNone = PStr ''failure'' \<or> has_key p ''error'')
         then Inr (Some TOOL_EXECUTION)
         else if has_key p ''error'' then
           (case dget p ''error'' (PStr []) of
              PStr m \<Rightarrow>
                if substr ''checkpoint'' (lower m) then Inr (Some CHECKPOINT_STORE) else failure_domain_of es
            | _ \<Rightarrow> Inl AttributeError)
         else failure_domain_of es)"

definition extract_failure_domain :: "checkpoint_event list \<Rightarrow> exn + failure_domain option" where
  "extract_failure_domain evs = failure_domain_of (rev evs)"

definition extract_halt_reason :: "py_text \<Rightarrow> checkpoint_event list \<Rightarrow> string" where
  "extract_halt_reason tx evs =
     (case find (\<lambda>e. ev_type e = RUN_HALTED) (rev evs) of
        Some e \<Rightarrow> text_of tx (dget (ev_payload e) ''reason'' (PStr ''Unknown reason''))
      | None \<Rightarrow> ''Unknown halt reason'')"

definition corrupt_diagnostics :: "string \<Rightarrow> diag_message \<Rightarrow> recovery_diagnostics" where
  "corrupt_diagnostics run_id msg =
     \<lparr>dg_run_id = run_id, dg_current_state = PENDING, dg_potential = P_CORRUPT, dg_failure_domain = None,
      dg_error_message = msg, dg_pending = 0, dg_completed = 0\<rparr>"

definition classify_session ::
  "py_text \<Rightarrow> string \<Rightarrow> checkpoint_event list \<Rightarrow> session \<Rightarrow> exn + recovery_diagnostics" where
  "classify_session tx run_id evs s =
     (let diag = (\<lambda>pot fd msg.
            \<lparr>dg_run_id = run_id, dg_current_state = se_last_state s, dg_potential = pot,
             dg_failure_domain = fd, dg_error_message = msg,
             dg_pending = length (se_pending s), dg_completed = length (se_completed s)\<rparr>)
      in case se_last_state s of
           COMPLETED \<Rightarrow> Inr (diag P_COMPLETED None NoMessage)
         | FAILED \<Rightarrow>
             bind_result (extract_failure_domain evs) (\<lambda>fd. Inr (diag P_NON_RECOVERABLE fd InFailedState))
         | HALTED \<Rightarrow>
             bind_result (extract_failure_domain evs) (\<lambda>fd.
               Inr (diag P_NON_RECOVERABLE fd (InHaltedState (extract_halt_reason tx evs))))
         | st \<Rightarrow> Inr (diag P_RECOVERABLE None (CanContinueFrom st)))"

text \<open>\<open>RecoveryAnalyzer.analyze\<close> never raises: every exception becomes the classification CORRUPT.\<close>

definition analyze ::
  "(string \<Rightarrow> pyval \<Rightarrow> string) \<Rightarrow> py_text \<Rightarrow> bool \<Rightarrow> jsonl option \<Rightarrow> string \<Rightarrow> recovery_diagnostics" where
  "analyze md5_hex tx read_ok f run_id =
     (case bind_result (load_events_for_run read_ok f run_id) (\<lambda>evs.
             if evs = [] then Inr (corrupt_diagnostics run_id (NoEventsFound run_id))
             else bind_result (reconstruct_session md5_hex read_ok f run_id) (classify_session tx run_id evs)) of
        Inl e \<Rightarrow> corrupt_diagnostics run_id (AnalysisError e)
      | Inr d \<Rightarrow> d)"

section \<open>Integrity\<close>

datatype integrity_issue =
    InvalidJson nat
  | InvalidEvent nat exn
  | NoEventsFor string
  | SequenceCorrupt exn
  | TransitionInvalid exn
  | PendingInCompleted nat
  | ReplayFailed exn
  | MissingStoreRecord pyval pyval
  | StoreVerificationError exn
  | AnalyzerCorrupt diag_message

record integrity_report =
  ig_run_id :: string
  ig_valid :: bool
  ig_state :: run_state
  ig_checkpoint_count :: nat
  ig_pending :: nat
  ig_completed :: nat
  ig_potential :: "recovery_potential option"
  ig_issues :: "integrity_issue list"

text \<open>Reading the lines: issues and events accumulate; only a corruption error is an issue.\<close>

definition verify_line ::
  "nat \<times> line \<Rightarrow> checkpoint_event list \<times> integrity_issue list
     \<Rightarrow> exn + checkpoint_event list \<times> integrity_issue list" where
  "verify_line nl st =
     (case snd nl of
        Blank \<Rightarrow> Inr st
      | Malformed \<Rightarrow> Inr (fst st, snd st @ [InvalidJson (fst nl)])
      | Json v \<Rightarrow>
          (case event_from_dict v (Some (fst nl)) of
             Inr e \<Rightarrow> Inr (fst st @ [e], snd st)
           | Inl x \<Rightarrow>
               (case x of
                  CheckpointCorruptionError _ _ _ \<Rightarrow> Inr (fst st, snd st @ [InvalidEvent (fst nl) x])
                | _ \<Rightarrow> Inl x)))"

text \<open>The state machine over the events of the run; a state error is an issue and ends the loop.\<close>

fun verify_transitions ::
  "checkpoint_event list \<Rightarrow> run_state \<Rightarrow> exn + run_state \<times> integrity_issue list" where
  "verify_transitions [] s = Inr (s, [])"
| "verify_transitions (e # es) s =
     (case validate_state_transition s e of
        Inr s' \<Rightarrow> verify_transitions es s'
      | Inl x \<Rightarrow>
          (case x of CheckpointStateError _ _ _ \<Rightarrow> Inr (s, [TransitionInvalid x]) | _ \<Rightarrow> Inl x))"

definition verify_session ::
  "(string \<Rightarrow> pyval \<Rightarrow> string) \<Rightarrow> bool \<Rightarrow> jsonl option \<Rightarrow> string \<Rightarrow> exn + session option \<times> integrity_issue list" where
  "verify_session md5_hex read_ok f run_id =
     (case reconstruct_session md5_hex read_ok f run_id of
        Inr s \<Rightarrow>
          Inr (Some s, if se_last_state s = COMPLETED \<and> se_pending s \<noteq> []
                       then [PendingInCompleted (length (se_pending s))] else [])
      | Inl x \<Rightarrow> if is_checkpoint_error x then Inr (None, [ReplayFailed x]) else Inl x)"

definition store_scope :: "py_text \<Rightarrow> tool_result \<Rightarrow> string" where
  "store_scope tx r = (if truthy (tr_tool_name r) then ''tool:'' @ text_of tx (tr_tool_name r) else [])"

definition verify_store ::
  "py_text \<Rightarrow> (store_io \<times> jsonl_store) option \<Rightarrow> session option \<Rightarrow> integrity_issue list" where
  "verify_store tx store session =
     (case (store, session) of
        (Some (io, js), Some s) \<Rightarrow>
          (case fst (jsonl_get_all_records io js) of
             Inl x \<Rightarrow> [StoreVerificationError x]
           | Inr records \<Rightarrow>
               concat (map (\<lambda>(cid, r).
                 let scope = store_scope tx r
                 in if list_ex (\<lambda>(k, rec). (scope = [] \<or> operation_key k = scope) \<and> ir_status rec = R_COMPLETED) records
                    then [] else [MissingStoreRecord cid (tr_tool_name r)]) (se_completed s)))
      | _ \<Rightarrow> [])"

definition verify ::
  "(string \<Rightarrow> pyval \<Rightarrow> string) \<Rightarrow> py_text \<Rightarrow> bool \<Rightarrow> jsonl option \<Rightarrow> string
     \<Rightarrow> (store_io \<times> jsonl_store) option \<Rightarrow> exn + integrity_report" where
  "verify md5_hex tx read_ok f run_id store =
     (case f of
        None \<Rightarrow> Inl FileNotFoundError
      | Some j \<Rightarrow>
          if \<not> read_ok then Inl (OSError ''read'')
          else
            bind_result (fold_result verify_line (List.enumerate 1 (jl_lines j)) ([], [])) (\<lambda>(all_events, issues).
            let target = run_events run_id all_events in
            if target = [] then
              Inr \<lparr>ig_run_id = run_id, ig_valid = False, ig_state = PENDING, ig_checkpoint_count = 0,
                   ig_pending = 0, ig_completed = 0, ig_potential = None,
                   ig_issues = issues @ [NoEventsFor run_id]\<rparr>
            else
              let seq_issues = (case validate_event_sequence all_events of
                                  Inl x \<Rightarrow> [SequenceCorrupt x] | Inr _ \<Rightarrow> []) in
              bind_result (verify_transitions target PENDING) (\<lambda>(state, tr_issues).
              bind_result (verify_session md5_hex read_ok f run_id) (\<lambda>(session, se_issues).
              let found = issues @ seq_issues @ tr_issues @ se_issues @ verify_store tx store session;
                  diag = analyze md5_hex tx read_ok f run_id;
                  found = (if dg_potential diag = P_CORRUPT \<and> found = []
                           then [AnalyzerCorrupt (dg_error_message diag)] else found)
              in Inr \<lparr>ig_run_id = run_id, ig_valid = (found = []), ig_state = state,
                      ig_checkpoint_count = length target,
                      ig_pending = (case session of Some s \<Rightarrow> length (se_pending s) | None \<Rightarrow> 0),
                      ig_completed = (case session of Some s \<Rightarrow> length (se_completed s) | None \<Rightarrow> 0),
                      ig_potential = Some (dg_potential diag), ig_issues = found\<rparr>))))"

section \<open>The controller\<close>

record recovery_inspection =
  ri_run_id :: string
  ri_integrity_report :: integrity_report
  ri_diagnostics :: recovery_diagnostics

definition ri_valid :: "recovery_inspection \<Rightarrow> bool" where
  "ri_valid i = ig_valid (ri_integrity_report i)"

definition ri_can_resume :: "recovery_inspection \<Rightarrow> bool" where
  "ri_can_resume i \<longleftrightarrow> ri_valid i \<and> dg_can_resume (ri_diagnostics i)"

definition inspect_run ::
  "(string \<Rightarrow> pyval \<Rightarrow> string) \<Rightarrow> py_text \<Rightarrow> bool \<Rightarrow> jsonl option \<Rightarrow> string \<Rightarrow> exn + recovery_inspection" where
  "inspect_run md5_hex tx read_ok f run_id =
     (if f = None then Inl FileNotFoundError
      else
        bind_result (verify md5_hex tx read_ok f run_id None) (\<lambda>rep.
          Inr \<lparr>ri_run_id = run_id, ri_integrity_report = rep,
               ri_diagnostics = analyze md5_hex tx read_ok f run_id\<rparr>))"

text \<open>The last assistant message with a content.\<close>

definition cached_answer :: "session \<Rightarrow> content option" where
  "cached_answer s =
     map_option msg_content
       (find (\<lambda>m. msg_role m = ASSISTANT \<and> content_truthy (msg_content m)) (rev (se_messages s)))"

text \<open>
  \<open>RecoveryController.resume\<close>. The agent loop's own \<open>resume\<close> is an argument: a stateful operation
  on everything the loop can touch.
\<close>

definition controlled_resume ::
  "(string \<Rightarrow> pyval \<Rightarrow> string) \<Rightarrow> py_text \<Rightarrow> bool \<Rightarrow> jsonl option
     \<Rightarrow> (string \<Rightarrow> 's \<Rightarrow> (exn + content option) \<times> 's) \<Rightarrow> string \<Rightarrow> 's \<Rightarrow> (exn + content option) \<times> 's" where
  "controlled_resume md5_hex tx read_ok f loop_resume run_id w =
     (case inspect_run md5_hex tx read_ok f run_id of
        Inl x \<Rightarrow> (Inl x, w)
      | Inr i \<Rightarrow>
          if \<not> ri_valid i
          then (Inl (CheckpointCorruptionError (PStr run_id) None IntegrityFailed), w)
          else
            (case dg_potential (ri_diagnostics i) of
               P_COMPLETED \<Rightarrow>
                 (case reconstruct_session md5_hex read_ok f run_id of
                    Inl x \<Rightarrow> (Inl x, w)
                  | Inr s \<Rightarrow> (Inr (cached_answer s), w))
             | P_NON_RECOVERABLE \<Rightarrow>
                 (Inl (RecoveryStateError (TerminalState (dg_current_state (ri_diagnostics i)))), w)
             | P_CORRUPT \<Rightarrow> (Inl (CheckpointCorruptionError (PStr run_id) None ClassifiedCorrupt), w)
             | P_RECOVERABLE \<Rightarrow> loop_resume run_id w))"

end
