(* ===== verification/Legacy_Store.thy ===== *)
theory Legacy_Store
  imports Jsonl_File Replay_Engine
begin

text \<open>
  \<open>src/core/idempotency.py\<close>: the legacy \<open>IdempotencyStore\<close>, a cache of successful results in memory
  and in a JSON-lines file. \<open>read_ok\<close> says whether the file could be read.
\<close>

record legacy_store =
  lg_file :: "jsonl option"
  lg_cache :: "(pyval \<times> tool_result) list"

text \<open>\<open>k in v\<close> for a string \<open>k\<close>: keys of a dictionary, members of a list, substrings of a string.\<close>

fun str_in :: "string \<Rightarrow> pyval \<Rightarrow> exn + bool" where
  "str_in k (PDict d) = Inr (has_key d k)"
| "str_in k (PList l) = Inr (PStr k \<in> set l)"
| "str_in k (PStr s) = Inr (substr k s)"
| "str_in k _ = Inl (TypeError ''argument is not iterable'')"

text \<open>One line of \<open>_load_cache\<close>; an exception that is not a JSON error ends the whole loop.\<close>

definition load_cache_line ::
  "line \<Rightarrow> (pyval \<times> tool_result) list \<Rightarrow> exn + (pyval \<times> tool_result) list" where
  "load_cache_line l cache =
     (case l of
        Blank \<Rightarrow> Inr cache
      | Malformed \<Rightarrow> Inr cache
      | Json v \<Rightarrow>
          bind_result (str_in ''key'' v) (\<lambda>a.
          if \<not> a then Inr cache
          else bind_result (str_in ''result'' v) (\<lambda>b.
            if \<not> b then Inr cache
            else (case v of
                    PDict d \<Rightarrow>
                      (case dget d ''result'' PNone of
                         PDict rd \<Rightarrow>
                           bind_result (tool_result_from_dict rd) (\<lambda>r. pd_put (dget d ''key'' PNone) r cache)
                       | _ \<Rightarrow> Inl AttributeError)
                  | _ \<Rightarrow> Inl (TypeError ''indices must be integers'')))))"

fun load_cache_lines ::
  "line list \<Rightarrow> (pyval \<times> tool_result) list \<Rightarrow> (pyval \<times> tool_result) list" where
  "load_cache_lines [] cache = cache"
| "load_cache_lines (l # ls) cache =
     (case load_cache_line l cache of Inl _ \<Rightarrow> cache | Inr cache' \<Rightarrow> load_cache_lines ls cache')"

definition load_cache :: "bool \<Rightarrow> jsonl option \<Rightarrow> (pyval \<times> tool_result) list" where
  "load_cache read_ok f =
     (case f of None \<Rightarrow> [] | Some j \<Rightarrow> if read_ok then load_cache_lines (jl_lines j) [] else [])"

definition legacy_init :: "bool \<Rightarrow> jsonl option \<Rightarrow> legacy_store" where
  "legacy_init read_ok f = \<lparr>lg_file = f, lg_cache = load_cache read_ok f\<rparr>"

definition pd_get :: "pyval \<Rightarrow> (pyval \<times> 'v) list \<Rightarrow> exn + 'v option" where
  "pd_get k d =
     (if hashable k then Inr (map_option snd (find (\<lambda>(k', _). py_key_eq k k') d))
      else Inl (TypeError ''unhashable type''))"

definition legacy_get :: "pyval \<Rightarrow> legacy_store \<Rightarrow> exn + tool_result option" where
  "legacy_get key lg = pd_get key (lg_cache lg)"

text \<open>\<open>save\<close> updates the cache before it writes the file; only a failed write raises.\<close>

definition legacy_save ::
  "append_outcome \<Rightarrow> pyval \<Rightarrow> tool_result \<Rightarrow> legacy_store \<Rightarrow> (exn + unit) \<times> legacy_store" where
  "legacy_save out key r lg =
     (if tr_status r \<notin> {T_SUCCESS, T_PARTIAL_SUCCESS} then (Inr (), lg)
      else
        (case pd_put key r (lg_cache lg) of
           Inl e \<Rightarrow> (Inl e, lg)
         | Inr cache \<Rightarrow>
             ((if out = Written then Inr ()
               else Inl (SystemStateError ''Idempotency store write failed'' None)),
              \<lparr>lg_file =
                 append_effect out
                   (PDict [(''key'', key), (''result'', PDict (tool_result_to_dict r))]) (lg_file lg),
               lg_cache = cache\<rparr>)))"

section \<open>What was saved is found again, also by a new store on the same file\<close>

lemma find_pd_set:
  "find (\<lambda>(k', _). py_key_eq (PStr s) k') (pd_set (PStr t) v d) =
     (if s = t then (case find (\<lambda>(k', _). py_key_eq (PStr t) k') d of Some (k', _) \<Rightarrow> Some (k', v) | None \<Rightarrow> Some (PStr t, v))
      else find (\<lambda>(k', _). py_key_eq (PStr s) k') d)"
  by (induction d) auto

lemma legacy_get_save:
  assumes "legacy_save out (PStr k) r lg = (res, lg')" "tr_status r \<in> {T_SUCCESS, T_PARTIAL_SUCCESS}"
  shows "legacy_get (PStr k') lg' = (if k' = k then Inr (Some r) else legacy_get (PStr k') lg)"
  using assms find_pd_set [of k' k r "lg_cache lg"]
  by (auto simp: legacy_save_def legacy_get_def pd_get_def pd_put_def split: option.splits if_splits)

definition saved_line :: "string \<times> tool_result \<Rightarrow> line" where
  "saved_line kr = Json (PDict [(''key'', PStr (fst kr)), (''result'', PDict (tool_result_to_dict (snd kr)))])"

lemma load_cache_saved:
  "\<forall>kr \<in> set krs. wf_tool_result (snd kr) \<Longrightarrow>
     load_cache_lines (map saved_line krs) cache = fold (\<lambda>kr. pd_set (PStr (fst kr)) (snd kr)) krs cache"
  by (induction krs arbitrary: cache) (auto simp: load_cache_line_def saved_line_def pd_put_def)

end
