(* ===== verification/Runtime_World.thy ===== *)
theory Runtime_World
  imports Retry Recovery Legacy_Store Idempotency_Contract
begin

text \<open>
  The parts a running agent shares: the checkpoint manager, the idempotency store, the cancellation
  tokens, and whatever lies outside (tools, model provider, clock, disk). A \<open>world\<close> is that state
  and an \<open>env\<close> holds the code outside the runtime as functions on worlds: a tool, the provider and
  \<open>asyncio.sleep\<close> are awaited, so they may change any part of the world, as another coroutine or
  process can while the agent waits.

  Also here: the tool registry (\<open>src/core/tool_registry.py\<close>), whose \<open>jsonschema\<close> check is an argument,
  and the cancellation controller (\<open>src/core/cancellation.py\<close>).
\<close>

section \<open>World and environment\<close>

datatype control_event = CANCEL | TIMEOUT

record cancellation_reason =
  cn_event :: control_event
  cn_reason :: string

record cancellation_token =
  tk_is_cancelled :: bool
  tk_reason :: "cancellation_reason option"

datatype 'st exec_store = V2Store 'st | LegacyStore legacy_store

record ('st, 'x) world =
  w_cm :: checkpoint_manager
  w_store :: "'st exec_store"
  w_tokens :: "(string \<times> cancellation_token) list"
  w_ext :: 'x

record provider_tool_call =
  pc_call_id :: pyval
  pc_name :: pyval
  pc_arguments :: pyval

record llm_response =
  lr_content :: pyval
  lr_tool_calls :: "provider_tool_call list"

record ('st, 'x) tool =
  tl_name :: string
  tl_description :: string
  tl_schema :: pyval
  tl_execute :: "tool_call \<Rightarrow> (('st, 'x) world, op_result) op"

datatype schema_verdict = SchemaOk | SchemaInvalid string | SchemaRaises exn

record ('c, 'st) store_ops =
  so_claim :: "'c \<Rightarrow> record_key \<Rightarrow> pyval \<Rightarrow> ('st, claim_result) op"
  so_complete :: "'c \<Rightarrow> record_key \<Rightarrow> pyval \<Rightarrow> pyval \<Rightarrow> ('st, unit) op"
  so_fail :: "'c \<Rightarrow> record_key \<Rightarrow> pyval \<Rightarrow> bool \<Rightarrow> pyval \<Rightarrow> ('st, unit) op"

record ('c, 'st, 'x) env =
  en_cp :: "'x \<Rightarrow> (cp_io \<times> pyfloat) \<times> 'x"
  en_read :: "'x \<Rightarrow> bool \<times> 'x"
  en_store :: "'x \<Rightarrow> 'c \<times> 'x"
  en_write :: "'x \<Rightarrow> append_outcome \<times> 'x"
  en_random :: "'x \<Rightarrow> pyfloat \<times> 'x"
  en_timed_out :: "'x \<Rightarrow> bool"
  en_sleep :: "pyfloat \<Rightarrow> (('st, 'x) world, unit) op"
  en_generate :: "llm_message list \<Rightarrow> pyval list \<Rightarrow> (('st, 'x) world, llm_response) op"
  en_jsonschema :: "pyval \<Rightarrow> pyval \<Rightarrow> schema_verdict"
  en_md5 :: "string \<Rightarrow> pyval \<Rightarrow> string"
  en_text :: py_text
  en_str_exn :: "exn \<Rightarrow> string"
  en_registry :: "(string \<times> ('st, 'x) tool) list"
  en_ops :: "('c, 'st) store_ops"
  en_owner_id :: string
  en_retry :: retry_policy
  en_policy :: run_policy

text \<open>A call of the checkpoint manager, with the I/O outcomes and the clock of that moment.\<close>

definition cp_log ::
  "('c, 'st, 'x) env \<Rightarrow> (cp_io \<Rightarrow> pyfloat \<Rightarrow> checkpoint_manager \<Rightarrow> (exn + unit) \<times> checkpoint_manager)
     \<Rightarrow> (('st, 'x) world, unit) op" where
  "cp_log env f w =
     (let ((io, now), x) = en_cp env (w_ext w);
          (res, cm) = f io now (w_cm w)
      in (res, w\<lparr>w_cm := cm, w_ext := x\<rparr>))"

text \<open>Reading the checkpoint file, as the replay engine and the analyzer do.\<close>

definition cp_read ::
  "('c, 'st, 'x) env \<Rightarrow> (bool \<Rightarrow> jsonl option \<Rightarrow> exn + 'a) \<Rightarrow> (('st, 'x) world, 'a) op" where
  "cp_read env f w =
     (let (ok, x) = en_read env (w_ext w) in (f ok (cm_file (w_cm w)), w\<lparr>w_ext := x\<rparr>))"

section \<open>The tool registry\<close>

definition register_tool ::
  "('st, 'x) tool \<Rightarrow> (string \<times> ('st, 'x) tool) list \<Rightarrow> (string \<times> ('st, 'x) tool) list" where
  "register_tool t reg = AList.update (tl_name t) t reg"

definition get_tool :: "string \<Rightarrow> (string \<times> ('st, 'x) tool) list \<Rightarrow> ('st, 'x) tool option" where
  "get_tool name reg = map_of reg name"

definition get_all_tools :: "(string \<times> ('st, 'x) tool) list \<Rightarrow> ('st, 'x) tool list" where
  "get_all_tools reg = map snd reg"

definition get_tools_schema :: "(string \<times> ('st, 'x) tool) list \<Rightarrow> pyval list" where
  "get_tools_schema reg =
     map (\<lambda>(_, t). PDict [(''name'', PStr (tl_name t)), (''description'', PStr (tl_description t)),
                          (''parameters'', tl_schema t)]) reg"

definition quoted :: "string \<Rightarrow> string" where
  "quoted s = [CHR 0x27] @ s @ [CHR 0x27]"

definition registry_validate_call ::
  "(pyval \<Rightarrow> pyval \<Rightarrow> schema_verdict) \<Rightarrow> (string \<times> ('st, 'x) tool) list \<Rightarrow> tool_call \<Rightarrow> exn + bool" where
  "registry_validate_call jsonschema reg call =
     (case get_tool (tc_name call) reg of
        None \<Rightarrow> Inl (ValueError (''Tool '' @ quoted (tc_name call) @ '' not found in registry.''))
      | Some t \<Rightarrow>
          (case jsonschema (tc_arguments call) (tl_schema t) of
             SchemaOk \<Rightarrow> Inr True
           | SchemaInvalid msg \<Rightarrow>
               Inl (ValueError (''Schema validation failed for tool '' @ quoted (tc_name call) @ '': '' @ msg))
           | SchemaRaises e \<Rightarrow> Inl e))"

section \<open>Cancellation\<close>

definition control_event_value :: "control_event \<Rightarrow> string" where
  "control_event_value e = (case e of CANCEL \<Rightarrow> ''CANCEL'' | TIMEOUT \<Rightarrow> ''TIMEOUT'')"

definition cancellation_reason_to_dict :: "cancellation_reason \<Rightarrow> pydict" where
  "cancellation_reason_to_dict r =
     [(''control_event'', PStr (control_event_value (cn_event r))), (''reason'', PStr (cn_reason r))]"

definition new_token :: cancellation_token where
  "new_token = \<lparr>tk_is_cancelled = False, tk_reason = None\<rparr>"

text \<open>\<open>get_token\<close> creates the token of a run on demand; the token of a run is never replaced.\<close>

definition get_token :: "string \<Rightarrow> ('st, 'x) world \<Rightarrow> ('st, 'x) world" where
  "get_token run_id w =
     (case map_of (w_tokens w) run_id of
        Some _ \<Rightarrow> w
      | None \<Rightarrow> w\<lparr>w_tokens := AList.update run_id new_token (w_tokens w)\<rparr>)"

definition is_cancelled :: "string \<Rightarrow> ('st, 'x) world \<Rightarrow> bool" where
  "is_cancelled run_id w =
     (case map_of (w_tokens w) run_id of Some t \<Rightarrow> tk_is_cancelled t | None \<Rightarrow> False)"

definition mark_cancelled :: "cancellation_reason \<Rightarrow> cancellation_token \<Rightarrow> cancellation_token" where
  "mark_cancelled r t =
     (if tk_is_cancelled t then t else \<lparr>tk_is_cancelled = True, tk_reason = Some r\<rparr>)"

definition cancel ::
  "('c, 'st, 'x) env \<Rightarrow> string \<Rightarrow> string \<Rightarrow> control_event \<Rightarrow> (('st, 'x) world, unit) op" where
  "cancel env run_id reason event w =
     (let w = get_token run_id w
      in if is_cancelled run_id w then (Inr (), w)
         else
           bind_op
             (cp_log env (\<lambda>io now. log_run_halted io now run_id (control_event_value event @ '': '' @ reason)))
             (\<lambda>_ w. (Inr (),
                w\<lparr>w_tokens :=
                     AList.update run_id
                       (mark_cancelled \<lparr>cn_event = event, cn_reason = reason\<rparr>
                          (case map_of (w_tokens w) run_id of Some t \<Rightarrow> t | None \<Rightarrow> new_token))
                       (w_tokens w)\<rparr>)) w)"

subsection \<open>Facts\<close>

lemma get_token_fields [simp]:
  "w_cm (get_token r w) = w_cm w" "w_store (get_token r w) = w_store w" "w_ext (get_token r w) = w_ext w"
  "is_cancelled r' (get_token r w) = is_cancelled r' w"
  by (auto simp: get_token_def is_cancelled_def new_token_def update_conv split: option.splits)

lemma cp_log_fields:
  "cp_log env f w = (res, w') \<Longrightarrow> w_store w' = w_store w \<and> w_tokens w' = w_tokens w"
  by (auto simp: cp_log_def split: prod.splits)

lemma cp_log_cm:
  "cp_log env f w = (res, w') \<Longrightarrow>
     \<exists>io now. fst (en_cp env (w_ext w)) = (io, now) \<and> f io now (w_cm w) = (res, w_cm w')"
  by (auto simp: cp_log_def split: prod.splits)

text \<open>
  A token is marked only after the halt was written: a call that raises leaves every token as it
  was, and a token that is newly cancelled belongs to a run whose log call succeeded.
\<close>

lemma cancel_commit_first:
  assumes "cancel env r reason event w = (res, w')" "\<not> is_cancelled r w"
  shows "is_cancelled r w' \<longleftrightarrow> res = Inr ()"
    and "r' \<noteq> r \<Longrightarrow> is_cancelled r' w' = is_cancelled r' w"
    and "\<exists>io now. fst (en_cp env (w_ext w)) = (io, now) \<and>
           log_run_halted io now r (control_event_value event @ '': '' @ reason) (w_cm w) = (res, w_cm w')"
proof -
  let ?f = "\<lambda>io now. log_run_halted io now r (control_event_value event @ '': '' @ reason)"
  obtain res1 w1 where l: "cp_log env ?f (get_token r w) = (res1, w1)" by force
  have t: "w_tokens w1 = w_tokens (get_token r w)" using cp_log_fields [OF l] by simp
  have w': "res1 = res" "w_cm w' = w_cm w1"
    "w_tokens w' = (if res = Inr () then AList.update r
        (mark_cancelled \<lparr>cn_event = event, cn_reason = reason\<rparr>
          (case map_of (w_tokens w1) r of Some t \<Rightarrow> t | None \<Rightarrow> new_token)) (w_tokens w1) else w_tokens w1)"
    using assms l by (cases res1; auto simp: cancel_def bind_op_def)+
  have g: "is_cancelled r (get_token r w) = False" "is_cancelled r' (get_token r w) = is_cancelled r' w"
    using assms(2) by simp_all
  show "is_cancelled r w' \<longleftrightarrow> res = Inr ()"
    using g(1) t w'(3) by (auto simp: is_cancelled_def update_conv mark_cancelled_def split: option.splits)
  show "is_cancelled r' w' = is_cancelled r' w" if "r' \<noteq> r"
    using g(2) t w'(3) that by (auto simp: is_cancelled_def update_conv)
  show "\<exists>io now. fst (en_cp env (w_ext w)) = (io, now) \<and> ?f io now (w_cm w) = (res, w_cm w')"
    using cp_log_cm [OF l] w'(1,2) by simp
qed

end
