(* ===== verification/Tool_Executor.thy ===== *)
theory Tool_Executor
  imports Runtime_World
begin

text \<open>
  \<open>src/core/tool_executor.py\<close>: a tool call passes validation, the idempotency store, the checkpoint
  log and the retry loop. The store behind the v2 protocol is the record of operations \<open>en_ops\<close> of
  the environment; the facts at the end are proved for every store that satisfies the protocol
  locale.
\<close>

section \<open>Results the executor makes itself\<close>

definition error_result :: "tool_call \<Rightarrow> agent_exception \<Rightarrow> tool_result" where
  "error_result call e =
     \<lparr>tr_call_id = tc_call_id call, tr_run_id = PStr (tc_run_id call), tr_tool_name = PStr (tc_name call),
      tr_status = T_FAILURE, tr_data = PNone, tr_error = Some e, tr_duration_ms = PInt 0, tr_logs = PList []\<rparr>"

definition failure_result :: "tool_call \<Rightarrow> string \<Rightarrow> string \<Rightarrow> tool_result" where
  "failure_result call message code =
     error_result call (mk_agent_exception (PStr message) (PStr code) (PBool False) PNone)"

text \<open>The \<open>except\<close> clauses around the retry loop, the same for both kinds of store.\<close>

definition settle_exception :: "('c, 'st, 'x) env \<Rightarrow> tool_call \<Rightarrow> exn \<Rightarrow> exn + tool_result" where
  "settle_exception env call e =
     (case as_agent_exception e of
        Some a \<Rightarrow> Inr (error_result call a)
      | None \<Rightarrow>
          if is_system_state_error e \<or> is_checkpoint_error e \<or> \<not> is_exception e then Inl e
          else Inr (failure_result call (en_str_exn env e) ''UNKNOWN_TOOL_ERROR''))"

section \<open>Validation\<close>

definition validate_call :: "('c, 'st, 'x) env \<Rightarrow> tool_call \<Rightarrow> (('st, 'x) world, tool_result option) op" where
  "validate_call env call w =
     (case registry_validate_call (en_jsonschema env) (en_registry env) call of
        Inr _ \<Rightarrow> (Inr None, w)
      | Inl (ValueError msg) \<Rightarrow>
          bind_op (cp_log env (\<lambda>io now. log_tool_call_rejected io now (tc_run_id call) (tc_call_id call) msg))
            (\<lambda>_ w. (Inr (Some (failure_result call (''Validation failed: '' @ msg) ''VALIDATION_ERROR'')), w)) w
      | Inl e \<Rightarrow> (Inl e, w))"

section \<open>The retry loop of a tool\<close>

definition before_retry_attempt :: "('c, 'st, 'x) env \<Rightarrow> tool_call \<Rightarrow> int \<Rightarrow> (('st, 'x) world, bool) op" where
  "before_retry_attempt env call n =
     bind_op (cp_read env (\<lambda>ok f. Inr (analyze (en_md5 env) (en_text env) ok f (tc_run_id call)))) (\<lambda>diag w.
       if dg_potential diag = P_CORRUPT
       then (Inl (SystemStateError ''Failed to verify run state before retry continuation''
                    (Some (SystemStateError ''Checkpoint corruption detected before retry continuation'' None))), w)
       else (Inr (\<not> is_terminal (dg_current_state diag)), w))"

definition tool_retry_env ::
  "('c, 'st, 'x) env \<Rightarrow> tool_call \<Rightarrow> ('st, 'x) tool \<Rightarrow> ('st, 'x) world retry_env" where
  "tool_retry_env env call tool =
     (let run_id = tc_run_id call; cid = tc_call_id call
      in \<lparr>re_operation = tl_execute tool call,
          re_on_attempt_start = Some (\<lambda>attempt. cp_log env (\<lambda>io now.
            log_tool_attempt_started io now run_id cid attempt (PStr (tc_name call)) (tc_arguments call))),
          re_on_attempt_complete = Some (\<lambda>attempt status err. cp_log env (\<lambda>io now.
            log_tool_attempt_ended io now run_id cid attempt status err)),
          re_on_retry_scheduled = Some (\<lambda>attempt next delay reason dmn. cp_log env (\<lambda>io now.
            log_retry_scheduled io now run_id ''TOOL'' attempt next delay reason dmn cid PNone)),
          re_before_retry_attempt = Some (before_retry_attempt env call),
          re_random = (\<lambda>w. let (r, x) = en_random env (w_ext w) in (r, w\<lparr>w_ext := x\<rparr>)),
          re_sleep = en_sleep env,
          re_str_exn = en_str_exn env,
          re_parse_float = parse_float (en_text env)\<rparr>)"

definition tool_execute_with_retry ::
  "('c, 'st, 'x) env \<Rightarrow> tool_call \<Rightarrow> ('st, 'x) tool \<Rightarrow> (('st, 'x) world, op_result option) op" where
  "tool_execute_with_retry env call tool = execute_with_retry (tool_retry_env env call tool) (en_retry env)"

section \<open>Execution behind the v2 store\<close>

definition v2_call ::
  "('c, 'st, 'x) env \<Rightarrow> ('c \<Rightarrow> ('st, 'a) op) \<Rightarrow> (('st, 'x) world, 'a) op" where
  "v2_call env f w =
     (case w_store w of
        V2Store st \<Rightarrow>
          (let (c, x) = en_store env (w_ext w); (res, st') = f c st
           in (res, w\<lparr>w_store := V2Store st', w_ext := x\<rparr>))
      | LegacyStore _ \<Rightarrow> (Inl AttributeError, w))"

text \<open>How a store's exception leaves the executor: as a system state error that names the operation.\<close>

definition claim_error :: "exn \<Rightarrow> exn" where
  "claim_error e =
     (if is_idempotency_error e \<or> \<not> is_exception e then e
      else if is_os_error e then SystemStateError ''Idempotency claim persistence failed'' (Some e)
      else SystemStateError ''Idempotency claim failed'' (Some e))"

definition transition_error :: "string \<Rightarrow> string \<Rightarrow> exn \<Rightarrow> exn" where
  "transition_error io_text other_text e =
     (if is_system_state_error e \<or> \<not> is_exception e then e
      else if is_os_error e then SystemStateError io_text (Some e)
      else SystemStateError other_text (Some e))"

definition map_error :: "(exn \<Rightarrow> exn) \<Rightarrow> ('s, 'a) op \<Rightarrow> ('s, 'a) op" where
  "map_error g f s = (case f s of (Inl e, s') \<Rightarrow> (Inl (g e), s') | (Inr x, s') \<Rightarrow> (Inr x, s'))"

definition complete_v2 :: "('c, 'st, 'x) env \<Rightarrow> record_key \<Rightarrow> tool_result \<Rightarrow> (('st, 'x) world, unit) op" where
  "complete_v2 env key r =
     map_error (transition_error ''Idempotency completion persistence failed'' ''Idempotency completion failed'')
       (v2_call env (\<lambda>c. so_complete (en_ops env) c key (PStr (en_owner_id env)) (PDict (tool_result_to_dict r))))"

definition fail_v2 :: "('c, 'st, 'x) env \<Rightarrow> record_key \<Rightarrow> bool \<Rightarrow> pyval \<Rightarrow> (('st, 'x) world, unit) op" where
  "fail_v2 env key retryable data =
     map_error (transition_error ''Idempotency failure persistence failed'' ''Idempotency failure transition failed'')
       (v2_call env (\<lambda>c. so_fail (en_ops env) c key (PStr (en_owner_id env)) retryable data))"

definition record_key_of :: "tool_call \<Rightarrow> exn + record_key" where
  "record_key_of call = mk_record_key (PStr (''tool:'' @ tc_name call)) (tc_idempotency_key call)"

text \<open>
  The result of an earlier execution, read back from its record. Data that is not an object has no
  \<open>get\<close>: an \<open>AttributeError\<close>, which the clause does not catch.
\<close>

definition replay_completed_result :: "idem_record \<Rightarrow> exn + tool_result" where
  "replay_completed_result r =
     (case ir_data r of
        PDict d \<Rightarrow>
          (case (if has_key d ''result'' then dget d ''result'' PNone else PDict d) of
             PDict rd \<Rightarrow>
               (case tool_result_from_dict rd of
                  Inl e \<Rightarrow>
                    Inl (if is_format_error e
                         then SystemStateError ''Failed to deserialize completed ToolResult'' (Some e) else e)
                | Inr t \<Rightarrow> Inr t)
           | _ \<Rightarrow> Inl AttributeError)
      | _ \<Rightarrow> Inl (SystemStateError ''Completed idempotency record has no ToolResult data'' None))"

definition is_retryable_result :: "tool_result \<Rightarrow> bool" where
  "is_retryable_result r = (case tr_error r of Some a \<Rightarrow> truthy (ae_retryable a) | None \<Rightarrow> True)"

definition settle_result ::
  "('c, 'st, 'x) env \<Rightarrow> record_key \<Rightarrow> tool_result \<Rightarrow> (('st, 'x) world, tool_result) op" where
  "settle_result env key r =
     (if tr_status r = T_SUCCESS
      then bind_op (complete_v2 env key r) (\<lambda>_ w. (Inr r, w))
      else bind_op (fail_v2 env key (is_retryable_result r) (PDict [(''result'', PDict (tool_result_to_dict r))]))
             (\<lambda>_ w. (Inr r, w)))"

definition execute_claimed_v2 ::
  "('c, 'st, 'x) env \<Rightarrow> tool_call \<Rightarrow> ('st, 'x) tool \<Rightarrow> record_key \<Rightarrow> (('st, 'x) world, tool_result) op" where
  "execute_claimed_v2 env call tool key w =
     (case tool_execute_with_retry env call tool w of
        (Inl e, w) \<Rightarrow>
          (case settle_exception env call e of
             Inl e \<Rightarrow> (Inl e, w)
           | Inr r \<Rightarrow> settle_result env key r w)
      | (Inr (Some (TR r)), w) \<Rightarrow> settle_result env key r w
      | (Inr _, w) \<Rightarrow> (Inl AttributeError, w))"

definition execute_v2 ::
  "('c, 'st, 'x) env \<Rightarrow> tool_call \<Rightarrow> ('st, 'x) tool \<Rightarrow> (('st, 'x) world, tool_result) op" where
  "execute_v2 env call tool w =
     (case record_key_of call of
        Inl e \<Rightarrow> (Inl e, w)
      | Inr key \<Rightarrow>
          bind_op
            (map_error claim_error
               (v2_call env (\<lambda>c. so_claim (en_ops env) c key (PStr (en_owner_id env)))))
            (\<lambda>cr w.
              case cr_status cr of
                ALREADY_COMPLETED \<Rightarrow> (replay_completed_result (cr_record cr), w)
              | ALREADY_IN_PROGRESS \<Rightarrow>
                  (Inr (failure_result call
                     ''Tool execution is already in progress for this idempotency key.''
                     ''IDEMPOTENCY_IN_PROGRESS''), w)
              | FAILED_PERMANENT \<Rightarrow>
                  (Inr (failure_result call
                     ''Tool execution previously failed permanently for this idempotency key.''
                     ''IDEMPOTENCY_FAILED_PERMANENT''), w)
              | CLAIMED \<Rightarrow> execute_claimed_v2 env call tool key w) w)"

section \<open>Execution behind the legacy store\<close>

definition legacy_save_result ::
  "('c, 'st, 'x) env \<Rightarrow> tool_call \<Rightarrow> tool_result \<Rightarrow> (('st, 'x) world, unit) op" where
  "legacy_save_result env call r w =
     (case w_store w of
        LegacyStore lg \<Rightarrow>
          (let (out, x) = en_write env (w_ext w);
               (res, lg') = legacy_save out (tc_idempotency_key call) r lg
           in (res, w\<lparr>w_store := LegacyStore lg', w_ext := x\<rparr>))
      | V2Store _ \<Rightarrow> (Inl AttributeError, w))"

text \<open>The body of the \<open>try\<close>; a value that is no \<open>ToolResult\<close> has no \<open>status\<close>.\<close>

definition legacy_attempt ::
  "('c, 'st, 'x) env \<Rightarrow> tool_call \<Rightarrow> ('st, 'x) tool \<Rightarrow> (('st, 'x) world, tool_result) op" where
  "legacy_attempt env call tool =
     bind_op (tool_execute_with_retry env call tool) (\<lambda>res w.
       case res of
         Some (TR r) \<Rightarrow>
           if tr_status r = T_SUCCESS
           then bind_op (legacy_save_result env call r) (\<lambda>_ w. (Inr r, w)) w
           else (Inr r, w)
       | _ \<Rightarrow> (Inl AttributeError, w))"

definition execute_legacy ::
  "('c, 'st, 'x) env \<Rightarrow> tool_call \<Rightarrow> ('st, 'x) tool \<Rightarrow> legacy_store \<Rightarrow> (('st, 'x) world, tool_result) op" where
  "execute_legacy env call tool lg w =
     (case legacy_get (tc_idempotency_key call) lg of
        Inl e \<Rightarrow> (Inl e, w)
      | Inr (Some cached) \<Rightarrow> (Inr cached, w)
      | Inr None \<Rightarrow>
          (case legacy_attempt env call tool w of
             (Inr r, w) \<Rightarrow> (Inr r, w)
           | (Inl e, w) \<Rightarrow> (settle_exception env call e, w)))"

section \<open>The entry point\<close>

definition dispatch_tool ::
  "('c, 'st, 'x) env \<Rightarrow> tool_call \<Rightarrow> (('st, 'x) world, tool_result) op" where
  "dispatch_tool env call w =
     (case get_tool (tc_name call) (en_registry env) of
        None \<Rightarrow>
          (let msg = ''Tool '' @ tc_name call @ '' not found'' in
           bind_op (cp_log env (\<lambda>io now. log_tool_call_rejected io now (tc_run_id call) (tc_call_id call) msg))
             (\<lambda>_ w. (Inr (failure_result call msg ''TOOL_NOT_FOUND''), w)) w)
      | Some tool \<Rightarrow>
          (case w_store w of
             V2Store _ \<Rightarrow> execute_v2 env call tool w
           | LegacyStore lg \<Rightarrow> execute_legacy env call tool lg w))"

definition execute_tool :: "('c, 'st, 'x) env \<Rightarrow> tool_call \<Rightarrow> (('st, 'x) world, tool_result) op" where
  "execute_tool env call =
     bind_op
       (cp_log env (\<lambda>io now.
          log_tool_call_created io now (tc_run_id call) (tc_call_id call) (PStr (tc_name call)) (tc_arguments call)))
       (\<lambda>_. bind_op (validate_call env call) (\<lambda>invalid.
          case invalid of Some r \<Rightarrow> (\<lambda>w. (Inr r, w)) | None \<Rightarrow> dispatch_tool env call))"

section \<open>Execution over any store that keeps the protocol\<close>

lemma map_error_Inr [simp]: "map_error g f s = (Inr x, s') \<longleftrightarrow> f s = (Inr x, s')"
  by (auto simp: map_error_def split: prod.splits sum.splits)

lemma v2_call_Inr:
  assumes "v2_call env f w = (Inr x, w')"
  obtains st st' where "w_store w = V2Store st" "f (fst (en_store env (w_ext w))) st = (Inr x, st')"
    "w' = w\<lparr>w_store := V2Store st', w_ext := snd (en_store env (w_ext w))\<rparr>"
  using assms by (auto simp: v2_call_def split: exec_store.splits prod.splits)

lemma replay_completed_own_result:
  "wf_tool_result r \<Longrightarrow> ir_data rec = PDict (tool_result_to_dict r) \<Longrightarrow> replay_completed_result rec = Inr r"
  by (simp add: replay_completed_result_def) (simp add: tool_result_to_dict_def)

definition ops_of ::
  "('c \<Rightarrow> record_key \<Rightarrow> pyval \<Rightarrow> ('st, claim_result) op) \<Rightarrow>
   ('c \<Rightarrow> record_key \<Rightarrow> pyval \<Rightarrow> pyval \<Rightarrow> ('st, unit) op) \<Rightarrow>
   ('c \<Rightarrow> record_key \<Rightarrow> pyval \<Rightarrow> bool \<Rightarrow> pyval \<Rightarrow> ('st, unit) op) \<Rightarrow> ('c, 'st) store_ops" where
  "ops_of cl co fa = \<lparr>so_claim = cl, so_complete = co, so_fail = fa\<rparr>"

text \<open>The world right after the claim of a call, in which the tool starts.\<close>

definition after_claim :: "('c, 'st, 'x) env \<Rightarrow> record_key \<Rightarrow> ('st, 'x) world \<Rightarrow> ('st, 'x) world" where
  "after_claim env key w = snd (v2_call env (\<lambda>c. so_claim (en_ops env) c key (PStr (en_owner_id env))) w)"

lemma execute_v2_Inr:
  assumes "execute_v2 env call tool w = (Inr r, w')" "record_key_of call = Inr key"
  obtains cr st1 st2 where "w_store w = V2Store st1"
    "so_claim (en_ops env) (fst (en_store env (w_ext w))) key (PStr (en_owner_id env)) st1 = (Inr cr, st2)"
    "after_claim env key w = w\<lparr>w_store := V2Store st2, w_ext := snd (en_store env (w_ext w))\<rparr>"
    "cr_status cr = ALREADY_COMPLETED \<and> replay_completed_result (cr_record cr) = Inr r \<and> w' = after_claim env key w
     \<or> cr_status cr = CLAIMED \<and> execute_claimed_v2 env call tool key (after_claim env key w) = (Inr r, w')
     \<or> tr_status r = T_FAILURE"
proof -
  obtain res w1 where c: "v2_call env (\<lambda>c. so_claim (en_ops env) c key (PStr (en_owner_id env))) w = (res, w1)"
    by force
  with assms obtain cr where cr: "res = Inr cr"
    by (cases res) (auto simp: execute_v2_def bind_op_def map_error_def)
  have ac: "after_claim env key w = w1" using c by (simp add: after_claim_def)
  from c cr obtain st1 st2 where st: "w_store w = V2Store st1"
    "so_claim (en_ops env) (fst (en_store env (w_ext w))) key (PStr (en_owner_id env)) st1 = (Inr cr, st2)"
    "w1 = w\<lparr>w_store := V2Store st2, w_ext := snd (en_store env (w_ext w))\<rparr>"
    by (auto elim: v2_call_Inr)
  show thesis
    using assms c cr ac st
    by (intro that [OF st(1,2)])
      (auto simp: execute_v2_def bind_op_def map_error_def failure_result_def error_result_def
            split: claim_status.splits)
qed

lemma execute_claimed_v2_success:
  assumes "execute_claimed_v2 env call tool key w = (Inr r, w')" "tr_status r = T_SUCCESS"
  obtains w1 where "w1 = snd (tool_execute_with_retry env call tool w)" "complete_v2 env key r w1 = (Inr (), w')"
proof -
  obtain res w1 where t: "tool_execute_with_retry env call tool w = (res, w1)" by force
  have sr: "complete_v2 env key r w1 = (Inr (), w')" if "settle_result env key r' w1 = (Inr r, w')" for r'
    using that assms(2)
    by (auto simp: settle_result_def bind_op_def split: if_splits sum.splits prod.splits)
  have "complete_v2 env key r w1 = (Inr (), w')"
    using assms(1) t sr
    by (auto simp: execute_claimed_v2_def split: sum.splits option.splits op_result.splits)
  with t show thesis by (intro that) simp_all
qed

context idempotency_store
begin

definition store_ready :: "('c, 's, 'x) env \<Rightarrow> ('s, 'x) world \<Rightarrow> bool" where
  "store_ready env w \<longleftrightarrow>
     (\<exists>st. w_store w = V2Store st \<and> valid st \<and> good (fst (en_store env (w_ext w))) st)"

lemma complete_v2_recorded:
  assumes "en_ops env = ops_of claim complete fail" "store_ready env w" "wf_key key" "en_owner_id env \<noteq> []"
    and "complete_v2 env key r w = (Inr (), w')"
  shows "\<exists>st' rec. w_store w' = V2Store st' \<and> valid st' \<and> view st' key = Some rec \<and>
           ir_status rec = R_COMPLETED \<and> ir_data rec = PDict (tool_result_to_dict r)"
proof -
  obtain st st' where st: "w_store w = V2Store st"
    "complete (fst (en_store env (w_ext w))) key (PStr (en_owner_id env)) (PDict (tool_result_to_dict r)) st = (Inr (), st')"
    "w' = w\<lparr>w_store := V2Store st', w_ext := snd (en_store env (w_ext w))\<rparr>"
    using assms(1,5) by (auto simp: complete_v2_def ops_of_def elim!: v2_call_Inr)
  have ok: "valid st" "good (fst (en_store env (w_ext w))) st" using assms(2) st(1) by (auto simp: store_ready_def)
  obtain sr m' where sp: "spec_transition (fst (clock (fst (en_store env (w_ext w))))) key (en_owner_id env)
      R_COMPLETED (PDict (tool_result_to_dict r)) (view st) = (sr, m')" by force
  from complete_law [OF ok assms(3,4) _ st(2) sp] have "valid st'" "sr = Inr ()" "view st' = m'" by auto
  moreover from sp this(2) obtain rec where "m' key = Some rec" "ir_status rec = R_COMPLETED"
    "ir_data rec = PDict (tool_result_to_dict r)"
    by (auto simp: spec_transition_def split: option.splits if_splits)
  ultimately show ?thesis using st(3) by auto
qed

lemma execute_v2_completed:
  assumes ops: "en_ops env = ops_of claim complete fail" and own: "en_owner_id env \<noteq> []"
    and key: "record_key_of call = Inr key" and ready: "store_ready env w"
    and mid: "store_ready env (snd (tool_execute_with_retry env call tool (after_claim env key w)))"
    and run: "execute_v2 env call tool w = (Inr r, w')" "tr_status r = T_SUCCESS" "wf_tool_result r"
  shows "\<exists>st' rec. w_store w' = V2Store st' \<and> valid st' \<and> view st' key = Some rec \<and>
           ir_status rec = R_COMPLETED \<and> replay_completed_result rec = Inr r"
proof -
  have wk: "wf_key key" using key mk_record_key_Inr by (auto simp: record_key_of_def)
  obtain cr st1 st2 where cl: "w_store w = V2Store st1"
    "so_claim (en_ops env) (fst (en_store env (w_ext w))) key (PStr (en_owner_id env)) st1 = (Inr cr, st2)"
    "after_claim env key w = w\<lparr>w_store := V2Store st2, w_ext := snd (en_store env (w_ext w))\<rparr>"
    and cases: "cr_status cr = ALREADY_COMPLETED \<and> replay_completed_result (cr_record cr) = Inr r \<and> w' = after_claim env key w
     \<or> cr_status cr = CLAIMED \<and> execute_claimed_v2 env call tool key (after_claim env key w) = (Inr r, w')
     \<or> tr_status r = T_FAILURE"
    by (rule execute_v2_Inr [OF run(1) key])
  from cl(2) ops have cl2: "claim (fst (en_store env (w_ext w))) key (PStr (en_owner_id env)) st1 = (Inr cr, st2)"
    by (simp add: ops_of_def)
  have ok: "valid st1" "good (fst (en_store env (w_ext w))) st1" using ready cl(1) by (auto simp: store_ready_def)
  from cases run(2) show ?thesis
  proof (elim disjE conjE, goal_cases)
    case 1
    let ?c = "clock (fst (en_store env (w_ext w)))"
    obtain sr m' where sp: "spec_claim (ttl st1) (fst ?c) (snd ?c) key (en_owner_id env) (view st1) = (sr, m')"
      by force
    from claim_law [OF ok wk own cl2 sp] have "valid st2" "sr = cr" "view st2 = m'" by auto
    with sp 1 have "view st2 key = Some (cr_record cr)" "ir_status (cr_record cr) = R_COMPLETED"
      by (auto simp: spec_claim_def Let_def split: option.splits record_status.splits if_splits)
    with 1 cl(3) \<open>valid st2\<close> show ?case by auto
  next
    case 2
    then obtain w1 where w1: "w1 = snd (tool_execute_with_retry env call tool (after_claim env key w))"
      "complete_v2 env key r w1 = (Inr (), w')"
      by (auto elim: execute_claimed_v2_success)
    from complete_v2_recorded [OF ops _ wk own w1(2)] mid w1(1) replay_completed_own_result [OF run(3)]
    show ?case by fastforce
  qed simp
qed

text \<open>A completed call is answered from its record; the tool does not occur in the outcome.\<close>

lemma execute_v2_replays:
  assumes ops: "en_ops env = ops_of claim complete fail" and own: "en_owner_id env \<noteq> []"
    and key: "record_key_of call = Inr key" and st: "w_store w = V2Store st" "valid st"
    and good: "good (fst (en_store env (w_ext w))) st" "fine (fst (en_store env (w_ext w)))"
    and rec: "view st key = Some rec" "ir_status rec = R_COMPLETED"
  shows "\<exists>st'. execute_v2 env call tool w =
      (replay_completed_result rec, w\<lparr>w_store := V2Store st', w_ext := snd (en_store env (w_ext w))\<rparr>) \<and>
      view st' = view st \<and> valid st'"
proof -
  have wk: "wf_key key" using key mk_record_key_Inr by (auto simp: record_key_of_def)
  let ?c = "fst (en_store env (w_ext w))"
  obtain res st' where cl: "claim ?c key (PStr (en_owner_id env)) st = (res, st')" by force
  have "spec_claim (ttl st) (fst (clock ?c)) (snd (clock ?c)) key (en_owner_id env) (view st) =
      (\<lparr>cr_status = ALREADY_COMPLETED, cr_record = rec\<rparr>, view st)"
    using rec by (simp add: spec_claim_def Let_def)
  from claim_law [OF st(2) good(1) wk own cl this] good(2)
  have "res = Inr \<lparr>cr_status = ALREADY_COMPLETED, cr_record = rec\<rparr>" "view st' = view st" "valid st'" by auto
  with cl ops key st(1) show ?thesis
    by (auto simp: execute_v2_def bind_op_def map_error_def v2_call_def ops_of_def case_prod_beta)
qed

end

end
