(* ===== verification/Agent_Loop.thy ===== *)
theory Agent_Loop
  imports Tool_Executor
begin

text \<open>
  \<open>src/agent/loop.py\<close>: the reasoning cycle of the agent, started by \<open>run\<close> or continued by \<open>resume\<close>.
  Both \<open>while True\<close> loops of the file are the same code except for one check, so they are one
  function here with the mode as an argument. The loop ends because every round uses up one
  iteration of the budget; its termination proof is that argument.

  \<open>asyncio.wait_for\<close> cancels the awaited operation when the time is up: the operation that is being
  awaited raises \<open>CancelledError\<close>, and \<open>en_timed_out\<close> tells this from a cancellation by the caller.
  The message list is passed to the provider by value.
\<close>

section \<open>State of a run\<close>

record loop_state =
  ls_messages :: "llm_message list"
  ls_iterations_used :: int
  ls_tool_calls_used :: int
  ls_seen_tool_call_ids :: "pyval list"

definition usage_of :: "loop_state \<Rightarrow> budget_usage" where
  "usage_of ls =
     \<lparr>bu_iterations_used = ls_iterations_used ls, bu_tool_calls_used = ls_tool_calls_used ls,
      bu_seen_tool_call_ids = ls_seen_tool_call_ids ls, bu_elapsed_seconds = Fin 0\<rparr>"

definition add_message :: "llm_message \<Rightarrow> loop_state \<Rightarrow> loop_state" where
  "add_message m ls = ls\<lparr>ls_messages := ls_messages ls @ [m]\<rparr>"

text \<open>
  A part of the cycle either goes on with a new state or makes the whole run return. The batch mode
  says which of the three tool loops of the file is running.
\<close>

datatype loop_outcome = Next loop_state | Return "content option"

datatype batch_mode = RunBatch | ResumeBatch | PendingBatch

definition returned :: "pyval \<Rightarrow> content option" where
  "returned v = (if v = PNone then None else Some (Val v))"

definition decision_reason :: "budget_decision \<Rightarrow> string \<Rightarrow> string" where
  "decision_reason d dflt = (case bd_reason d of Some r \<Rightarrow> if r = [] then dflt else r | None \<Rightarrow> dflt)"

definition halt :: "('c, 'st, 'x) env \<Rightarrow> string \<Rightarrow> string \<Rightarrow> (('st, 'x) world, loop_outcome) op" where
  "halt env run_id reason =
     bind_op (cp_log env (\<lambda>io now. log_run_halted io now run_id reason)) (\<lambda>_ w. (Inr (Return None), w))"

section \<open>Tool calls\<close>

text \<open>Charging a call to the budget: \<open>Inl\<close> of the inner sum is the reason to halt.\<close>

definition charge_call :: "run_policy \<Rightarrow> pyval \<Rightarrow> loop_state \<Rightarrow> exn + (string + loop_state)" where
  "charge_call policy cid ls =
     (if \<not> hashable cid then Inl (TypeError ''unhashable type'')
      else if py_in cid (ls_seen_tool_call_ids ls) then Inr (Inr ls)
      else
        let d = budget_decide policy (usage_of ls) 0 1
        in if \<not> bd_allowed d then Inr (Inl (decision_reason d ''MAX_TOOL_CALLS_REACHED''))
           else Inr (Inr (ls\<lparr>ls_tool_calls_used := ls_tool_calls_used ls + 1,
                             ls_seen_tool_call_ids := ls_seen_tool_call_ids ls @ [cid]\<rparr>)))"

definition in_progress_elsewhere :: "tool_result \<Rightarrow> bool" where
  "in_progress_elsewhere r =
     (case tr_error r of Some a \<Rightarrow> ae_code a = PStr ''IDEMPOTENCY_IN_PROGRESS'' | None \<Rightarrow> False)"

definition tool_reply :: "pyval \<Rightarrow> tool_call \<Rightarrow> tool_result \<Rightarrow> llm_message" where
  "tool_reply cid call r =
     \<lparr>msg_role = TOOL, msg_content = Dumped (tool_response_content r), msg_tool_call_id = cid,
      msg_tool_name = PStr (tc_name call), msg_tool_calls = []\<rparr>"

definition tool_step ::
  "('c, 'st, 'x) env \<Rightarrow> batch_mode \<Rightarrow> string \<Rightarrow> pyval \<Rightarrow> tool_call \<Rightarrow> bool \<Rightarrow> loop_state
     \<Rightarrow> (('st, 'x) world, loop_outcome) op" where
  "tool_step env mode run_id cid call is_last ls w =
     (case bind_op (execute_tool env call) (\<lambda>r.
             if mode \<noteq> RunBatch \<and> in_progress_elsewhere r then (\<lambda>w. (Inr (Return None), w))
             else
               bind_op
                 (cp_log env (\<lambda>io now. log_tool_result_received io now run_id cid
                    (tool_status_value (tr_status r)) (PStr (tc_name call))
                    (PDict (tool_result_to_dict r)) is_last))
                 (\<lambda>_ w. (Inr (Next (add_message (tool_reply cid call r) ls)), w))) w of
        (Inl e, w) \<Rightarrow>
          if is_system_state_error e
          then halt env run_id (''SYSTEM_STATE_ERROR: '' @ en_str_exn env e) w
          else (Inl e, w)
      | (Inr out, w) \<Rightarrow> (Inr out, w))"

fun tool_batch ::
  "('c, 'st, 'x) env \<Rightarrow> batch_mode \<Rightarrow> string \<Rightarrow> (pyval \<times> (exn + tool_call)) list \<Rightarrow> loop_state
     \<Rightarrow> (('st, 'x) world, loop_outcome) op" where
  "tool_batch env mode run_id [] ls w = (Inr (Next ls), w)"
| "tool_batch env mode run_id (c # cs) ls w =
     (let w = (if mode = PendingBatch then get_token run_id w else w) in
      if is_cancelled run_id w then (Inr (Return None), w)
      else
        (case charge_call (en_policy env) (fst c) ls of
           Inl e \<Rightarrow> (Inl e, w)
         | Inr (Inl reason) \<Rightarrow> halt env run_id reason w
         | Inr (Inr ls) \<Rightarrow>
             (case snd c of
                Inl e \<Rightarrow> (Inl e, w)
              | Inr call \<Rightarrow>
                  bind_op (tool_step env mode run_id (fst c) call (cs = []) ls) (\<lambda>out.
                    case out of
                      Return v \<Rightarrow> (\<lambda>w. (Inr (Return v), w))
                    | Next ls \<Rightarrow> tool_batch env mode run_id cs ls) w)))"

section \<open>One round\<close>

definition call_payload :: "provider_tool_call \<Rightarrow> pyval" where
  "call_payload pc =
     PDict [(''call_id'', pc_call_id pc), (''name'', pc_name pc), (''arguments'', pc_arguments pc)]"

definition assistant_message :: "llm_response \<Rightarrow> llm_message" where
  "assistant_message resp =
     (mk_message ASSISTANT (Val (lr_content resp)))\<lparr>msg_tool_calls :=
        map (\<lambda>pc. \<lparr>atc_call_id = pc_call_id pc, atc_name = pc_name pc, atc_arguments = pc_arguments pc\<rparr>)
          (lr_tool_calls resp)\<rparr>"

text \<open>Asking the model; \<open>None\<close> when the run failed and this is recorded.\<close>

definition ask_llm ::
  "('c, 'st, 'x) env \<Rightarrow> string \<Rightarrow> loop_state \<Rightarrow> (('st, 'x) world, llm_response option) op" where
  "ask_llm env run_id ls w =
     (case bind_op (en_generate env (ls_messages ls) (get_tools_schema (en_registry env))) (\<lambda>resp.
             bind_op
               (cp_log env (\<lambda>io now. log_llm_responded io now run_id (ls_iterations_used ls) (lr_content resp)
                  (int (length (lr_tool_calls resp))) (map call_payload (lr_tool_calls resp))))
               (\<lambda>_ w. (Inr (Some resp), w))) w of
        (Inr r, w) \<Rightarrow> (Inr r, w)
      | (Inl e, w) \<Rightarrow>
          if is_system_state_error e
          then bind_op (cp_log env (\<lambda>io now. log_run_halted io now run_id
                          (''SYSTEM_STATE_ERROR: '' @ en_str_exn env e)))
                 (\<lambda>_ w. (Inl e, w)) w
          else if is_exception e
          then bind_op (cp_log env (\<lambda>io now. log_run_failed io now run_id (en_str_exn env e)))
                 (\<lambda>_ w. (Inr None, w)) w
          else (Inl e, w))"

definition finish :: "('c, 'st, 'x) env \<Rightarrow> string \<Rightarrow> pyval \<Rightarrow> (('st, 'x) world, loop_outcome) op" where
  "finish env run_id content =
     bind_op (cp_log env (\<lambda>io now. log_llm_final_response io now run_id content)) (\<lambda>_.
     bind_op (cp_log env (\<lambda>io now. log_run_completed io now run_id)) (\<lambda>_ w.
     (Inr (Return (returned content)), w)))"

definition requested_calls :: "('c, 'st, 'x) env \<Rightarrow> string \<Rightarrow> llm_response \<Rightarrow> (pyval \<times> (exn + tool_call)) list" where
  "requested_calls env run_id resp =
     map (\<lambda>pc. (pc_call_id pc, mk_tool_call (en_md5 env) (pc_name pc) (pc_arguments pc) (pc_call_id pc) run_id))
       (lr_tool_calls resp)"

text \<open>The second look at the token, right after the first with nothing in between, is left out.\<close>

definition loop_iteration ::
  "('c, 'st, 'x) env \<Rightarrow> batch_mode \<Rightarrow> string \<Rightarrow> loop_state \<Rightarrow> (('st, 'x) world, loop_outcome) op" where
  "loop_iteration env mode run_id ls w =
     (let w = get_token run_id w in
      if is_cancelled run_id w then (Inr (Return None), w)
      else
        let d = budget_decide (en_policy env) (usage_of ls) 1 0 in
        if \<not> bd_allowed d then halt env run_id (decision_reason d ''MAX_ITERATIONS_REACHED'') w
        else
          let ls = ls\<lparr>ls_iterations_used := ls_iterations_used ls + 1\<rparr> in
          bind_op (cp_log env (\<lambda>io now. log_llm_requested io now run_id (ls_iterations_used ls))) (\<lambda>_.
          bind_op (ask_llm env run_id ls) (\<lambda>answer.
            case answer of
              None \<Rightarrow> (\<lambda>w. (Inr (Return None), w))
            | Some resp \<Rightarrow>
                if lr_tool_calls resp = [] then finish env run_id (lr_content resp)
                else tool_batch env mode run_id (requested_calls env run_id resp)
                       (add_message (assistant_message resp) ls))) w)"

section \<open>The cycle\<close>

lemma charge_call_iterations:
  "charge_call p cid ls = Inr (Inr ls') \<Longrightarrow> ls_iterations_used ls' = ls_iterations_used ls"
  by (auto simp: charge_call_def Let_def split: if_splits)

lemma tool_step_next:
  "tool_step env mode run_id cid call b ls w = (Inr (Next ls'), w') \<Longrightarrow>
     \<exists>r. ls' = add_message (tool_reply cid call r) ls"
  by (auto simp: tool_step_def halt_def bind_op_def split: prod.splits sum.splits if_splits)

lemma tool_batch_iterations:
  "tool_batch env mode run_id cs ls w = (Inr (Next ls'), w') \<Longrightarrow> ls_iterations_used ls' = ls_iterations_used ls"
proof (induction cs arbitrary: ls w)
  case (Cons c cs)
  from Cons.prems obtain ls1 call ls2 w1 w2 where
    "charge_call (en_policy env) (fst c) ls = Inr (Inr ls1)"
    "tool_step env mode run_id (fst c) call (cs = []) ls1 w1 = (Inr (Next ls2), w2)"
    "tool_batch env mode run_id cs ls2 w2 = (Inr (Next ls'), w')"
    by (auto simp: Let_def halt_def bind_op_def split: if_splits sum.splits prod.splits loop_outcome.splits)
  with Cons.IH [of ls2 w2] tool_step_next charge_call_iterations show ?case
    by (fastforce simp: add_message_def)
qed simp

lemma loop_iteration_next:
  assumes "loop_iteration env mode run_id ls w = (Inr (Next ls'), w')"
  shows "ls_iterations_used ls' = ls_iterations_used ls + 1"
    and "ls_iterations_used ls < pol_max_iterations (en_policy env)"
proof -
  from assms obtain resp w1 where b:
    "bd_allowed (budget_decide (en_policy env) (usage_of ls) 1 0)"
    "tool_batch env mode run_id (requested_calls env run_id resp)
       (add_message (assistant_message resp) (ls\<lparr>ls_iterations_used := ls_iterations_used ls + 1\<rparr>)) w1
     = (Inr (Next ls'), w')"
    by (auto simp: loop_iteration_def Let_def halt_def finish_def bind_op_def
        split: if_splits sum.splits prod.splits option.splits)
  from tool_batch_iterations [OF b(2)] show "ls_iterations_used ls' = ls_iterations_used ls + 1"
    by (simp add: add_message_def)
  from b(1) show "ls_iterations_used ls < pol_max_iterations (en_policy env)"
    by (simp add: budget_decide_allowed usage_of_def)
qed

function agent_loop ::
  "('c, 'st, 'x) env \<Rightarrow> batch_mode \<Rightarrow> string \<Rightarrow> loop_state \<Rightarrow> ('st, 'x) world
     \<Rightarrow> (exn + content option) \<times> ('st, 'x) world" where
  "agent_loop env mode run_id ls w =
     (case loop_iteration env mode run_id ls w of
        (Inl e, w) \<Rightarrow> (Inl e, w)
      | (Inr (Return v), w) \<Rightarrow> (Inr v, w)
      | (Inr (Next ls), w) \<Rightarrow> agent_loop env mode run_id ls w)"
  by pat_completeness auto
termination
proof (relation "measure (\<lambda>(env, mode, run_id, ls, w).
    nat (pol_max_iterations (en_policy env) - ls_iterations_used ls))", goal_cases)
  case (2 env mode run_id ls w x y r ls')
  then have "loop_iteration env mode run_id ls w = (Inr (Next ls'), y)" by simp
  from loop_iteration_next [OF this] show ?case by simp
qed simp

declare agent_loop.simps [simp del]

definition run_internal ::
  "('c, 'st, 'x) env \<Rightarrow> string \<Rightarrow> pyval \<Rightarrow> pyval \<Rightarrow> (('st, 'x) world, content option) op" where
  "run_internal env run_id system_prompt user_prompt w =
     (let w = get_token run_id w in
      if is_cancelled run_id w then (Inr None, w)
      else
        bind_op (cp_log env (\<lambda>io now. log_run_started io now run_id system_prompt user_prompt)) (\<lambda>_.
          agent_loop env RunBatch run_id
            \<lparr>ls_messages = [mk_message SYSTEM (Val system_prompt), mk_message USER (Val user_prompt)],
             ls_iterations_used = 0, ls_tool_calls_used = 0, ls_seen_tool_call_ids = []\<rparr>) w)"

text \<open>\<open>asyncio.wait_for\<close> and the \<open>except asyncio.TimeoutError\<close> around it, which also catches a
  \<open>TimeoutError\<close> the run itself raises.\<close>

definition wait_for :: "('c, 'st, 'x) env \<Rightarrow> (('st, 'x) world, 'a) op \<Rightarrow> (('st, 'x) world, 'a) op" where
  "wait_for env f w =
     (case f w of
        (Inl CancelledError, w) \<Rightarrow> (Inl (if en_timed_out env (w_ext w) then TimeoutError else CancelledError), w)
      | (res, w) \<Rightarrow> (res, w))"

definition with_timeout ::
  "('c, 'st, 'x) env \<Rightarrow> string \<Rightarrow> (('st, 'x) world, content option) op \<Rightarrow> (('st, 'x) world, content option) op" where
  "with_timeout env run_id f w =
     (case wait_for env f w of
        (Inl TimeoutError, w) \<Rightarrow>
          bind_op (cp_log env (\<lambda>io now. log_run_halted io now run_id ''TIMEOUT_REACHED'')) (\<lambda>_ w. (Inr None, w)) w
      | (res, w) \<Rightarrow> (res, w))"

definition agent_run ::
  "('c, 'st, 'x) env \<Rightarrow> string \<Rightarrow> pyval \<Rightarrow> pyval \<Rightarrow> (('st, 'x) world, content option) op" where
  "agent_run env run_id system_prompt user_prompt =
     with_timeout env run_id (run_internal env run_id system_prompt user_prompt)"

section \<open>Resuming\<close>

definition resume_recoverable ::
  "('c, 'st, 'x) env \<Rightarrow> string \<Rightarrow> (('st, 'x) world, content option) op" where
  "resume_recoverable env run_id =
     bind_op (cp_read env (\<lambda>ok f. reconstruct_session (en_md5 env) ok f run_id)) (\<lambda>s.
     bind_op (cp_read env (\<lambda>ok f. load_events_for_run ok f run_id)) (\<lambda>evs w.
     case reconstruct_usage evs of
       Inl e \<Rightarrow> (Inl e, w)
     | Inr usage \<Rightarrow>
         (let ls = \<lparr>ls_messages = se_messages s, ls_iterations_used = bu_iterations_used usage,
                    ls_tool_calls_used = bu_tool_calls_used usage,
                    ls_seen_tool_call_ids = bu_seen_tool_call_ids usage\<rparr>;
              d = budget_decide (en_policy env) (usage_of ls) 0 0
          in bind_op
               (if \<not> bd_allowed d then halt env run_id (decision_reason d ''MAX_TOOL_CALLS_REACHED'')
                else tool_batch env PendingBatch run_id (map (map_prod id Inr) (se_pending s)) ls)
               (\<lambda>out. case out of
                   Return v \<Rightarrow> (\<lambda>w. (Inr v, w))
                 | Next ls \<Rightarrow> agent_loop env ResumeBatch run_id ls) w)))"

definition resume_internal ::
  "('c, 'st, 'x) env \<Rightarrow> string \<Rightarrow> (('st, 'x) world, content option) op" where
  "resume_internal env run_id =
     bind_op (cp_read env (\<lambda>ok f. Inr (analyze (en_md5 env) (en_text env) ok f run_id))) (\<lambda>diag.
     case dg_potential diag of
       P_COMPLETED \<Rightarrow>
         bind_op (cp_read env (\<lambda>ok f. reconstruct_session (en_md5 env) ok f run_id))
           (\<lambda>s w. (Inr (cached_answer s), w))
     | P_NON_RECOVERABLE \<Rightarrow> (\<lambda>w. (Inl (RecoveryStateError (TerminalState (dg_current_state diag))), w))
     | P_CORRUPT \<Rightarrow> (\<lambda>w. (Inl (RecoveryStateError CorruptCheckpoint), w))
     | P_RECOVERABLE \<Rightarrow> resume_recoverable env run_id)"

definition agent_resume ::
  "('c, 'st, 'x) env \<Rightarrow> string \<Rightarrow> (('st, 'x) world, content option) op" where
  "agent_resume env run_id = with_timeout env run_id (resume_internal env run_id)"

text \<open>The recovery controller in front of it, reading the same checkpoint file.\<close>

definition recover ::
  "('c, 'st, 'x) env \<Rightarrow> string \<Rightarrow> (('st, 'x) world, content option) op" where
  "recover env run_id w =
     (let (ok, x) = en_read env (w_ext w)
      in controlled_resume (en_md5 env) (en_text env) ok (cm_file (w_cm w)) (agent_resume env) run_id
           (w\<lparr>w_ext := x\<rparr>))"

end
