(* ===== verification/Agent_Invariants.thy ===== *)
theory Agent_Invariants
  imports Agent_Loop
begin

text \<open>
  Invariants of the world that a whole run keeps. \<open>preserves P f\<close> says that an operation keeps \<open>P\<close>,
  whether it returns or raises; \<open>steady P env r\<close> says that everything a run \<open>r\<close> does besides asking
  the model keeps \<open>P\<close>: its log calls, its store calls, the waiting and every registered tool. The
  lemmas lift \<open>steady\<close> through the retry loop, the executor, a batch and the cycle. The two instances
  used by the properties count model requests and state that the log is a valid history in which a
  cancelled run is finished.
\<close>

section \<open>Operations that keep a predicate\<close>

definition preserves :: "('s \<Rightarrow> bool) \<Rightarrow> ('s, 'a) op \<Rightarrow> bool" where
  "preserves P f \<longleftrightarrow> (\<forall>s. P s \<longrightarrow> P (snd (f s)))"

named_theorems preserves_intros

lemma preservesD: "preserves P f \<Longrightarrow> f s = (r, s') \<Longrightarrow> P s \<Longrightarrow> P s'"
  by (metis preserves_def snd_conv)

lemma bind_op_InrE:
  assumes "bind_op m f s = (Inr y, s')"
  obtains x s1 where "m s = (Inr x, s1)" "f x s1 = (Inr y, s')"
  using assms by (auto simp: bind_op_def split: prod.splits sum.splits)

lemma preserves_return [preserves_intros]: "preserves P (\<lambda>s. (r, s))"
  by (simp add: preserves_def)

lemma preserves_bind [preserves_intros]:
  assumes "preserves P m" "\<And>x. preserves P (f x)"
  shows "preserves P (bind_op m f)"
  using assms unfolding preserves_def bind_op_def
  by (auto split: prod.splits sum.splits)

lemma preserves_map_error [preserves_intros]: "preserves P f \<Longrightarrow> preserves P (map_error g f)"
  by (auto simp: preserves_def map_error_def split: prod.splits sum.splits)

lemma preserves_case_sum:
  assumes "preserves P f" "\<And>e. preserves P (g e)" "\<And>x. preserves P (h x)"
  shows "preserves P (\<lambda>s. case f s of (Inl e, s') \<Rightarrow> g e s' | (Inr x, s') \<Rightarrow> h x s')"
  using assms unfolding preserves_def
  by (auto split: prod.splits sum.splits)

lemma preserves_if [preserves_intros]:
  "preserves P f \<Longrightarrow> preserves P g \<Longrightarrow> preserves P (if b then f else g)"
  by simp

subsection \<open>The retry loop\<close>

definition hooks_preserve :: "('s \<Rightarrow> bool) \<Rightarrow> 's retry_env \<Rightarrow> bool" where
  "hooks_preserve P env \<longleftrightarrow>
     (\<forall>f a. re_on_attempt_start env = Some f \<longrightarrow> preserves P (f a)) \<and>
     (\<forall>f a st v. re_on_attempt_complete env = Some f \<longrightarrow> preserves P (f a st v)) \<and>
     (\<forall>f a n d r x. re_on_retry_scheduled env = Some f \<longrightarrow> preserves P (f a n d r x)) \<and>
     (\<forall>f n. re_before_retry_attempt env = Some f \<longrightarrow> preserves P (f n)) \<and>
     (\<forall>s. P s \<longrightarrow> P (snd (re_random env s))) \<and>
     (\<forall>d. preserves P (re_sleep env d))"

lemma preserves_call_complete [preserves_intros]:
  "hooks_preserve P env \<Longrightarrow> preserves P (call_complete env a st v)"
  by (auto simp: hooks_preserve_def preserves_def call_complete_def split: option.splits)

lemma preserves_call_scheduled [preserves_intros]:
  "hooks_preserve P env \<Longrightarrow> preserves P (call_scheduled env a d x fd)"
  by (auto simp: hooks_preserve_def preserves_def call_scheduled_def split: option.splits)

lemma preserves_call_before_retry [preserves_intros]:
  "hooks_preserve P env \<Longrightarrow> preserves P (call_before_retry env n)"
  by (auto simp: hooks_preserve_def preserves_def call_before_retry_def split: option.splits)

lemma preserves_sleep [preserves_intros]: "hooks_preserve P env \<Longrightarrow> preserves P (re_sleep env d)"
  by (simp add: hooks_preserve_def)

lemma preserves_get_delay [preserves_intros]:
  "hooks_preserve P env \<Longrightarrow> preserves P (get_delay env pol a err)"
  by (auto simp: hooks_preserve_def preserves_def get_delay_def Let_def split: sum.splits prod.splits)

lemma preserves_handle_exception [preserves_intros]:
  assumes "hooks_preserve P env"
  shows "preserves P (handle_exception env a cur e)"
proof (cases "is_exception e")
  case True
  have "handle_exception env a cur e =
    bind_op
      (case as_agent_exception e of
         Some x \<Rightarrow>
           call_complete env a
             (if truthy (ae_retryable x) then ''EXCEPTION'' else ''FATAL_EXCEPTION'') (ae_message x)
       | None \<Rightarrow> call_complete env a ''UNEXPECTED_EXCEPTION'' (PStr (re_str_exn env e)))
      (\<lambda>_ s. (Inr (Failed cur (Some e) (Some e)), s))"
    using True by (simp add: fun_eq_iff handle_exception_def)
  with assms show ?thesis by (auto intro!: preserves_intros split: option.splits)
qed (simp add: preserves_def handle_exception_def)

lemma preserves_complete_or_handle:
  assumes "hooks_preserve P env"
  shows "preserves P (\<lambda>s. case call_complete env a st v s of
      (Inl e, s2) \<Rightarrow> handle_exception env a cur e s2 | (Inr x, s2) \<Rightarrow> (Inr out, s2))"
  using assms by (intro preserves_case_sum preserves_intros)

lemma preserves_try_operation [preserves_intros]:
  assumes "hooks_preserve P env" "preserves P (re_operation env)"
  shows "preserves P (try_operation env a)"
proof -
  let ?done = "\<lambda>r. case r of
      TR r \<Rightarrow>
        (if tr_status r = T_FAILURE
         then (\<lambda>s. case call_complete env a (failure_status r) (failure_message r) s of
                 (Inl e, s2) \<Rightarrow> handle_exception env a (Some r) e s2
               | (Inr x, s2) \<Rightarrow> (Inr (Failed (Some r) None (map_option AgentException (tr_error r))), s2))
         else (\<lambda>s. case call_complete env a (tool_status_value (tr_status r)) PNone s of
                 (Inl e, s2) \<Rightarrow> handle_exception env a None e s2
               | (Inr x, s2) \<Rightarrow> (Inr (Returned (TR r)), s2)))
    | OtherResult v \<Rightarrow>
        (\<lambda>s. case call_complete env a ''SUCCESS'' PNone s of
           (Inl e, s2) \<Rightarrow> handle_exception env a None e s2
         | (Inr x, s2) \<Rightarrow> (Inr (Returned (OtherResult v)), s2))"
  have "try_operation env a =
      (\<lambda>s. case re_operation env s of (Inl e, s1) \<Rightarrow> handle_exception env a None e s1 | (Inr r, s1) \<Rightarrow> ?done r s1)"
    by (auto simp: fun_eq_iff try_operation_def split: prod.splits sum.splits op_result.splits)
  moreover have "preserves P (?done r)" for r
    using assms(1) by (cases r) (auto intro!: preserves_complete_or_handle)
  ultimately show ?thesis using assms by (auto intro!: preserves_case_sum preserves_intros)
qed

lemma after_failure_preserves:
  assumes "hooks_preserve P env" "P s"
  shows "P (snd (after_failure env pol a cur exc target s))"
proof -
  have "preserves P (bind_op (get_delay env pol a err) (\<lambda>delay. bind_op (call_scheduled env a d delay fd)
      (\<lambda>_. bind_op (re_sleep env delay) (\<lambda>_. call_before_retry env n))))" for err d fd n
    using assms(1) by (intro preserves_intros)
  note keep = preservesD [OF this _ assms(2)]
  show ?thesis
    using assms(2)
    by (auto simp: after_failure_def Let_def split: prod.splits sum.splits if_splits dest!: keep)
qed

lemma retry_iteration_preserves:
  assumes "hooks_preserve P env" "preserves P (re_operation env)" "P s"
  shows "P (snd (retry_iteration env pol a s))"
proof -
  have st: "preserves P (case re_on_attempt_start env of None \<Rightarrow> (\<lambda>s. (Inr (), s)) | Some f \<Rightarrow> f a)"
    using assms(1) by (auto simp: hooks_preserve_def intro: preserves_intros split: option.splits)
  have "preserves P (bind_op (case re_on_attempt_start env of None \<Rightarrow> (\<lambda>s. (Inr (), s)) | Some f \<Rightarrow> f a)
      (\<lambda>_. try_operation env a))"
    using assms(1,2) by (intro preserves_bind [OF st] preserves_intros)
  from preservesD [OF this _ assms(3)] show ?thesis
    by (auto simp: retry_iteration_def intro!: after_failure_preserves [OF assms(1)]
        split: prod.splits sum.splits attempt_outcome.splits)
qed

lemma retry_loop_preserves:
  assumes "hooks_preserve P env" "preserves P (re_operation env)" "P s"
  shows "P (snd (retry_loop env pol a s))"
  using assms
proof (induction env pol a s rule: retry_loop.induct)
  case (1 env pol a s)
  obtain r s' where it: "retry_iteration env pol a s = (r, s')" by force
  with retry_iteration_preserves [OF 1(2-4), of pol a] have "P s'" by simp
  with 1 it show ?case by (cases r) (simp_all add: retry_loop.simps [of env pol a s])
qed

lemma preserves_execute_with_retry [preserves_intros]:
  "hooks_preserve P env \<Longrightarrow> preserves P (re_operation env) \<Longrightarrow> preserves P (execute_with_retry env pol)"
  by (simp add: preserves_def execute_with_retry_def retry_loop_preserves)

section \<open>What a run does besides asking the model\<close>

lemmas log_methods =
  log_run_started_def log_llm_requested_def log_llm_responded_def log_tool_call_created_def
  log_tool_attempt_started_def log_retry_scheduled_def log_tool_attempt_ended_def
  log_tool_result_received_def log_tool_call_rejected_def log_llm_final_response_def
  log_run_completed_def log_run_failed_def log_run_halted_def

definition log_call ::
  "('c, 'st, 'x) env \<Rightarrow> string \<Rightarrow> string \<Rightarrow> pydict \<Rightarrow> (('st, 'x) world, unit) op" where
  "log_call env r name p = cp_log env (\<lambda>io now. log_event io now r name p)"

definition quiet :: "(('st, 'x) world \<Rightarrow> bool) \<Rightarrow> ('c, 'st, 'x) env \<Rightarrow> string \<Rightarrow> bool" where
  "quiet P env r \<longleftrightarrow>
     (\<forall>name p. preserves P (log_call env r name p)) \<and>
     (\<forall>w. P w \<longrightarrow> P (get_token r w)) \<and>
     (\<forall>w. P w \<longrightarrow> P (w\<lparr>w_ext := snd (en_read env (w_ext w))\<rparr>)) \<and>
     (\<forall>w. P w \<longrightarrow> P (w\<lparr>w_ext := snd (en_random env (w_ext w))\<rparr>)) \<and>
     (\<forall>w s. P w \<longrightarrow> P (w\<lparr>w_store := s, w_ext := snd (en_store env (w_ext w))\<rparr>)) \<and>
     (\<forall>w s. P w \<longrightarrow> P (w\<lparr>w_store := s, w_ext := snd (en_write env (w_ext w))\<rparr>)) \<and>
     (\<forall>d. preserves P (en_sleep env d))"

definition steady :: "(('st, 'x) world \<Rightarrow> bool) \<Rightarrow> ('c, 'st, 'x) env \<Rightarrow> string \<Rightarrow> bool" where
  "steady P env r \<longleftrightarrow>
     quiet P env r \<and> (\<forall>t \<in> snd ` set (en_registry env). \<forall>call. preserves P (tl_execute t call))"

lemma steady_quiet: "steady P env r \<Longrightarrow> quiet P env r"
  by (simp add: steady_def)

lemma quiet_log [preserves_intros]:
  assumes "quiet P env r"
  shows "preserves P (cp_log env (\<lambda>io now. log_event io now r name p))"
  using assms by (simp add: quiet_def log_call_def)

lemma quiet_read [preserves_intros]: "quiet P env r \<Longrightarrow> preserves P (cp_read env f)"
  by (auto simp: quiet_def preserves_def cp_read_def case_prod_beta Let_def)

lemma quiet_v2_call [preserves_intros]: "quiet P env r \<Longrightarrow> preserves P (v2_call env f)"
  by (auto simp: quiet_def preserves_def v2_call_def case_prod_beta Let_def split: exec_store.splits)

lemma quiet_legacy_save [preserves_intros]: "quiet P env r \<Longrightarrow> preserves P (legacy_save_result env call x)"
  by (auto simp: quiet_def preserves_def legacy_save_result_def case_prod_beta Let_def split: exec_store.splits)

lemma quiet_before_retry:
  assumes "quiet P env r"
  shows "preserves P (before_retry_attempt env call n)"
proof -
  have "preserves P (\<lambda>w. if b then (x, w) else (y, w))" for b and x y :: "exn + bool"
    by (auto simp: preserves_def)
  with assms show ?thesis unfolding before_retry_attempt_def by (intro preserves_intros)
qed

lemma quiet_hooks:
  assumes "quiet P env (tc_run_id call)"
  shows "hooks_preserve P (tool_retry_env env call tool)"
  using assms quiet_before_retry [OF assms] quiet_log [OF assms]
  unfolding hooks_preserve_def tool_retry_env_def Let_def log_methods
  by (auto simp: quiet_def case_prod_beta)

lemma steady_tool_execute [preserves_intros]:
  assumes "steady P env (tc_run_id call)" "tool \<in> snd ` set (en_registry env)"
  shows "preserves P (tool_execute_with_retry env call tool)"
  unfolding tool_execute_with_retry_def
  using assms by (intro preserves_execute_with_retry quiet_hooks) (auto simp: tool_retry_env_def steady_def Let_def)

lemma quiet_settle_result:
  "quiet P env r \<Longrightarrow> preserves P (settle_result env key x)"
  unfolding settle_result_def complete_v2_def fail_v2_def
  by (intro preserves_intros | assumption)+

lemma execute_claimed_as_case:
  "execute_claimed_v2 env call tool key =
    (\<lambda>w. case tool_execute_with_retry env call tool w of
       (Inl e, w) \<Rightarrow> (case settle_exception env call e of Inl e \<Rightarrow> (\<lambda>w. (Inl e, w)) | Inr r \<Rightarrow> settle_result env key r) w
     | (Inr x, w) \<Rightarrow> (case x of Some (TR r) \<Rightarrow> settle_result env key r | _ \<Rightarrow> (\<lambda>w. (Inl AttributeError, w))) w)"
  by (auto simp: fun_eq_iff execute_claimed_v2_def split: prod.splits sum.splits option.splits op_result.splits)

lemma steady_execute_claimed:
  assumes "steady P env (tc_run_id call)" "tool \<in> snd ` set (en_registry env)"
  shows "preserves P (execute_claimed_v2 env call tool key)"
proof -
  have "preserves P (case settle_exception env call e of Inl e \<Rightarrow> (\<lambda>w. (Inl e, w)) | Inr r \<Rightarrow> settle_result env key r)" for e
    using quiet_settle_result [OF steady_quiet [OF assms(1)]] by (auto intro: preserves_intros split: sum.splits)
  moreover have "preserves P (case x of Some (TR r) \<Rightarrow> settle_result env key r | _ \<Rightarrow> (\<lambda>w. (Inl AttributeError, w)))" for x
    using quiet_settle_result [OF steady_quiet [OF assms(1)]] by (auto intro: preserves_intros split: option.splits op_result.splits)
  ultimately show ?thesis
    unfolding execute_claimed_as_case using assms by (intro preserves_case_sum preserves_intros)
qed

lemma steady_execute_v2:
  assumes "steady P env (tc_run_id call)" "tool \<in> snd ` set (en_registry env)"
  shows "preserves P (execute_v2 env call tool)"
proof -
  let ?go = "\<lambda>key cr. case cr_status cr of
      ALREADY_COMPLETED \<Rightarrow> (\<lambda>w. (replay_completed_result (cr_record cr), w))
    | ALREADY_IN_PROGRESS \<Rightarrow> (\<lambda>w. (Inr (failure_result call
         ''Tool execution is already in progress for this idempotency key.'' ''IDEMPOTENCY_IN_PROGRESS''), w))
    | FAILED_PERMANENT \<Rightarrow> (\<lambda>w. (Inr (failure_result call
         ''Tool execution previously failed permanently for this idempotency key.'' ''IDEMPOTENCY_FAILED_PERMANENT''), w))
    | CLAIMED \<Rightarrow> execute_claimed_v2 env call tool key"
  have "execute_v2 env call tool =
    (case record_key_of call of
       Inl e \<Rightarrow> (\<lambda>w. (Inl e, w))
     | Inr key \<Rightarrow>
         bind_op (map_error claim_error (v2_call env (\<lambda>c. so_claim (en_ops env) c key (PStr (en_owner_id env)))))
           (?go key))"
    by (auto simp: fun_eq_iff execute_v2_def bind_op_def split: sum.splits prod.splits claim_status.splits)
  moreover have "preserves P (?go key cr)" for key cr
    using assms by (auto intro: preserves_intros steady_execute_claimed split: claim_status.splits)
  ultimately show ?thesis
    using steady_quiet [OF assms(1)] by (auto intro!: preserves_bind preserves_map_error quiet_v2_call preserves_return split: sum.splits)
qed

lemma steady_execute_legacy:
  assumes "steady P env (tc_run_id call)" "tool \<in> snd ` set (en_registry env)"
  shows "preserves P (execute_legacy env call tool lg)"
proof -
  have sv: "preserves P (bind_op (legacy_save_result env call r) (\<lambda>_ w. (Inr r, w)))" for r
    using steady_quiet [OF assms(1)] by (intro preserves_intros)
  have save: "preserves P (case res of
         Some (TR r) \<Rightarrow>
           (\<lambda>w. if tr_status r = T_SUCCESS
           then bind_op (legacy_save_result env call r) (\<lambda>_ w. (Inr r, w)) w
           else (Inr r, w))
       | _ \<Rightarrow> (\<lambda>w. (Inl AttributeError, w)))" for res
    using sv by (auto simp: preserves_def split: option.splits op_result.splits)
  have "legacy_attempt env call tool =
      bind_op (tool_execute_with_retry env call tool) (\<lambda>res. case res of
         Some (TR r) \<Rightarrow>
           (\<lambda>w. if tr_status r = T_SUCCESS
           then bind_op (legacy_save_result env call r) (\<lambda>_ w. (Inr r, w)) w
           else (Inr r, w))
       | _ \<Rightarrow> (\<lambda>w. (Inl AttributeError, w)))"
    unfolding legacy_attempt_def
    by (rule arg_cong [where f = "bind_op _"]) (auto simp: fun_eq_iff split: option.splits op_result.splits)
  then have att: "preserves P (legacy_attempt env call tool)"
    using save assms by (auto intro!: preserves_intros)
  show ?thesis
    unfolding preserves_def
    by (auto simp: execute_legacy_def split: sum.splits option.splits prod.splits dest: preservesD [OF att])
qed

lemma steady_dispatch:
  assumes "steady P env (tc_run_id call)"
  shows "preserves P (dispatch_tool env call)"
proof (cases "get_tool (tc_name call) (en_registry env)")
  case None
  then have "dispatch_tool env call =
      bind_op (cp_log env (\<lambda>io now. log_tool_call_rejected io now (tc_run_id call) (tc_call_id call)
            (''Tool '' @ tc_name call @ '' not found'')))
        (\<lambda>_ w. (Inr (failure_result call (''Tool '' @ tc_name call @ '' not found'') ''TOOL_NOT_FOUND''), w))"
    by (simp add: fun_eq_iff dispatch_tool_def Let_def)
  with steady_quiet [OF assms] show ?thesis unfolding log_methods by (auto intro!: preserves_intros)
next
  case (Some tool)
  then have "tool \<in> snd ` set (en_registry env)"
    by (force simp: get_tool_def dest: map_of_SomeD)
  with Some assms steady_execute_v2 [of P env call tool] steady_execute_legacy [of P env call tool] show ?thesis
    by (auto simp: preserves_def dispatch_tool_def split: exec_store.splits)
qed

lemma quiet_validate_call:
  assumes "quiet P env (tc_run_id call)"
  shows "preserves P (validate_call env call)"
proof -
  have "preserves P (bind_op (cp_log env (\<lambda>io now. log_tool_call_rejected io now (tc_run_id call) (tc_call_id call) msg))
      (\<lambda>_ w. (Inr (Some (failure_result call (''Validation failed: '' @ msg) ''VALIDATION_ERROR'')), w)))" for msg
    unfolding log_methods using assms by (intro preserves_intros)
  then show ?thesis
    by (auto simp: preserves_def validate_call_def split: sum.splits exn.splits)
qed

lemma steady_execute_tool [preserves_intros]:
  assumes "steady P env (tc_run_id call)"
  shows "preserves P (execute_tool env call)"
  unfolding execute_tool_def log_methods
  using assms steady_quiet [OF assms]
  by (intro preserves_intros quiet_validate_call)
    (auto intro: preserves_intros steady_dispatch split: option.splits)

section \<open>Batches, rounds and whole runs\<close>

lemma quiet_log_then [preserves_intros]:
  assumes "quiet P env r"
  shows "preserves P (bind_op (cp_log env (\<lambda>io now. log_run_halted io now r m)) (\<lambda>_ w. (x, w)))"
    and "preserves P (bind_op (cp_log env (\<lambda>io now. log_run_failed io now r m)) (\<lambda>_ w. (x, w)))"
  unfolding log_methods using assms by (intro preserves_bind preserves_return quiet_log; assumption)+

lemma quiet_halt [preserves_intros]: "quiet P env r \<Longrightarrow> preserves P (halt env r reason)"
  unfolding halt_def log_methods by (intro preserves_intros)

lemma steady_tool_step [preserves_intros]:
  assumes "steady P env r" "tc_run_id call = r"
  shows "preserves P (tool_step env mode r cid call b ls)"
proof -
  have "preserves P (bind_op (execute_tool env call) (\<lambda>res.
      if mode \<noteq> RunBatch \<and> in_progress_elsewhere res then (\<lambda>w. (Inr (Return None), w))
      else bind_op (cp_log env (\<lambda>io now. log_tool_result_received io now r cid
                    (tool_status_value (tr_status res)) (PStr (tc_name call)) (PDict (tool_result_to_dict res)) b))
                 (\<lambda>_ w. (Inr (Next (add_message (tool_reply cid call res) ls)), w))))"
    using assms steady_quiet [OF assms(1)] unfolding log_methods by (intro preserves_intros) auto
  moreover have "preserves P (\<lambda>w. if c then halt env r reason w else (x, w))" for c reason x
    using quiet_halt [OF steady_quiet [OF assms(1)]] by (auto simp: preserves_def)
  ultimately show ?thesis
    unfolding tool_step_def by (intro preserves_case_sum preserves_return)
qed

definition calls_of :: "string \<Rightarrow> (pyval \<times> (exn + tool_call)) list \<Rightarrow> bool" where
  "calls_of r cs \<longleftrightarrow> (\<forall>cid call. (cid, Inr call) \<in> set cs \<longrightarrow> tc_run_id call = r)"

lemma steady_tool_batch [preserves_intros]:
  assumes "steady P env r" "calls_of r cs"
  shows "preserves P (tool_batch env mode r cs ls)"
  using assms(2)
proof (induction cs arbitrary: ls)
  case Nil
  show ?case by (simp add: preserves_def)
next
  case (Cons c cs)
  have go: "preserves P (bind_op (tool_step env mode r (fst c) call (cs = []) ls) (\<lambda>out.
       case out of Return v \<Rightarrow> (\<lambda>w. (Inr (Return v), w)) | Next ls \<Rightarrow> tool_batch env mode r cs ls))"
    if "snd c = Inr call" for call ls
  proof -
    have "(fst c, Inr call) \<in> set (c # cs)" using that by (metis list.set_intros(1) prod.collapse)
    then have "tc_run_id call = r" "calls_of r cs"
      using Cons.prems unfolding calls_of_def by (blast, auto)
    with assms(1) Cons.IH show ?thesis by (auto intro!: preserves_intros split: loop_outcome.splits)
  qed
  have "P (snd (tool_batch env mode r (c # cs) ls w))" if "P w" for w
  proof -
    define w1 where "w1 = (if mode = PendingBatch then get_token r w else w)"
    have w1: "P w1" using that assms(1) by (auto simp: w1_def steady_def quiet_def)
    have eq: "tool_batch env mode r (c # cs) ls w =
      (if is_cancelled r w1 then (Inr (Return None), w1)
       else case charge_call (en_policy env) (fst c) ls of
           Inl e \<Rightarrow> (Inl e, w1)
         | Inr (Inl reason) \<Rightarrow> halt env r reason w1
         | Inr (Inr ls) \<Rightarrow>
             (case snd c of
                Inl e \<Rightarrow> (Inl e, w1)
              | Inr call \<Rightarrow>
                  bind_op (tool_step env mode r (fst c) call (cs = []) ls) (\<lambda>out.
                    case out of Return v \<Rightarrow> (\<lambda>w. (Inr (Return v), w)) | Next ls \<Rightarrow> tool_batch env mode r cs ls) w1))"
      by (simp add: w1_def [symmetric])
    show ?thesis
      unfolding eq
      using w1 go [unfolded preserves_def, rule_format, OF _ w1]
        quiet_halt [OF steady_quiet [OF assms(1)], unfolded preserves_def, rule_format, OF w1]
      by (auto split: sum.split)
  qed
  then show ?case by (simp add: preserves_def)
qed

lemma calls_of_requested [simp]: "calls_of r (requested_calls env r resp)"
  by (auto simp: calls_of_def requested_calls_def mk_tool_call_def split: pyval.splits)

text \<open>The model request takes \<open>P\<close> to \<open>Q\<close>; everything else keeps both.\<close>

definition leads :: "('s \<Rightarrow> bool) \<Rightarrow> ('s \<Rightarrow> bool) \<Rightarrow> ('s, 'a) op \<Rightarrow> bool" where
  "leads P Q f \<longleftrightarrow> (\<forall>s. P s \<longrightarrow> Q (snd (f s)))"

lemma leads_bind:
  assumes "leads P Q m" "\<And>x. preserves Q (f x)"
  shows "leads P Q (bind_op m f)"
  using assms unfolding preserves_def leads_def bind_op_def
  by (auto split: prod.splits sum.splits)

lemma leads_after:
  assumes "preserves P m" "\<And>x. leads P Q (f x)" "\<And>s. P s \<Longrightarrow> Q s"
  shows "leads P Q (bind_op m f)"
  using assms unfolding preserves_def leads_def bind_op_def
  by (auto split: prod.splits sum.splits)

lemma leads_ask_llm:
  assumes "steady Q env r" "\<And>ms ts. leads P Q (en_generate env ms ts)"
  shows "leads P Q (ask_llm env r ls)"
proof -
  have a: "leads P Q (bind_op (en_generate env (ls_messages ls) (get_tools_schema (en_registry env))) (\<lambda>resp.
             bind_op
               (cp_log env (\<lambda>io now. log_llm_responded io now r (ls_iterations_used ls) (lr_content resp)
                  (int (length (lr_tool_calls resp))) (map call_payload (lr_tool_calls resp))))
               (\<lambda>_ w. (Inr (Some resp), w))))" (is "leads P Q ?gen")
    unfolding log_methods using assms steady_quiet [OF assms(1)] by (intro leads_bind preserves_intros)
  note h = quiet_log_then [OF steady_quiet [OF assms(1)]]
  show ?thesis
    unfolding leads_def
  proof (intro allI impI)
    fix w assume "P w"
    obtain res w1 where g: "?gen w = (res, w1)" by force
    from a \<open>P w\<close> have "Q (snd (?gen w))" unfolding leads_def by blast
    then have "Q w1" unfolding g by simp
    with g show "Q (snd (ask_llm env r ls w))"
      by (cases res) (simp_all add: ask_llm_def h [unfolded preserves_def, rule_format])
  qed
qed

lemma quiet_finish: "quiet P env r \<Longrightarrow> preserves P (finish env r c)"
  unfolding finish_def log_methods by (intro preserves_intros)

lemma loop_iteration_leads:
  assumes "steady P env r" "steady Q env r" "\<And>ms ts. leads P Q (en_generate env ms ts)" "\<And>w. P w \<Longrightarrow> Q w"
  shows "leads P Q (loop_iteration env mode r ls)"
proof -
  let ?ls = "ls\<lparr>ls_iterations_used := ls_iterations_used ls + 1\<rparr>"
  have "leads P Q (bind_op (cp_log env (\<lambda>io now. log_llm_requested io now r (ls_iterations_used ?ls))) (\<lambda>_.
          bind_op (ask_llm env r ?ls) (\<lambda>answer.
            case answer of
              None \<Rightarrow> (\<lambda>w. (Inr (Return None), w))
            | Some resp \<Rightarrow>
                if lr_tool_calls resp = [] then finish env r (lr_content resp)
                else tool_batch env mode r (requested_calls env r resp)
                       (add_message (assistant_message resp) ?ls))))" (is "leads P Q ?go")
    unfolding log_methods
    using assms quiet_finish [OF steady_quiet [OF assms(2)]] steady_quiet [OF assms(1)]
    by (intro leads_after leads_bind leads_ask_llm) (auto intro!: preserves_intros split: option.splits)
  then show ?thesis
    using quiet_halt [OF steady_quiet [OF assms(1)]] assms(1,4)
    by (simp add: leads_def preserves_def loop_iteration_def Let_def steady_def quiet_def)
qed

lemma agent_loop_keeps:
  assumes "steady P env r" "\<And>ms ts. preserves P (en_generate env ms ts)"
  shows "P w \<Longrightarrow> P (snd (agent_loop env mode r ls w))"
  using assms
proof (induction env mode r ls w rule: agent_loop.induct)
  case (1 env mode r ls w)
  have "leads P P (loop_iteration env mode r ls)"
    using 1(3,4) by (intro loop_iteration_leads) (auto simp: preserves_def leads_def)
  with 1(2) have p: "P (snd (loop_iteration env mode r ls w))" by (simp add: leads_def)
  obtain res w1 where it: "loop_iteration env mode r ls w = (res, w1)" by force
  show ?case
  proof (cases res)
    case (Inr out)
    with 1 it p show ?thesis
      by (cases out) (simp_all add: agent_loop.simps [of env mode r ls w])
  qed (use it p in \<open>simp add: agent_loop.simps [of env mode r ls w]\<close>)
qed

text \<open>A counter that only a model request raises, by at most one.\<close>

lemma loop_iteration_requests:
  assumes "\<And>n. steady (\<lambda>w. cnt w \<le> n) env r" "\<And>ms ts w. cnt (snd (en_generate env ms ts w)) \<le> Suc (cnt w)"
  shows "cnt (snd (loop_iteration env mode r ls w)) \<le>
    cnt w + (if ls_iterations_used ls < pol_max_iterations (en_policy env) then 1 else 0)"
proof (cases "ls_iterations_used ls < pol_max_iterations (en_policy env)")
  case True
  have "leads (\<lambda>v. cnt v \<le> cnt w) (\<lambda>v. cnt v \<le> Suc (cnt w)) (en_generate env ms ts)" for ms ts
    using assms(2) by (auto simp: leads_def intro: le_trans)
  with assms(1) have "leads (\<lambda>v. cnt v \<le> cnt w) (\<lambda>v. cnt v \<le> Suc (cnt w)) (loop_iteration env mode r ls)"
    by (intro loop_iteration_leads) auto
  with True show ?thesis by (simp add: leads_def)
next
  case False
  have "cnt (get_token r w) \<le> cnt w" using assms(1) [of "cnt w"] by (simp add: steady_def quiet_def)
  moreover have "preserves (\<lambda>v. cnt v \<le> cnt w) (halt env r reason)" for reason
    using steady_quiet [OF assms(1)] by (intro preserves_intros)
  ultimately show ?thesis
    using False by (simp add: loop_iteration_def preserves_def Let_def budget_decide_allowed usage_of_def)
qed

lemma agent_loop_requests:
  assumes "\<And>n. steady (\<lambda>w. cnt w \<le> n) env r" "\<And>ms ts w. cnt (snd (en_generate env ms ts w)) \<le> Suc (cnt w)"
  shows "cnt (snd (agent_loop env mode r ls w)) \<le>
    cnt w + nat (pol_max_iterations (en_policy env) - ls_iterations_used ls)"
  using assms
proof (induction env mode r ls w rule: agent_loop.induct)
  case (1 env mode r ls w)
  obtain res w1 where it: "loop_iteration env mode r ls w = (res, w1)" by force
  note c = loop_iteration_requests [of cnt env r mode ls w, OF 1(2,3)]
  show ?case
  proof (cases "\<exists>ls'. res = Inr (Next ls')")
    case True
    then obtain ls' where ls': "res = Inr (Next ls')" by blast
    with it have "cnt (snd (agent_loop env mode r ls' w1)) \<le>
        cnt w1 + nat (pol_max_iterations (en_policy env) - ls_iterations_used ls')"
      using 1 by simp
    with c ls' it loop_iteration_next [of env mode r ls w ls' w1] show ?thesis
      by (simp add: agent_loop.simps [of env mode r ls w])
  next
    case False
    with it have "snd (agent_loop env mode r ls w) = w1"
      by (auto simp: agent_loop.simps [of env mode r ls w] split: sum.splits loop_outcome.splits)
    with c it show ?thesis by (simp split: if_splits)
  qed
qed

lemma with_timeout_keeps:
  assumes "steady P env r" "P (snd (f w))"
  shows "P (snd (with_timeout env r f w))"
  using assms(2) quiet_log_then(1) [OF steady_quiet [OF assms(1)], unfolded preserves_def, rule_format]
  by (auto simp: with_timeout_def wait_for_def split: prod.splits sum.splits exn.splits)

section \<open>The log of a run\<close>

text \<open>
  \<open>run_ok\<close>: the checkpoint file is a valid history, and if the run is cancelled then this history
  says that the run is finished. \<open>orderly\<close>: appends do not tear lines, the clock is sane, and what
  happens while the run waits (tools, model, sleeping, other tasks meanwhile) keeps \<open>run_ok\<close>.
\<close>

definition run_ok :: "string \<Rightarrow> ('st, 'x) world \<Rightarrow> bool" where
  "run_ok r w \<longleftrightarrow>
     (\<exists>evs. log_repr (cm_file (w_cm w)) evs \<and> (is_cancelled r w \<longrightarrow> is_terminal (run_state_of evs r)))"

definition orderly :: "('c, 'st, 'x) env \<Rightarrow> string \<Rightarrow> bool" where
  "orderly env r \<longleftrightarrow>
     strip r \<noteq> [] \<and>
     (\<forall>x. untorn (io_append (fst (fst (en_cp env x)))) \<and> good_now (snd (fst (en_cp env x)))) \<and>
     (\<forall>d. preserves (run_ok r) (en_sleep env d)) \<and>
     (\<forall>ms ts. preserves (run_ok r) (en_generate env ms ts)) \<and>
     (\<forall>t \<in> snd ` set (en_registry env). \<forall>call. preserves (run_ok r) (tl_execute t call))"

lemma event_type_of_name_value [simp]: "event_type_of_name (event_type_value t) = t"
  by (simp add: event_type_of_name_def)

lemmas event_type_of_names =
  event_type_of_name_value [of RUN_HALTED, simplified] event_type_of_name_value [of RUN_FAILED, simplified]
  event_type_of_name_value [of RUN_COMPLETED, simplified]

lemma log_call_effect:
  assumes "orderly env r" "log_repr (cm_file (w_cm w)) evs" "log_call env r name p w = (res, w')"
  shows "\<exists>evs'. log_repr (cm_file (w_cm w')) evs' \<and>
    (\<forall>q. is_terminal (run_state_of evs q) \<longrightarrow> run_state_of evs' q = run_state_of evs q) \<and>
    (res = Inr () \<longrightarrow> (\<exists>e. ev_type e = event_type_of_name name \<and>
       validate_state_transition (run_state_of evs r) e = Inr (run_state_of evs' r)))"
proof -
  from cp_log_cm [OF assms(3) [unfolded log_call_def]] obtain io now where
    io: "fst (en_cp env (w_ext w)) = (io, now)" "log_event io now r name p (w_cm w) = (res, w_cm w')" by blast
  have ok: "untorn (io_append io)" "good_now now" "strip r \<noteq> []"
    using assms(1) io(1) unfolding orderly_def by (metis fst_conv, metis snd_conv, simp)
  let ?e = "spec_event now r (event_type_of_name name) p evs"
  have app: "?thesis" if "log_repr (cm_file (w_cm w')) (evs @ [?e])"
  proof -
    from that have wf: "wf_log (evs @ [?e])" by (simp add: log_repr_def)
    with that cm.terminal_call [OF wf] run_state_of_snoc [OF wf] show ?thesis
      by (intro exI [of _ "evs @ [?e]"]) (auto simp: wf_log_snoc intro!: exI [of _ ?e])
  qed
  from log_event_cases [OF assms(2) ok io(2)] app assms(2) show ?thesis by auto
qed

lemma log_call_tokens: "w_tokens (snd (log_call env r name p w)) = w_tokens w"
  using cp_log_fields by (metis log_call_def prod.collapse)

lemma is_cancelled_tokens: "w_tokens w' = w_tokens w \<Longrightarrow> is_cancelled r w' = is_cancelled r w"
  by (simp add: is_cancelled_def)

lemma orderly_log:
  assumes "orderly env r"
  shows "preserves (run_ok r) (log_call env r name p)"
  unfolding preserves_def
proof (intro allI impI)
  fix w :: "('b, 'c) world"
  assume "run_ok r w"
  then obtain evs where e: "log_repr (cm_file (w_cm w)) evs" "is_cancelled r w \<longrightarrow> is_terminal (run_state_of evs r)"
    by (auto simp: run_ok_def)
  from log_call_effect [OF assms e(1), of name p "fst (log_call env r name p w)" "snd (log_call env r name p w)"]
    e(2) is_cancelled_tokens [OF log_call_tokens]
  show "run_ok r (snd (log_call env r name p w))" unfolding run_ok_def by (metis prod.collapse)
qed

lemma run_ok_cong: "w_cm w' = w_cm w \<Longrightarrow> is_cancelled r w' = is_cancelled r w \<Longrightarrow> run_ok r w' = run_ok r w"
  by (simp add: run_ok_def)

lemma run_ok_frame [simp]:
  "run_ok r (w\<lparr>w_ext := x\<rparr>) = run_ok r w" "run_ok r (w\<lparr>w_store := s\<rparr>) = run_ok r w"
  "run_ok r (get_token r w) = run_ok r w"
  using run_ok_cong [of "w\<lparr>w_ext := x\<rparr>" w r] run_ok_cong [of "w\<lparr>w_store := s\<rparr>" w r]
    run_ok_cong [of "get_token r w" w r]
  by (simp_all add: is_cancelled_tokens [of "w\<lparr>w_ext := x\<rparr>" w] is_cancelled_tokens [of "w\<lparr>w_store := s\<rparr>" w])

lemma orderly_steady: "orderly env r \<Longrightarrow> steady (run_ok r) env r"
  unfolding steady_def quiet_def
  using orderly_log [of env r]
  by (intro conjI allI impI ballI) (auto simp: orderly_def)

lemma log_call_end:
  assumes "orderly env r" "run_ok r w" "log_call env r (event_type_value t) p w = (Inr (), w')"
    and "(t, s) \<in> {(RUN_HALTED, HALTED), (RUN_FAILED, FAILED), (RUN_COMPLETED, COMPLETED)}"
  shows "\<exists>evs. log_repr (cm_file (w_cm w')) evs \<and> run_state_of evs r = s"
proof -
  from assms(2) obtain evs where "log_repr (cm_file (w_cm w)) evs" by (auto simp: run_ok_def)
  from log_call_effect [OF assms(1) this assms(3)] obtain evs' e where
    "log_repr (cm_file (w_cm w')) evs'" "ev_type e = t"
    "validate_state_transition (run_state_of evs r) e = Inr (run_state_of evs' r)" by auto
  moreover from this(2,3) assms(4) have "run_state_of evs' r = s"
    by (auto simp: validate_state_transition_def Let_def split: if_splits)
  ultimately show ?thesis by blast
qed

subsection \<open>A run that returns is finished\<close>

definition finished :: "string \<Rightarrow> content option \<Rightarrow> ('st, 'x) world \<Rightarrow> bool" where
  "finished r v w \<longleftrightarrow>
     (\<exists>evs. log_repr (cm_file (w_cm w)) evs \<and> is_terminal (run_state_of evs r) \<and>
            (v \<noteq> None \<longrightarrow> run_state_of evs r = COMPLETED))"

lemma finished_halted:
  assumes "orderly env r" "run_ok r w" "halt env r reason w = (Inr out, w')"
  shows "out = Return None \<and> finished r None w'"
proof -
  from assms(3) have "out = Return None" "log_call env r (event_type_value RUN_HALTED) [(''reason'', PStr reason)] w = (Inr (), w')"
    by (auto simp: halt_def log_run_halted_def log_call_def bind_op_def split: prod.splits sum.splits)
  with log_call_end [OF assms(1,2) this(2), of HALTED] show ?thesis
    by (auto simp: finished_def is_terminal_def)
qed

lemma tool_step_finished:
  assumes "orderly env r" "run_ok r w" "tc_run_id call = r"
    and "tool_step env RunBatch r cid call b ls w = (Inr (Return v), w')"
  shows "v = None \<and> finished r None w'"
proof -
  let ?go = "bind_op (execute_tool env call) (\<lambda>res.
      bind_op (cp_log env (\<lambda>io now. log_tool_result_received io now r cid
                    (tool_status_value (tr_status res)) (PStr (tc_name call)) (PDict (tool_result_to_dict res)) b))
                 (\<lambda>_ w. (Inr (Next (add_message (tool_reply cid call res) ls)), w)))"
  have "preserves (run_ok r) ?go"
    unfolding log_methods using orderly_steady [OF assms(1)] steady_quiet [OF orderly_steady [OF assms(1)]] assms(3) by (intro preserves_intros) auto
  moreover obtain res w1 where g: "?go w = (res, w1)" by force
  ultimately have ok: "run_ok r w1" using assms(2) by (auto dest: preservesD)
  have nr: "res \<noteq> Inr (Return u)" for u
    using g by (auto simp: bind_op_def split: sum.splits prod.splits)
  from assms(4) g nr obtain reason where "halt env r reason w1 = (Inr (Return v), w')"
    by (cases res) (auto simp: tool_step_def split: if_splits)
  from finished_halted [OF assms(1) ok this] show ?thesis by simp
qed

lemma run_ok_cancelled: "run_ok r w \<Longrightarrow> is_cancelled r w \<Longrightarrow> finished r None w"
  by (auto simp: run_ok_def finished_def)

lemma tool_batch_finished:
  assumes "orderly env r" "calls_of r cs" "run_ok r w"
    and "tool_batch env RunBatch r cs ls w = (Inr (Return v), w')"
  shows "v = None \<and> finished r None w'"
  using assms(2-)
proof (induction cs arbitrary: ls w)
  case (Cons c cs)
  show ?case
  proof (cases "is_cancelled r w")
    case True
    with Cons.prems run_ok_cancelled show ?thesis by auto
  next
    case False
    show ?thesis
    proof (cases "charge_call (en_policy env) (fst c) ls")
      case (Inr ch)
      show ?thesis
      proof (cases ch)
        case (Inl reason)
        with Cons.prems False Inr have "halt env r reason w = (Inr (Return v), w')" by simp
        from finished_halted [OF assms(1) Cons.prems(2) this] show ?thesis by simp
      next
        case ls1: (Inr ls1)
        with Cons.prems(3) False Inr obtain call out w1 where c: "snd c = Inr call"
          "tool_step env RunBatch r (fst c) call (cs = []) ls1 w = (Inr out, w1)"
          "(case out of Return v \<Rightarrow> (\<lambda>w. (Inr (Return v), w)) | Next ls \<Rightarrow> tool_batch env RunBatch r cs ls) w1
             = (Inr (Return v), w')"
          by (auto simp: bind_op_def split: sum.splits prod.splits)
        have "(fst c, Inr call) \<in> set (c # cs)" using c(1) by (metis list.set_intros(1) prod.collapse)
        then have rc: "tc_run_id call = r" "calls_of r cs"
          using Cons.prems(1) unfolding calls_of_def by (blast, auto)
        have ok: "run_ok r w1"
          using preservesD [OF steady_tool_step [OF orderly_steady [OF assms(1)] rc(1)] c(2)] Cons.prems(2) .
        show ?thesis
        proof (cases out)
          case (Return u)
          with tool_step_finished [OF assms(1) Cons.prems(2) rc(1), of "fst c" "cs = []" ls1 u w1] c(2,3)
          show ?thesis by simp
        next
          case (Next ls2)
          with c(3) Cons.IH [OF rc(2) ok] show ?thesis by simp
        qed
      qed
    qed (use Cons.prems False in simp)
  qed
qed simp

lemma orderly_generate: "orderly env r \<Longrightarrow> leads (run_ok r) (run_ok r) (en_generate env ms ts)"
  by (simp add: orderly_def leads_def preserves_def)

lemma ask_llm_failed:
  assumes "orderly env r" "run_ok r w" "ask_llm env r ls w = (Inr None, w')"
  shows "finished r None w'"
proof -
  let ?gen = "bind_op (en_generate env (ls_messages ls) (get_tools_schema (en_registry env))) (\<lambda>resp.
             bind_op
               (cp_log env (\<lambda>io now. log_llm_responded io now r (ls_iterations_used ls) (lr_content resp)
                  (int (length (lr_tool_calls resp))) (map call_payload (lr_tool_calls resp))))
               (\<lambda>_ w. (Inr (Some resp), w)))"
  have "preserves (run_ok r) ?gen"
    unfolding log_methods
    using orderly_steady [OF assms(1)] steady_quiet [OF orderly_steady [OF assms(1)]] orderly_generate [OF assms(1)]
    by (intro preserves_intros) (auto simp: leads_def preserves_def)
  moreover obtain res w1 where g: "?gen w = (res, w1)" by force
  ultimately have ok: "run_ok r w1" using assms(2) by (auto dest: preservesD)
  have nr: "res \<noteq> Inr None" using g by (auto simp: bind_op_def split: sum.splits prod.splits)
  from assms(3) g nr obtain m where "log_call env r (event_type_value RUN_FAILED) [(''error'', PStr m)] w1 = (Inr (), w')"
    by (cases res)
      (auto simp: ask_llm_def bind_op_def log_call_def log_run_failed_def split: if_splits sum.splits prod.splits)
  from log_call_end [OF assms(1) ok this, of FAILED] show ?thesis
    by (auto simp: finished_def is_terminal_def)
qed

lemma finish_finished:
  assumes "orderly env r" "run_ok r w" "finish env r c w = (Inr out, w')"
  shows "out = Return (returned c) \<and> finished r (returned c) w'"
proof -
  from assms(3) obtain w1 where l: "log_call env r ''LLM_FINAL_RESPONSE''
        [(''has_content'', PBool (truthy c)), (''content'', c)] w = (Inr (), w1)"
      "log_call env r (event_type_value RUN_COMPLETED) [] w1 = (Inr (), w')" "out = Return (returned c)"
    by (auto simp: finish_def log_llm_final_response_def log_run_completed_def log_call_def bind_op_def
        split: prod.splits sum.splits)
  from preservesD [OF orderly_log [OF assms(1)] l(1) assms(2)] have "run_ok r w1" .
  from log_call_end [OF assms(1) this l(2), of COMPLETED] l(3) show ?thesis
    by (auto simp: finished_def is_terminal_def)
qed

lemma loop_iteration_finished:
  assumes "orderly env r" "run_ok r w" "loop_iteration env RunBatch r ls w = (Inr (Return v), w')"
  shows "finished r v w'"
proof -
  define w0 where "w0 = get_token r w"
  have ok0: "run_ok r w0" using assms(2) by (simp add: w0_def)
  let ?d = "budget_decide (en_policy env) (usage_of ls) 1 0"
  let ?ls = "ls\<lparr>ls_iterations_used := ls_iterations_used ls + 1\<rparr>"
  let ?go = "\<lambda>answer. case answer of
            None \<Rightarrow> (\<lambda>w. (Inr (Return None), w))
          | Some resp \<Rightarrow>
              if lr_tool_calls resp = [] then finish env r (lr_content resp)
              else tool_batch env RunBatch r (requested_calls env r resp)
                     (add_message (assistant_message resp) ?ls)"
  let ?req = "log_call env r ''LLM_REQUESTED'' [(''iteration'', PInt (ls_iterations_used ?ls))]"
  have "loop_iteration env RunBatch r ls w =
     (if is_cancelled r w0 then (Inr (Return None), w0)
      else if \<not> bd_allowed ?d then halt env r (decision_reason ?d ''MAX_ITERATIONS_REACHED'') w0
      else bind_op ?req (\<lambda>_. bind_op (ask_llm env r ?ls) ?go) w0)"
    by (simp add: loop_iteration_def Let_def w0_def log_call_def log_llm_requested_def)
  note eq = this [unfolded assms(3)]
  show ?thesis
  proof (cases "is_cancelled r w0 \<or> \<not> bd_allowed ?d")
    case True
    show ?thesis
    proof (cases "is_cancelled r w0")
      case True
      with eq run_ok_cancelled [OF ok0 True] show ?thesis by simp
    next
      case False
      with True eq have "halt env r (decision_reason ?d ''MAX_ITERATIONS_REACHED'') w0 = (Inr (Return v), w')" by simp
      from finished_halted [OF assms(1) ok0 this] show ?thesis by simp
    qed
  next
    case False
    then have "bind_op ?req (\<lambda>_. bind_op (ask_llm env r ?ls) ?go) w0 = (Inr (Return v), w')" using eq by simp
    then obtain u w1 where w1: "?req w0 = (Inr u, w1)" and "bind_op (ask_llm env r ?ls) ?go w1 = (Inr (Return v), w')"
      by (rule bind_op_InrE)
    from this(2) obtain answer w2 where w2: "ask_llm env r ?ls w1 = (Inr answer, w2)" "?go answer w2 = (Inr (Return v), w')"
      by (rule bind_op_InrE)
    from preservesD [OF orderly_log [OF assms(1)] w1 ok0] have ok1: "run_ok r w1" .
    have "leads (run_ok r) (run_ok r) (ask_llm env r ?ls)"
      by (rule leads_ask_llm [OF orderly_steady [OF assms(1)] orderly_generate [OF assms(1)]])
    with ok1 have "run_ok r (snd (ask_llm env r ?ls w1))" unfolding leads_def by blast
    then have ok2: "run_ok r w2" unfolding w2(1) by simp
    show ?thesis
    proof (cases answer)
      case None
      with w2 ask_llm_failed [OF assms(1) ok1, of ?ls w2] show ?thesis by simp
    next
      case (Some resp)
      show ?thesis
      proof (cases "lr_tool_calls resp = []")
        case True
        with Some w2(2) finish_finished [OF assms(1) ok2, of "lr_content resp" "Return v" w'] show ?thesis by simp
      next
        case False
        with Some w2(2) tool_batch_finished [OF assms(1) calls_of_requested ok2, of env resp _ v w'] show ?thesis by force
      qed
    qed
  qed
qed

lemma agent_loop_finished:
  assumes "agent_loop env RunBatch r ls w = (Inr v, w')" "orderly env r" "run_ok r w"
  shows "finished r v w'"
proof -
  have "agent_loop env mode r ls w = (Inr v, w') \<Longrightarrow> mode = RunBatch \<Longrightarrow> orderly env r \<Longrightarrow> run_ok r w \<Longrightarrow>
      finished r v w'" for mode
  proof (induction env mode r ls w rule: agent_loop.induct)
    case (1 env mode r ls w)
    obtain res w1 where it: "loop_iteration env mode r ls w = (res, w1)" by force
    have ok: "run_ok r w1"
      using loop_iteration_leads [OF orderly_steady orderly_steady orderly_generate, of env r mode ls] 1(4,5) it
      by (auto simp: leads_def dest: spec [of _ w])
    from 1(2) it obtain out where out: "res = Inr out"
      by (cases res) (auto simp: agent_loop.simps [of env mode r ls w])
    show ?case
    proof (cases out)
      case (Return u)
      with 1 it out loop_iteration_finished [of env r w ls u w1] show ?thesis
        by (simp add: agent_loop.simps [of env RunBatch r ls w])
    next
      case (Next ls1)
      with 1 it out ok show ?thesis by (simp add: agent_loop.simps [of env RunBatch r ls w])
    qed
  qed
  from this [of RunBatch] assms show ?thesis by simp
qed

lemma with_timeout_finished:
  assumes "orderly env r" "run_ok r (snd (f w))" "\<And>v w'. f w = (Inr v, w') \<Longrightarrow> finished r v w'"
    and "with_timeout env r f w = (Inr v, w')"
  shows "finished r v w'"
proof (cases "f w = (Inr v, w')")
  case False
  obtain res w1 where f: "f w = (res, w1)" by force
  with assms(4) False have h: "log_call env r (event_type_value RUN_HALTED) [(''reason'', PStr ''TIMEOUT_REACHED'')] w1 = (Inr (), w')"
      "v = None"
    by (auto simp: with_timeout_def wait_for_def bind_op_def log_call_def log_run_halted_def
        split: prod.splits sum.splits exn.splits if_splits)
  have "run_ok r w1" using assms(2) f by simp
  from log_call_end [OF assms(1) this h(1), of HALTED] h(2) show ?thesis
    by (auto simp: finished_def is_terminal_def)
qed (use assms(3) in simp)

lemma run_internal_ok:
  assumes "orderly env r" "run_ok r w"
  shows "run_ok r (snd (run_internal env r sp up w))"
proof -
  let ?ls = "\<lparr>ls_messages = [mk_message SYSTEM (Val sp), mk_message USER (Val up)],
             ls_iterations_used = 0, ls_tool_calls_used = 0, ls_seen_tool_call_ids = []\<rparr>"
  have "preserves (run_ok r) (agent_loop env RunBatch r ?ls)"
    using agent_loop_keeps [of "run_ok r" env r] orderly_steady [OF assms(1)] assms(1)
    by (simp add: preserves_def orderly_def)
  then have "preserves (run_ok r) (bind_op (cp_log env (\<lambda>io now. log_run_started io now r sp up))
      (\<lambda>_. agent_loop env RunBatch r ?ls))"
    unfolding log_methods using orderly_steady [OF assms(1)] steady_quiet [OF orderly_steady [OF assms(1)]] by (intro preserves_intros)
  with assms(2) show ?thesis by (simp add: run_internal_def preserves_def Let_def)
qed

lemma run_internal_finished:
  assumes "orderly env r" "run_ok r w" "run_internal env r sp up w = (Inr v, w')"
  shows "finished r v w'"
proof (cases "is_cancelled r (get_token r w)")
  case True
  with assms run_ok_cancelled [of r "get_token r w"] show ?thesis
    by (auto simp: run_internal_def Let_def)
next
  case False
  with assms(3) obtain w1 ls where
    l: "log_call env r ''RUN_STARTED'' [(''system_prompt'', sp), (''user_prompt'', up)] (get_token r w) = (Inr (), w1)"
      "agent_loop env RunBatch r ls w1 = (Inr v, w')"
    by (auto simp: run_internal_def Let_def log_call_def log_run_started_def bind_op_def split: sum.splits prod.splits)
  have "run_ok r w1" using preservesD [OF orderly_log [OF assms(1)] l(1)] assms(2) by simp
  from agent_loop_finished [OF l(2) assms(1) this] show ?thesis .
qed

section \<open>How often a tool runs\<close>

lemma preserves_all_keeps: "(\<forall>n. preserves (\<lambda>s. cnt s = n) f) \<longleftrightarrow> keeps cnt f"
  by (auto simp: preserves_def keeps_def)

lemma quiet_le:
  assumes "\<And>n. quiet (\<lambda>w. cnt w = n) env r"
  shows "quiet (\<lambda>w. cnt w \<le> (m::nat)) env r"
  using assms unfolding quiet_def preserves_def by simp

lemma tool_execute_runs:
  assumes "\<And>n. quiet (\<lambda>w. cnt w = n) env (tc_run_id call)"
    and "\<And>w. cnt (snd (tl_execute tool call w)) \<le> Suc (cnt w)"
  shows "leads (\<lambda>w. cnt w = n) (\<lambda>w. cnt w \<le> n + nat (rp_max_attempts (en_retry env)))
    (tool_execute_with_retry env call tool)"
proof -
  have "hooks_preserve (\<lambda>w. cnt w = n) (tool_retry_env env call tool)" for n
    using assms(1) by (rule quiet_hooks)
  then have "hooks_keep cnt (tool_retry_env env call tool)"
    unfolding hooks_preserve_def hooks_keep_def preserves_all_keeps [symmetric] by metis
  moreover have "cnt (snd (re_operation (tool_retry_env env call tool) w)) \<le> Suc (cnt w)" for w
    using assms(2) by (simp add: tool_retry_env_def Let_def)
  ultimately show ?thesis
    using retry_loop_count [of cnt "tool_retry_env env call tool" "en_retry env" 1]
    by (auto simp: leads_def tool_execute_with_retry_def execute_with_retry_def)
qed

lemma leads_case_sum:
  assumes "leads P Q f" "\<And>e. preserves Q (g e)" "\<And>x. preserves Q (h x)"
  shows "leads P Q (\<lambda>s. case f s of (Inl e, s') \<Rightarrow> g e s' | (Inr x, s') \<Rightarrow> h x s')"
  using assms unfolding preserves_def leads_def
  by (auto split: prod.splits sum.splits)

lemma execute_v2_runs:
  assumes "\<And>n. quiet (\<lambda>w. cnt w = n) env (tc_run_id call)"
    and "\<And>w. cnt (snd (tl_execute tool call w)) \<le> Suc (cnt w)"
  shows "cnt (snd (execute_v2 env call tool w)) \<le> cnt w + nat (rp_max_attempts (en_retry env))"
proof -
  let ?P = "\<lambda>v. cnt v = cnt w" let ?Q = "\<lambda>v. cnt v \<le> cnt w + nat (rp_max_attempts (en_retry env))"
  note q = quiet_le [of cnt, OF assms(1)]
  have "leads ?P ?Q (execute_claimed_v2 env call tool key)" for key
    unfolding execute_claimed_as_case
    using quiet_settle_result [OF q] tool_execute_runs [of cnt env call tool, OF assms]
    by (intro leads_case_sum) (auto intro: preserves_return split: sum.splits option.splits op_result.splits)
  then have "leads ?P ?Q (\<lambda>w. case cr_status cr of
      ALREADY_COMPLETED \<Rightarrow> (replay_completed_result (cr_record cr), w)
    | ALREADY_IN_PROGRESS \<Rightarrow> (Inr (failure_result call
         ''Tool execution is already in progress for this idempotency key.'' ''IDEMPOTENCY_IN_PROGRESS''), w)
    | FAILED_PERMANENT \<Rightarrow> (Inr (failure_result call
         ''Tool execution previously failed permanently for this idempotency key.'' ''IDEMPOTENCY_FAILED_PERMANENT''), w)
    | CLAIMED \<Rightarrow> execute_claimed_v2 env call tool key w)" for key cr
    by (auto simp: leads_def split: claim_status.splits)
  then have "leads ?P ?Q (bind_op (map_error claim_error
        (v2_call env (\<lambda>c. so_claim (en_ops env) c key (PStr (en_owner_id env)))))
      (\<lambda>cr w. case cr_status cr of
      ALREADY_COMPLETED \<Rightarrow> (replay_completed_result (cr_record cr), w)
    | ALREADY_IN_PROGRESS \<Rightarrow> (Inr (failure_result call
         ''Tool execution is already in progress for this idempotency key.'' ''IDEMPOTENCY_IN_PROGRESS''), w)
    | FAILED_PERMANENT \<Rightarrow> (Inr (failure_result call
         ''Tool execution previously failed permanently for this idempotency key.'' ''IDEMPOTENCY_FAILED_PERMANENT''), w)
    | CLAIMED \<Rightarrow> execute_claimed_v2 env call tool key w))" for key
    using assms(1) by (intro leads_after preserves_map_error quiet_v2_call) auto
  then show ?thesis
    by (auto simp: execute_v2_def leads_def split: sum.splits)
qed

end
