(* ===== verification/Store_Traces.thy ===== *)
theory Store_Traces
  imports Jsonl_Store
begin

text \<open>
  Sequences of all public operations of \<open>JsonlIdempotencyStore\<close>, by any number of workers and processes and with
  nothing assumed of them: any argument, any outcome of every file operation (torn lines included) and any reading of
  the clock, also one that runs backwards. They may make the file unreadable, so that every operation raises until a
  repair, or for good; what they cannot do is to change or to lose a terminal record, pruning apart.
\<close>

datatype store_op =
    OpClaim "store_io \<times> pyfloat \<times> pyfloat" record_key pyval
  | OpComplete "store_io \<times> pyfloat \<times> pyfloat" record_key pyval pyval
  | OpFail "store_io \<times> pyfloat \<times> pyfloat" record_key pyval bool pyval
  | OpGet store_io pyfloat record_key
  | OpAll store_io
  | OpCompact store_io
  | OpPrune store_io pyfloat pyval
  | OpRepair store_io

datatype store_answer =
    ClaimAnswer "exn + claim_result"
  | TransitionAnswer "exn + unit"
  | GetAnswer "exn + idem_record option"
  | AllAnswer "exn + (record_key \<times> idem_record) list"
  | RewriteAnswer "exn + unit"
  | RepairAnswer "exn + bool"

fun run_op :: "store_op \<Rightarrow> jsonl_store \<Rightarrow> store_answer \<times> jsonl_store" where
  "run_op (OpClaim c k ow) s = map_prod ClaimAnswer id (jsonl_claim c k ow s)"
| "run_op (OpComplete c k ow d) s = map_prod TransitionAnswer id (jsonl_complete c k ow d s)"
| "run_op (OpFail c k ow b d) s = map_prod TransitionAnswer id (jsonl_fail c k ow b d s)"
| "run_op (OpGet io now k) s = map_prod GetAnswer id (jsonl_get io now k s)"
| "run_op (OpAll io) s = map_prod AllAnswer id (jsonl_get_all_records io s)"
| "run_op (OpCompact io) s = map_prod RewriteAnswer id (compact io s)"
| "run_op (OpPrune io now age) s = map_prod RewriteAnswer id (prune io now age s)"
| "run_op (OpRepair io) s = map_prod RepairAnswer id (repair io s)"

fun run_ops :: "store_op list \<Rightarrow> jsonl_store \<Rightarrow> store_answer list \<times> jsonl_store" where
  "run_ops [] s = ([], s)"
| "run_ops (c # cs) s = (let (a, s1) = run_op c s; (rest, s2) = run_ops cs s1 in (a # rest, s2))"

text \<open>A pruning that removes this record.\<close>

fun prunes :: "store_op \<Rightarrow> idem_record \<Rightarrow> bool" where
  "prunes (OpPrune io now age) r \<longleftrightarrow> validate_max_age age = Inr () \<and> prunable age now r"
| "prunes _ r \<longleftrightarrow> False"

definition terminal_claim :: "idem_record \<Rightarrow> claim_result" where
  "terminal_claim r =
     \<lparr>cr_status = (if ir_status r = R_COMPLETED then ALREADY_COMPLETED else FAILED_PERMANENT), cr_record = r\<rparr>"

text \<open>The answers that agree with a terminal record: the operation raises, or it reports that record.\<close>

fun agrees :: "record_key \<Rightarrow> idem_record \<Rightarrow> store_op \<Rightarrow> store_answer \<Rightarrow> bool" where
  "agrees k r (OpClaim c k' ow) (ClaimAnswer (Inr cr)) \<longleftrightarrow> k' \<noteq> k \<or> cr = terminal_claim r"
| "agrees k r (OpComplete c k' ow d) (TransitionAnswer (Inr u)) \<longleftrightarrow> k' \<noteq> k"
| "agrees k r (OpFail c k' ow b d) (TransitionAnswer (Inr u)) \<longleftrightarrow> k' \<noteq> k"
| "agrees k r (OpGet io now k') (GetAnswer (Inr x)) \<longleftrightarrow> k' \<noteq> k \<or> x = Some r"
| "agrees k r (OpAll io) (AllAnswer (Inr rs)) \<longleftrightarrow> map_of rs k = Some r"
| "agrees k r _ _ \<longleftrightarrow> True"

section \<open>What loading finds\<close>

definition loadable :: "idem_record \<Rightarrow> bool" where
  "loadable r \<longleftrightarrow>
     wf_key (ir_key r) \<and> ir_owner_id r \<noteq> [] \<and> 1 \<le> ir_attempt r \<and> (ir_data r = PNone \<or> is_dict (ir_data r))"

lemma loadable_line: "loadable r \<Longrightarrow> record_from_dict (PDict (record_to_dict r)) n = Inr r"
  by (rule record_fields_roundtrip) (simp_all add: loadable_def)

lemma key_from_dict_Inr: "key_from_dict kd n = Inr k \<Longrightarrow> wf_key k"
  by (auto simp: key_from_dict_def bind_result_def split: sum.splits dest: mk_record_key_Inr)

lemma fields_from_dict_Inr: "fields_from_dict d k = Inr r \<Longrightarrow> wf_key k \<Longrightarrow> loadable r \<and> ir_key r = k"
  by (auto simp: fields_from_dict_def loadable_def Let_def split: option.splits pyval.splits if_splits)

lemma record_from_dict_loadable: "record_from_dict v n = Inr r \<Longrightarrow> loadable r"
  by (auto simp: record_from_dict_def bind_result_def dest: key_from_dict_Inr fields_from_dict_Inr
      split: pyval.splits if_splits sum.splits)

lemma record_line_key:
  assumes "record_from_dict (PDict (record_to_dict u)) n = Inr r"
  shows "ir_key r = ir_key u"
proof -
  have kd: "dget (record_to_dict u) ''key'' PNone =
      PDict [(''operation_key'', PStr (operation_key (ir_key u))), (''idempotency_key'', PStr (idempotency_key (ir_key u)))]"
    by (simp add: record_to_dict_def)
  from assms obtain k where k: "key_from_dict [(''operation_key'', PStr (operation_key (ir_key u))),
      (''idempotency_key'', PStr (idempotency_key (ir_key u)))] n = Inr k" "fields_from_dict (record_to_dict u) k = Inr r"
    by (auto simp: record_from_dict_def kd bind_result_def split: if_splits sum.splits)
  from k(1) have "k = ir_key u" by (auto simp: key_from_dict_def bind_result_def mk_record_key_def split: if_splits)
  with k fields_from_dict_Inr [OF k(2) key_from_dict_Inr [OF k(1)]] show ?thesis by simp
qed

definition sound_index :: "(string \<times> idem_record) list \<Rightarrow> bool" where
  "sound_index recs \<longleftrightarrow> distinct (map fst recs) \<and> (\<forall>(c, r) \<in> set recs. c = canonical (ir_key r) \<and> loadable r)"

lemma load_line_Inr:
  assumes "load_line n l recs = Inr recs'"
  shows "recs' = recs \<and> l = Blank \<or>
    (\<exists>v r. l = Json v \<and> record_from_dict v n = Inr r \<and> recs' = AList.update (canonical (ir_key r)) r recs)"
  using assms by (auto simp: load_line_def bind_result_def Let_def split: line.splits sum.splits option.splits if_splits)

lemma load_line_sound:
  assumes "load_line n l recs = Inr recs'" "sound_index recs"
  shows "sound_index recs'"
  using load_line_Inr [OF assms(1)]
proof (elim disjE conjE exE)
  fix v r
  assume r: "record_from_dict v n = Inr r" "recs' = AList.update (canonical (ir_key r)) r recs"
  from r(1) have "loadable r" by (rule record_from_dict_loadable)
  with r(2) assms(2) update_set_subset [of "canonical (ir_key r)" r recs] show ?thesis
    by (auto simp: sound_index_def distinct_update)
qed (use assms in simp)

lemma load_lines_sound: "load_lines n ls recs = (Inr (), recs') \<Longrightarrow> sound_index recs \<Longrightarrow> sound_index recs'"
  by (induction n ls recs rule: load_lines.induct) (auto split: sum.splits dest: load_line_sound)

lemma load_lines_snoc:
  assumes "load_lines n ls recs = (Inr (), recs')"
  shows "load_lines n (ls @ [l]) recs = (Inr (), recs'') \<longleftrightarrow> load_line (n + length ls) l recs' = Inr recs''"
  using load_lines_append [OF assms, of "[l]"] by (auto split: sum.splits)

text \<open>Lines that load are not corrupt.\<close>

lemma load_line_not_corrupt: "load_line n l recs = Inr recs' \<Longrightarrow> \<not> corrupt_line (n, l)"
  by (auto simp: corrupt_line_def dest!: load_line_Inr split: line.splits)

lemma load_lines_not_corrupt:
  "load_lines n ls recs = (Inr (), recs') \<Longrightarrow> find corrupt_line (List.enumerate n ls) = None"
  by (induction n ls recs rule: load_lines.induct) (auto split: sum.splits dest: load_line_not_corrupt)

text \<open>A file of one loadable record per key loads, and holds those records.\<close>

lemma load_lines_distinct:
  "\<forall>x \<in> set xs. loadable x \<Longrightarrow> distinct (map ir_key xs) \<Longrightarrow> \<forall>x \<in> set xs. map_of recs (canonical (ir_key x)) = None \<Longrightarrow>
     \<exists>recs'. load_lines n (map rec_line xs) recs = (Inr (), recs') \<and>
       (\<forall>x \<in> set xs. map_of recs' (canonical (ir_key x)) = Some x) \<and>
       (\<forall>k. k \<notin> ir_key ` set xs \<longrightarrow> map_of recs' (canonical k) = map_of recs (canonical k))"
proof (induction xs arbitrary: n recs)
  case (Cons x xs)
  let ?recs = "AList.update (canonical (ir_key x)) x recs"
  have "load_line n (rec_line x) recs = Inr ?recs"
    using Cons.prems by (simp add: load_line_def rec_line_def loadable_line Let_def)
  moreover have "\<forall>y \<in> set xs. map_of ?recs (canonical (ir_key y)) = None"
    using Cons.prems by (auto simp: update_conv image_iff)
  with Cons.IH [of ?recs "Suc n"] Cons.prems obtain recs' where
    "load_lines (Suc n) (map rec_line xs) ?recs = (Inr (), recs')"
    "\<forall>y \<in> set xs. map_of recs' (canonical (ir_key y)) = Some y"
    "\<forall>k. k \<notin> ir_key ` set xs \<longrightarrow> map_of recs' (canonical k) = map_of ?recs (canonical k)"
    by auto
  ultimately show ?case using Cons.prems by (auto simp: update_conv)
qed simp

section \<open>A record that stays\<close>

text \<open>
  The file holds the record \<open>r\<close> of the key \<open>k\<close>: its lines load and give \<open>r\<close>, up to one last line that may not load
  or may be unfinished, but is not about \<open>k\<close>.
\<close>

definition harmless :: "record_key \<Rightarrow> line \<Rightarrow> bool" where
  "harmless k l \<longleftrightarrow> l = Malformed \<or> (\<exists>u. l = rec_line u \<and> ir_key u \<noteq> k)"

definition holds_lines :: "record_key \<Rightarrow> idem_record \<Rightarrow> line list \<Rightarrow> bool" where
  "holds_lines k r ls \<longleftrightarrow> (\<exists>recs. load_lines 1 ls [] = (Inr (), recs) \<and> map_of recs (canonical k) = Some r)"

definition holds_record :: "record_key \<Rightarrow> idem_record \<Rightarrow> jsonl option \<Rightarrow> bool" where
  "holds_record k r f \<longleftrightarrow>
     (\<exists>ls. holds_lines k r ls \<and>
        (closed_file f \<and> file_lines f = ls \<or> (\<exists>l. file_lines f = ls @ [l] \<and> harmless k l)))"

lemma load_harmless:
  assumes "harmless k l" "load_line n l recs = Inr recs'"
  shows "map_of recs' (canonical k) = map_of recs (canonical k)"
  using load_line_Inr [OF assms(2)] assms(1)
  by (auto simp: harmless_def rec_line_def update_conv dest: record_line_key)

lemma holds_lines_snoc:
  assumes "holds_lines k r ls" "harmless k l" "load_lines 1 (ls @ [l]) [] = (Inr (), recs)"
  shows "map_of recs (canonical k) = Some r"
proof -
  obtain recs0 where "load_lines 1 ls [] = (Inr (), recs0)" "map_of recs0 (canonical k) = Some r"
    using assms(1) by (auto simp: holds_lines_def)
  with assms(2,3) load_lines_snoc [of 1 ls "[]" recs0 l recs] load_harmless [of k l "1 + length ls" recs0 recs]
  show ?thesis by simp
qed

lemma holds_lines_mem: "holds_lines k r ls \<Longrightarrow> ls \<noteq> []"
  by (auto simp: holds_lines_def)

text \<open>After a successful reload every record of another key can be appended, whatever becomes of the write.\<close>

lemma holds_record_shape:
  assumes "holds_record k r (Some j)"
  obtains ls where "holds_lines k r ls"
    "\<not> jl_open j \<and> jl_lines j = ls \<or> (\<exists>l. jl_lines j = ls @ [l] \<and> harmless k l)"
  using assms by (auto simp: holds_record_def closed_file_def file_lines_def)

lemma holds_record_loaded:
  assumes h: "holds_record k r (Some j)" and ld: "load_lines 1 (jl_lines j) [] = (Inr (), recs)"
  shows "map_of recs (canonical k) = Some r"
  using h
proof (rule holds_record_shape)
  fix ls
  assume "holds_lines k r ls" "\<not> jl_open j \<and> jl_lines j = ls \<or> (\<exists>l. jl_lines j = ls @ [l] \<and> harmless k l)"
  with ld holds_lines_snoc [of k r ls] show ?thesis by (auto simp: holds_lines_def)
qed

lemma holds_record_append:
  assumes h: "holds_record k r f" and f: "f = Some j" and ld: "load_lines 1 (jl_lines j) [] = (Inr (), recs)"
    and u: "ir_key u \<noteq> k"
  shows "holds_record k r (append_effect out (PDict (record_to_dict u)) f)"
proof -
  have hl: "harmless k Malformed" "harmless k (Json (PDict (record_to_dict u)))"
    using u by (auto simp: harmless_def rec_line_def)
  obtain ls where ls: "holds_lines k r ls"
    and sh: "\<not> jl_open j \<and> jl_lines j = ls \<or> (\<exists>l. jl_lines j = ls @ [l] \<and> harmless k l)"
    using h f by (auto elim: holds_record_shape)
  have all: "holds_lines k r (jl_lines j)" using ld holds_record_loaded [of k r j] h f by (simp add: holds_lines_def)
  have closed: "holds_record k r (Some \<lparr>jl_lines = jl_lines j @ [l], jl_open = b\<rparr>)" if "harmless k l" for l b
    using all that by (auto simp: holds_record_def file_lines_def)
  have opened: "holds_record k r (Some \<lparr>jl_lines = butlast (jl_lines j) @ [Malformed], jl_open = b\<rparr>)"
    if "jl_open j" for b
    using that sh ls hl(1) by (auto simp: holds_record_def file_lines_def)
  have "holds_record k r (add_text l nl f)" if "harmless k l" for l nl
  proof (cases "jl_open j")
    case True
    then have "last (jl_lines j) \<noteq> Blank" "jl_lines j \<noteq> []" using sh by (auto simp: harmless_def rec_line_def)
    with True opened show ?thesis by (simp add: add_text_def f)
  next
    case False
    with closed [OF that] show ?thesis by (simp add: add_text_def f)
  qed
  with hl h f show ?thesis by (cases out) (simp_all add: create_file_def)
qed

lemma reload_holds:
  assumes "holds_record k r (js_file js)" "store_reload ok js = (Inr (), js')"
  obtains j recs where "js_file js = Some j" "load_lines 1 (jl_lines j) [] = (Inr (), recs)"
    "js' = js\<lparr>js_records := recs\<rparr>" "map_of recs (canonical k) = Some r" "sound_index recs"
proof -
  have "js_file js \<noteq> None"
    using assms(1) by (cases "js_file js") (auto simp: holds_record_def file_lines_def dest: holds_lines_mem)
  then obtain j where j: "js_file js = Some j" by blast
  with assms(2) obtain recs where recs: "load_lines 1 (jl_lines j) [] = (Inr (), recs)" "js' = js\<lparr>js_records := recs\<rparr>"
    by (auto simp: store_reload_def split: if_splits prod.splits)
  moreover have "map_of recs (canonical k) = Some r" using assms(1) j recs(1) by (auto dest: holds_record_loaded)
  moreover have "sound_index recs" using load_lines_sound [OF recs(1)] by (simp add: sound_index_def)
  ultimately show thesis using that j by blast
qed

text \<open>The common shape of the operations: lock, reload, decide.\<close>

lemma locked_reload_cases:
  assumes "with_lock io (bind_op (store_reload b) (\<lambda>_. body)) js = (res, js')"
  obtains (raised) e where "res = Inl e" "js_file js' = js_file js"
  | (ran) js1 where "store_reload b js = (Inr (), js1)" "body js1 = (res, js')"
proof (cases "si_lock io")
  case True
  obtain x js1 where x: "store_reload b js = (x, js1)" by fastforce
  then have "js_file js1 = js_file js" using store_reload_other(1) [of b js] by simp
  with True assms x that show thesis by (cases x) (auto simp: with_lock_def bind_op_def)
qed (use assms that in \<open>auto simp: with_lock_def\<close>)

lemma commit_file: "js_file (snd (commit io u x js)) = append_effect (si_append io) (PDict (record_to_dict u)) (js_file js)"
  by (auto simp: commit_def store_append_def bind_op_def)

text \<open>What a claim or a transition does to the file: nothing, or it appends a record of its own key.\<close>

definition appends :: "record_key \<Rightarrow> append_outcome \<Rightarrow> jsonl option \<Rightarrow> jsonl option \<Rightarrow> bool" where
  "appends k out f f' \<longleftrightarrow> f' = f \<or> (\<exists>u. ir_key u = k \<and> f' = append_effect out (PDict (record_to_dict u)) f)"

lemma commit_appends: "ir_key u = k \<Longrightarrow> appends k (si_append io) (js_file js) (js_file (snd (commit io u x js)))"
  by (auto simp: appends_def commit_file)

lemma appends_same [simp]: "appends k out f f"
  by (simp add: appends_def)

lemma validate_record_same: "validate_record c r = Inr r' \<Longrightarrow> r' = r"
  by (auto simp: validate_record_def split: if_splits)

lemma claim_locked_appends: "appends k (si_append io) (js_file js) (js_file (snd (claim_locked io now now' k ow js)))"
  by (auto simp: claim_locked_def Let_def new_claim_def intro: commit_appends split: option.split sum.split)

lemma transition_locked_appends:
  "appends k (si_append io) (js_file js) (js_file (snd (transition_locked io now k ow target d js)))"
  by (auto simp: transition_locked_def intro: commit_appends split: option.split sum.split)

text \<open>A terminal record answers both.\<close>

lemma claim_locked_terminal:
  assumes "map_of (js_records js) (canonical k) = Some r" "ir_status r \<in> {R_COMPLETED, R_FAILED}"
  shows "claim_locked io now now' k ow js =
    (map_sum id (\<lambda>_. terminal_claim r) (validate_record (canonical k) r), js)"
  using assms
  by (auto simp: claim_locked_def terminal_claim_def Let_def dest: validate_record_same split: sum.split)

lemma transition_locked_terminal:
  assumes "map_of (js_records js) (canonical k) = Some r" "ir_status r \<in> {R_COMPLETED, R_FAILED}"
  shows "\<exists>e. transition_locked io now k ow target d js = (Inl e, js)"
  using assms
  by (auto simp: transition_locked_def dest: validate_record_same split: sum.split)

section \<open>Every operation keeps it\<close>

lemma appending_op:
  assumes h: "holds_record k r (js_file js)"
    and wl: "with_lock io (bind_op (store_reload (si_read io)) (\<lambda>_. body)) js = (res, js')"
    and app: "\<And>js1. appends k' (si_append io) (js_file js1) (js_file (snd (body js1)))"
    and own: "\<And>js1. k' = k \<Longrightarrow> map_of (js_records js1) (canonical k) = Some r \<Longrightarrow>
      (\<exists>e. body js1 = (Inl e, js1)) \<or> (\<exists>x. body js1 = (Inr x, js1) \<and> P x)"
  shows "holds_record k r (js_file js') \<and> (k' = k \<longrightarrow> (case res of Inl e \<Rightarrow> True | Inr x \<Rightarrow> P x))"
  using wl
proof (cases rule: locked_reload_cases)
  case (raised e)
  with h show ?thesis by simp
next
  case (ran js1)
  from h ran(1) obtain j recs where j: "js_file js = Some j" "load_lines 1 (jl_lines j) [] = (Inr (), recs)"
    "js1 = js\<lparr>js_records := recs\<rparr>" "map_of recs (canonical k) = Some r"
    by (rule reload_holds)
  show ?thesis
  proof (cases "k' = k")
    case True
    with own [of js1] j(3,4) ran(2) h show ?thesis by auto
  next
    case False
    with app [of js1] ran(2) j(3) h holds_record_append [OF h j(1,2)] show ?thesis by (auto simp: appends_def)
  qed
qed

lemma sound_index_keys:
  assumes "sound_index recs"
  shows "distinct (map ir_key (sort_key f (map snd (filter P recs))))"
proof -
  let ?xs = "filter P recs"
  have "map fst ?xs = map canonical (map ir_key (map snd ?xs))"
    using assms by (auto simp: sound_index_def)
  moreover have "distinct (map fst ?xs)" using assms by (simp add: sound_index_def distinct_map_filter)
  ultimately have "distinct (map ir_key (map snd ?xs))" by (metis distinct_map)
  then have "distinct (map snd ?xs) \<and> inj_on ir_key (set (map snd ?xs))" by (simp only: distinct_map)
  then show ?thesis by (simp add: distinct_map)
qed

lemma rewrite_holds:
  assumes h: "holds_record k r (js_file js)" and keep: "keep r"
    and wl: "with_lock io (rewrite_locked io keep) js = (res, js')"
  shows "holds_record k r (js_file js')"
  using wl unfolding rewrite_locked_def
proof (cases rule: locked_reload_cases)
  case (raised e)
  with h show ?thesis by simp
next
  case (ran js1)
  from h ran(1) obtain j recs where j: "js_file js = Some j" "js1 = js\<lparr>js_records := recs\<rparr>"
    "map_of recs (canonical k) = Some r" "sound_index recs"
    by (rule reload_holds)
  let ?xs = "sort_key (\<lambda>r. canonical (ir_key r)) (map snd (filter (\<lambda>(c, r). keep r) recs))"
  let ?f = "Some \<lparr>jl_lines = map rec_line ?xs, jl_open = False\<rparr>"
  have "js_file js' = js_file js \<or> js_file js' = ?f"
    using ran(2) j(2)
    by (cases "si_snapshot io"; cases "si_replace io")
      (auto simp: write_snapshot_def replace_snapshot_def rec_line_def [abs_def] dest!: arg_cong [of _ _ snd])
  moreover have "holds_record k r ?f"
  proof -
    have s: "distinct (map fst recs)" "\<forall>(c, x) \<in> set recs. c = canonical (ir_key x) \<and> loadable x"
      using j(4) by (simp_all add: sound_index_def)
    have d: "distinct (map ir_key ?xs)" by (rule sound_index_keys [OF j(4)])
    have l: "\<forall>x \<in> set ?xs. loadable x" 
    proof
      fix x
      assume "x \<in> set ?xs"
      then have "x \<in> snd ` set recs" by (simp only: set_sort set_map set_filter) blast
      then obtain c where "(c, x) \<in> set recs" by (auto simp: image_iff)
      with s(2) show "loadable x" by blast
    qed
    have "(canonical k, r) \<in> set recs" using j(3) by (rule map_of_SomeD)
    then have "r \<in> snd ` set (filter (\<lambda>(c, r). keep r) recs)" using keep by (force intro: rev_image_eqI)
    then have m: "r \<in> set ?xs" by (simp only: set_sort set_map)
    have "canonical k = canonical (ir_key r)" using s(2) \<open>(canonical k, r) \<in> set recs\<close> by blast
    then have mk: "ir_key r = k" by simp
    obtain recs' where r': "load_lines 1 (map rec_line ?xs) [] = (Inr (), recs')"
      "\<forall>x \<in> set ?xs. map_of recs' (canonical (ir_key x)) = Some x"
      using load_lines_distinct [OF l d, of "[]" 1] by auto
    then have "holds_lines k r (map rec_line ?xs)" using m mk unfolding holds_lines_def by blast
    then show ?thesis by (auto simp: holds_record_def closed_file_def file_lines_def)
  qed
  ultimately show ?thesis using h by auto
qed

lemma corrupt_index_snoc:
  assumes "load_lines 1 ls [] = (Inr (), recs)"
  shows "corrupt_index (ls @ [l]) = (if corrupt_line (1 + length ls, l) then Some (length ls) else None)"
    and "corrupt_index ls = None"
  using load_lines_not_corrupt [OF assms] by (simp_all add: corrupt_index_def enumerate_append_eq find_append)

lemma reload_after_file:
  "js_file (snd (bind_op (store_reload b) (\<lambda>_ js. (Inr x, js)) js)) = js_file js"
  using store_reload_other(1) [of b js] by (cases "store_reload b js") (auto simp: bind_op_def split: sum.split)

lemma repair_tail_file:
  "js_file (snd (bind_op (truncate_file out i) (\<lambda>_. bind_op (store_reload b) (\<lambda>_ js. (Inr x, js))) js)) \<in>
     {js_file js, map_option (\<lambda>f. \<lparr>jl_lines = take i (jl_lines f), jl_open = False\<rparr>) (js_file js)}"
proof -
  have "snd (truncate_file out i js) = js \<or>
    snd (truncate_file out i js) = js\<lparr>js_file := map_option (\<lambda>f. \<lparr>jl_lines = take i (jl_lines f), jl_open = False\<rparr>) (js_file js)\<rparr>"
    by (cases out) (simp_all add: truncate_file_def Let_def)
  then show ?thesis
    by (cases "truncate_file out i js"; cases "fst (truncate_file out i js)")
      (auto simp: bind_op_def [of "truncate_file out i"] reload_after_file)
qed

lemma repair_file:
  assumes "js_file js = Some j"
  shows "js_file (snd (repair io js)) = Some j \<or>
    (\<exists>i. corrupt_index (jl_lines j) = Some i \<and> js_file (snd (repair io js)) = Some \<lparr>jl_lines = take i (jl_lines j), jl_open = False\<rparr>)"
proof (cases "corrupt_index (jl_lines j)")
  case None
  with assms show ?thesis by (simp add: repair_def with_lock_def)
next
  case (Some i)
  with assms repair_tail_file [of "si_truncate io" i "si_reread io" True js] show ?thesis
    by (auto simp: repair_def with_lock_def)
qed

lemma repair_holds:
  assumes "holds_record k r (js_file js)"
  shows "holds_record k r (js_file (snd (repair io js)))"
proof -
  have "js_file js \<noteq> None"
    using assms(1) by (cases "js_file js") (auto simp: holds_record_def file_lines_def dest: holds_lines_mem)
  then obtain j where j: "js_file js = Some j" by blast
  with assms have h: "holds_record k r (Some j)" by simp
  from holds_record_shape [OF h] obtain ls where ls: "holds_lines k r ls"
    and sh: "\<not> jl_open j \<and> jl_lines j = ls \<or> (\<exists>l. jl_lines j = ls @ [l] \<and> harmless k l)" .
  then obtain recs where ld: "load_lines 1 ls [] = (Inr (), recs)" by (auto simp: holds_lines_def)
  have cut: "holds_record k r (Some \<lparr>jl_lines = ls, jl_open = False\<rparr>)"
    using ls by (auto simp: holds_record_def closed_file_def file_lines_def)
  have "take i (jl_lines j) = ls" if "corrupt_index (jl_lines j) = Some i" for i
    using that sh corrupt_index_snoc [OF ld] by (auto split: if_splits)
  with repair_file [OF j, of io] cut h j show ?thesis by auto
qed

text \<open>Reading operations: they change no file, and they see the record.\<close>

lemma reading_op:
  assumes h: "holds_record k r (js_file js)"
    and wl: "with_lock io (bind_op (store_reload (si_read io)) (\<lambda>_. body)) js = (res, js')"
    and same: "\<And>js1. snd (body js1) = js1"
    and own: "\<And>js1. map_of (js_records js1) (canonical k) = Some r \<Longrightarrow> sound_index (js_records js1) \<Longrightarrow>
      (case fst (body js1) of Inl e \<Rightarrow> True | Inr x \<Rightarrow> P x)"
  shows "holds_record k r (js_file js') \<and> (case res of Inl e \<Rightarrow> True | Inr x \<Rightarrow> P x)"
  using wl
proof (cases rule: locked_reload_cases)
  case (raised e)
  with h show ?thesis by simp
next
  case (ran js1)
  from h ran(1) obtain recs where j: "js1 = js\<lparr>js_records := recs\<rparr>"
    "map_of recs (canonical k) = Some r" "sound_index recs"
    by (rule reload_holds)
  with own [of js1] same [of js1] ran(2) h show ?thesis by simp
qed

lemma all_records_update:
  "sound_index recs \<Longrightarrow>
     map_of (fold (\<lambda>(c, r) d. AList.update (ir_key r) r d) recs d) k =
       (case map_of recs (canonical k) of Some r \<Rightarrow> Some r | None \<Rightarrow> map_of d k)"
proof (induction recs arbitrary: d)
  case (Cons cr recs)
  obtain c r where cr: "cr = (c, r)" by fastforce
  with Cons.prems have s: "sound_index recs" "c = canonical (ir_key r)" "map_of recs c = None"
    by (auto simp: sound_index_def map_of_eq_None_iff)
  with Cons.IH [OF s(1), of "AList.update (ir_key r) r d"] cr show ?case
    by (cases "ir_key r = k") (auto simp: update_conv split: option.split)
qed simp

lemma validated_terminal:
  assumes "ir_status r \<in> {R_COMPLETED, R_FAILED}"
  shows "present_lease ttl now r = r"
  using assms by (auto simp: present_lease_def)

lemma run_op_holds:
  assumes h: "holds_record k r (js_file js)" and t: "ir_status r \<in> {R_COMPLETED, R_FAILED}"
    and np: "\<not> prunes op r" and run: "run_op op js = (ans, js')"
  shows "holds_record k r (js_file js') \<and> agrees k r op ans"
proof (cases op)
  case (OpClaim ctx k' owner)
  obtain io now now' where ctx: "ctx = (io, now, now')" by (cases ctx) auto
  show ?thesis
  proof (cases "validate_owner_id owner")
    case (Inl e)
    with OpClaim ctx run h show ?thesis by (auto simp: jsonl_claim_def)
  next
    case (Inr ow)
    obtain res where res: "ans = ClaimAnswer res" "jsonl_claim ctx k' owner js = (res, js')"
      using run OpClaim by (cases "jsonl_claim ctx k' owner js") auto
    then have "with_lock io (bind_op (store_reload (si_read io)) (\<lambda>_. claim_locked io now now' k' ow)) js = (res, js')"
      using Inr ctx by (simp add: jsonl_claim_def)
    from appending_op [OF h this claim_locked_appends, where P = "\<lambda>cr. cr = terminal_claim r"]
    have "holds_record k r (js_file js') \<and> (k' = k \<longrightarrow> (case res of Inl e \<Rightarrow> True | Inr x \<Rightarrow> x = terminal_claim r))"
      using claim_locked_terminal [OF _ t] by (cases "validate_record (canonical k) r") auto
    with OpClaim res(1) show ?thesis by (cases res) auto
  qed
next
  case (OpComplete ctx k' owner d)
  obtain io now now' where ctx: "ctx = (io, now, now')" by (cases ctx) auto
  obtain res where res: "ans = TransitionAnswer res" "jsonl_complete ctx k' owner d js = (res, js')"
    using run OpComplete by (cases "jsonl_complete ctx k' owner d js") auto
  then have "with_lock io (bind_op (store_reload (si_read io))
      (\<lambda>_. transition_locked io now k' owner R_COMPLETED d)) js = (res, js')"
    using ctx by (simp add: jsonl_complete_def jsonl_transition_def)
  from appending_op [OF h this transition_locked_appends, where P = "\<lambda>_. False"]
  have "holds_record k r (js_file js') \<and> (k' = k \<longrightarrow> (case res of Inl e \<Rightarrow> True | Inr x \<Rightarrow> False))"
    using transition_locked_terminal [OF _ t] by blast
  with OpComplete res(1) show ?thesis by (cases res) auto
next
  case (OpFail ctx k' owner b d)
  obtain io now now' where ctx: "ctx = (io, now, now')" by (cases ctx) auto
  obtain res where res: "ans = TransitionAnswer res" "jsonl_fail ctx k' owner b d js = (res, js')"
    using run OpFail by (cases "jsonl_fail ctx k' owner b d js") auto
  then have "with_lock io (bind_op (store_reload (si_read io))
      (\<lambda>_. transition_locked io now k' owner (if b then R_RECOVERABLE else R_FAILED) d)) js = (res, js')"
    using ctx by (simp add: jsonl_fail_def jsonl_transition_def)
  from appending_op [OF h this transition_locked_appends, where P = "\<lambda>_. False"]
  have "holds_record k r (js_file js') \<and> (k' = k \<longrightarrow> (case res of Inl e \<Rightarrow> True | Inr x \<Rightarrow> False))"
    using transition_locked_terminal [OF _ t] by blast
  with OpFail res(1) show ?thesis by (cases res) auto
next
  case (OpGet io now k')
  obtain res where res: "ans = GetAnswer res" "jsonl_get io now k' js = (res, js')"
    using run OpGet by (cases "jsonl_get io now k' js") auto
  note wl = res(2) [unfolded jsonl_get_def]
  have "holds_record k r (js_file js') \<and> (case res of Inl e \<Rightarrow> True | Inr x \<Rightarrow> k' \<noteq> k \<or> x = Some r)"
    using h wl
    by (rule reading_op)
      (auto simp: validated_terminal [OF t] dest: validate_record_same split: option.split sum.split)
  with OpGet res(1) show ?thesis by (cases res) auto
next
  case (OpAll io)
  obtain res where res: "ans = AllAnswer res" "jsonl_get_all_records io js = (res, js')"
    using run OpAll by (cases "jsonl_get_all_records io js") auto
  note wl = res(2) [unfolded jsonl_get_all_records_def]
  have "holds_record k r (js_file js') \<and> (case res of Inl e \<Rightarrow> True | Inr x \<Rightarrow> map_of x k = Some r)"
    using h wl by (rule reading_op) (auto simp: all_records_update)
  with OpAll res(1) show ?thesis by (cases res) auto
next
  case (OpCompact io)
  then obtain res where "ans = RewriteAnswer res" "with_lock io (rewrite_locked io (\<lambda>_. True)) js = (res, js')"
    using run by (cases "compact io js") (auto simp: compact_def)
  with OpCompact rewrite_holds [OF h, of "\<lambda>_. True"] show ?thesis by simp
next
  case (OpPrune io now age)
  obtain res where res: "ans = RewriteAnswer res" "prune io now age js = (res, js')"
    using run OpPrune by (cases "prune io now age js") auto
  show ?thesis
  proof (cases "validate_max_age age")
    case (Inl e)
    with OpPrune res h show ?thesis by (auto simp: prune_def)
  next
    case (Inr u)
    with OpPrune res np rewrite_holds [OF h, of "\<lambda>x. \<not> prunable age now x" io res js'] show ?thesis
      by (simp add: prune_def)
  qed
next
  case (OpRepair io)
  with run repair_holds [OF h, of io] show ?thesis by (cases "repair io js") auto
qed

lemma run_ops_holds:
  assumes "holds_record k r (js_file js)" "ir_status r \<in> {R_COMPLETED, R_FAILED}"
    and "\<forall>op \<in> set ops. \<not> prunes op r" "run_ops ops js = (answers, js')"
  shows "holds_record k r (js_file js') \<and> (\<forall>(op, ans) \<in> set (zip ops answers). agrees k r op ans) \<and>
    length answers = length ops"
  using assms
proof (induction ops arbitrary: js answers)
  case (Cons op ops)
  obtain ans js1 where op: "run_op op js = (ans, js1)" by fastforce
  obtain as where as: "run_ops ops js1 = (as, js')" "answers = ans # as"
    using Cons.prems(4) op by (auto split: prod.splits)
  from run_op_holds [OF Cons.prems(1,2) _ op] Cons.prems(3)
  have "holds_record k r (js_file js1)" "agrees k r op ans" by simp_all
  with Cons.IH [OF _ Cons.prems(2) _ as(1)] Cons.prems(3) as(2) show ?case by simp
qed simp

section \<open>The record in the file\<close>

lemma key_from_dict_any: "key_from_dict kd n = Inr k \<Longrightarrow> key_from_dict kd m = Inr k"
  by (simp add: key_from_dict_def split: sum.splits)

lemma line_record_loaded:
  assumes "record_from_dict v n = Inr r"
  shows "line_record (Json v) = Some r"
proof -
  from assms obtain d kd k where d: "v = PDict d" "missing_record_fields d = []" "dget d ''key'' PNone = PDict kd"
    "key_from_dict kd n = Inr k" "fields_from_dict d k = Inr r"
    by (auto simp: record_from_dict_def bind_result_def split: pyval.splits if_splits sum.splits)
  then have "record_from_dict v 0 = Inr r"
    using key_from_dict_any [OF d(4), of 0] by (simp add: record_from_dict_def)
  then show ?thesis by (simp add: line_record_def)
qed

lemma line_record_blank: "line_record Blank = None"
  by (simp add: line_record_def)

lemma load_lines_prefix:
  "load_lines n (xs @ ys) recs = (Inr (), recs') \<Longrightarrow> \<exists>recs0. load_lines n xs recs = (Inr (), recs0)"
  by (induction n xs recs rule: load_lines.induct) (auto split: sum.splits)

lemma map_filter_snoc:
  "List.map_filter f (xs @ [x]) = List.map_filter f xs @ (case f x of None \<Rightarrow> [] | Some y \<Rightarrow> [y])"
  by (induction xs) (auto simp: List.map_filter_simps split: option.split)

lemma loaded_latest:
  "load_lines 1 ls [] = (Inr (), recs) \<Longrightarrow> map_of recs (canonical k) = latest (List.map_filter line_record ls) k"
proof (induction ls arbitrary: recs rule: rev_induct)
  case Nil
  then show ?case by (simp add: List.map_filter_simps)
next
  case (snoc l ls)
  obtain recs0 where r0: "load_lines 1 ls [] = (Inr (), recs0)" using load_lines_prefix [OF snoc.prems] by blast
  with snoc.prems have "load_line (1 + length ls) l recs0 = Inr recs" by (simp add: load_lines_snoc)
  from load_line_Inr [OF this] snoc.IH [OF r0] show ?case
    by (auto simp: map_filter_snoc line_record_loaded line_record_blank update_conv)
qed

lemma holds_record_view:
  assumes "holds_record k r (js_file js)"
  shows "js_view js k = Some r"
proof -
  from assms obtain ls where ls: "holds_lines k r ls"
    "file_lines (js_file js) = ls \<or> (\<exists>l. file_lines (js_file js) = ls @ [l] \<and> harmless k l)"
    by (auto simp: holds_record_def)
  have v: "latest (List.map_filter line_record ls) k = Some r"
    using ls(1) loaded_latest [of ls _ k] unfolding holds_lines_def by metis
  have "latest (List.map_filter line_record (ls @ [l])) k = Some r" if "harmless k l" for l
  proof (cases "line_record l")
    case None
    with v show ?thesis by (simp add: map_filter_snoc)
  next
    case (Some x)
    with that have "ir_key x \<noteq> k"
      using record_line_key [of _ 0 x] by (auto simp: harmless_def line_record_def rec_line_def split: sum.splits)
    with v Some show ?thesis by (simp add: map_filter_snoc)
  qed
  with v ls(2) show ?thesis by (auto simp: js_view_def file_records_def)
qed

lemma valid_holds_record:
  assumes "js_valid js" "js_view js k = Some r"
  shows "holds_record k r (js_file js)"
proof -
  obtain rs where rs: "closed_file (js_file js)" "file_lines (js_file js) = map rec_line rs" "wf_history rs"
    using assms(1) by (auto simp: js_valid_iff)
  have "js_view js = latest rs" using js_valid_view [OF rs refl] by simp
  with assms(2) load_lines_history [of "[]" rs 1] rs(3) have "holds_lines k r (map rec_line rs)"
    by (auto simp: holds_lines_def index_records_def map_of_index_records [unfolded index_records_def])
  with rs show ?thesis by (auto simp: holds_record_def)
qed

text \<open>A claim of its key reads the file and changes nothing, whatever the context and the owner.\<close>

lemma terminal_claim_reads:
  assumes h: "holds_record k r (js_file js)" and t: "ir_status r \<in> {R_COMPLETED, R_FAILED}"
    and run: "jsonl_claim ctx k owner js = (res, js')"
  shows "js_file js' = js_file js \<and> (\<forall>cr. res = Inr cr \<longrightarrow> cr = terminal_claim r)"
proof -
  obtain io now now' where ctx: "ctx = (io, now, now')" by (cases ctx) auto
  show ?thesis
  proof (cases "validate_owner_id owner")
    case (Inl e)
    with ctx run show ?thesis by (auto simp: jsonl_claim_def)
  next
    case (Inr ow)
    then have "with_lock io (bind_op (store_reload (si_read io)) (\<lambda>_. claim_locked io now now' k ow)) js = (res, js')"
      using run ctx by (simp add: jsonl_claim_def)
    then show ?thesis
    proof (cases rule: locked_reload_cases)
      case (ran js1)
      from h ran(1) obtain recs where "js1 = js\<lparr>js_records := recs\<rparr>" "map_of recs (canonical k) = Some r"
        by (rule reload_holds)
      with claim_locked_terminal [of js1 k r, OF _ t] ran(2) show ?thesis
        by (cases "validate_record (canonical k) r") auto
    qed simp
  qed
qed

text \<open>On a file that loads, a claim with working lock and read is answered with the record.\<close>

lemma terminal_claim_answered:
  assumes "js_valid js" "js_view js k = Some r" "ir_status r \<in> {R_COMPLETED, R_FAILED}"
    and "si_lock io" "si_read io" "ow \<noteq> []"
  shows "fst (jsonl_claim (io, now, now') k (PStr ow) js) = Inr (terminal_claim r)"
proof -
  obtain rs where rs: "closed_file (js_file js)" "file_lines (js_file js) = map rec_line rs" "wf_history rs"
    using assms(1) by (auto simp: js_valid_iff)
  have v: "latest rs k = Some r" using js_valid_view [OF rs refl] assms(2) by simp
  have "map_of (js_records (js\<lparr>js_records := index_records rs\<rparr>)) (canonical k) = Some r"
    using v by (simp add: map_of_index_records)
  from claim_locked_terminal [OF this assms(3), of io now now' ow] validate_record_latest [OF rs(3) v]
    store_reload_valid [OF rs] assms(4-6)
  show ?thesis by (simp add: jsonl_claim_def with_lock_def validate_owner_id_def)
qed

end
