(* ===== verification/Idempotency_Properties.thy ===== *)
theory Idempotency_Properties
  imports Store_Traces
begin

text \<open>
  What the idempotency store guarantees to its users, over arbitrary interleavings of calls by any
  number of workers and processes: each call is one atomic step on the shared file, because it
  holds the store lock and reloads first. The facts come from the interpretation \<open>js\<close> of the
  protocol locale.
\<close>

section \<open>Sequences of calls on the store file\<close>

type_synonym jctx = "store_io \<times> pyfloat \<times> pyfloat"

fun jsonl_call :: "jctx idem_call \<Rightarrow> jsonl_store \<Rightarrow> call_result \<times> jsonl_store" where
  "jsonl_call (Claim c k ow) s = map_prod ClaimDone id (jsonl_claim c k (PStr ow) s)"
| "jsonl_call (Complete c k ow d) s = map_prod TransitionDone id (jsonl_complete c k (PStr ow) d s)"
| "jsonl_call (Fail c k ow b d) s = map_prod TransitionDone id (jsonl_fail c k (PStr ow) b d s)"

fun jsonl_calls :: "jctx idem_call list \<Rightarrow> jsonl_store \<Rightarrow> call_result list \<times> jsonl_store" where
  "jsonl_calls [] s = ([], s)"
| "jsonl_calls (c # cs) s =
     (let (r, s1) = jsonl_call c s; (rs, s2) = jsonl_calls cs s1 in (r # rs, s2))"

fun jsonl_calls_ok :: "jctx idem_call list \<Rightarrow> jsonl_store \<Rightarrow> bool" where
  "jsonl_calls_ok [] s \<longleftrightarrow> True"
| "jsonl_calls_ok (c # cs) s \<longleftrightarrow>
     js_good (call_ctx c) s \<and> call_args_ok c \<and> jsonl_calls_ok cs (snd (jsonl_call c s))"

lemma jsonl_call_js: "jsonl_call c s = js.call_step c s"
  by (cases c) simp_all





section \<open>The same calls on the reference store\<close>

fun mem_call :: "jctx idem_call \<Rightarrow> mem_store \<Rightarrow> call_result \<times> mem_store" where
  "mem_call (Claim c k ow) s = map_prod ClaimDone id (mem_claim (fst (snd c)) k (PStr ow) s)"
| "mem_call (Complete c k ow d) s = map_prod TransitionDone id (mem_complete (fst (snd c)) k (PStr ow) d s)"
| "mem_call (Fail c k ow b d) s = map_prod TransitionDone id (mem_fail (fst (snd c)) k (PStr ow) b d s)"

fun mem_calls :: "jctx idem_call list \<Rightarrow> mem_store \<Rightarrow> call_result list \<times> mem_store" where
  "mem_calls [] s = ([], s)"
| "mem_calls (c # cs) s =
     (let (r, s1) = mem_call c s; (rs, s2) = mem_calls cs s1 in (r # rs, s2))"

definition one_reading :: "jctx \<Rightarrow> bool" where
  "one_reading c \<longleftrightarrow> js_fine c \<and> fst (snd c) = snd (snd c)"

definition same_store :: "jsonl_store \<Rightarrow> mem_store \<Rightarrow> bool" where
  "same_store js ms \<longleftrightarrow>
     js_valid js \<and> mem_valid ms \<and> js_view js = mem_view ms \<and> js_ttl js = ms_ttl ms"

lemma mem_call_spec:
  assumes "mem_valid ms" "call_args_ok c"
  shows "fst (mem_call c ms) = fst (spec_call (ms_ttl ms) (\<lambda>c. (fst (snd c), fst (snd c))) c (mem_view ms)) \<and>
    mem_view (snd (mem_call c ms)) =
      snd (spec_call (ms_ttl ms) (\<lambda>c. (fst (snd c), fst (snd c))) c (mem_view ms)) \<and>
    mem_valid (snd (mem_call c ms)) \<and> ms_ttl (snd (mem_call c ms)) = ms_ttl ms"
proof -
  let ?c = "map_idem_call (\<lambda>x. fst (snd x)) c"
  have step: "mem_call c ms = mem.call_step ?c ms" by (cases c) simp_all
  have ok: "call_args_ok ?c" using assms(2) by (cases c) simp_all
  have "spec_call (ms_ttl ms) mem_clock ?c (mem_view ms) =
      spec_call (ms_ttl ms) (\<lambda>c. (fst (snd c), fst (snd c))) c (mem_view ms)"
    by (cases c) (simp_all add: spec_call_def mem_clock_def)
  then show ?thesis
    using mem.call_step_fine [of ms ?c] assms(1) ok by (simp add: step mem_good_def mem_fine_def)
qed

lemma same_store_step:
  assumes "same_store js ms" "js_good (call_ctx c) js" "call_args_ok c" "one_reading (call_ctx c)"
  shows "fst (jsonl_call c js) = fst (mem_call c ms)"
    and "same_store (snd (jsonl_call c js)) (snd (mem_call c ms))"
proof -
  have "spec_call ttl js_clock c m = spec_call ttl (\<lambda>c. (fst (snd c), fst (snd c))) c m" for ttl m
    using assms(4) by (cases c) (auto simp: spec_call_def js_clock_def one_reading_def)
  then show "fst (jsonl_call c js) = fst (mem_call c ms)"
    "same_store (snd (jsonl_call c js)) (snd (mem_call c ms))"
    using js.call_step_fine [of js c] mem_call_spec [of ms c] assms
    by (auto simp: same_store_def one_reading_def jsonl_call_js)
qed

section \<open>Calls whose file operations succeed\<close>

lemma jsonl_claim_fine:
  assumes "js_valid js" "js_good (si_fine, now, now') js" "wf_key k" "ow \<noteq> []"
  shows "fst (jsonl_claim (si_fine, now, now') k (PStr ow) js) =
      Inr (fst (spec_claim (js_ttl js) now now' k ow (js_view js))) \<and>
    js_view (snd (jsonl_claim (si_fine, now, now') k (PStr ow) js)) =
      snd (spec_claim (js_ttl js) now now' k ow (js_view js)) \<and>
    js_valid (snd (jsonl_claim (si_fine, now, now') k (PStr ow) js))"
  using js.call_step_fine [of js "Claim (si_fine, now, now') k ow"] assms
  by (cases "jsonl_claim (si_fine, now, now') k (PStr ow) js")
    (simp add: spec_call_def js_clock_def js_fine_def si_fine_def)

lemma jsonl_complete_fine:
  assumes "js_valid js" "js_good (si_fine, now, now') js" "wf_key k" "ow \<noteq> []" "d = PNone \<or> is_dict d"
  shows "fst (jsonl_complete (si_fine, now, now') k (PStr ow) d js) =
      fst (spec_transition now k ow R_COMPLETED d (js_view js)) \<and>
    js_view (snd (jsonl_complete (si_fine, now, now') k (PStr ow) d js)) =
      snd (spec_transition now k ow R_COMPLETED d (js_view js)) \<and>
    js_valid (snd (jsonl_complete (si_fine, now, now') k (PStr ow) d js))"
  using js.call_step_fine [of js "Complete (si_fine, now, now') k ow d"] assms
  by (cases "jsonl_complete (si_fine, now, now') k (PStr ow) d js")
    (simp add: spec_call_def js_clock_def js_fine_def si_fine_def)

section \<open>A concrete history\<close>

text \<open>
  Worker A claims the key of a tool call on an empty store at time 100 and completes it at time 101
  with the serialised result of the tool.
\<close>

definition ex_key :: record_key where
  "ex_key = \<lparr>operation_key = ''tool:t'', idempotency_key = ''run_1''\<rparr>"

definition ex_result :: tool_result where
  "ex_result = \<lparr>tr_call_id = PStr ''c1'', tr_run_id = PStr ''run'', tr_tool_name = PStr ''t'', tr_status = T_SUCCESS,
     tr_data = PStr ''ok'', tr_error = None, tr_duration_ms = PInt 5, tr_logs = PList []\<rparr>"

definition ex_data :: pyval where
  "ex_data = PDict (tool_result_to_dict ex_result)"

definition ex_empty :: jsonl_store where
  "ex_empty = \<lparr>js_file = None, js_ttl = PInt 60, js_records = []\<rparr>"

definition at_time :: "int \<Rightarrow> jctx" where
  "at_time t = (si_fine, Fin (of_int t), Fin (of_int t))"

definition ex_claimed :: jsonl_store where
  "ex_claimed = snd (jsonl_claim (at_time 100) ex_key (PStr ''A'') ex_empty)"

definition ex_record :: idem_record where
  "ex_record = claim_record ex_key ''A'' 1 (Fin 100) (Fin 100)"

definition ex_completed :: jsonl_store where
  "ex_completed = snd (jsonl_complete (at_time 101) ex_key (PStr ''A'') ex_data ex_claimed)"

definition ex_done :: idem_record where
  "ex_done = ex_record\<lparr>ir_status := R_COMPLETED, ir_updated_at := Fin 101, ir_data := ex_data\<rparr>"

lemmas store_eval =
  at_time_def jsonl_claim_def jsonl_complete_def jsonl_transition_def transition_locked_def
  validate_owner_id_def with_lock_def si_fine_def claim_locked_def commit_def store_append_def
  add_text_def new_claim_claim_record rec_line_def js_good_def js_clock_def untorn_def

lemma ex_data_dict [simp]: "is_dict ex_data" "ex_data \<noteq> PNone"
  by (simp_all add: ex_data_def)

lemma ex_key_wf [simp]: "wf_key ex_key"
  by (simp add: wf_key_def ex_key_def)

lemma ex_record_fields [simp]:
  "ir_key ex_record = ex_key" "ir_status ex_record = R_IN_PROGRESS" "ir_owner_id ex_record = ''A''"
  "ir_created_at ex_record = Fin 100" "ir_updated_at ex_record = Fin 100" "ir_attempt ex_record = 1"
  "ir_data ex_record = PNone" "wf_record ex_record"
  by (simp_all add: ex_record_def claim_record_def wf_record_def)

lemma ex_done_fields [simp]:
  "ir_key ex_done = ex_key" "ir_status ex_done = R_COMPLETED" "ir_updated_at ex_done = Fin 101"
  "ir_created_at ex_done = Fin 100" "wf_record ex_done"
  by (simp_all add: ex_done_def wf_record_def)

lemma file_records_Some:
  "\<forall>r \<in> set rs. wf_record r \<Longrightarrow> file_records (Some \<lparr>jl_lines = map rec_line rs, jl_open = b\<rparr>) = rs"
  by (rule file_records_lines) (simp_all add: file_lines_def)

lemma ex_history: "wf_history [ex_record]" "wf_history [ex_record, ex_done]"
  using wf_history_snoc [of "[]" ex_record] wf_history_snoc [of "[ex_record]" ex_done]
  by (simp_all add: latest_def)

lemma ex_claimed_eq:
  "ex_claimed = \<lparr>js_file = Some \<lparr>jl_lines = map rec_line [ex_record], jl_open = False\<rparr>, js_ttl = PInt 60,
                 js_records = [(canonical ex_key, ex_record)]\<rparr>"
  by (simp add: ex_claimed_def ex_empty_def ex_record_def store_reload_def store_eval)

lemma ex_reload:
  "store_reload True \<lparr>js_file = Some \<lparr>jl_lines = [Json (PDict (record_to_dict ex_record))], jl_open = False\<rparr>,
     js_ttl = t, js_records = recs\<rparr> =
   (Inr (), \<lparr>js_file = Some \<lparr>jl_lines = [Json (PDict (record_to_dict ex_record))], jl_open = False\<rparr>,
     js_ttl = t, js_records = [(canonical ex_key, ex_record)]\<rparr>)"
  by (simp add: store_reload_def load_line_def record_from_to_dict)

lemma ex_validate [simp]: "validate_record (canonical ex_key) ex_record = Inr ex_record"
  by (simp add: validate_record_def)

lemma ex_completed_eq:
  "ex_completed = \<lparr>js_file = Some \<lparr>jl_lines = map rec_line [ex_record, ex_done], jl_open = False\<rparr>,
                   js_ttl = PInt 60, js_records = [(canonical ex_key, ex_done)]\<rparr>"
  by (simp add: ex_completed_def ex_claimed_eq ex_reload store_eval)
    (simp add: ex_done_def ex_record_def claim_record_def)

lemma ex_empty_valid: "js_valid ex_empty"
  by (auto simp: js_valid_iff ex_empty_def closed_file_def file_lines_def intro: exI [of _ "[]"])

lemma ex_claimed_valid: "js_valid ex_claimed" and ex_claimed_view: "js_view ex_claimed = [ex_key \<mapsto> ex_record]"
  using js_valid_view [of "js_file ex_claimed" "[ex_record]" ex_claimed] ex_history latest_snoc [of "[]" ex_record]
  by (simp_all add: ex_claimed_eq closed_file_def file_lines_def)

lemma ex_completed_valid: "js_valid ex_completed" and ex_completed_view: "js_view ex_completed = [ex_key \<mapsto> ex_done]"
  using js_valid_view [of "js_file ex_completed" "[ex_record, ex_done]" ex_completed] ex_history
    latest_snoc [of "[ex_record]" ex_done] latest_snoc [of "[]" ex_record]
  by (simp_all add: ex_completed_eq closed_file_def file_lines_def)

lemma ex_good:
  "js_good (at_time t) ex_empty"
  "100 \<le> t \<Longrightarrow> js_good (at_time t) ex_claimed"
  "101 \<le> t \<Longrightarrow> js_good (at_time t) ex_completed"
  using file_records_Some [of "[ex_record]"] file_records_Some [of "[ex_record, ex_done]"]
    of_int_less_iff [of t "100", where 'a = rat] of_int_less_iff [of t "101", where 'a = rat]
  by (simp_all add: ex_empty_def ex_claimed_eq ex_completed_eq at_time_def js_good_def untorn_def si_fine_def
      file_records_def [of None] file_lines_def List.map_filter_simps)

lemma ex_lease:
  "expired (js_ttl ex_claimed) (Fin 150) ex_record = False" "expired (js_ttl ex_claimed) (Fin 161) ex_record = True"
  by (simp_all add: expired_def ex_claimed_eq fsub_def to_double_numeral)

lemma ex_refused:
  "jsonl_claim (at_time 150) ex_key (PStr ''B'') ex_claimed =
     (Inr \<lparr>cr_status = ALREADY_IN_PROGRESS, cr_record = ex_record\<rparr>, ex_claimed)"
  using ex_lease(1) by (simp add: ex_claimed_eq ex_reload store_eval)

lemma ex_fine [simp]: "js_fine (at_time t)" "one_reading (at_time t)"
  by (simp_all add: one_reading_def js_fine_def at_time_def si_fine_def)

text \<open>
  Traffic on the store with the completed record: a claim by a clock that runs behind, a claim of another key whose
  write is torn, the repair that cuts the torn line off, a compaction and a pruning of records older than 1000 seconds.
\<close>

definition ex_other_key :: record_key where
  "ex_other_key = \<lparr>operation_key = ''tool:t'', idempotency_key = ''run_2''\<rparr>"

definition ex_traffic :: "store_op list" where
  "ex_traffic =
     [OpClaim (at_time 50) ex_key (PStr ''B''),
      OpClaim (si_fine\<lparr>si_append := TornPrefix\<rparr>, Fin 50, Fin 50) ex_other_key (PStr ''B''),
      OpRepair si_fine, OpCompact si_fine, OpPrune si_fine (Fin 500) (PInt 1000)]"

lemma ex_completed_reload: "store_reload True ex_completed = (Inr (), ex_completed)"
  using store_reload_valid [of ex_completed "[ex_record, ex_done]"] ex_history
  by (simp add: ex_completed_eq closed_file_def file_lines_def index_records_def)

lemma ex_traffic_claim: "snd (jsonl_claim (at_time 50) ex_key (PStr ''B'') ex_completed) = ex_completed"
proof -
  have "map_of (js_records ex_completed) (canonical ex_key) = Some ex_done" by (simp add: ex_completed_eq)
  from claim_locked_terminal [OF this] ex_completed_reload show ?thesis
    by (simp add: jsonl_claim_def at_time_def validate_owner_id_def with_lock_def si_fine_def)
qed

lemma ex_traffic_torn:
  "js_file (snd (jsonl_claim (si_fine\<lparr>si_append := TornPrefix\<rparr>, Fin 50, Fin 50) ex_other_key (PStr ''B'') ex_completed)) =
     Some \<lparr>jl_lines = map rec_line [ex_record, ex_done] @ [Malformed], jl_open = True\<rparr>"
proof -
  have "map_of (js_records ex_completed) (canonical ex_other_key) = None"
    by (simp add: ex_completed_eq ex_key_def ex_other_key_def)
  with ex_completed_reload show ?thesis
    by (simp add: jsonl_claim_def validate_owner_id_def with_lock_def si_fine_def claim_locked_def commit_def store_append_def)
      (simp add: ex_completed_eq add_text_def)
qed

lemma ex_traffic_keeps: "\<forall>op \<in> set ex_traffic. \<not> prunes op ex_done"
  by (simp add: ex_traffic_def prunable_def fsub_def to_double_numeral)

lemma ex_traffic_valid: "js_valid (snd (run_ops ex_traffic ex_completed))"
proof -
  let ?torn = "snd (jsonl_claim (si_fine\<lparr>si_append := TornPrefix\<rparr>, Fin 50, Fin 50) ex_other_key (PStr ''B'') ex_completed)"
  have v1: "js_valid (snd (repair si_fine ?torn))"
    using repair_trailing [OF ex_traffic_torn ex_history(2)] by (force simp: corrupt_line_def)
  have rw: "js_valid (snd (with_lock io (rewrite_locked io keep) js))" if "js_valid js" for io keep js
    using rewrite_law [OF that] by (metis prod.collapse)
  have v2: "js_valid (snd (compact si_fine (snd (repair si_fine ?torn))))" using rw [OF v1] by (simp add: compact_def)
  have "js_valid (snd (prune si_fine (Fin 500) (PInt 1000) (snd (compact si_fine (snd (repair si_fine ?torn))))))"
    using rw [OF v2] v2 by (auto simp: prune_def split: sum.split)
  then show ?thesis using ex_traffic_claim by (simp add: ex_traffic_def case_prod_beta Let_def)
qed

section \<open>Properties\<close>

text \<open>
  C1. The JSON-lines store refines the in-memory reference store: started on healthy stores with the same
  records, any sequence of claims, completions and failures by any workers with valid arguments gives
  the same results and the same records, when every file operation succeeds, both clock readings of a
  call are the same, and no reading is before a stamp already recorded.
\<close>

theorem jsonl_refines_memory:
  assumes "same_store js ms" "jsonl_calls_ok cs js" "\<forall>c \<in> set cs. one_reading (call_ctx c)"
  shows "fst (jsonl_calls cs js) = fst (mem_calls cs ms) \<and>
         same_store (snd (jsonl_calls cs js)) (snd (mem_calls cs ms))"
  using assms
proof (induction cs arbitrary: js ms)
  case (Cons c cs)
  note st = same_store_step [of js ms c]
  have "fst (jsonl_calls cs (snd (jsonl_call c js))) = fst (mem_calls cs (snd (mem_call c ms))) \<and>
      same_store (snd (jsonl_calls cs (snd (jsonl_call c js)))) (snd (mem_calls cs (snd (mem_call c ms))))"
    using Cons.prems st by (intro Cons.IH) auto
  with Cons.prems st show ?case by (simp add: case_prod_beta Let_def)
qed simp

theorem jsonl_refines_memory_witness:
  "let cs = [Claim (at_time 100) ex_key ''A'', Claim (at_time 150) ex_key ''B'',
             Complete (at_time 160) ex_key ''A'' PNone];
       ms = \<lparr>ms_ttl = PInt 60, ms_records = []\<rparr>
   in fst (jsonl_calls cs ex_empty) = fst (mem_calls cs ms) \<and>
      same_store (snd (jsonl_calls cs ex_empty)) (snd (mem_calls cs ms))"
proof -
  have "same_store ex_empty \<lparr>ms_ttl = PInt 60, ms_records = []\<rparr>"
    using ex_empty_valid
    by (simp add: same_store_def mem_valid_def js_view_def mem_view_def ex_empty_def file_records_def
        file_lines_def fun_eq_iff List.map_filter_simps)
  moreover have "jsonl_calls_ok [Claim (at_time 100) ex_key ''A'', Claim (at_time 150) ex_key ''B'',
      Complete (at_time 160) ex_key ''A'' PNone] ex_empty"
    using ex_good by (simp add: ex_claimed_def [symmetric] ex_refused)
  ultimately show ?thesis unfolding Let_def by (intro jsonl_refines_memory) auto
qed

text \<open>
  C2. A record that is COMPLETED or FAILED never changes again, unless a pruning removes it. After any
  sequence of the public operations (claims, completions, failures, reads, compactions, prunings that
  keep it, repairs) with any arguments, any outcome of each file operation, torn lines included, and
  any clock, it is still the record of its key in the file. Until then no operation answered against
  it: every claim of its key that answers reports that record and grants nothing, every completion
  and failure of its key raises, every read that answers returns it. And when the file is healthy at
  the end, a claim that can lock and read it is answered with the record, so the operation is not run
  twice.
\<close>

theorem terminal_record_is_final:
  assumes "js_valid js" "js_view js k = Some r" "ir_status r \<in> {R_COMPLETED, R_FAILED}"
    and "\<forall>op \<in> set ops. \<not> prunes op r"
  shows "(\<forall>(op, ans) \<in> set (zip ops (fst (run_ops ops js))). agrees k r op ans) \<and>
    js_view (snd (run_ops ops js)) k = Some r \<and>
    (js_valid (snd (run_ops ops js)) \<and> si_lock io \<and> si_read io \<and> ow \<noteq> [] \<longrightarrow>
      fst (jsonl_claim (io, now, now') k (PStr ow) (snd (run_ops ops js))) =
        Inr \<lparr>cr_status = (if ir_status r = R_COMPLETED then ALREADY_COMPLETED else FAILED_PERMANENT),
             cr_record = r\<rparr>)"
proof -
  obtain answers js' where run: "run_ops ops js = (answers, js')" by fastforce
  from run_ops_holds [OF valid_holds_record [OF assms(1,2)] assms(3,4) run]
  have h: "holds_record k r (js_file js')" "\<forall>(op, ans) \<in> set (zip ops answers). agrees k r op ans" by simp_all
  from holds_record_view [OF h(1)] h(2) run terminal_claim_answered [OF _ _ assms(3), of js' k io ow now now']
  show ?thesis by (simp add: terminal_claim_def)
qed

theorem terminal_record_is_final_witness:
  "let (answers, js) = run_ops ex_traffic ex_completed
   in (\<forall>(op, ans) \<in> set (zip ex_traffic answers). agrees ex_key ex_done op ans) \<and> js_view js ex_key = Some ex_done \<and>
      fst (jsonl_claim (at_time 300) ex_key (PStr ''B'') js) = Inr \<lparr>cr_status = ALREADY_COMPLETED, cr_record = ex_done\<rparr>"
  using terminal_record_is_final [OF ex_completed_valid, of ex_key ex_done ex_traffic si_fine "''B''" "Fin 300" "Fin 300"]
    ex_completed_view ex_traffic_valid ex_traffic_keeps
  by (simp add: at_time_def case_prod_beta) (simp add: si_fine_def)



text \<open>
  A stale owner is fenced off: once the lease has expired and another worker has claimed the
  record, the former owner's completion raises the ownership error and changes no record.
\<close>

theorem stale_owner_is_rejected:
  assumes "js_valid js" "js_view js k = Some r" "ir_status r = R_IN_PROGRESS"
    and "expired (js_ttl js) now r" "js_good (si_fine, now, now') js"
    and "new_owner \<noteq> []" "new_owner \<noteq> ir_owner_id r"
    and "js_good (si_fine, later, later') (snd (jsonl_claim (si_fine, now, now') k (PStr new_owner) js))"
    and "d = PNone \<or> is_dict d"
  shows "let (res, js1) = jsonl_claim (si_fine, now, now') k (PStr new_owner) js;
             (res', js2) = jsonl_complete (si_fine, later, later') k (PStr (ir_owner_id r)) d js1
         in (\<exists>cr. res = Inr cr \<and> cr_status cr = CLAIMED \<and> ir_attempt (cr_record cr) = ir_attempt r + 1) \<and>
            res' = Inl (IdempotencyOwnershipError k (PStr (ir_owner_id r)) new_owner) \<and>
            js_view js2 = js_view js1"
proof -
  let ?p = "jsonl_claim (si_fine, now, now') k (PStr new_owner) js"
  from assms(1,2) ran_view [of r js] have "wf_record r"
    by (auto simp: js_valid_def wf_history_def intro: ranI)
  moreover have "ir_key r = k" using assms(2) latest_SomeD by (auto simp: js_view_def)
  ultimately have wf: "ir_owner_id r \<noteq> []" "wf_key k" by (auto simp: wf_record_def)
  note c = jsonl_claim_fine [OF assms(1,5) wf(2) assms(6)]
  then have v: "js_valid (snd ?p)" by blast
  note t = jsonl_complete_fine [OF v assms(8) wf(2) wf(1) assms(9)]
  show ?thesis
    using c t assms(2-4,7)
    by (auto simp: spec_claim_def spec_transition_def claim_record_def case_prod_beta Let_def)
qed

theorem stale_owner_is_rejected_witness:
  "let (res, js1) = jsonl_claim (at_time 161) ex_key (PStr ''B'') ex_claimed;
       (res', js2) = jsonl_complete (at_time 162) ex_key (PStr ''A'') PNone js1
   in (\<exists>cr. res = Inr cr \<and> cr_status cr = CLAIMED \<and> ir_attempt (cr_record cr) = 2) \<and>
      res' = Inl (IdempotencyOwnershipError ex_key (PStr ''A'') ''B'') \<and> js_view js2 = js_view js1"
proof -
  let ?r = "claim_record ex_key ''B'' 2 (Fin 100) (Fin 161)"
  have "js_file (snd (jsonl_claim (at_time 161) ex_key (PStr ''B'') ex_claimed)) =
      Some \<lparr>jl_lines = map rec_line [ex_record, ?r], jl_open = False\<rparr>"
    using ex_lease(2) by (simp add: ex_claimed_eq ex_reload store_eval)
  moreover have "wf_record ?r" by (simp add: wf_record_def claim_record_def)
  ultimately have "js_good (at_time 162) (snd (jsonl_claim (at_time 161) ex_key (PStr ''B'') ex_claimed))"
    using file_records_Some [of "[ex_record, ?r]" False]
    by (simp add: js_good_def at_time_def si_fine_def untorn_def) (simp add: claim_record_def)
  then show ?thesis
    using stale_owner_is_rejected [OF ex_claimed_valid, of ex_key ex_record "Fin 161" "Fin 161" "''B''"
        "Fin 162" "Fin 162" PNone] ex_lease(2) ex_good(2) [of 161] ex_claimed_view
    by (simp add: at_time_def)
qed

text \<open>
  Crash recovery: a claim whose append is torn raises and leaves the store unreadable; repair
  then cuts off exactly the torn line and the store holds the records it held before the claim.
\<close>

theorem repair_after_torn_claim:
  assumes "js_valid js" "wf_key k" "ow \<noteq> []" "js_view js k = None"
    and "io = si_fine\<lparr>si_append := TornPrefix\<rparr>"
  shows "let (res, js1) = jsonl_claim (io, now, now') k (PStr ow) js;
             (res', js2) = repair si_fine js1
         in res = Inl (OSError ''Failed to persist idempotency record'') \<and>
            fst (store_reload True js1) \<noteq> Inr () \<and>
            res' = Inr True \<and> js_valid js2 \<and> js_view js2 = js_view js"
proof -
  obtain rs where rs: "closed_file (js_file js)" "file_lines (js_file js) = map rec_line rs" "wf_history rs"
    using assms(1) by (auto simp: js_valid_iff)
  have view: "js_view js = latest rs" using js_valid_view [OF rs refl] by simp
  let ?f = "Some \<lparr>jl_lines = map rec_line rs @ [Malformed], jl_open = True\<rparr>"
  let ?js1 = "js\<lparr>js_records := index_records rs, js_file := ?f\<rparr>"
  have f: "append_effect TornPrefix v (js_file js) = ?f" for v
    using rs(1,2) by (simp add: add_text_closed)
  have p: "jsonl_claim (io, now, now') k (PStr ow) js =
      (Inl (OSError ''Failed to persist idempotency record''), ?js1)"
    using store_reload_valid [OF rs] assms(3-5) view f
    by (simp add: jsonl_claim_def validate_owner_id_def with_lock_def si_fine_def claim_locked_def
        map_of_index_records commit_def bind_op_def store_append_def)
  have load: "fst (load_lines n (map rec_line xs @ [Malformed]) recs) \<noteq> Inr ()" for n xs recs
    by (induction xs arbitrary: n recs) (auto simp: load_line_def split: sum.splits)
  have "fst (store_reload True ?js1) \<noteq> Inr ()"
    using load [of 1 rs "[]"] by (simp add: store_reload_def case_prod_beta)
  moreover obtain js2 where "repair si_fine ?js1 = (Inr True, js2)" "js_valid js2" "js_view js2 = latest rs"
    using repair_trailing [of ?js1 rs Malformed True] rs(3) by (auto simp: corrupt_line_def)
  ultimately show ?thesis using p view by simp
qed

theorem repair_after_torn_claim_witness:
  "let k = ex_key\<lparr>operation_key := ''other''\<rparr>;
       (res, js1) = jsonl_claim (si_fine\<lparr>si_append := TornPrefix\<rparr>, Fin 120, Fin 120) k (PStr ''B'') ex_claimed;
       (res', js2) = repair si_fine js1
   in res = Inl (OSError ''Failed to persist idempotency record'') \<and>
      fst (store_reload True js1) \<noteq> Inr () \<and>
      res' = Inr True \<and> js_valid js2 \<and> js_view js2 = js_view ex_claimed"
  using repair_after_torn_claim [OF ex_claimed_valid, of "ex_key\<lparr>operation_key := ''other''\<rparr>" "''B''" _
      "Fin 120" "Fin 120"] ex_claimed_view
  by (simp add: ex_key_def wf_key_def)

text \<open>
  Compaction and pruning lose nothing they must keep: with working file operations both succeed,
  compaction leaves the record of every key as it was, and pruning removes exactly the COMPLETED
  and FAILED records older than the limit; if a file operation fails, the store is still readable
  and holds the old or the new records.
\<close>

theorem maintenance_keeps_records:
  assumes "js_valid js"
  shows "fst (compact si_fine js) = Inr () \<and> js_view (snd (compact io js)) = js_view js \<and>
    js_valid (snd (compact io js)) \<and>
    (validate_max_age max_age = Inr () \<longrightarrow>
       fst (prune si_fine now max_age js) = Inr () \<and> js_valid (snd (prune io now max_age js)) \<and>
       (\<forall>k. js_view (snd (prune io now max_age js)) k =
              (case js_view js k of
                 Some r \<Rightarrow> if prunable max_age now r then None else Some r | None \<Rightarrow> None) \<or>
            (\<exists>e. fst (prune io now max_age js) = Inl e) \<and>
              js_view (snd (prune io now max_age js)) k = js_view js k))"
proof -
  have all: "kept (\<lambda>_. True) m = m" for m by (auto simp: kept_def fun_eq_iff split: option.splits)
  have c: "js_view (snd (compact io js)) = js_view js \<and> js_valid (snd (compact io js))"
    using rewrite_law [OF assms, of io "\<lambda>_. True" "fst (compact io js)" "snd (compact io js)"]
    by (auto simp: compact_def all)
  have p: "fst (prune si_fine now max_age js) = Inr () \<and> js_valid (snd (prune io now max_age js)) \<and>
      (js_view (snd (prune io now max_age js)) = kept (\<lambda>r. \<not> prunable max_age now r) (js_view js) \<or>
       (\<exists>e. fst (prune io now max_age js) = Inl e) \<and> js_view (snd (prune io now max_age js)) = js_view js)"
    if "validate_max_age max_age = Inr ()"
    using that rewrite_fine [OF assms, of "\<lambda>r. \<not> prunable max_age now r"]
      rewrite_law [OF assms, of io "\<lambda>r. \<not> prunable max_age now r" "fst (prune io now max_age js)"
        "snd (prune io now max_age js)"]
    by (simp add: prune_def)
  have k: "kept (\<lambda>r. \<not> prunable max_age now r) m k =
      (case m k of Some r \<Rightarrow> if prunable max_age now r then None else Some r | None \<Rightarrow> None)" for m k
    by (simp add: kept_def split: option.split)
  from c p rewrite_fine [OF assms, of "\<lambda>_. True"] show ?thesis by (auto simp: compact_def k)
qed

theorem maintenance_keeps_records_witness:
  "fst (compact si_fine ex_completed) = Inr () \<and>
   js_view (snd (compact si_fine ex_completed)) = js_view ex_completed \<and>
   fst (prune si_fine (Fin 500) (PInt 100) ex_completed) = Inr ()"
proof -
  have "validate_max_age (PInt 100) = Inr ()" by (simp add: validate_max_age_def)
  with maintenance_keeps_records [OF ex_completed_valid, of si_fine "PInt 100" "Fin 500"]
  show ?thesis by blast
qed



end
