(* ===== verification/Runtime_Properties.thy ===== *)
theory Runtime_Properties
  imports Checkpoint Retry Run_Budget
begin

text \<open>
  What the checkpoint log, the retry loop and the budget engine guarantee to the agent: the log
  stays a valid history of every run under any interleaving of writers, a finished run stays
  finished, the retry loop is bounded and never repeats after an integrity failure, and the budget
  is exact.
\<close>

section \<open>Sequences of log calls\<close>

fun cm_calls :: "((cp_io \<times> pyfloat) \<times> string \<times> string \<times> pydict) list \<Rightarrow> checkpoint_manager \<Rightarrow> checkpoint_manager" where
  "cm_calls [] cm = cm"
| "cm_calls ((c, r, name, p) # cs) cm = cm_calls cs (snd (log_event (fst c) (snd c) r name p cm))"

lemma cm_calls_cm: "cm_calls cs cm = cm.log_calls cs cm"
  by (induction cs cm rule: cm_calls.induct) (simp_all add: cm_log_op_def [symmetric])

definition new_log :: checkpoint_manager where
  "new_log = \<lparr>cm_file = None, cm_last_sequences = Map.empty, cm_last_timestamps = Map.empty,
              cm_last_states = Map.empty\<rparr>"

lemma new_log_repr: "log_repr (cm_file new_log) []"
  by (simp add: new_log_def log_repr_def closed_file_def file_lines_def)

lemma good_now_numeral: "(numeral n :: int) \<le> 2 ^ 53 \<Longrightarrow> good_now (Fin (numeral n))"
  using to_double_numeral [of n] by (simp add: good_now_def wf_float_def is_double_def)

lemma run_step_into_waiting:
  "run_step s t LLM_WAITING \<Longrightarrow> t \<in> {LLM_REQUESTED, TOOL_RESULT_RECEIVED}"
  by (erule run_stepE)
    (cases s; auto simp: validate_state_transition_def bind_result_Inr_iff Let_def split: if_splits)

section \<open>The run state machine\<close>

text \<open>
  \<open>validate_event_sequence\<close> accepts a list of events exactly when, for every run, its sequence ids
  are 1, 2, 3, ... without gap, repetition or rollback and no timestamp falls below the one before.
\<close>

theorem sequence_validation_exact:
  "validate_event_sequence evs = Inr () \<longleftrightarrow>
     (\<forall>r. map ev_sequence_id (run_events r evs) = map int [1..<Suc (length (run_events r evs))] \<and>
          successively (\<lambda>a b. \<not> flt (ev_timestamp b) (ev_timestamp a)) (run_events r evs))"
  unfolding validate_event_sequence_iff valid_run_def ..

text \<open>
  A finished run stays finished: once a run is COMPLETED, FAILED or HALTED, the only events the
  state machine still accepts are further end-of-run markers, and they leave the state as it is.
\<close>

theorem finished_run_is_final:
  assumes "is_terminal s" "run_transitions evs s = Inr s'"
  shows "s' = s \<and>
    ev_type ` set evs \<subseteq> {RUN_COMPLETED, LLM_FINAL_RESPONSE, RUN_FAILED, RUN_HALTED, TASK_END}"
  using assms(2)
proof (induction evs arbitrary: s')
  case (Cons e evs)
  then obtain u where u: "validate_state_transition s e = Inr u" "run_transitions evs u = Inr s'"
    by (auto simp: bind_result_Inr_iff)
  with assms(1) have "u = s" by (blast intro: terminal_transition)
  moreover have "ev_type e \<in> {RUN_COMPLETED, LLM_FINAL_RESPONSE, RUN_FAILED, RUN_HALTED, TASK_END}"
    using u(1) assms(1) by (auto simp: is_terminal_def validate_state_transition_def Let_def split: if_splits)
  ultimately show ?case using Cons.IH [of s'] u(2) by auto
qed simp

theorem finished_run_is_final_witness:
  "let e = \<lparr>ev_run_id = ''r'', ev_sequence_id = 9, ev_timestamp = Fin 9, ev_type = TASK_END, ev_payload = []\<rparr>
   in run_transitions [e] COMPLETED = Inr COMPLETED \<and> ev_type e \<in> {RUN_COMPLETED, LLM_FINAL_RESPONSE, RUN_FAILED, RUN_HALTED, TASK_END}"
proof -
  let ?e = "\<lparr>ev_run_id = ''r'', ev_sequence_id = 9, ev_timestamp = Fin 9, ev_type = TASK_END, ev_payload = []\<rparr>"
  have "run_transitions [?e] COMPLETED = Inr COMPLETED" by (simp add: validate_state_transition_def)
  with finished_run_is_final [of COMPLETED "[?e]" COMPLETED] show ?thesis by (simp add: is_terminal_def)
qed

text \<open>
  In every accepted run an LLM response directly follows an LLM request or a tool result that
  ended the iteration, and a tool result is only accepted while tools are executing.
\<close>

theorem responses_follow_requests:
  assumes "run_transitions (evs @ [e]) PENDING = Inr s"
  shows "(ev_type e = LLM_RESPONDED \<longrightarrow>
            evs \<noteq> [] \<and> ev_type (last evs) \<in> {LLM_REQUESTED, TOOL_RESULT_RECEIVED}) \<and>
         (ev_type e = TOOL_RESULT_RECEIVED \<longrightarrow>
            run_transitions evs PENDING = Inr TOOL_EXECUTING \<and> s \<in> {LLM_WAITING, TOOL_EXECUTING})"
proof -
  from assms obtain u where u: "run_transitions evs PENDING = Inr u" "validate_state_transition u e = Inr s"
    by (auto simp: run_transitions_append_Inr bind_result_Inr_iff)
  then have st: "run_step u (ev_type e) s" by (auto intro: run_step.run_step)
  have 1: "evs \<noteq> [] \<and> ev_type (last evs) \<in> {LLM_REQUESTED, TOOL_RESULT_RECEIVED}" if "ev_type e = LLM_RESPONDED"
  proof (cases evs rule: rev_cases)
    case Nil
    with u st that run_step_responded [of u s] show ?thesis by auto
  next
    case (snoc ys y)
    with u(1) obtain v where "validate_state_transition v y = Inr u"
      by (auto simp: run_transitions_append_Inr bind_result_Inr_iff)
    moreover have "u = LLM_WAITING" using st that run_step_responded by simp
    ultimately have "ev_type y \<in> {LLM_REQUESTED, TOOL_RESULT_RECEIVED}"
      using run_step_into_waiting [of v "ev_type y"] run_step.run_step [of v y LLM_WAITING] by blast
    with snoc show ?thesis by simp
  qed
  with st u(1) run_step_result [of u s] show ?thesis by auto
qed

theorem responses_follow_requests_witness:
  "let e = (\<lambda>t. \<lparr>ev_run_id = ''r'', ev_sequence_id = 1, ev_timestamp = Fin 1, ev_type = t, ev_payload = []\<rparr>)
   in run_transitions [e RUN_STARTED, e LLM_REQUESTED, e LLM_RESPONDED] PENDING = Inr COMPLETED \<and>
      ev_type (last [e RUN_STARTED, e LLM_REQUESTED]) \<in> {LLM_REQUESTED, TOOL_RESULT_RECEIVED}"
proof -
  let ?e = "\<lambda>t. \<lparr>ev_run_id = ''r'', ev_sequence_id = 1, ev_timestamp = Fin 1, ev_type = t, ev_payload = []\<rparr>"
  have "run_transitions ([?e RUN_STARTED, ?e LLM_REQUESTED] @ [?e LLM_RESPONDED]) PENDING = Inr COMPLETED"
    by (simp add: validate_state_transition_def)
  from this responses_follow_requests [OF this] show ?thesis by simp
qed

section \<open>The checkpoint log\<close>

text \<open>
  C7. Whatever sequence of log calls any number of processes make, and whichever of their file
  operations fail without tearing a line, the log file stays a valid history: it only grows, the
  events of runs that no call names are untouched, and finished runs keep their state.
\<close>

theorem log_stays_valid:
  assumes "log_repr (cm_file cm) evs"
    and "\<forall>((io, now), r, name, p) \<in> set cs. untorn (io_append io) \<and> good_now now \<and> strip r \<noteq> []"
  shows "\<exists>evs'. log_repr (cm_file (cm_calls cs cm)) evs' \<and> prefix evs evs' \<and>
           validate_event_sequence evs' = Inr () \<and>
           (\<forall>r. r \<notin> (fst \<circ> snd) ` set cs \<longrightarrow> run_events r evs' = run_events r evs) \<and>
           (\<forall>r. is_terminal (run_state_of evs r) \<longrightarrow> run_state_of evs' r = run_state_of evs r)"
proof -
  have "cm_represents cm evs" using assms(1) by (simp add: cm_represents_def)
  moreover have "cm.good_calls cs"
    using assms(2) by (auto simp: cm.good_calls_def cm_good_ctx_def split_beta)
  ultimately obtain evs' where e: "cm_represents (cm.log_calls cs cm) evs'" "prefix evs evs'"
    "\<forall>r. r \<notin> (fst \<circ> snd) ` set cs \<longrightarrow> run_events r evs' = run_events r evs"
    "\<forall>r. is_terminal (run_state_of evs r) \<longrightarrow> run_state_of evs' r = run_state_of evs r"
    using cm.calls_extend by blast
  moreover have "validate_event_sequence evs' = Inr ()"
    using cm.represents_wf [OF e(1)] by (simp add: validate_event_sequence_iff wf_log_def)
  ultimately show ?thesis by (auto simp: cm_calls_cm cm_represents_def)
qed

theorem log_stays_valid_witness:
  "let cs = [((io_fine, Fin 100), ''r1'', ''RUN_STARTED'', []),
             ((io_fine\<lparr>io_append := WrittenUnsynced\<rparr>, Fin 90), ''r2'', ''TASK_START'', []),
             ((io_fine, Fin 101), ''r1'', ''RUN_COMPLETED'', [])]
   in \<exists>evs'. log_repr (cm_file (cm_calls cs new_log)) evs' \<and> validate_event_sequence evs' = Inr ()"
proof -
  let ?cs = "[((io_fine, Fin 100), ''r1'', ''RUN_STARTED'', []),
      ((io_fine\<lparr>io_append := WrittenUnsynced\<rparr>, Fin 90), ''r2'', ''TASK_START'', []),
      ((io_fine, Fin 101), ''r1'', ''RUN_COMPLETED'', [])]"
  have "\<forall>((io, now), r, name, p) \<in> set ?cs. untorn (io_append io) \<and> good_now now \<and> strip r \<noteq> []"
    by (simp add: untorn_def io_fine_def good_now_numeral strip_empty_iff is_space_def)
  from log_stays_valid [OF new_log_repr this] show ?thesis by auto
qed

text \<open>
  C8. With working I/O a log call succeeds exactly when the state machine allows the event in the
  state the file records, and then the file ends with that event; the answer does not depend on
  what the manager object remembers, so managers of other processes decide alike.
\<close>

theorem log_event_iff_legal:
  assumes "log_repr (cm_file cm) evs" "good_now now" "strip r \<noteq> []" "cm_file cm2 = cm_file cm"
  shows "(fst (log_event io_fine now r name p cm) = Inr () \<longleftrightarrow>
           (\<exists>s. validate_state_transition (run_state_of evs r)
                  (spec_event now r (event_type_of_name name) p evs) = Inr s)) \<and>
    (fst (log_event io_fine now r name p cm) = Inr () \<longrightarrow>
       log_repr (cm_file (snd (log_event io_fine now r name p cm)))
         (evs @ [spec_event now r (event_type_of_name name) p evs])) \<and>
    fst (log_event io_fine now r name p cm2) = fst (log_event io_fine now r name p cm) \<and>
    cm_file (snd (log_event io_fine now r name p cm2)) = cm_file (snd (log_event io_fine now r name p cm))"
proof -
  have io: "untorn (io_append io_fine)" "io_lock io_fine" "io_read io_fine" "io_append io_fine = Written"
    by (simp_all add: untorn_def io_fine_def)
  obtain res cm' where run: "log_event io_fine now r name p cm = (res, cm')" by force
  from log_event_cases [OF assms(1) io(1) assms(2,3) run] log_event_succeeds [OF assms(1) io(2-4)]
    log_event_memory_irrelevant [OF assms(4)] run io(4)
  show ?thesis by fastforce
qed

theorem log_event_iff_legal_witness:
  "fst (log_event io_fine (Fin 100) ''r1'' ''RUN_STARTED'' [] new_log) = Inr () \<and>
   fst (log_event io_fine (Fin 100) ''r1'' ''LLM_RESPONDED'' [] new_log) \<noteq> Inr ()"
proof -
  have "\<exists>s. validate_state_transition (run_state_of [] ''r1'')
      (spec_event (Fin 100) ''r1'' (event_type_of_name ''RUN_STARTED'') [] []) = Inr s"
    using parse_event_type_value [of RUN_STARTED]
    by (simp add: event_type_of_name_def run_state_of_def validate_state_transition_def)
  moreover have "\<not> (\<exists>s. validate_state_transition (run_state_of [] ''r1'')
      (spec_event (Fin 100) ''r1'' (event_type_of_name ''LLM_RESPONDED'') [] []) = Inr s)"
    using parse_event_type_value [of LLM_RESPONDED]
    by (simp add: event_type_of_name_def run_state_of_def validate_state_transition_def)
  moreover have "good_now (Fin 100)" "strip ''r1'' \<noteq> []"
    by (simp_all add: good_now_numeral strip_empty_iff is_space_def)
  ultimately show ?thesis
    using log_event_iff_legal [OF new_log_repr _ _ refl, of "Fin 100" "''r1''"] by blast
qed

text \<open>
  The summary of a run read back from the log reports the state the state machine assigns to its
  events, counts its LLM requests, and has an end time exactly when that state is final.
\<close>

theorem run_summary_agrees_with_log:
  assumes "log_repr (cm_file cm) evs" "run_events r evs \<noteq> []" "counts_are_ints (run_events r evs)"
  shows "\<exists>sm. fst (get_run_summary io_fine True r cm) = Inr (Some sm) \<and>
            rs_run_id sm = r \<and> rs_final_state sm = run_state_of evs r \<and>
            rs_start_timestamp sm = ev_timestamp (hd (run_events r evs)) \<and>
            rs_iteration_count sm =
              int (length (filter (\<lambda>e. ev_type e = LLM_REQUESTED) (run_events r evs))) \<and>
            (rs_end_timestamp sm \<noteq> None \<longleftrightarrow> is_terminal (run_state_of evs r))"
  using assms by (intro get_run_summary_spec) (simp_all add: io_fine_def)

theorem run_summary_agrees_with_log_witness:
  "let e = \<lparr>ev_run_id = ''r1'', ev_sequence_id = 1, ev_timestamp = Fin 5, ev_type = RUN_STARTED, ev_payload = []\<rparr>;
       cm = new_log\<lparr>cm_file := Some \<lparr>jl_lines = [event_line e], jl_open = False\<rparr>\<rparr>
   in \<exists>sm. fst (get_run_summary io_fine True ''r1'' cm) = Inr (Some sm) \<and>
         rs_final_state sm = RUNNING \<and> rs_iteration_count sm = 0 \<and> rs_end_timestamp sm = None"
proof -
  let ?e = "\<lparr>ev_run_id = ''r1'', ev_sequence_id = 1, ev_timestamp = Fin 5, ev_type = RUN_STARTED, ev_payload = []\<rparr>"
  let ?cm = "new_log\<lparr>cm_file := Some \<lparr>jl_lines = [event_line ?e], jl_open = False\<rparr>\<rparr>"
  have st: "run_state_of [?e] ''r1'' = RUNNING"
    by (simp add: run_state_of_def validate_state_transition_def)
  have "good_ts (Fin 5)" using good_now_numeral by (simp add: good_ts_def good_now_def)
  then have "wf_log ([] @ [?e])"
    unfolding wf_log_snoc
    by (simp add: wf_event_def strip_empty_iff is_space_def run_state_of_def validate_state_transition_def)
  then have "log_repr (cm_file ?cm) [?e]"
    by (simp add: log_repr_def closed_file_def file_lines_def)
  from run_summary_agrees_with_log [OF this, of "''r1''"] st show ?thesis
    by (auto simp: counts_are_ints_def is_terminal_def)
qed

section \<open>Retries\<close>

text \<open>A retry environment over a counter: the operation counts its calls and always times out.\<close>

definition timing_out :: "nat retry_env" where
  "timing_out = \<lparr>re_operation = (\<lambda>n. (Inl TimeoutError, Suc n)), re_on_attempt_start = None,
     re_on_attempt_complete = None, re_on_retry_scheduled = None, re_before_retry_attempt = None,
     re_random = (\<lambda>n. (Fin 0, n)), re_sleep = (\<lambda>d n. (Inr (), n)), re_str_exn = (\<lambda>e. []),
     re_parse_float = (\<lambda>s. None)\<rparr>"

definition three_attempts :: retry_policy where
  "three_attempts = \<lparr>rp_max_attempts = 3, rp_base_delay = Fin 2, rp_max_delay = Fin 30, rp_jitter = False\<rparr>"

lemma timing_out_hooks: "hooks_keep (\<lambda>n. n) timing_out"
  by (simp add: hooks_keep_def keeps_def timing_out_def)

text \<open>
  The retry loop ends, and it runs the operation at most \<open>max_attempts\<close> times, whatever the
  operation, the callbacks, the clock and the random source do.
\<close>

theorem retries_are_bounded:
  assumes "hooks_keep cnt env" "\<And>s. cnt (snd (re_operation env s)) \<le> Suc (cnt s)"
  shows "cnt (snd (execute_with_retry env pol s)) \<le> cnt s + nat (rp_max_attempts pol)"
  using retry_loop_count [of cnt env pol 1 s, OF assms] by (simp add: execute_with_retry_def)

theorem retries_are_bounded_witness:
  "snd (execute_with_retry timing_out three_attempts 0) \<le> 3"
proof -
  have "snd (re_operation timing_out s) \<le> Suc s" for s by (simp add: timing_out_def)
  from retries_are_bounded [of "\<lambda>n. n", OF timing_out_hooks this, of three_attempts 0]
  show ?thesis by (simp add: three_attempts_def)
qed

text \<open>
  An attempt that fails with a checkpoint or system state error is never retried: the loop
  raises that very error after the first attempt, in the state the operation left.
\<close>

theorem integrity_errors_never_retried:
  assumes "is_checkpoint_error e \<or> is_system_state_error e" "1 \<le> rp_max_attempts pol"
    and "re_operation env s = (Inl e, s')" "re_on_attempt_start env = None" "re_on_attempt_complete env = None"
  shows "execute_with_retry env pol s = (Inl e, s')"
proof -
  have "is_exception e" using assms(1) by (cases e) (auto simp: is_exception_def)
  with assms have "try_operation env 1 s = (Inr (Failed None (Some e) (Some e)), s')"
    by (simp add: try_operation_def handle_exception_no_callback)
  with assms(1,4) have "retry_iteration env pol 1 s = (Stop (Inl e), s')"
    by (simp add: retry_iteration_def after_failure_never_retried)
  with assms(2) show ?thesis by (simp add: execute_with_retry_def retry_loop.simps [of env pol 1 s])
qed

theorem integrity_errors_never_retried_witness:
  "execute_with_retry (timing_out\<lparr>re_operation := (\<lambda>n. (Inl (SystemStateError ''disk'' None), Suc n))\<rparr>)
     three_attempts 0 = (Inl (SystemStateError ''disk'' None), 1)"
  by (rule integrity_errors_never_retried) (simp_all add: three_attempts_def timing_out_def)

text \<open>
  The retry engine asks for another attempt exactly when nothing vetoes it: no integrity or
  checkpoint failure, no cancellation, a run that is not finished, attempts left, a transient error,
  a delay that can be computed and an error code that is text.
\<close>

theorem retry_iff_no_veto:
  "(\<exists>d. retry_decide ctx b m = Inr d \<and> rd_should_retry d \<and> rd_next_attempt d = rc_attempt ctx + 1) \<longleftrightarrow>
     rc_failure_domain ctx \<notin> {CORRUPTION_INTEGRITY, CHECKPOINT_STORE} \<and> \<not> rc_cancelled ctx \<and>
     \<not> is_terminal (rc_run_state ctx) \<and> rc_attempt ctx < rc_max_attempts ctx \<and> rc_transient ctx \<and>
     (\<exists>x. calculate_backoff (rc_attempt ctx) b m = Inr x) \<and> (\<exists>c. rc_error_code ctx = PStr c)"
  using decide_retry_iff [of ctx b m] decide_retry(1) [of ctx b m] by blast

text \<open>
  The backoff delay is exact: for a positive base delay b the delay before attempt k + 1 is the
  smaller of b times 2 to the k and the cap, with no rounding error, as long as the product is below
  the largest double; it never exceeds the cap.
\<close>

theorem backoff_is_exact:
  assumes "is_double b" "0 < b" "k < 1024" "b * 2 ^ k < 2 ^ 1024"
  shows "calculate_backoff (int k + 1) (Fin b) (Fin m) = Inr (Fin (min (b * 2 ^ k) m))"
  using calculate_backoff_exact [OF assms, of "Fin m"] by (simp add: fmin_def min_def)

theorem backoff_is_exact_witness:
  "calculate_backoff 4 (Fin 2) (Fin 30) = Inr (Fin 16)"
proof -
  have "is_double 2" using to_double_numeral [of "num.Bit0 num.One"] by (simp add: is_double_def)
  moreover have "(2::rat) * 2 ^ 3 < 2 ^ 1024"
    using power_strict_increasing [of 4 1024 "2::rat"] by (simp add: power_strict_increasing)
  ultimately show ?thesis using backoff_is_exact [of 2 3 30] by simp
qed

section \<open>Budgets\<close>

text \<open>
  Usage reconstructed from durable events counts distinct logical calls: every call id named by
  a response or by an execution event counts once however often it was attempted, and the
  iterations used are the highest iteration number.
\<close>

theorem usage_counts_distinct_calls:
  assumes "\<forall>e \<in> set evs. string_call_ids e"
  shows "\<exists>u. reconstruct_usage evs = Inr u \<and>
     bu_iterations_used u =
       (let I = (\<Union>e \<in> set evs. event_iterations e) in if I = {} then 0 else Max I) \<and>
     bu_tool_calls_used u = int (card (\<Union>e \<in> set evs. event_call_ids e)) \<and>
     set (bu_seen_tool_call_ids u) = PStr ` (\<Union>e \<in> set evs. event_call_ids e)"
  using assms by (rule reconstruct_usage_spec)

theorem usage_counts_distinct_calls_witness:
  "let e = (\<lambda>t n. \<lparr>ev_run_id = ''r'', ev_sequence_id = n, ev_timestamp = Fin 1, ev_type = t,
                   ev_payload = [(''call_id'', PStr ''c1''), (''attempt'', PInt n)]\<rparr>)
   in \<exists>u. reconstruct_usage [e TOOL_ATTEMPT_STARTED 1, e TOOL_ATTEMPT_ENDED 1, e TOOL_ATTEMPT_STARTED 2] = Inr u \<and>
          bu_tool_calls_used u = 1"
proof -
  let ?e = "\<lambda>t n. \<lparr>ev_run_id = ''r'', ev_sequence_id = n, ev_timestamp = Fin 1, ev_type = t,
                   ev_payload = [(''call_id'', PStr ''c1''), (''attempt'', PInt n)]\<rparr>"
  let ?evs = "[?e TOOL_ATTEMPT_STARTED 1, ?e TOOL_ATTEMPT_ENDED 1, ?e TOOL_ATTEMPT_STARTED 2]"
  have "\<forall>e \<in> set ?evs. string_call_ids e" by (simp add: string_call_ids_def str_or_none_def)
  moreover have "(\<Union>e \<in> set ?evs. event_call_ids e) = {''c1''}" by (auto simp: event_call_ids_def)
  ultimately show ?thesis using usage_counts_distinct_calls [of ?evs] by auto
qed

end
