(* ===== verification/Example_Run.thy ===== *)
theory Example_Run
  imports Agent_Invariants Idempotency_Properties Runtime_Properties
begin

text \<open>
  A concrete environment on which the properties of the executor and of the agent loop are
  instantiated: one tool that always succeeds, a scripted model that asks for the tool once and then
  answers, an empty checkpoint log and an empty idempotency file. The part outside the runtime is a
  triple: the clock of the store, the number of model requests and the number of tool executions.
\<close>

type_synonym ex_ext = "int \<times> nat \<times> nat"

type_synonym ex_state = "(jsonl_store, ex_ext) world"

definition requests_of :: "ex_state \<Rightarrow> nat" where
  "requests_of w = fst (snd (w_ext w))"

definition runs_of :: "ex_state \<Rightarrow> nat" where
  "runs_of w = snd (snd (w_ext w))"

definition ex_tool :: "(jsonl_store, ex_ext) tool" where
  "ex_tool = \<lparr>tl_name = ''t'', tl_description = [], tl_schema = PDict [],
     tl_execute = (\<lambda>call w. (Inr (TR ex_result), w\<lparr>w_ext := map_prod id (map_prod id Suc) (w_ext w)\<rparr>))\<rparr>"

definition ex_generate :: "llm_message list \<Rightarrow> pyval list \<Rightarrow> (ex_state, llm_response) op" where
  "ex_generate ms ts w =
     (Inr (if requests_of w = 0
           then \<lparr>lr_content = PNone,
                 lr_tool_calls = [\<lparr>pc_call_id = PStr ''c1'', pc_name = PStr ''t'', pc_arguments = PDict []\<rparr>]\<rparr>
           else \<lparr>lr_content = PStr ''done'', lr_tool_calls = []\<rparr>),
      w\<lparr>w_ext := map_prod id (map_prod Suc id) (w_ext w)\<rparr>)"

definition ex_env :: "(jctx, jsonl_store, ex_ext) env" where
  "ex_env =
     \<lparr>en_cp = (\<lambda>x. ((io_fine, Fin 100), x)), en_read = (\<lambda>x. (True, x)),
      en_store = (\<lambda>x. (at_time (fst x), map_prod (\<lambda>t. t + 1) id x)), en_write = (\<lambda>x. (Written, x)),
      en_random = (\<lambda>x. (Fin 0, x)), en_timed_out = (\<lambda>x. False), en_sleep = (\<lambda>d w. (Inr (), w)),
      en_generate = ex_generate, en_jsonschema = (\<lambda>v s. SchemaOk), en_md5 = (\<lambda>n a. ''1''),
      en_text = \<lparr>parse_float = (\<lambda>s. None), parse_int = (\<lambda>s. None), str_of = (\<lambda>v. [])\<rparr>,
      en_str_exn = (\<lambda>e. []), en_registry = [(''t'', ex_tool)],
      en_ops = ops_of jsonl_claim jsonl_complete jsonl_fail, en_owner_id = ''A'',
      en_retry = three_attempts,
      en_policy = \<lparr>pol_max_iterations = 5, pol_max_tool_calls = 5, pol_timeout_seconds = Fin 300\<rparr>\<rparr>"

definition ex_world :: ex_state where
  "ex_world = \<lparr>w_cm = new_log, w_store = V2Store ex_empty, w_tokens = [], w_ext = (100, 0, 0)\<rparr>"

definition ex_call :: tool_call where
  "ex_call = \<lparr>tc_name = ''t'', tc_arguments = PDict [], tc_call_id = PStr ''c1'', tc_run_id = ''run'',
     tc_operation_key = ''1'', tc_idempotency_key = PStr ''run_1''\<rparr>"

section \<open>The log calls of the example\<close>

definition log_in :: "run_state \<Rightarrow> ex_state \<Rightarrow> bool" where
  "log_in s w \<longleftrightarrow> (\<exists>evs. log_repr (cm_file (w_cm w)) evs \<and> run_state_of evs ''run'' = s)"

lemma ex_run_id: "strip ''run'' \<noteq> []"
  by (simp add: strip_empty_iff is_space_def)

lemma ex_log:
  assumes "log_in s w"
    and "\<And>e. ev_type e = event_type_of_name name \<Longrightarrow> ev_payload e = p \<Longrightarrow>
           validate_state_transition s e = Inr s'"
  obtains cm where "cp_log ex_env (\<lambda>io now. log_event io now ''run'' name p) w = (Inr (), w\<lparr>w_cm := cm\<rparr>)"
    "log_in s' (w\<lparr>w_cm := cm\<rparr>)"
proof -
  from assms(1) obtain evs where e: "log_repr (cm_file (w_cm w)) evs" "run_state_of evs ''run'' = s"
    by (auto simp: log_in_def)
  let ?e = "spec_event (Fin 100) ''run'' (event_type_of_name name) p evs"
  obtain res cm where l: "log_event io_fine (Fin 100) ''run'' name p (w_cm w) = (res, cm)" by force
  have legal: "validate_state_transition (run_state_of evs ''run'') ?e = Inr s'" using assms(2) e(2) by simp
  from log_event_iff_legal [OF e(1) _ ex_run_id refl, of "Fin 100" name p] legal l good_now_numeral
  have "res = Inr ()" "log_repr (cm_file cm) (evs @ [?e])" by auto
  moreover have "run_state_of (evs @ [?e]) ''run'' = s'"
    using calculation(2) legal by (auto simp: log_repr_def run_state_of_snoc)
  ultimately show thesis using l by (intro that [of cm]) (auto simp: cp_log_def ex_env_def log_in_def)
qed

lemma log_in_ext [simp]:
  "log_in s (w\<lparr>w_ext := x\<rparr>) = log_in s w" "log_in s (w\<lparr>w_store := t\<rparr>) = log_in s w"
  "log_in s (get_token r w) = log_in s w"
  by (simp_all add: log_in_def)

lemma log_in_new: "log_in PENDING ex_world"
  using new_log_repr by (auto simp: log_in_def ex_world_def run_state_of_def intro: exI [of _ "[]"])

section \<open>The tool call of the example\<close>

lemma ex_types:
  "event_type_of_name ''TOOL_ATTEMPT_STARTED'' = TOOL_ATTEMPT_STARTED"
  "event_type_of_name ''TOOL_ATTEMPT_ENDED'' = TOOL_ATTEMPT_ENDED"
  "event_type_of_name ''TOOL_CALL_CREATED'' = TOOL_CALL_CREATED"
  "event_type_of_name ''TOOL_RESULT_RECEIVED'' = TOOL_RESULT_RECEIVED"
  "event_type_of_name ''RUN_STARTED'' = RUN_STARTED"
  "event_type_of_name ''LLM_REQUESTED'' = LLM_REQUESTED"
  "event_type_of_name ''LLM_RESPONDED'' = LLM_RESPONDED"
  "event_type_of_name ''LLM_FINAL_RESPONSE'' = LLM_FINAL_RESPONSE"
  "event_type_of_name ''RUN_COMPLETED'' = RUN_COMPLETED"
  using event_type_of_name_value [of TOOL_ATTEMPT_STARTED] event_type_of_name_value [of TOOL_ATTEMPT_ENDED]
    event_type_of_name_value [of TOOL_CALL_CREATED] event_type_of_name_value [of TOOL_RESULT_RECEIVED]
    event_type_of_name_value [of RUN_STARTED] event_type_of_name_value [of LLM_REQUESTED]
    event_type_of_name_value [of LLM_RESPONDED] event_type_of_name_value [of LLM_FINAL_RESPONSE]
    event_type_of_name_value [of RUN_COMPLETED]
  by simp_all

lemma ex_tool_runs:
  assumes "log_in s w" "s \<in> {PENDING, TOOL_EXECUTING}"
  obtains cm where "tool_execute_with_retry ex_env ex_call ex_tool w =
      (Inr (Some (TR ex_result)), w\<lparr>w_cm := cm, w_ext := map_prod id (map_prod id Suc) (w_ext w)\<rparr>)"
    "log_in TOOL_EXECUTING (w\<lparr>w_cm := cm\<rparr>)"
proof -
  let ?p1 = "[(''call_id'', PStr ''c1''), (''attempt'', PInt 1), (''tool_name'', PStr ''t''), (''arguments'', PDict [])]"
  let ?p2 = "[(''call_id'', PStr ''c1''), (''attempt'', PInt 1), (''status'', PStr ''success''), (''error'', PNone)]"
  obtain cm1 where c1: "cp_log ex_env (\<lambda>io now. log_event io now ''run'' ''TOOL_ATTEMPT_STARTED'' ?p1) w =
      (Inr (), w\<lparr>w_cm := cm1\<rparr>)" "log_in TOOL_EXECUTING (w\<lparr>w_cm := cm1\<rparr>)"
    by (rule ex_log [OF assms(1), of "''TOOL_ATTEMPT_STARTED''" ?p1 TOOL_EXECUTING])
      (use assms(2) in \<open>auto simp: ex_types validate_state_transition_def\<close>)
  define w1 where "w1 = w\<lparr>w_cm := cm1, w_ext := map_prod id (map_prod id Suc) (w_ext w)\<rparr>"
  have "log_in TOOL_EXECUTING w1" using c1(2) by (simp add: w1_def log_in_def)
  then obtain cm2 where c2: "cp_log ex_env (\<lambda>io now. log_event io now ''run'' ''TOOL_ATTEMPT_ENDED'' ?p2) w1 =
      (Inr (), w1\<lparr>w_cm := cm2\<rparr>)" "log_in TOOL_EXECUTING (w1\<lparr>w_cm := cm2\<rparr>)"
    by (rule ex_log [of TOOL_EXECUTING w1 "''TOOL_ATTEMPT_ENDED''" ?p2 TOOL_EXECUTING])
      (auto simp: ex_types validate_state_transition_def)
  let ?env = "tool_retry_env ex_env ex_call ex_tool"
  have "try_operation ?env 1 (w\<lparr>w_cm := cm1\<rparr>) = (Inr (Returned (TR ex_result)), w1\<lparr>w_cm := cm2\<rparr>)"
    using c2(1)
    by (simp add: try_operation_def tool_retry_env_def Let_def ex_tool_def ex_result_def ex_call_def
        call_complete_def log_tool_attempt_ended_def w1_def)
  then have "retry_iteration ?env three_attempts 1 w = (Stop (Inr (Some (TR ex_result))), w1\<lparr>w_cm := cm2\<rparr>)"
    using c1(1)
    by (simp add: retry_iteration_def) (simp add: tool_retry_env_def Let_def log_tool_attempt_started_def ex_call_def)
  then have "tool_execute_with_retry ex_env ex_call ex_tool w = (Inr (Some (TR ex_result)), w1\<lparr>w_cm := cm2\<rparr>)"
    by (simp add: tool_execute_with_retry_def execute_with_retry_def retry_loop.simps [of _ _ 1 w])
      (simp add: ex_env_def three_attempts_def)
  with c2(2) show thesis by (intro that [of cm2]) (simp_all add: w1_def log_in_def)
qed

lemma ex_claim: "jsonl_claim (at_time 100) ex_key (PStr ''A'') ex_empty =
    (Inr \<lparr>cr_status = CLAIMED, cr_record = ex_record\<rparr>, ex_claimed)"
proof -
  have "fst (jsonl_claim (at_time 100) ex_key (PStr ''A'') ex_empty) = Inr \<lparr>cr_status = CLAIMED, cr_record = ex_record\<rparr>"
    by (simp add: ex_empty_def ex_record_def store_reload_def store_eval)
  then show ?thesis by (metis ex_claimed_def prod.collapse)
qed

lemma ex_complete: "jsonl_complete (at_time 101) ex_key (PStr ''A'') ex_data ex_claimed = (Inr (), ex_completed)"
proof -
  have "fst (jsonl_complete (at_time 101) ex_key (PStr ''A'') ex_data ex_claimed) = Inr ()"
    by (simp add: ex_claimed_eq ex_reload store_eval)
  then show ?thesis by (metis ex_completed_def prod.collapse)
qed

lemma ex_record_key: "record_key_of ex_call = Inr ex_key"
  by (simp add: record_key_of_def ex_call_def mk_record_key_def ex_key_def strip_empty_iff is_space_def)

lemma ex_after_claim:
  "w_store w = V2Store ex_empty \<Longrightarrow> fst (w_ext w) = 100 \<Longrightarrow>
     after_claim ex_env ex_key w = w\<lparr>w_store := V2Store ex_claimed, w_ext := (101, snd (w_ext w))\<rparr>"
  by (simp add: after_claim_def v2_call_def ex_env_def ops_of_def ex_claim map_prod_def case_prod_beta)

lemma ex_execute:
  assumes "log_in s w" "s \<in> {PENDING, TOOL_EXECUTING}" "w_store w = V2Store ex_empty" "fst (w_ext w) = 100"
  obtains cm where "execute_v2 ex_env ex_call ex_tool w =
      (Inr ex_result, w\<lparr>w_cm := cm, w_store := V2Store ex_completed,
         w_ext := (102, requests_of w, Suc (runs_of w))\<rparr>)"
    "log_in TOOL_EXECUTING (w\<lparr>w_cm := cm\<rparr>)"
proof -
  define w1 where "w1 = w\<lparr>w_store := V2Store ex_claimed, w_ext := (101, snd (w_ext w))\<rparr>"
  have "log_in s w1" using assms(1) by (simp add: w1_def log_in_def)
  then obtain cm where t: "tool_execute_with_retry ex_env ex_call ex_tool w1 =
      (Inr (Some (TR ex_result)), w1\<lparr>w_cm := cm, w_ext := map_prod id (map_prod id Suc) (w_ext w1)\<rparr>)"
    "log_in TOOL_EXECUTING (w1\<lparr>w_cm := cm\<rparr>)"
    by (rule ex_tool_runs [OF _ assms(2)])
  have "complete_v2 ex_env ex_key ex_result (w1\<lparr>w_cm := cm, w_ext := map_prod id (map_prod id Suc) (w_ext w1)\<rparr>) =
      (Inr (), w1\<lparr>w_cm := cm, w_store := V2Store ex_completed, w_ext := (102, requests_of w, Suc (runs_of w))\<rparr>)"
    by (simp add: complete_v2_def map_error_def v2_call_def ex_env_def ops_of_def w1_def map_prod_def case_prod_beta
        ex_complete [unfolded ex_data_def] requests_of_def runs_of_def)
  then have "execute_claimed_v2 ex_env ex_call ex_tool ex_key w1 =
      (Inr ex_result, w1\<lparr>w_cm := cm, w_store := V2Store ex_completed, w_ext := (102, requests_of w, Suc (runs_of w))\<rparr>)"
    using t(1) by (simp add: execute_claimed_v2_def settle_result_def) (simp add: ex_result_def)
  moreover have "execute_v2 ex_env ex_call ex_tool w = execute_claimed_v2 ex_env ex_call ex_tool ex_key w1"
    using assms(3,4) ex_claim
    by (simp add: execute_v2_def ex_record_key bind_op_def map_error_def v2_call_def ex_env_def ops_of_def
        w1_def map_prod_def case_prod_beta)
  ultimately show thesis using t(2) by (intro that [of cm]) (simp_all add: w1_def log_in_def)
qed

section \<open>The run of the example\<close>

lemma ex_execute_tool:
  assumes "log_in TOOL_EXECUTING w" "w_store w = V2Store ex_empty" "fst (w_ext w) = 100"
  obtains cm where "execute_tool ex_env ex_call w =
      (Inr ex_result, w\<lparr>w_cm := cm, w_store := V2Store ex_completed,
         w_ext := (102, requests_of w, Suc (runs_of w))\<rparr>)"
    "log_in TOOL_EXECUTING (w\<lparr>w_cm := cm\<rparr>)"
proof -
  let ?p = "[(''call_id'', PStr ''c1''), (''tool_name'', PStr ''t''), (''arguments'', PDict [])]"
  obtain cm1 where c1: "cp_log ex_env (\<lambda>io now. log_event io now ''run'' ''TOOL_CALL_CREATED'' ?p) w =
      (Inr (), w\<lparr>w_cm := cm1\<rparr>)" "log_in TOOL_EXECUTING (w\<lparr>w_cm := cm1\<rparr>)"
    by (rule ex_log [OF assms(1), of "''TOOL_CALL_CREATED''" ?p TOOL_EXECUTING])
      (auto simp: ex_types validate_state_transition_def)
  obtain cm where c: "execute_v2 ex_env ex_call ex_tool (w\<lparr>w_cm := cm1\<rparr>) =
      (Inr ex_result, (w\<lparr>w_cm := cm1\<rparr>)\<lparr>w_cm := cm, w_store := V2Store ex_completed,
         w_ext := (102, requests_of (w\<lparr>w_cm := cm1\<rparr>), Suc (runs_of (w\<lparr>w_cm := cm1\<rparr>)))\<rparr>)"
    "log_in TOOL_EXECUTING ((w\<lparr>w_cm := cm1\<rparr>)\<lparr>w_cm := cm\<rparr>)"
    by (rule ex_execute [OF c1(2)]) (use assms in auto)
  have t: "get_tool ''t'' (en_registry ex_env) = Some ex_tool" "en_jsonschema ex_env = (\<lambda>v s. SchemaOk)"
    by (simp_all add: get_tool_def ex_env_def)
  have "validate_call ex_env ex_call = (\<lambda>w. (Inr None, w))" "tc_name ex_call = ''t''"
    using t by (simp_all add: fun_eq_iff validate_call_def registry_validate_call_def ex_call_def)
  then have "execute_tool ex_env ex_call w = execute_v2 ex_env ex_call ex_tool (w\<lparr>w_cm := cm1\<rparr>)"
    using c1(1) assms(2) t(1)
    by (simp add: execute_tool_def log_tool_call_created_def ex_call_def [THEN arg_cong [where f = tc_run_id]]
        ex_call_def [THEN arg_cong [where f = tc_call_id]] ex_call_def [THEN arg_cong [where f = tc_arguments]]
        bind_op_def [of "\<lambda>w. (Inr None, w)"] dispatch_tool_def)
  with c show thesis by (intro that [of cm]) (simp_all add: requests_of_def runs_of_def)
qed

lemma ex_ask:
  assumes "log_in s w" "s \<in> {RUNNING, LLM_WAITING}"
  defines "resp \<equiv> (if requests_of w = 0
           then \<lparr>lr_content = PNone,
                 lr_tool_calls = [\<lparr>pc_call_id = PStr ''c1'', pc_name = PStr ''t'', pc_arguments = PDict []\<rparr>]\<rparr>
           else \<lparr>lr_content = PStr ''done'', lr_tool_calls = []\<rparr>)"
  obtains cm where
    "bind_op (cp_log ex_env (\<lambda>io now. log_llm_requested io now ''run'' (ls_iterations_used ls))) (\<lambda>_. ask_llm ex_env ''run'' ls) w =
       (Inr (Some resp), w\<lparr>w_cm := cm, w_ext := map_prod id (map_prod Suc id) (w_ext w)\<rparr>)"
    "log_in (if requests_of w = 0 then TOOL_EXECUTING else COMPLETED) (w\<lparr>w_cm := cm\<rparr>)"
proof -
  let ?p1 = "[(''iteration'', PInt (ls_iterations_used ls))]"
  let ?p2 = "[(''iteration'', PInt (ls_iterations_used ls)), (''has_content'', PBool (truthy (lr_content resp))),
        (''content'', lr_content resp), (''num_tool_calls'', PInt (int (length (lr_tool_calls resp)))),
        (''tool_calls'', PList (map call_payload (lr_tool_calls resp)))]"
  obtain cm1 where c1: "cp_log ex_env (\<lambda>io now. log_event io now ''run'' ''LLM_REQUESTED'' ?p1) w =
      (Inr (), w\<lparr>w_cm := cm1\<rparr>)" "log_in LLM_WAITING (w\<lparr>w_cm := cm1\<rparr>)"
    by (rule ex_log [OF assms(1), of "''LLM_REQUESTED''" ?p1 LLM_WAITING])
      (use assms(2) in \<open>auto simp: ex_types validate_state_transition_def\<close>)
  define w1 where "w1 = w\<lparr>w_cm := cm1, w_ext := map_prod id (map_prod Suc id) (w_ext w)\<rparr>"
  have "log_in LLM_WAITING w1" using c1(2) by (simp add: w1_def log_in_def)
  then obtain cm2 where c2: "cp_log ex_env (\<lambda>io now. log_event io now ''run'' ''LLM_RESPONDED'' ?p2) w1 =
      (Inr (), w1\<lparr>w_cm := cm2\<rparr>)" "log_in (if requests_of w = 0 then TOOL_EXECUTING else COMPLETED) (w1\<lparr>w_cm := cm2\<rparr>)"
    by (rule ex_log [of LLM_WAITING w1 "''LLM_RESPONDED''" ?p2
          "if requests_of w = 0 then TOOL_EXECUTING else COMPLETED"])
      (auto simp: ex_types validate_state_transition_def Let_def bind_result_def resp_def)
  have "en_generate ex_env ms ts (w\<lparr>w_cm := cm1\<rparr>) = (Inr resp, w1)" for ms ts
    by (simp add: ex_env_def ex_generate_def resp_def w1_def requests_of_def)
  then have "ask_llm ex_env ''run'' ls (w\<lparr>w_cm := cm1\<rparr>) = (Inr (Some resp), w1\<lparr>w_cm := cm2\<rparr>)"
    using c2(1) by (simp add: ask_llm_def log_llm_responded_def)
  with c1(1) c2(2) show thesis
    by (intro that [of cm2]) (simp_all add: log_llm_requested_def w1_def log_in_def)
qed

lemma bind_op_assoc: "bind_op (bind_op m f) g = bind_op m (\<lambda>x. bind_op (f x) g)"
  by (auto simp: fun_eq_iff bind_op_def split: prod.splits sum.splits)

lemma ex_token:
  "w_tokens w = [(''run'', new_token)] \<Longrightarrow> get_token ''run'' w = w \<and> \<not> is_cancelled ''run'' w"
  by (simp add: get_token_def is_cancelled_def new_token_def)

lemma ex_iteration:
  assumes "w_tokens w = [(''run'', new_token)]" "ls_iterations_used ls \<in> {0, 1}" "ls_tool_calls_used ls \<le> 5"
  shows "loop_iteration ex_env RunBatch ''run'' ls w =
    (let ls = ls\<lparr>ls_iterations_used := ls_iterations_used ls + 1\<rparr> in
     bind_op
      (bind_op (cp_log ex_env (\<lambda>io now. log_llm_requested io now ''run'' (ls_iterations_used ls)))
         (\<lambda>_. ask_llm ex_env ''run'' ls))
      (\<lambda>answer. case answer of
           None \<Rightarrow> (\<lambda>w. (Inr (Return None), w))
         | Some resp \<Rightarrow>
             if lr_tool_calls resp = [] then finish ex_env ''run'' (lr_content resp)
             else tool_batch ex_env RunBatch ''run'' (requested_calls ex_env ''run'' resp)
                    (add_message (assistant_message resp) ls)) w)"
proof -
  have "bd_allowed (budget_decide (en_policy ex_env) (usage_of ls) 1 0)"
    using assms(2,3) by (auto simp: budget_decide_allowed usage_of_def ex_env_def)
  with ex_token [OF assms(1)] show ?thesis
    by (simp add: loop_iteration_def Let_def bind_op_assoc)
qed

lemma ex_batch:
  assumes "log_in TOOL_EXECUTING w1" "w_store w1 = V2Store ex_empty" "fst (w_ext w1) = 100"
    "\<not> is_cancelled ''run'' w1" "ls_tool_calls_used ls = 0" "ls_seen_tool_call_ids ls = []" "ls_iterations_used ls \<le> 5"
  obtains cm where "tool_batch ex_env RunBatch ''run'' [(PStr ''c1'', Inr ex_call)] ls w1 =
      (Inr (Next (add_message (tool_reply (PStr ''c1'') ex_call ex_result)
          (ls\<lparr>ls_tool_calls_used := 1, ls_seen_tool_call_ids := [PStr ''c1'']\<rparr>))),
       w1\<lparr>w_cm := cm, w_store := V2Store ex_completed, w_ext := (102, requests_of w1, Suc (runs_of w1))\<rparr>)"
    "log_in LLM_WAITING (w1\<lparr>w_cm := cm\<rparr>)"
proof -
  from ex_execute_tool [OF assms(1-3)] obtain cm2 where x: "execute_tool ex_env ex_call w1 =
      (Inr ex_result, w1\<lparr>w_cm := cm2, w_store := V2Store ex_completed, w_ext := (102, requests_of w1, Suc (runs_of w1))\<rparr>)"
    "log_in TOOL_EXECUTING (w1\<lparr>w_cm := cm2\<rparr>)"
    by auto
  define w2 where "w2 = w1\<lparr>w_cm := cm2, w_store := V2Store ex_completed, w_ext := (102, requests_of w1, Suc (runs_of w1))\<rparr>"
  have "log_in TOOL_EXECUTING w2" using x(2) by (simp add: w2_def log_in_def)
  let ?p = "[(''call_id'', PStr ''c1''), (''tool_name'', PStr ''t''), (''status'', PStr ''success''),
        (''result'', ex_data), (''iteration_complete'', PBool True)]"
  obtain cm3 where l: "cp_log ex_env (\<lambda>io now. log_event io now ''run'' ''TOOL_RESULT_RECEIVED'' ?p) w2 =
      (Inr (), w2\<lparr>w_cm := cm3\<rparr>)" "log_in LLM_WAITING (w2\<lparr>w_cm := cm3\<rparr>)"
    by (rule ex_log [OF \<open>log_in TOOL_EXECUTING w2\<close>, of "''TOOL_RESULT_RECEIVED''" ?p LLM_WAITING])
      (auto simp: ex_types validate_state_transition_def)
  have lr: "log_tool_result_received io now ''run'' (PStr ''c1'') (tool_status_value (tr_status ex_result))
      (PStr (tc_name ex_call)) (PDict (tool_result_to_dict ex_result)) True =
    log_event io now ''run'' ''TOOL_RESULT_RECEIVED'' ?p" for io now
    by (simp add: log_tool_result_received_def ex_data_def) (simp add: ex_result_def ex_call_def tool_result_to_dict_def)
  let ?ls2 = "ls\<lparr>ls_tool_calls_used := 1, ls_seen_tool_call_ids := [PStr ''c1'']\<rparr>"
  have "charge_call (en_policy ex_env) (PStr ''c1'') ls = Inr (Inr ?ls2)"
    using assms(5-7) by (simp add: charge_call_def py_in_def Let_def budget_decide_def usage_of_def ex_env_def)
  moreover have "tool_step ex_env RunBatch ''run'' (PStr ''c1'') ex_call True ?ls2 w1 =
      (Inr (Next (add_message (tool_reply (PStr ''c1'') ex_call ex_result) ?ls2)), w2\<lparr>w_cm := cm3\<rparr>)"
    by (simp add: tool_step_def x(1) [folded w2_def] lr l(1))
  ultimately have "tool_batch ex_env RunBatch ''run'' [(PStr ''c1'', Inr ex_call)] ls w1 =
      (Inr (Next (add_message (tool_reply (PStr ''c1'') ex_call ex_result) ?ls2)), w2\<lparr>w_cm := cm3\<rparr>)"
    using assms(4) by simp
  with l(2) show thesis by (intro that [of cm3]) (simp_all add: w2_def log_in_def)
qed

lemma ex_first_round:
  assumes "log_in RUNNING w" "w_tokens w = [(''run'', new_token)]" "w_store w = V2Store ex_empty"
    and "w_ext w = (100, 0, 0)"
    and ls: "ls_iterations_used ls = 0" "ls_tool_calls_used ls = 0" "ls_seen_tool_call_ids ls = []"
  obtains cm ls' where "loop_iteration ex_env RunBatch ''run'' ls w =
      (Inr (Next ls'), w\<lparr>w_cm := cm, w_store := V2Store ex_completed, w_ext := (102, 1, 1)\<rparr>)"
    "log_in LLM_WAITING (w\<lparr>w_cm := cm\<rparr>)" "ls_iterations_used ls' = 1" "ls_tool_calls_used ls' \<le> 5"
proof -
  let ?ls = "ls\<lparr>ls_iterations_used := ls_iterations_used ls + 1\<rparr>"
  let ?resp = "\<lparr>lr_content = PNone,
       lr_tool_calls = [\<lparr>pc_call_id = PStr ''c1'', pc_name = PStr ''t'', pc_arguments = PDict []\<rparr>]\<rparr>"
  have rq: "requests_of w = 0" using assms(4) by (simp add: requests_of_def)
  obtain cm1 where a: "bind_op (cp_log ex_env (\<lambda>io now. log_llm_requested io now ''run'' (ls_iterations_used ?ls)))
      (\<lambda>_. ask_llm ex_env ''run'' ?ls) w =
       (Inr (Some ?resp), w\<lparr>w_cm := cm1, w_ext := map_prod id (map_prod Suc id) (w_ext w)\<rparr>)"
    "log_in TOOL_EXECUTING (w\<lparr>w_cm := cm1\<rparr>)"
    by (rule ex_ask [OF assms(1), of ?ls]) (auto simp: rq)
  define w1 where "w1 = w\<lparr>w_cm := cm1, w_ext := (100, 1, 0)\<rparr>"
  let ?ls1 = "add_message (assistant_message ?resp) ?ls"
  let ?ls2 = "?ls1\<lparr>ls_tool_calls_used := 1, ls_seen_tool_call_ids := [PStr ''c1'']\<rparr>"
  have w1: "log_in TOOL_EXECUTING w1" "w_store w1 = V2Store ex_empty" "fst (w_ext w1) = 100"
    "\<not> is_cancelled ''run'' w1"
    using a(2) assms by (simp_all add: w1_def log_in_def is_cancelled_def new_token_def)
  obtain cm3 where b: "tool_batch ex_env RunBatch ''run'' [(PStr ''c1'', Inr ex_call)] ?ls1 w1 =
      (Inr (Next (add_message (tool_reply (PStr ''c1'') ex_call ex_result) ?ls2)),
       w1\<lparr>w_cm := cm3, w_store := V2Store ex_completed, w_ext := (102, requests_of w1, Suc (runs_of w1))\<rparr>)"
    "log_in LLM_WAITING (w1\<lparr>w_cm := cm3\<rparr>)"
    by (rule ex_batch [OF w1, of ?ls1]) (use ls in \<open>auto simp: add_message_def\<close>)
  have "requested_calls ex_env ''run'' ?resp = [(PStr ''c1'', Inr ex_call)]"
    by (simp add: requested_calls_def mk_tool_call_def ex_env_def ex_call_def)
  then have "loop_iteration ex_env RunBatch ''run'' ls w =
      (Inr (Next (add_message (tool_reply (PStr ''c1'') ex_call ex_result) ?ls2)),
       w\<lparr>w_cm := cm3, w_store := V2Store ex_completed, w_ext := (102, 1, 1)\<rparr>)"
    using ex_iteration [OF assms(2), of ls] ls a(1) assms(4) b(1)
    by (simp add: Let_def w1_def requests_of_def runs_of_def)
  with b(2) show thesis
    by (intro that [of "add_message (tool_reply (PStr ''c1'') ex_call ex_result) ?ls2" cm3])
      (simp_all add: w1_def log_in_def add_message_def ls)
qed

lemma ex_last_round:
  assumes "log_in LLM_WAITING w" "w_tokens w = [(''run'', new_token)]" "w_ext w = (102, 1, 1)"
    and "ls_iterations_used ls = 1" "ls_tool_calls_used ls \<le> 5"
  obtains cm where "loop_iteration ex_env RunBatch ''run'' ls w =
      (Inr (Return (Some (Val (PStr ''done'')))), w\<lparr>w_cm := cm, w_ext := (102, 2, 1)\<rparr>)"
    "log_in COMPLETED (w\<lparr>w_cm := cm\<rparr>)"
proof -
  let ?ls = "ls\<lparr>ls_iterations_used := ls_iterations_used ls + 1\<rparr>"
  have rq: "requests_of w = 1" using assms(3) by (simp add: requests_of_def)
  obtain cm1 where a: "bind_op (cp_log ex_env (\<lambda>io now. log_llm_requested io now ''run'' (ls_iterations_used ?ls)))
      (\<lambda>_. ask_llm ex_env ''run'' ?ls) w =
       (Inr (Some \<lparr>lr_content = PStr ''done'', lr_tool_calls = []\<rparr>),
        w\<lparr>w_cm := cm1, w_ext := map_prod id (map_prod Suc id) (w_ext w)\<rparr>)"
    "log_in COMPLETED (w\<lparr>w_cm := cm1\<rparr>)"
    by (rule ex_ask [OF assms(1), of ?ls]) (auto simp: rq)
  define w1 where "w1 = w\<lparr>w_cm := cm1, w_ext := (102, 2, 1)\<rparr>"
  have "log_in COMPLETED w1" using a(2) by (simp add: w1_def log_in_def)
  then obtain cm2 where l2: "cp_log ex_env (\<lambda>io now. log_event io now ''run'' ''LLM_FINAL_RESPONSE''
      [(''has_content'', PBool True), (''content'', PStr ''done'')]) w1 = (Inr (), w1\<lparr>w_cm := cm2\<rparr>)"
    "log_in COMPLETED (w1\<lparr>w_cm := cm2\<rparr>)"
    by (rule ex_log [of COMPLETED w1 "''LLM_FINAL_RESPONSE''" _ COMPLETED])
      (auto simp: ex_types validate_state_transition_def)
  from l2(2) obtain cm3 where l3: "cp_log ex_env (\<lambda>io now. log_event io now ''run'' ''RUN_COMPLETED'' [])
      (w1\<lparr>w_cm := cm2\<rparr>) = (Inr (), (w1\<lparr>w_cm := cm2\<rparr>)\<lparr>w_cm := cm3\<rparr>)" "log_in COMPLETED ((w1\<lparr>w_cm := cm2\<rparr>)\<lparr>w_cm := cm3\<rparr>)"
    by (rule ex_log [of COMPLETED _ "''RUN_COMPLETED''" _ COMPLETED])
      (auto simp: ex_types validate_state_transition_def)
  have "finish ex_env ''run'' (PStr ''done'') w1 = (Inr (Return (Some (Val (PStr ''done'')))), w1\<lparr>w_cm := cm3\<rparr>)"
    using l2(1) l3(1) by (simp add: finish_def log_llm_final_response_def log_run_completed_def returned_def)
  then have "loop_iteration ex_env RunBatch ''run'' ls w =
      (Inr (Return (Some (Val (PStr ''done'')))), w1\<lparr>w_cm := cm3\<rparr>)"
    using ex_iteration [OF assms(2), of ls] assms(3-5) a(1) by (simp add: Let_def w1_def numeral_2_eq_2)
  with l3(2) show thesis by (intro that [of cm3]) (simp_all add: w1_def log_in_def)
qed

lemma ex_agent_run:
  obtains w where "agent_run ex_env ''run'' (PStr ''sys'') (PStr ''usr'') ex_world = (Inr (Some (Val (PStr ''done''))), w)"
    "log_in COMPLETED w" "requests_of w = 2" "runs_of w = 1"
proof -
  define w0 where "w0 = get_token ''run'' ex_world"
  have w0: "log_in PENDING w0" "w_tokens w0 = [(''run'', new_token)]" "w_store w0 = V2Store ex_empty" "w_ext w0 = (100, 0, 0)"
    using log_in_new by (auto simp: w0_def) (simp_all add: ex_world_def get_token_def)
  obtain cm1 where l: "cp_log ex_env (\<lambda>io now. log_event io now ''run'' ''RUN_STARTED''
       [(''system_prompt'', PStr ''sys''), (''user_prompt'', PStr ''usr'')]) w0 = (Inr (), w0\<lparr>w_cm := cm1\<rparr>)"
      "log_in RUNNING (w0\<lparr>w_cm := cm1\<rparr>)"
    by (rule ex_log [OF w0(1), of "''RUN_STARTED''" _ RUNNING]) (auto simp: ex_types validate_state_transition_def)
  let ?ls = "\<lparr>ls_messages = [mk_message SYSTEM (Val (PStr ''sys'')), mk_message USER (Val (PStr ''usr''))],
             ls_iterations_used = 0, ls_tool_calls_used = 0, ls_seen_tool_call_ids = []\<rparr>"
  obtain cm2 ls1 where r1: "loop_iteration ex_env RunBatch ''run'' ?ls (w0\<lparr>w_cm := cm1\<rparr>) =
      (Inr (Next ls1), (w0\<lparr>w_cm := cm1\<rparr>)\<lparr>w_cm := cm2, w_store := V2Store ex_completed, w_ext := (102, 1, 1)\<rparr>)"
    "log_in LLM_WAITING ((w0\<lparr>w_cm := cm1\<rparr>)\<lparr>w_cm := cm2\<rparr>)" "ls_iterations_used ls1 = 1" "ls_tool_calls_used ls1 \<le> 5"
    by (rule ex_first_round [OF l(2)]) (use w0 in auto)
  define w2 where "w2 = (w0\<lparr>w_cm := cm1\<rparr>)\<lparr>w_cm := cm2, w_store := V2Store ex_completed, w_ext := (102, 1, 1)\<rparr>"
  have w2: "log_in LLM_WAITING w2" "w_tokens w2 = [(''run'', new_token)]" "w_ext w2 = (102, 1, 1)"
    using r1(2) w0 by (simp_all add: w2_def log_in_def)
  obtain cm3 where r2: "loop_iteration ex_env RunBatch ''run'' ls1 w2 =
      (Inr (Return (Some (Val (PStr ''done'')))), w2\<lparr>w_cm := cm3, w_ext := (102, 2, 1)\<rparr>)"
    "log_in COMPLETED (w2\<lparr>w_cm := cm3\<rparr>)"
    by (rule ex_last_round [OF w2 r1(3,4)])
  have "agent_loop ex_env RunBatch ''run'' ?ls (w0\<lparr>w_cm := cm1\<rparr>) =
      (Inr (Some (Val (PStr ''done''))), w2\<lparr>w_cm := cm3, w_ext := (102, 2, 1)\<rparr>)"
    by (simp add: agent_loop.simps [of _ _ _ ?ls] agent_loop.simps [of _ _ _ ls1]
        r1(1) [folded w2_def] r2(1))
  then have "run_internal ex_env ''run'' (PStr ''sys'') (PStr ''usr'') ex_world =
      (Inr (Some (Val (PStr ''done''))), w2\<lparr>w_cm := cm3, w_ext := (102, 2, 1)\<rparr>)"
    using ex_token [OF w0(2)] l(1) by (simp add: run_internal_def w0_def [symmetric] Let_def log_run_started_def)
  then show thesis
    using r2(2)
    by (intro that [of "w2\<lparr>w_cm := cm3, w_ext := (102, 2, 1)\<rparr>"])
      (simp_all add: agent_run_def with_timeout_def wait_for_def log_in_def requests_of_def runs_of_def)
qed

section \<open>The example environment is orderly\<close>

lemma ex_preserves:
  "preserves (run_ok ''run'') (tl_execute ex_tool call)" "preserves (run_ok ''run'') (en_sleep ex_env d)"
  "preserves (run_ok ''run'') (en_generate ex_env ms ts)"
  by (simp_all add: preserves_def ex_tool_def ex_env_def ex_generate_def)

lemma ex_orderly: "orderly ex_env ''run''"
proof -
  have "en_registry ex_env = [(''t'', ex_tool)]" "en_cp ex_env = (\<lambda>x. ((io_fine, Fin 100), x))"
    by (simp_all add: ex_env_def)
  then show ?thesis
    using ex_preserves ex_run_id good_now_numeral by (simp add: orderly_def untorn_def io_fine_def)
qed

lemma ex_run_ok: "run_ok ''run'' ex_world"
  using new_log_repr by (auto simp: run_ok_def ex_world_def is_cancelled_def)

lemma ex_requests_steady: "steady (\<lambda>w. requests_of w \<le> n) ex_env r"
  by (auto simp: steady_def quiet_def preserves_def log_call_def cp_log_def ex_env_def ex_tool_def requests_of_def
      get_token_def case_prod_beta split: option.splits)

lemma ex_runs_quiet: "quiet (\<lambda>w. runs_of w = n) ex_env r"
  by (auto simp: quiet_def preserves_def log_call_def cp_log_def ex_env_def runs_of_def get_token_def
      case_prod_beta split: option.splits)

end
