(* ===== verification/Recovery_Properties.thy ===== *)
theory Recovery_Properties
  imports Example_Run
begin

text \<open>
  What replay, the integrity audit and the recovery gate guarantee: a session rebuilt from the log
  has exactly the unanswered calls as its pending calls, a valid audit means that the file parses,
  is sequenced, follows the state machine and replays, and the gate lets the agent loop touch a run
  only when the audit is valid and the run is not finished.
\<close>

section \<open>The audit\<close>

lemma verify_line_clean:
  assumes "verify_line nl st = Inr st'" "snd st' = []"
  shows "snd st = [] \<and> load_event_line r nl (fst st) = Inr (fst st')"
  using assms
  by (auto simp: verify_line_def load_event_line_def split: line.splits sum.splits exn.splits)

lemma verify_lines_clean:
  assumes "fold_result verify_line ls st = Inr (evs, [])"
  shows "snd st = [] \<and> fold_result (load_event_line r) ls (fst st) = Inr evs"
  using assms
proof (induction ls arbitrary: st)
  case (Cons l ls)
  then obtain st1 where st1: "verify_line l st = Inr st1" "fold_result verify_line ls st1 = Inr (evs, [])"
    by (auto simp: bind_result_Inr_iff)
  from Cons.IH [OF st1(2)] verify_line_clean [OF st1(1), of r] show ?case by (auto simp: bind_result_Inr_iff)
qed simp

lemma verify_transitions_clean:
  "verify_transitions es s = Inr (s', []) \<Longrightarrow> run_transitions es s = Inr s'"
  by (induction es arbitrary: s) (auto split: sum.splits exn.splits)

lemma verify_valid:
  assumes "verify md5 tx ok f r store = Inr rep" "ig_valid rep"
  obtains evs s where "ok" "load_events_for_run ok f r = Inr evs" "evs \<noteq> []"
    "run_transitions evs PENDING = Inr (ig_state rep)" "reconstruct_session md5 ok f r = Inr s"
    "se_last_state s = ig_state rep" "ig_state rep = COMPLETED \<longrightarrow> se_pending s = []"
    "dg_potential (analyze md5 tx ok f r) \<noteq> P_CORRUPT"
    "ig_potential rep = Some (dg_potential (analyze md5 tx ok f r))"
proof -
  from assms obtain j all issues st trs session ses where
    f: "f = Some j" "ok" "fold_result verify_line (List.enumerate 1 (jl_lines j)) ([], []) = Inr (all, issues)"
    and t: "run_events r all \<noteq> []" "verify_transitions (run_events r all) PENDING = Inr (st, trs)"
      "verify_session md5 ok f r = Inr (session, ses)"
    and i: "issues = []" "(case validate_event_sequence all of Inl x \<Rightarrow> [SequenceCorrupt x] | Inr _ \<Rightarrow> []) = []"
      "trs = []" "ses = []" "dg_potential (analyze md5 tx ok f r) \<noteq> P_CORRUPT" "ig_state rep = st"
      "ig_potential rep = Some (dg_potential (analyze md5 tx ok f r))"
    by (auto simp: verify_def bind_result_Inr_iff Let_def split: option.splits if_splits prod.splits)
  from f i(1) have "fold_result (load_event_line r) (List.enumerate 1 (jl_lines j)) [] = Inr all"
    using verify_lines_clean [of "List.enumerate 1 (jl_lines j)" "([], [])" all r] by simp
  moreover have "validate_event_sequence all = Inr ()" using i(2) by (auto split: sum.splits)
  ultimately have l: "load_events_for_run ok f r = Inr (run_events r all)"
    using f by (simp add: load_events_for_run_def)
  from t(2) i(3,6) have tr: "run_transitions (run_events r all) PENDING = Inr (ig_state rep)"
    using verify_transitions_clean by auto
  from t(3) i(4) obtain s where s: "reconstruct_session md5 ok f r = Inr s"
    "\<not> (se_last_state s = COMPLETED \<and> se_pending s \<noteq> [])"
    by (auto simp: verify_session_def split: sum.splits if_splits)
  from reconstruct_session_state [OF l s(1)] tr have "se_last_state s = ig_state rep" by simp
  with l t(1) tr s f(2) i(5,7) show thesis by (intro that) auto
qed

lemma analyze_state:
  assumes "load_events_for_run ok f r = Inr evs" "evs \<noteq> []" "reconstruct_session md5 ok f r = Inr s"
    and "dg_potential (analyze md5 tx ok f r) \<noteq> P_CORRUPT"
  shows "dg_current_state (analyze md5 tx ok f r) = se_last_state s \<and>
    dg_potential (analyze md5 tx ok f r) =
      (if se_last_state s = COMPLETED then P_COMPLETED
       else if is_terminal (se_last_state s) then P_NON_RECOVERABLE else P_RECOVERABLE) \<and>
    dg_pending (analyze md5 tx ok f r) = length (se_pending s) \<and>
    dg_completed (analyze md5 tx ok f r) = length (se_completed s)"
  using assms
  by (cases "se_last_state s")
    (auto simp: analyze_def corrupt_diagnostics_def classify_session_def is_terminal_def bind_result_def
      Let_def split: sum.splits if_splits)

lemma inspect_run_eq:
  "inspect_run md5 tx ok f r = Inr i \<longleftrightarrow>
     (\<exists>rep. f \<noteq> None \<and> verify md5 tx ok f r None = Inr rep \<and>
        i = \<lparr>ri_run_id = r, ri_integrity_report = rep, ri_diagnostics = analyze md5 tx ok f r\<rparr>)"
  by (auto simp: inspect_run_def bind_result_Inr_iff)

section \<open>An interrupted run\<close>

text \<open>A run that was stopped after the model had asked for one tool call.\<close>

definition ex_event :: "int \<Rightarrow> event_type \<Rightarrow> pydict \<Rightarrow> checkpoint_event" where
  "ex_event n t p = \<lparr>ev_run_id = ''run'', ev_sequence_id = n, ev_timestamp = Fin 5, ev_type = t, ev_payload = p\<rparr>"

definition ex_events :: "checkpoint_event list" where
  "ex_events =
     [ex_event 1 RUN_STARTED [], ex_event 2 LLM_REQUESTED [(''iteration'', PInt 1)],
      ex_event 3 LLM_RESPONDED
        [(''tool_calls'', PList [PDict [(''call_id'', PStr ''c1''), (''name'', PStr ''t'')]])]]"

definition ex_file :: "jsonl option" where
  "ex_file = Some \<lparr>jl_lines = map event_line ex_events, jl_open = False\<rparr>"

lemma ex_event_fields [simp]:
  "ev_run_id (ex_event n t p) = ''run''" "ev_sequence_id (ex_event n t p) = n" "ev_type (ex_event n t p) = t"
  "ev_payload (ex_event n t p) = p" "ev_timestamp (ex_event n t p) = Fin 5"
  by (simp_all add: ex_event_def)

lemma ex_event_wf: "1 \<le> n \<Longrightarrow> wf_event (ex_event n t p)"
  using good_now_numeral [of "num.Bit1 (num.Bit0 num.One)"] ex_run_id
  by (simp add: wf_event_def good_now_def)

lemma ex_transitions: "run_transitions ex_events PENDING = Inr TOOL_EXECUTING"
  by (simp add: ex_events_def validate_state_transition_def)

lemma ex_run_events: "run_events ''run'' ex_events = ex_events"
  by (simp add: ex_events_def)

lemma ex_log_repr: "log_repr ex_file ex_events"
proof -
  have "good_ts (Fin 5)" using good_now_numeral by (simp add: good_ts_def good_now_def)
  then have "wf_log ((([] @ [ex_event 1 RUN_STARTED []]) @ [ex_event 2 LLM_REQUESTED [(''iteration'', PInt 1)]]) @
      [ex_event 3 LLM_RESPONDED
        [(''tool_calls'', PList [PDict [(''call_id'', PStr ''c1''), (''name'', PStr ''t'')]])]])"
    unfolding wf_log_snoc
    by (simp add: ex_event_wf run_state_of_def validate_state_transition_def)
  then show ?thesis by (simp add: log_repr_def ex_file_def ex_events_def closed_file_def file_lines_def)
qed

lemma ex_session:
  obtains s where "reconstruct_session (\<lambda>n a. ''1'') True ex_file ''run'' = Inr s"
    "se_pending s = [(PStr ''c1'', ex_call)]" "se_completed s = []" "se_last_state s = TOOL_EXECUTING"
proof -
  have "load_events_for_run True ex_file ''run'' = Inr ex_events"
    using load_events_log [OF ex_log_repr, of "''run''"] ex_run_events by simp
  then have "\<exists>s. reconstruct_session (\<lambda>n a. ''1'') True ex_file ''run'' = Inr s \<and>
      se_pending s = [(PStr ''c1'', ex_call)] \<and> se_completed s = [] \<and> se_last_state s = TOOL_EXECUTING"
    by (simp add: reconstruct_session_def ex_events_def replay_event_def validate_state_transition_def replay_start_def
        replay_responded_def replay_tool_call_def mk_tool_call_def pd_put_def empty_session_def ex_call_def Let_def)
  with that show thesis by blast
qed

lemma verify_lines_events:
  "(\<forall>e \<in> set evs. wf_event e) \<Longrightarrow>
     fold_result verify_line (List.enumerate n (map event_line evs)) (acc, iss) = Inr (acc @ evs, iss)"
  by (induction evs arbitrary: n acc) (auto simp: verify_line_def event_line_def)

lemma verify_transitions_Inr: "run_transitions es s = Inr s' \<Longrightarrow> verify_transitions es s = Inr (s', [])"
  by (induction es arbitrary: s) (auto simp: bind_result_Inr_iff)

lemma ex_verify:
  obtains rep where "verify (\<lambda>n a. ''1'') tx True ex_file ''run'' None = Inr rep" "ig_valid rep"
proof -
  obtain s where s: "reconstruct_session (\<lambda>n a. ''1'') True ex_file ''run'' = Inr s" "se_last_state s = TOOL_EXECUTING"
    by (rule ex_session)
  have e: "\<forall>e \<in> set ex_events. wf_event e" "validate_event_sequence ex_events = Inr ()" "ex_events \<noteq> []"
    using ex_log_repr by (auto simp: log_repr_def wf_log_def validate_event_sequence_iff ex_events_def)
  have l: "load_events_for_run True ex_file ''run'' = Inr ex_events"
    using load_events_log [OF ex_log_repr, of "''run''"] ex_run_events by simp
  have "dg_potential (analyze (\<lambda>n a. ''1'') tx True ex_file ''run'') = P_RECOVERABLE"
    using l s e(3) by (simp add: analyze_def classify_session_def Let_def)
  moreover obtain j where j: "ex_file = Some j" "jl_lines j = map event_line ex_events" by (simp add: ex_file_def)
  have "fold_result verify_line (List.enumerate 1 (jl_lines j)) ([], []) = Inr (ex_events, [])"
    using verify_lines_events [OF e(1), of 1 "[]" "[]"] j(2) by simp
  moreover have "verify_session (\<lambda>n a. ''1'') True ex_file ''run'' = Inr (Some s, [])"
    using s by (simp add: verify_session_def)
  ultimately have "\<exists>rep. verify (\<lambda>n a. ''1'') tx True ex_file ''run'' None = Inr rep \<and> ig_valid rep"
    using e(2,3) verify_transitions_Inr [OF ex_transitions] ex_run_events
    unfolding verify_def j(1) by (simp add: Let_def verify_store_def)
  with that show thesis by blast
qed


section \<open>Properties\<close>

text \<open>
  C10. An audit that reports a valid run is sound: every line of the file is blank or a well-formed
  event, all runs in it are sequenced, the events of the run follow the state machine to the
  reported state, the session can be rebuilt, and a completed run has no unanswered tool call.
\<close>

theorem valid_audit_is_sound:
  assumes "verify md5 tx ok f r store = Inr rep" "ig_valid rep"
  shows "\<exists>evs s. load_events_for_run ok f r = Inr evs \<and> evs \<noteq> [] \<and>
     run_transitions evs PENDING = Inr (ig_state rep) \<and>
     reconstruct_session md5 ok f r = Inr s \<and> se_last_state s = ig_state rep \<and>
     (ig_state rep = COMPLETED \<longrightarrow> (\<forall>c. \<not> unanswered evs c))"
proof -
  from assms obtain evs s where e: "load_events_for_run ok f r = Inr evs" "evs \<noteq> []"
    "run_transitions evs PENDING = Inr (ig_state rep)" "reconstruct_session md5 ok f r = Inr s"
    "se_last_state s = ig_state rep" "ig_state rep = COMPLETED \<longrightarrow> se_pending s = []"
    by (rule verify_valid)
  from reconstruct_session_calls [OF e(1,4)] e(6)
  have "ig_state rep = COMPLETED \<longrightarrow> (\<forall>c. \<not> unanswered evs c)" by auto
  with e show ?thesis by blast
qed

theorem valid_audit_is_sound_witness:
  "\<exists>rep evs. verify (\<lambda>n a. ''1'') (en_text ex_env) True ex_file ''run'' None = Inr rep \<and>
     load_events_for_run True ex_file ''run'' = Inr evs \<and> run_transitions evs PENDING = Inr (ig_state rep)"
proof -
  obtain rep where "verify (\<lambda>n a. ''1'') (en_text ex_env) True ex_file ''run'' None = Inr rep" "ig_valid rep"
    by (rule ex_verify)
  from valid_audit_is_sound [OF this] this(1) show ?thesis by blast
qed

text \<open>
  C11. The recovery gate: the controller hands a run to the agent loop exactly when its log exists, its
  integrity audit is valid and its recorded state is not final. A missing log, an audit that raises
  and an audit that finds an issue raise; a valid audit means that the run's events load, follow the
  state machine to the audited state and replay, and then a completed run is answered from its
  session and a run that ended otherwise raises. In all cases but the first the agent loop does not
  occur in the answer and nothing is executed or written.
\<close>

theorem recovery_gate_is_closed:
  "if f = None then controlled_resume md5 tx ok f loop r w = (Inl FileNotFoundError, w)
   else case verify md5 tx ok f r None of
     Inl x \<Rightarrow> controlled_resume md5 tx ok f loop r w = (Inl x, w)
   | Inr rep \<Rightarrow>
       if \<not> ig_valid rep
       then controlled_resume md5 tx ok f loop r w = (Inl (CheckpointCorruptionError (PStr r) None IntegrityFailed), w)
       else \<exists>evs s. load_events_for_run ok f r = Inr evs \<and> evs \<noteq> [] \<and>
         run_transitions evs PENDING = Inr (ig_state rep) \<and> reconstruct_session md5 ok f r = Inr s \<and>
         controlled_resume md5 tx ok f loop r w =
           (if ig_state rep = COMPLETED then (Inr (cached_answer s), w)
            else if is_terminal (ig_state rep) then (Inl (RecoveryStateError (TerminalState (ig_state rep))), w)
            else loop r w)"
proof (cases "f = None \<or> (\<forall>rep. verify md5 tx ok f r None = Inr rep \<longrightarrow> \<not> ig_valid rep)")
  case True
  then show ?thesis
    by (auto simp: controlled_resume_def inspect_run_def ri_valid_def bind_result_def split: sum.split)
next
  case False
  then obtain j rep where rep: "f = Some j" "verify md5 tx ok f r None = Inr rep" "ig_valid rep" by auto
  from rep(2,3) obtain evs s where e: "load_events_for_run ok f r = Inr evs" "evs \<noteq> []"
    "run_transitions evs PENDING = Inr (ig_state rep)" "reconstruct_session md5 ok f r = Inr s"
    "se_last_state s = ig_state rep" and p: "dg_potential (analyze md5 tx ok f r) \<noteq> P_CORRUPT"
    by (rule verify_valid)
  have "inspect_run md5 tx ok f r =
      Inr \<lparr>ri_run_id = r, ri_integrity_report = rep, ri_diagnostics = analyze md5 tx ok f r\<rparr>"
    using rep(1,2) by (simp add: inspect_run_eq)
  then have "controlled_resume md5 tx ok f loop r w =
      (if ig_state rep = COMPLETED then (Inr (cached_answer s), w)
       else if is_terminal (ig_state rep) then (Inl (RecoveryStateError (TerminalState (ig_state rep))), w)
       else loop r w)"
    using e(4,5) rep(3) analyze_state [OF e(1,2,4) p] by (simp add: controlled_resume_def ri_valid_def)
  with e(1-4) rep show ?thesis by simp
qed

theorem recovery_gate_is_closed_witness:
  "\<exists>rep. verify (\<lambda>n a. ''1'') (en_text ex_env) True ex_file ''run'' None = Inr rep \<and> ig_valid rep \<and>
     \<not> is_terminal (ig_state rep) \<and>
     controlled_resume (\<lambda>n a. ''1'') (en_text ex_env) True ex_file (\<lambda>r w. (Inr None, Suc w)) ''run'' 0 = (Inr None, 1)"
proof -
  obtain rep where rep: "verify (\<lambda>n a. ''1'') (en_text ex_env) True ex_file ''run'' None = Inr rep" "ig_valid rep"
    by (rule ex_verify)
  have l: "load_events_for_run True ex_file ''run'' = Inr ex_events"
    using load_events_log [OF ex_log_repr, of "''run''"] ex_run_events by simp
  from recovery_gate_is_closed [of ex_file "\<lambda>n a. ''1''" "en_text ex_env" True "\<lambda>r w. (Inr None, Suc w)" "''run''" 0]
    rep l ex_transitions
  show ?thesis by (auto simp: ex_file_def is_terminal_def)
qed

text \<open>
  C12. Replay loses no work and repeats none: in a session rebuilt from a valid log, a tool call is
  pending exactly when some response asked for it and no later result answered it, it is completed
  exactly when a result was recorded, and the state is the one the log records.
\<close>

theorem replay_is_exact:
  assumes "log_repr f evs" "reconstruct_session md5 True f r = Inr s"
  shows "(PStr c \<in> fst ` set (se_pending s) \<longleftrightarrow> unanswered (run_events r evs) c) \<and>
    (PStr c \<in> fst ` set (se_completed s) \<longleftrightarrow> (\<exists>e \<in> set (run_events r evs). answers e c)) \<and>
    se_last_state s = run_state_of evs r"
proof -
  note l = load_events_log [OF assms(1), of r]
  have "run_transitions (run_events r evs) PENDING = Inr (se_last_state s)"
    by (rule reconstruct_session_state [OF l assms(2)])
  then have "se_last_state s = run_state_of evs r" by (simp add: run_state_of_def)
  with reconstruct_session_calls [OF l assms(2), of c] show ?thesis by simp
qed

theorem replay_is_exact_witness:
  "\<exists>s. reconstruct_session (\<lambda>n a. ''1'') True ex_file ''run'' = Inr s \<and>
     unanswered (run_events ''run'' ex_events) ''c1'' \<and> PStr ''c1'' \<in> fst ` set (se_pending s)"
proof -
  obtain s where s: "reconstruct_session (\<lambda>n a. ''1'') True ex_file ''run'' = Inr s"
    "se_pending s = [(PStr ''c1'', ex_call)]"
    by (rule ex_session)
  with replay_is_exact [OF ex_log_repr s(1), of "''c1''"] show ?thesis by auto
qed

end
