(* ===== verification/Agent_Properties.thy ===== *)
theory Agent_Properties
  imports Recovery_Properties
begin

text \<open>
  What the executor, the cancellation controller and the agent loop guarantee: a completed tool call
  is answered from its record and never run again, a refused claim runs nothing, the number of
  executions and of model requests is bounded by the policy, a run that returns has a finished log,
  and resuming respects both the recorded state and the budget that is already used.
\<close>

section \<open>The executor over the JSON-lines store\<close>

definition jsonl_backed :: "(jctx, jsonl_store, 'x) env \<Rightarrow> bool" where
  "jsonl_backed env \<longleftrightarrow> en_ops env = ops_of jsonl_claim jsonl_complete jsonl_fail \<and> en_owner_id env \<noteq> []"

definition store_ok :: "(jctx, jsonl_store, 'x) env \<Rightarrow> (jsonl_store, 'x) world \<Rightarrow> bool" where
  "store_ok env w \<longleftrightarrow>
     (\<exists>st. w_store w = V2Store st \<and> js_valid st \<and> js_good (fst (en_store env (w_ext w))) st)"

lemma store_ok_ready: "store_ok env w = js.store_ready env w"
  by (simp add: store_ok_def js.store_ready_def)

lemma ex_jsonl_backed: "jsonl_backed ex_env"
  by (simp add: jsonl_backed_def ex_env_def)

text \<open>
  C13. At most one success per key: once an executor has returned a successful result for a call
  (through a store whose writes tore no line and whose clock did not run back), no later execution of
  a call with the same key, by any executor, runs its tool: its outcome and everything it touches are
  the same for every tool, the store's file is only read, and it returns that very result or raises.
  This holds whatever public operations the store went through in between, with any outcome of their
  file operations and any clock, as long as none of them is a pruning that removes the record. When
  the file is healthy at the end and can be locked and read, the later execution returns the result.
\<close>

theorem executed_call_is_replayed:
  assumes "jsonl_backed env" "jsonl_backed env2"
    and "record_key_of call = Inr key" "record_key_of call2 = Inr key" "store_ok env w"
    and "store_ok env (snd (tool_execute_with_retry env call tool (after_claim env key w)))"
    and "execute_v2 env call tool w = (Inr r, w')" "tr_status r = T_SUCCESS" "wf_tool_result r"
    and "w_store w' = V2Store js"
    and "\<forall>op \<in> set ops. \<forall>rec. js_view js key = Some rec \<longrightarrow> \<not> prunes op rec"
    and "w_store w2 = V2Store (snd (run_ops ops js))"
  shows "\<exists>res st. (\<forall>tool2. execute_v2 env2 call2 tool2 w2 =
           (res, w2\<lparr>w_store := V2Store st, w_ext := snd (en_store env2 (w_ext w2))\<rparr>)) \<and>
         js_file st = js_file (snd (run_ops ops js)) \<and> (res = Inr r \<or> (\<exists>e. res = Inl e)) \<and>
         (js_valid (snd (run_ops ops js)) \<and> si_lock (fst (fst (en_store env2 (w_ext w2)))) \<and>
            si_read (fst (fst (en_store env2 (w_ext w2)))) \<longrightarrow> res = Inr r)"
proof -
  from js.execute_v2_completed [OF _ _ assms(3) _ _ assms(7-9)] assms(1,5,6)
  obtain rec where rec: "js_valid js" "js_view js key = Some rec" "ir_status rec = R_COMPLETED"
    "replay_completed_result rec = Inr r"
    using assms(10) by (auto simp: jsonl_backed_def store_ok_ready)
  then have t: "ir_status rec \<in> {R_COMPLETED, R_FAILED}" by simp
  let ?s = "snd (run_ops ops js)" and ?ctx = "fst (en_store env2 (w_ext w2))"
  have h: "holds_record key rec (js_file ?s)"
    using run_ops_holds [OF valid_holds_record [OF rec(1,2)] t, of ops "fst (run_ops ops js)" ?s] assms(11) rec(2)
    by simp
  obtain ans st where cl: "jsonl_claim ?ctx key (PStr (en_owner_id env2)) ?s = (ans, st)" by fastforce
  have read: "js_file st = js_file ?s" "\<forall>cr. ans = Inr cr \<longrightarrow> cr = terminal_claim rec"
    using terminal_claim_reads [OF h t cl] by simp_all
  let ?res = "case ans of Inl e \<Rightarrow> Inl (claim_error e) | Inr cr \<Rightarrow> Inr r"
  have "execute_v2 env2 call2 tool2 w2 = (?res, w2\<lparr>w_store := V2Store st, w_ext := snd (en_store env2 (w_ext w2))\<rparr>)" for tool2
    using cl read(2) assms(2,4,12) rec(3,4)
    by (cases ans)
      (simp_all add: execute_v2_def bind_op_def map_error_def v2_call_def ops_of_def jsonl_backed_def case_prod_beta
        terminal_claim_def)
  moreover have "?res = Inr r" if "js_valid ?s" "si_lock (fst ?ctx)" "si_read (fst ?ctx)"
  proof -
    obtain io now now' where ctx: "?ctx = (io, now, now')" by (cases ?ctx) auto
    have "en_owner_id env2 \<noteq> []" using assms(2) by (simp add: jsonl_backed_def)
    from terminal_claim_answered [OF that(1) holds_record_view [OF h] t _ _ this, of io now now'] that(2,3) cl ctx
    have "ans = Inr (terminal_claim rec)" by simp
    then show ?thesis by simp
  qed
  ultimately show ?thesis using read(1) by (intro exI [of _ ?res] exI [of _ st]) (auto split: sum.split)
qed

theorem executed_call_is_replayed_witness:
  "\<exists>w' js st. execute_v2 ex_env ex_call ex_tool ex_world = (Inr ex_result, w') \<and> runs_of w' = 1 \<and>
     w_store w' = V2Store js \<and>
     (let w2 = w'\<lparr>w_store := V2Store (snd (run_ops ex_traffic js))\<rparr>
      in execute_v2 ex_env ex_call (ex_tool\<lparr>tl_execute := (\<lambda>call w. (Inl TimeoutError, w))\<rparr>) w2 =
        (Inr ex_result, w2\<lparr>w_store := V2Store st, w_ext := (103, snd (w_ext w2))\<rparr>))"
proof -
  have w: "w_store ex_world = V2Store ex_empty" "w_ext ex_world = (100, 0, 0)" by (simp_all add: ex_world_def)
  have st: "en_store ex_env x = (at_time (fst x), map_prod (\<lambda>t. t + 1) id x)" for x by (simp add: ex_env_def)
  from ex_execute [OF log_in_new _ w(1)] obtain cm where x: "execute_v2 ex_env ex_call ex_tool ex_world =
      (Inr ex_result, ex_world\<lparr>w_cm := cm, w_store := V2Store ex_completed,
         w_ext := (102, requests_of ex_world, Suc (runs_of ex_world))\<rparr>)" (is "_ = (_, ?w)")
    using w(2) by auto
  have ok: "store_ok ex_env ex_world"
    using w ex_empty_valid ex_good(1) by (simp add: store_ok_def st)
  define w1 where "w1 = after_claim ex_env ex_key ex_world"
  have w1: "w1 = ex_world\<lparr>w_store := V2Store ex_claimed, w_ext := (101, 0, 0)\<rparr>"
    using ex_after_claim [of ex_world] w by (simp add: w1_def)
  have "log_in PENDING w1" using log_in_new by (simp add: w1)
  then obtain cm1 where "snd (tool_execute_with_retry ex_env ex_call ex_tool w1) =
      w1\<lparr>w_cm := cm1, w_ext := (101, 0, 1)\<rparr>"
    by (rule ex_tool_runs) (auto simp: w1)
  then have mid: "store_ok ex_env (snd (tool_execute_with_retry ex_env ex_call ex_tool (after_claim ex_env ex_key ex_world)))"
    using ex_claimed_valid ex_good(2) [of 101] by (simp add: store_ok_def st w1_def [symmetric]) (simp add: w1)
  have r: "tr_status ex_result = T_SUCCESS" "wf_tool_result ex_result"
    by (simp_all add: ex_result_def wf_tool_result_def)
  let ?w2 = "?w\<lparr>w_store := V2Store (snd (run_ops ex_traffic ex_completed))\<rparr>"
  have lock: "si_lock (fst (fst (en_store ex_env (w_ext ?w2))))" "si_read (fst (fst (en_store ex_env (w_ext ?w2))))"
    by (simp_all add: st at_time_def si_fine_def)
  from executed_call_is_replayed [OF ex_jsonl_backed ex_jsonl_backed ex_record_key ex_record_key ok mid x r,
      of ex_completed ex_traffic ?w2] ex_traffic_valid ex_traffic_keeps ex_completed_view lock
  show ?thesis using x w(2) by (auto simp: st runs_of_def requests_of_def Let_def)
qed

text \<open>
  A refused claim runs nothing: while another worker holds the lease of a key, or after the
  operation failed permanently, executing a call with that key returns a failure with the matching
  code; the tool does not run and the records are unchanged.
\<close>

theorem refused_claim_runs_nothing:
  assumes "jsonl_backed env" "record_key_of call = Inr key" "w_store w = V2Store st" "store_ok env w"
    and "en_store env (w_ext w) = ((si_fine, now, now'), x)" "js_view st key = Some rec"
    and "ir_status rec = R_IN_PROGRESS \<and> \<not> expired (js_ttl st) now rec \<or> ir_status rec = R_FAILED"
  shows "\<exists>st' e. execute_v2 env call tool w =
       (Inr (error_result call e), w\<lparr>w_store := V2Store st', w_ext := x\<rparr>) \<and>
     ae_code e = PStr (if ir_status rec = R_FAILED then ''IDEMPOTENCY_FAILED_PERMANENT'' else ''IDEMPOTENCY_IN_PROGRESS'') \<and>
     js_view st' = js_view st"
proof -
  have wk: "wf_key key" using assms(2) mk_record_key_Inr by (auto simp: record_key_of_def)
  have ok: "js_valid st" "js_good (si_fine, now, now') st"
    using assms(3-5) by (auto simp: store_ok_def)
  let ?st = "if ir_status rec = R_FAILED then FAILED_PERMANENT else ALREADY_IN_PROGRESS"
  have "spec_claim (js_ttl st) now now' key (en_owner_id env) (js_view st) =
      (\<lparr>cr_status = ?st, cr_record = rec\<rparr>, js_view st)"
    using assms(6,7) by (auto simp: spec_claim_def Let_def)
  with jsonl_claim_fine [OF ok wk, of "en_owner_id env"] assms(1) obtain st' where
    "jsonl_claim (si_fine, now, now') key (PStr (en_owner_id env)) st = (Inr \<lparr>cr_status = ?st, cr_record = rec\<rparr>, st')"
    "js_view st' = js_view st"
    by (auto simp: jsonl_backed_def) (metis prod.collapse)
  then show ?thesis
    using assms
    by (intro exI [of _ st'] exI [of _ "mk_agent_exception
          (PStr (if ir_status rec = R_FAILED
                 then ''Tool execution previously failed permanently for this idempotency key.''
                 else ''Tool execution is already in progress for this idempotency key.''))
          (PStr (if ir_status rec = R_FAILED then ''IDEMPOTENCY_FAILED_PERMANENT'' else ''IDEMPOTENCY_IN_PROGRESS''))
          (PBool False) PNone"])
      (auto simp: execute_v2_def bind_op_def map_error_def v2_call_def ops_of_def jsonl_backed_def failure_result_def
        mk_agent_exception_def split: if_splits)
qed

theorem refused_claim_runs_nothing_witness:
  "\<exists>st' e. execute_v2 (ex_env\<lparr>en_owner_id := ''B''\<rparr>) ex_call ex_tool
        (ex_world\<lparr>w_store := V2Store ex_claimed, w_ext := (150, 0, 0)\<rparr>) =
      (Inr (error_result ex_call e), ex_world\<lparr>w_store := V2Store st', w_ext := (151, 0, 0)\<rparr>) \<and>
     ae_code e = PStr ''IDEMPOTENCY_IN_PROGRESS'' \<and> js_view st' = js_view ex_claimed"
proof -
  let ?env = "ex_env\<lparr>en_owner_id := ''B''\<rparr>"
  let ?w = "ex_world\<lparr>w_store := V2Store ex_claimed, w_ext := (150, 0, 0)\<rparr>"
  have st: "en_store ?env (150, 0, 0) = ((si_fine, Fin 150, Fin 150), (151, 0, 0))"
    by (simp add: ex_env_def at_time_def)
  then have "store_ok ?env ?w"
    using ex_claimed_valid ex_good(2) [of 150] by (simp add: store_ok_def at_time_def)
  moreover have "jsonl_backed ?env" by (simp add: jsonl_backed_def ex_env_def)
  ultimately show ?thesis
    using refused_claim_runs_nothing [of ?env ex_call ex_key ?w ex_claimed "Fin 150" "Fin 150" "(151, 0, 0)" ex_record ex_tool]
      ex_record_key st ex_claimed_view ex_lease(1)
    by simp
qed

text \<open>
  One execution of a call runs its tool at most \<open>max_attempts\<close> times, whatever the tool, the
  store and the log do; the counter may be any measure that only a run of the tool raises.
\<close>

theorem tool_runs_are_bounded:
  assumes "\<And>n. quiet (\<lambda>w. cnt w = n) env (tc_run_id call)"
    and "\<And>w. cnt (snd (tl_execute tool call w)) \<le> Suc (cnt w)"
  shows "cnt (snd (execute_v2 env call tool w)) \<le> cnt w + nat (rp_max_attempts (en_retry env))"
  using assms by (rule execute_v2_runs)

theorem tool_runs_are_bounded_witness:
  "runs_of (snd (execute_v2 ex_env ex_call (ex_tool\<lparr>tl_execute :=
      (\<lambda>call w. (Inl TimeoutError, w\<lparr>w_ext := map_prod id (map_prod id Suc) (w_ext w)\<rparr>))\<rparr>) ex_world)) \<le> 3"
proof -
  have "rp_max_attempts (en_retry ex_env) = 3" by (simp add: ex_env_def three_attempts_def)
  moreover have "runs_of ex_world = 0" by (simp add: ex_world_def runs_of_def)
  ultimately show ?thesis
    using tool_runs_are_bounded [of runs_of ex_env ex_call "ex_tool\<lparr>tl_execute :=
        (\<lambda>call w. (Inl TimeoutError, w\<lparr>w_ext := map_prod id (map_prod id Suc) (w_ext w)\<rparr>))\<rparr>" ex_world, OF ex_runs_quiet]
    by (simp add: runs_of_def)
qed

section \<open>Cancellation\<close>

lemma cancel_log:
  assumes "cancel env r reason event w = (Inr (), w')" "\<not> is_cancelled r w"
  obtains w1 where "log_call env r (event_type_value RUN_HALTED)
      [(''reason'', PStr (control_event_value event @ '': '' @ reason))] (get_token r w) = (Inr (), w1)"
    "w_cm w' = w_cm w1"
proof -
  obtain res1 w1 where l: "cp_log env (\<lambda>io now. log_run_halted io now r (control_event_value event @ '': '' @ reason))
      (get_token r w) = (res1, w1)" by force
  with assms have "res1 = Inr ()" "w_cm w' = w_cm w1" by (cases res1; auto simp: cancel_def bind_op_def Let_def)+
  with l show thesis by (intro that) (simp_all add: log_call_def log_run_halted_def)
qed

text \<open>
  Cancellation commits first: a run is marked cancelled in memory exactly when its halt was
  written, and then the log says HALTED, the invariant between tokens and log holds again, other
  runs are not affected, and a run started under that id afterwards returns at once without a trace.
\<close>

theorem cancellation_commits_first:
  assumes "orderly env r" "run_ok r w" "\<not> is_cancelled r w" "cancel env r reason event w = (res, w')"
  shows "(is_cancelled r w' \<longleftrightarrow> res = Inr ()) \<and> (\<forall>q. q \<noteq> r \<longrightarrow> is_cancelled q w' = is_cancelled q w) \<and>
    (res = Inr () \<longrightarrow> run_ok r w' \<and> (\<exists>evs. log_repr (cm_file (w_cm w')) evs \<and> run_state_of evs r = HALTED) \<and>
       agent_run env2 r sp up w' = (Inr None, get_token r w'))"
proof -
  note c = cancel_commit_first(1) [OF assms(4,3)]
  have run: "agent_run env2 r sp up w' = (Inr None, get_token r w')" if "is_cancelled r w'"
    using that by (simp add: agent_run_def with_timeout_def wait_for_def run_internal_def Let_def)
  have halted: "\<exists>evs. log_repr (cm_file (w_cm w')) evs \<and> run_state_of evs r = HALTED" if ok: "res = Inr ()"
  proof -
    from assms(3,4) ok obtain w1 where w1: "log_call env r (event_type_value RUN_HALTED)
        [(''reason'', PStr (control_event_value event @ '': '' @ reason))] (get_token r w) = (Inr (), w1)"
      "w_cm w' = w_cm w1"
      by (auto elim: cancel_log)
    from log_call_end [OF assms(1) _ w1(1), of HALTED] assms(2) w1(2) show ?thesis by auto
  qed
  then have "run_ok r w'" if "res = Inr ()"
    using that by (auto simp: run_ok_def is_terminal_def)
  with c run halted cancel_commit_first(2) [OF assms(4,3)] show ?thesis by blast
qed

theorem cancellation_commits_first_witness:
  "\<exists>w'. cancel ex_env ''run'' ''stop'' CANCEL ex_world = (Inr (), w') \<and> is_cancelled ''run'' w' \<and>
     agent_run ex_env ''run'' PNone PNone w' = (Inr None, get_token ''run'' w')"
proof -
  let ?w = "get_token ''run'' ex_world"
  have nc: "\<not> is_cancelled ''run'' ex_world" by (simp add: is_cancelled_def ex_world_def)
  have "log_in PENDING ?w" using log_in_new by simp
  then obtain cm where l: "cp_log ex_env (\<lambda>io now. log_event io now ''run'' ''RUN_HALTED''
      [(''reason'', PStr ''CANCEL: stop'')]) ?w = (Inr (), ?w\<lparr>w_cm := cm\<rparr>)"
    by (rule ex_log [of PENDING ?w "''RUN_HALTED''" _ HALTED])
      (auto simp: event_type_of_names validate_state_transition_def)
  obtain res w' where c: "cancel ex_env ''run'' ''stop'' CANCEL ex_world = (res, w')" by force
  with l nc have "res = Inr ()"
    by (auto simp: cancel_def log_run_halted_def control_event_value_def Let_def)
  with c cancellation_commits_first [OF ex_orderly ex_run_ok nc c, of ex_env PNone PNone] show ?thesis by auto
qed

section \<open>The agent loop\<close>



text \<open>
  C15. A run asks the model at most \<open>max_iterations\<close> times, however the model, the tools and the disk
  behave; the counter may be any measure that only a model request raises.
\<close>

theorem model_requests_are_bounded:
  assumes "\<And>n. steady (\<lambda>w. cnt w \<le> n) env r"
    and "\<And>ms ts w. cnt (snd (en_generate env ms ts w)) \<le> Suc (cnt w)"
  shows "cnt (snd (agent_run env r sp up w)) \<le> cnt w + nat (pol_max_iterations (en_policy env))"
proof -
  let ?P = "\<lambda>v. cnt v \<le> cnt w + nat (pol_max_iterations (en_policy env))"
  let ?ls = "\<lparr>ls_messages = [mk_message SYSTEM (Val sp), mk_message USER (Val up)],
             ls_iterations_used = 0, ls_tool_calls_used = 0, ls_seen_tool_call_ids = []\<rparr>"
  have "leads (\<lambda>v. cnt v \<le> cnt w) ?P (agent_loop env RunBatch r ?ls)"
    using agent_loop_requests [of cnt env r RunBatch ?ls, OF assms] by (force simp: leads_def intro: le_trans)
  then have "leads (\<lambda>v. cnt v \<le> cnt w) ?P (bind_op (cp_log env (\<lambda>io now. log_run_started io now r sp up))
      (\<lambda>_. agent_loop env RunBatch r ?ls))"
    unfolding log_methods using steady_quiet [OF assms(1)] by (intro leads_after preserves_intros) auto
  moreover have "cnt (get_token r w) \<le> cnt w" using assms(1) [of "cnt w"] by (simp add: steady_def quiet_def)
  ultimately have "?P (snd (run_internal env r sp up w))"
    by (auto simp: run_internal_def leads_def Let_def)
  with with_timeout_keeps [OF assms(1)] show ?thesis by (simp add: agent_run_def)
qed

theorem model_requests_are_bounded_witness:
  "requests_of (snd (agent_run ex_env ''run'' (PStr ''sys'') (PStr ''usr'') ex_world)) \<le> 5"
proof -
  have "requests_of (snd (en_generate ex_env ms ts w)) \<le> Suc (requests_of w)" for ms ts w
    by (simp add: ex_env_def ex_generate_def requests_of_def)
  from model_requests_are_bounded [of requests_of, OF ex_requests_steady this, of "''run''" "PStr ''sys''" "PStr ''usr''" ex_world]
  show ?thesis by (simp add: ex_world_def requests_of_def ex_env_def)
qed

section \<open>Resuming\<close>

definition readable :: "('c, 'st, 'x) env \<Rightarrow> bool" where
  "readable env \<longleftrightarrow> (\<forall>x. fst (en_read env x))"

lemma cp_read_readable:
  "readable env \<Longrightarrow> cp_read env f w = (f True (cm_file (w_cm w)), w\<lparr>w_ext := snd (en_read env (w_ext w))\<rparr>)"
  by (auto simp: readable_def cp_read_def case_prod_beta)

lemma pd_set_values: "(k', x) \<in> set (pd_set k v d) \<Longrightarrow> x = v \<or> (\<exists>k''. (k'', x) \<in> set d)"
  by (induction k v d rule: pd_set.induct) (auto split: if_splits)

lemma replay_tool_call_run:
  assumes "replay_tool_call md5 r tc st = Inr st'" "\<forall>(k, call) \<in> set (snd st). tc_run_id call = r"
  shows "\<forall>(k, call) \<in> set (snd st'). tc_run_id call = r"
proof -
  have mk: "mk_tool_call md5 name args cid r = Inr call \<Longrightarrow> tc_run_id call = r" for name args cid call
    by (auto simp: mk_tool_call_def split: pyval.splits)
  from assms(1) obtain d where d: "tc = PDict d" by (cases tc) (auto simp: replay_tool_call_def)
  with assms(1) obtain cid name args call0 where
    c: "mk_tool_call md5 name args cid r = Inr call0"
      "pd_put cid (if has_key d ''idempotency_key''
         then call0\<lparr>tc_idempotency_key := dget d ''idempotency_key'' PNone\<rparr> else call0) (snd st) = Inr (snd st')"
    by (auto simp: replay_tool_call_def bind_result_Inr_iff Let_def split del: if_split)
  then obtain call where "pd_put cid call (snd st) = Inr (snd st')" "tc_run_id call = r"
    using mk [OF c(1)] by (cases "has_key d ''idempotency_key''") auto
  then show ?thesis
    using assms(2) pd_set_values [of _ _ cid call "snd st"] by (fastforce simp: pd_put_def split: if_splits)
qed

lemma replay_event_run:
  assumes "replay_event md5 r e s = Inr s'" "\<forall>(k, call) \<in> set (se_pending s). tc_run_id call = r"
  shows "\<forall>(k, call) \<in> set (se_pending s'). tc_run_id call = r"
proof -
  have fold: "\<forall>(k, call) \<in> set (snd st'). tc_run_id call = r"
    if "fold_result (replay_tool_call md5 r) tcs st = Inr st'" "\<forall>(k, call) \<in> set (snd st). tc_run_id call = r"
    for tcs st st'
    using that
    by (rule fold_result_invariant [where P = "\<lambda>st. \<forall>(k, call) \<in> set (snd st). tc_run_id call = r"])
      (use replay_tool_call_run in blast)
  show ?thesis
    using assms
    by (auto simp: replay_event_def replay_start_def replay_responded_def replay_result_def pd_pop_def
        bind_result_Inr_iff Let_def split: if_splits dest!: fold)
qed

lemma reconstruct_session_run:
  assumes "reconstruct_session md5 ok f r = Inr s"
  shows "calls_of r (map (map_prod id Inr) (se_pending s))"
proof -
  have "\<forall>(k, call) \<in> set (se_pending s'). tc_run_id call = r"
    if "fold_result (replay_event md5 r) evs (empty_session r) = Inr s'" for evs s'
    using that
    by (rule fold_result_invariant [where P = "\<lambda>s. \<forall>(k, call) \<in> set (se_pending s). tc_run_id call = r"])
      (simp add: empty_session_def, use replay_event_run in blast)
  then have "\<forall>(k, call) \<in> set (se_pending s). tc_run_id call = r"
    using assms by (fastforce simp: reconstruct_session_def bind_result_Inr_iff empty_session_def split: if_splits)
  then show ?thesis by (auto simp: calls_of_def)
qed

lemma bind_op_cases:
  obtains e s1 where "m s = (Inl e, s1)" "bind_op m f s = (Inl e, s1)"
  | x s1 where "m s = (Inr x, s1)" "bind_op m f s = f x s1"
  by (cases "m s"; cases "fst (m s)") auto

text \<open>
  Resuming cannot exceed the budget: the iterations a run has used are read back from its durable
  events, and \<open>resume\<close> asks the model at most as often as the policy still allows.
\<close>

theorem resume_respects_used_budget:
  assumes "log_repr (cm_file (w_cm w)) evs" "readable env" "reconstruct_usage (run_events r evs) = Inr u"
    and "\<And>n. steady (\<lambda>w. cnt w \<le> n) env r"
    and "\<And>ms ts w. cnt (snd (en_generate env ms ts w)) \<le> Suc (cnt w)"
  shows "cnt (snd (agent_resume env r w)) \<le>
    cnt w + nat (pol_max_iterations (en_policy env) - bu_iterations_used u)"
proof -
  let ?n = "nat (pol_max_iterations (en_policy env) - bu_iterations_used u)"
  let ?x = "\<lambda>w. w\<lparr>w_ext := snd (en_read env (w_ext w))\<rparr>"
  have rd: "cnt (?x v) \<le> cnt v" for v using assms(4) [of "cnt v"] by (simp add: steady_def quiet_def)
  define w1 where "w1 = ?x w" define w2 where "w2 = ?x w1" define w3 where "w3 = ?x w2"
  have cw: "cnt w1 \<le> cnt w" "cnt w2 \<le> cnt w" "cnt w3 \<le> cnt w"
    using rd [of w] rd [of w1] rd [of w2] by (auto simp: w1_def w2_def w3_def)
  have cm: "w_cm w1 = w_cm w" "w_cm w2 = w_cm w" by (simp_all add: w1_def w2_def)
  note rr = cp_read_readable [OF assms(2)]
  have rec: "cnt (snd (resume_recoverable env r w1)) \<le> cnt w + ?n"
  proof (cases "reconstruct_session (en_md5 env) True (cm_file (w_cm w)) r")
    case (Inl e)
    then have "resume_recoverable env r w1 = (Inl e, w2)"
      by (simp add: resume_recoverable_def bind_op_def rr cm w2_def)
    with cw show ?thesis by simp
  next
    case (Inr s)
    let ?ls = "\<lparr>ls_messages = se_messages s, ls_iterations_used = bu_iterations_used u,
                ls_tool_calls_used = bu_tool_calls_used u, ls_seen_tool_call_ids = bu_seen_tool_call_ids u\<rparr>"
    let ?d = "budget_decide (en_policy env) (usage_of ?ls) 0 0"
    let ?batch = "if \<not> bd_allowed ?d then halt env r (decision_reason ?d ''MAX_TOOL_CALLS_REACHED'')
                else tool_batch env PendingBatch r (map (map_prod id Inr) (se_pending s)) ?ls"
    have eq: "resume_recoverable env r w1 =
      bind_op ?batch (\<lambda>out. case out of Return v \<Rightarrow> (\<lambda>w. (Inr v, w)) | Next ls \<Rightarrow> agent_loop env ResumeBatch r ls) w3"
      using Inr load_events_log [OF assms(1), of r] assms(3)
      by (simp add: resume_recoverable_def bind_op_def [of "cp_read _ _"] rr cm w2_def [symmetric] w3_def [symmetric] Let_def)
    obtain res w4 where b: "?batch w3 = (res, w4)" by force
    have "preserves (\<lambda>v. cnt v \<le> cnt w) ?batch"
      using assms(4) steady_quiet [OF assms(4)] reconstruct_session_run [OF Inr] by (auto intro!: preserves_intros)
    from preservesD [OF this b] cw have w4: "cnt w4 \<le> cnt w" by simp
    show ?thesis
    proof (cases "\<exists>ls'. res = Inr (Next ls')")
      case True
      then obtain ls' where ls': "res = Inr (Next ls')" by blast
      with b have "ls_iterations_used ls' = bu_iterations_used u"
        by (auto simp: halt_def split: if_splits elim!: bind_op_InrE dest!: tool_batch_iterations)
      with agent_loop_requests [of cnt env r ResumeBatch ls' w4, OF assms(4,5)] w4 b ls' show ?thesis
        by (simp add: eq)
    next
      case False
      with b have "snd (resume_recoverable env r w1) = w4"
        by (auto simp: eq bind_op_def split: sum.splits loop_outcome.splits)
      with w4 show ?thesis by simp
    qed
  qed
  have "cnt (snd (resume_internal env r w)) \<le> cnt w + ?n"
    using rec cw
    by (auto simp: resume_internal_def bind_op_def rr w1_def [symmetric] w2_def [symmetric]
        split: recovery_potential.split sum.split)
  with with_timeout_keeps [OF assms(4)] show ?thesis by (simp add: agent_resume_def)
qed

definition ex_stopped :: ex_state where
  "ex_stopped = ex_world\<lparr>w_cm := new_log\<lparr>cm_file := ex_file\<rparr>\<rparr>"

theorem resume_respects_used_budget_witness:
  "requests_of (snd (agent_resume ex_env ''run'' ex_stopped)) \<le> 4"
proof -
  have u: "\<exists>u. reconstruct_usage (run_events ''run'' ex_events) = Inr u \<and> bu_iterations_used u = 1"
    by (simp add: ex_run_events) (simp add: ex_events_def reconstruct_usage_def usage_step_def add_responded_calls_def
        add_executed_call_def add_listed_call_def add_iteration_def set_add_def py_in_def)
  have f: "log_repr (cm_file (w_cm ex_stopped)) ex_events" using ex_log_repr by (simp add: ex_stopped_def)
  have g: "requests_of (snd (en_generate ex_env ms ts w)) \<le> Suc (requests_of w)" for ms ts w
    by (simp add: ex_env_def ex_generate_def requests_of_def)
  have "readable ex_env" by (simp add: readable_def ex_env_def)
  from u resume_respects_used_budget [of ex_stopped ex_events ex_env "''run''" _ requests_of,
      OF f this _ ex_requests_steady g]
  show ?thesis by (auto simp: ex_stopped_def ex_world_def requests_of_def ex_env_def)
qed

text \<open>
  A finished run cannot be revived: resuming a run whose log records a final state executes no
  tool, asks no model and writes nothing. A completed run gives its recorded answer; a failed or
  halted one raises the recovery error.
\<close>

theorem finished_run_is_not_revived:
  assumes "log_repr (cm_file (w_cm w)) evs" "readable env" "run_events r evs \<noteq> []"
    and "is_terminal (run_state_of evs r)"
  shows "\<exists>res x. agent_resume env r w = (res, w\<lparr>w_ext := x\<rparr>) \<and>
    (run_state_of evs r = COMPLETED \<longrightarrow>
       (\<forall>s. reconstruct_session (en_md5 env) True (cm_file (w_cm w)) r = Inr s \<longrightarrow> res = Inr (cached_answer s))) \<and>
    (run_state_of evs r \<noteq> COMPLETED \<longrightarrow> (\<exists>reason. res = Inl (RecoveryStateError reason)))"
proof -
  note rr = cp_read_readable [OF assms(2)]
  note l = load_events_log [OF assms(1), of r]
  let ?diag = "analyze (en_md5 env) (en_text env) True (cm_file (w_cm w)) r"
  have st: "se_last_state s = run_state_of evs r"
    if "reconstruct_session (en_md5 env) True (cm_file (w_cm w)) r = Inr s" for s
    using reconstruct_session_state [OF l that] by (simp add: run_state_of_def)
  show ?thesis
  proof (cases "dg_potential ?diag = P_CORRUPT")
    case True
    have "run_state_of evs r \<noteq> COMPLETED \<or> reconstruct_session (en_md5 env) True (cm_file (w_cm w)) r \<noteq> Inr s" for s
      using True l assms(3) st [of s] by (auto simp: analyze_def classify_session_def Let_def)
    with True show ?thesis
      by (auto simp: agent_resume_def with_timeout_def wait_for_def resume_internal_def bind_op_def rr)
  next
    case False
    then obtain s where s: "reconstruct_session (en_md5 env) True (cm_file (w_cm w)) r = Inr s"
      using l assms(3) by (auto simp: analyze_def corrupt_diagnostics_def bind_result_def split: sum.splits)
    from analyze_state [OF l assms(3) s False] st [OF s] assms(4)
    have p: "dg_potential ?diag = (if run_state_of evs r = COMPLETED then P_COMPLETED else P_NON_RECOVERABLE)" by simp
    show ?thesis
    proof (cases "run_state_of evs r = COMPLETED")
      case True
      with p s show ?thesis
        by (simp add: agent_resume_def with_timeout_def wait_for_def resume_internal_def bind_op_def rr)
          (rule exI, rule refl)
    next
      case False
      with p show ?thesis
        by (simp add: agent_resume_def with_timeout_def wait_for_def resume_internal_def bind_op_def rr)
          (rule exI, rule refl)
    qed
  qed
qed

theorem finished_run_is_not_revived_witness:
  "\<exists>w' res x. agent_run ex_env ''run'' (PStr ''sys'') (PStr ''usr'') ex_world = (Inr (Some (Val (PStr ''done''))), w') \<and>
     agent_resume ex_env ''run'' w' = (res, w'\<lparr>w_ext := x\<rparr>)"
proof -
  obtain w' where w': "agent_run ex_env ''run'' (PStr ''sys'') (PStr ''usr'') ex_world = (Inr (Some (Val (PStr ''done''))), w')"
    "log_in COMPLETED w'"
    by (rule ex_agent_run)
  then obtain evs where e: "log_repr (cm_file (w_cm w')) evs" "run_state_of evs ''run'' = COMPLETED"
    by (auto simp: log_in_def)
  have "run_events ''run'' evs \<noteq> []" using e(2) by (auto simp: run_state_of_def)
  moreover have "readable ex_env" by (simp add: readable_def ex_env_def)
  ultimately show ?thesis
    using finished_run_is_not_revived [OF e(1), of ex_env "''run''"] e(2) w'(1) by (auto simp: is_terminal_def)
qed

section \<open>The tool budget\<close>

definition accounted :: "run_policy \<Rightarrow> loop_state \<Rightarrow> bool" where
  "accounted policy ls \<longleftrightarrow>
     distinct (ls_seen_tool_call_ids ls) \<and> (\<forall>v \<in> set (ls_seen_tool_call_ids ls). \<exists>i. v = PStr i) \<and>
     ls_tool_calls_used ls = int (length (ls_seen_tool_call_ids ls)) \<and>
     ls_tool_calls_used ls \<le> pol_max_tool_calls policy"

lemma py_in_str: "py_in (PStr i) l \<longleftrightarrow> PStr i \<in> set l"
  by (auto simp: py_in_def list_ex_iff)

lemma charge_call_accounted:
  assumes "charge_call policy (PStr i) ls = Inr (Inr ls')" "accounted policy ls"
  shows "accounted policy ls' \<and> set (ls_seen_tool_call_ids ls') = insert (PStr i) (set (ls_seen_tool_call_ids ls))"
  using assms
  by (auto simp: charge_call_def accounted_def py_in_str Let_def budget_decide_allowed usage_of_def split: if_splits)

text \<open>
  The tool budget is exact: when a batch of requested calls goes through, every requested call id
  has been charged, each distinct id exactly once however often it was requested or retried, and the
  number of charged calls never exceeds \<open>max_tool_calls\<close>.
\<close>

theorem batch_charges_each_call_once:
  assumes "tool_batch env mode r cs ls w = (Inr (Next ls'), w')" "\<forall>c \<in> set cs. \<exists>i. fst c = PStr i"
    and "accounted (en_policy env) ls"
  shows "accounted (en_policy env) ls' \<and>
    set (ls_seen_tool_call_ids ls') = set (ls_seen_tool_call_ids ls) \<union> fst ` set cs"
  using assms
proof (induction cs arbitrary: ls w)
  case (Cons c cs)
  from Cons.prems(2) obtain i where i: "fst c = PStr i" by auto
  from Cons.prems(1) obtain ls1 call ls2 w1 w2 where
    s: "charge_call (en_policy env) (fst c) ls = Inr (Inr ls1)"
    "tool_step env mode r (fst c) call (cs = []) ls1 w1 = (Inr (Next ls2), w2)"
    "tool_batch env mode r cs ls2 w2 = (Inr (Next ls'), w')"
    by (auto simp: Let_def halt_def bind_op_def split: if_splits sum.splits prod.splits loop_outcome.splits)
  note a = charge_call_accounted [OF s(1) [unfolded i] Cons.prems(3)]
  from tool_step_next [OF s(2)] have m: "ls_seen_tool_call_ids ls2 = ls_seen_tool_call_ids ls1"
    "ls_tool_calls_used ls2 = ls_tool_calls_used ls1" by (auto simp: add_message_def)
  with a have "accounted (en_policy env) ls2" by (simp add: accounted_def)
  from Cons.IH [OF s(3) _ this] Cons.prems(2) a m i show ?case by auto
qed simp

theorem batch_charges_each_call_once_witness:
  "\<exists>w ls w' ls'. tool_batch ex_env RunBatch ''run'' [(PStr ''c1'', Inr ex_call)] ls w = (Inr (Next ls'), w') \<and>
     accounted (en_policy ex_env) ls' \<and> set (ls_seen_tool_call_ids ls') = {PStr ''c1''}"
proof -
  let ?w = "ex_world\<lparr>w_cm := new_log\<lparr>cm_file := ex_file\<rparr>\<rparr>"
  let ?ls = "\<lparr>ls_messages = [], ls_iterations_used = 1, ls_tool_calls_used = 0, ls_seen_tool_call_ids = []\<rparr>"
  have "log_in TOOL_EXECUTING ?w"
    using ex_log_repr ex_transitions ex_run_events by (auto simp: log_in_def run_state_of_def intro: exI [of _ ex_events])
  then obtain ls' w' where b: "tool_batch ex_env RunBatch ''run'' [(PStr ''c1'', Inr ex_call)] ?ls ?w = (Inr (Next ls'), w')"
    by (rule ex_batch [of ?w ?ls]) (auto simp: ex_world_def is_cancelled_def)
  have "accounted (en_policy ex_env) ?ls" by (simp add: accounted_def ex_env_def)
  from batch_charges_each_call_once [OF b _ this]
  have "accounted (en_policy ex_env) ls' \<and> set (ls_seen_tool_call_ids ls') = {PStr ''c1''}" by simp
  with b show ?thesis by blast
qed

end
