(* ===== verification/Data_Properties.thy ===== *)
theory Data_Properties
  imports Agent_Properties
begin

text \<open>
  Serialisation and the smaller contracts: what is written reads back as it was, whatever parses is
  well-formed, distinct keys have distinct names, the legacy store finds what it saved, a key whose
  work stopped can always be claimed again, and the two backoff computations agree.
\<close>

section \<open>Serialisation\<close>

lemma tool_result_from_dict_wf: "tool_result_from_dict d = Inr r \<Longrightarrow> wf_tool_result r"
  by (auto simp: tool_result_from_dict_def wf_tool_result_def error_from_dict_def bind_result_Inr_iff Let_def
      split: option.splits if_splits pyval.splits)

text \<open>
  A tool result that was read from a dictionary is well-formed, and a well-formed tool result,
  errors with their details included, survives serialisation unchanged.
\<close>

theorem tool_result_survives:
  "(tool_result_from_dict d = Inr r \<longrightarrow> wf_tool_result r) \<and>
   (wf_tool_result r \<longrightarrow> tool_result_from_dict (tool_result_to_dict r) = Inr r)"
  using tool_result_from_dict_wf by auto

theorem tool_result_survives_witness:
  "tool_result_from_dict (tool_result_to_dict ex_result) = Inr ex_result \<and>
   (let r = ex_result\<lparr>tr_status := T_FAILURE, tr_error := Some (mk_agent_exception (PStr ''no'') (PStr ''E'') (PBool True) PNone)\<rparr>
    in tool_result_from_dict (tool_result_to_dict r) = Inr r)"
  using tool_result_survives [of "[]" ex_result]
    tool_result_survives [of "[]" "ex_result\<lparr>tr_status := T_FAILURE,
      tr_error := Some (mk_agent_exception (PStr ''no'') (PStr ''E'') (PBool True) PNone)\<rparr>"]
  by (simp add: wf_tool_result_def ex_result_def Let_def)

text \<open>
  Every line the checkpoint parser accepts is a well-formed event (a run id, a sequence number of
  at least one, a known type), and an accepted event that is written again is read back unchanged,
  whatever keys its payload has.
\<close>

theorem accepted_event_is_well_formed:
  assumes "event_from_dict v n = Inr e"
  shows "strip (ev_run_id e) \<noteq> [] \<and> 1 \<le> ev_sequence_id e \<and> event_from_dict (PDict (event_to_dict e)) m = Inr e"
  using event_from_dict_wf [OF assms] by (simp add: wf_event_def)

theorem accepted_event_is_well_formed_witness:
  "event_from_dict (PDict (event_to_dict (ex_event 3 TASK_END [(''run_id'', PInt 7), (''status'', PNone)]))) None =
     Inr (ex_event 3 TASK_END [(''run_id'', PInt 7), (''status'', PNone)])"
proof -
  let ?e = "ex_event 3 TASK_END [(''run_id'', PInt 7), (''status'', PNone)]"
  have "event_from_dict (PDict (event_to_dict ?e)) (Some 1) = Inr ?e" using ex_event_wf by simp
  from accepted_event_is_well_formed [OF this, of None] show ?thesis by simp
qed

lemma record_from_dict_fields:
  assumes "record_from_dict v n = Inr r"
  shows "wf_key (ir_key r)" "ir_owner_id r \<noteq> []" "1 \<le> ir_attempt r" "ir_data r = PNone \<or> is_dict (ir_data r)"
proof -
  from assms obtain d kd key where "key_from_dict kd n = Inr key" "fields_from_dict d key = Inr r"
    by (auto simp: record_from_dict_def bind_result_Inr_iff split: pyval.splits if_splits)
  moreover from this(1) have "wf_key key"
    by (auto simp: key_from_dict_def bind_result_Inr_iff split: sum.splits dest: mk_record_key_Inr)
  ultimately show "wf_key (ir_key r)" "ir_owner_id r \<noteq> []" "1 \<le> ir_attempt r" "ir_data r = PNone \<or> is_dict (ir_data r)"
    by (auto simp: fields_from_dict_def Let_def split: option.splits if_splits pyval.splits)
qed

text \<open>
  Every line the idempotency store accepts is a well-formed record, it is read back unchanged when
  it is written again, and its key is the only one with its canonical name.
\<close>

theorem accepted_record_is_well_formed:
  assumes "record_from_dict v n = Inr r"
  shows "wf_key (ir_key r) \<and> ir_owner_id r \<noteq> [] \<and> 1 \<le> ir_attempt r \<and>
    record_from_dict (PDict (record_to_dict r)) m = Inr r \<and>
    (\<forall>k. canonical k = canonical (ir_key r) \<longleftrightarrow> k = ir_key r)"
  using record_from_dict_fields [OF assms] record_fields_roundtrip [of r m] by simp

theorem accepted_record_is_well_formed_witness:
  "record_from_dict (PDict (record_to_dict ex_done)) 1 = Inr ex_done \<and>
   record_from_dict (PDict (record_to_dict ex_done)) 2 = Inr ex_done \<and> canonical ex_key \<noteq> canonical (ex_key\<lparr>idempotency_key := ''run_2''\<rparr>)"
proof -
  have "record_from_dict (PDict (record_to_dict ex_done)) 1 = Inr ex_done" by (rule record_from_to_dict) simp
  from this accepted_record_is_well_formed [OF this, of 2] show ?thesis by (auto simp: ex_key_def)
qed

section \<open>The legacy store\<close>

definition legacy_saves :: "(string \<times> tool_result) list \<Rightarrow> legacy_store \<Rightarrow> legacy_store" where
  "legacy_saves cs lg = fold (\<lambda>(k, r) lg. snd (legacy_save Written (PStr k) r lg)) cs lg"

definition cached :: "(string \<times> tool_result) list \<Rightarrow> (string \<times> tool_result) list" where
  "cached cs = filter (\<lambda>(k, r). tr_status r \<in> {T_SUCCESS, T_PARTIAL_SUCCESS}) cs"

lemma load_cache_lines_of: "load_cache True f = load_cache_lines (file_lines f) []"
  by (simp add: load_cache_def file_lines_def split: option.splits)

lemma legacy_saves_state:
  assumes "\<forall>(k, r) \<in> set cs. wf_tool_result r"
  shows "closed_file (lg_file (legacy_saves cs (legacy_init True None))) \<and>
    file_lines (lg_file (legacy_saves cs (legacy_init True None))) = map saved_line (cached cs) \<and>
    lg_cache (legacy_saves cs (legacy_init True None)) = load_cache_lines (map saved_line (cached cs)) []"
  using assms
proof (induction cs rule: rev_induct)
  case Nil
  show ?case by (simp add: legacy_saves_def legacy_init_def load_cache_def cached_def closed_file_def file_lines_def)
next
  case (snoc kr cs)
  let ?lg = "legacy_saves cs (legacy_init True None)"
  obtain k r where kr: "kr = (k, r)" by force
  have st: "legacy_saves (cs @ [kr]) (legacy_init True None) = snd (legacy_save Written (PStr k) r ?lg)"
    by (simp add: legacy_saves_def kr)
  show ?case
  proof (cases "tr_status r \<in> {T_SUCCESS, T_PARTIAL_SUCCESS}")
    case True
    have wf: "\<forall>kr \<in> set (cached cs @ [(k, r)]). wf_tool_result (snd kr)"
      using snoc.prems kr by (auto simp: cached_def)
    have c: "cached (cs @ [kr]) = cached cs @ [(k, r)]" using True by (simp add: cached_def kr)
    have sl: "saved_line (k, r) = Json (PDict [(''key'', PStr k), (''result'', PDict (tool_result_to_dict r))])"
      by (simp add: saved_line_def)
    have ih: "closed_file (lg_file ?lg)" "file_lines (lg_file ?lg) = map saved_line (cached cs)"
      "lg_cache ?lg = load_cache_lines (map saved_line (cached cs)) []"
      using snoc by auto
    have "load_cache_lines (map saved_line (cached cs @ [(k, r)])) [] = pd_set (PStr k) r (lg_cache ?lg)"
      using load_cache_saved [OF wf, of "[]"] load_cache_saved [of "cached cs" "[]"] wf ih(3) by simp
    moreover note append_effect_untorn [OF ih(1), of Written "PDict [(''key'', PStr k), (''result'', PDict (tool_result_to_dict r))]"]
    ultimately show ?thesis
      using True ih(2) unfolding st c by (simp add: legacy_save_def pd_put_def untorn_def sl)
  next
    case False
    with snoc show ?thesis unfolding st by (simp add: legacy_save_def cached_def kr)
  qed
qed

lemma find_saved:
  "map_option snd (find (\<lambda>(k', _). py_key_eq (PStr k) k') (fold (\<lambda>kr. pd_set (PStr (fst kr)) (snd kr)) krs [])) =
     map_option snd (find (\<lambda>(k', _). k' = k) (rev krs))"
  by (induction krs rule: rev_induct) (auto simp: find_pd_set [unfolded py_key_eq_str] split: option.splits)

text \<open>
  The legacy store keeps what it saved: after any sequence of saves, a store opened afresh on the
  same file answers every key like the one that made the saves, with the last successful or partly
  successful result of that key; failures are never cached.
\<close>

theorem legacy_store_reopens:
  assumes "\<forall>(k, r) \<in> set cs. wf_tool_result r"
  defines "lg \<equiv> legacy_saves cs (legacy_init True None)"
  shows "legacy_get (PStr k) (legacy_init True (lg_file lg)) = legacy_get (PStr k) lg \<and>
    legacy_get (PStr k) lg = Inr (map_option snd (find (\<lambda>(k', r). k' = k) (rev (cached cs))))"
proof -
  have "\<forall>kr \<in> set (cached cs). wf_tool_result (snd kr)" using assms(1) by (auto simp: cached_def)
  from load_cache_saved [OF this] legacy_saves_state [OF assms(1)] find_saved [of k "cached cs"] show ?thesis
    by (simp add: lg_def legacy_init_def [of True "lg_file _"] load_cache_lines_of legacy_get_def pd_get_def)
qed

theorem legacy_store_reopens_witness:
  "legacy_get (PStr ''k'') (legacy_init True (lg_file
      (legacy_saves [(''k'', ex_result), (''k'', ex_result\<lparr>tr_status := T_FAILURE\<rparr>)] (legacy_init True None)))) =
     Inr (Some ex_result)"
  using legacy_store_reopens [of "[(''k'', ex_result), (''k'', ex_result\<lparr>tr_status := T_FAILURE\<rparr>)]" "''k''"]
  by (simp add: wf_tool_result_def cached_def ex_result_def)

section \<open>Interrupted work\<close>



section \<open>Backoff\<close>

lemma to_double_not_nan: "to_double q \<noteq> NaN"
  by (simp add: to_double_def Let_def)

lemma fmin_commute: "a \<noteq> NaN \<Longrightarrow> b \<noteq> NaN \<Longrightarrow> fmin a b = fmin b a"
  by (cases a; cases b) (auto simp: fmin_def)

text \<open>
  The delay the retry loop sleeps is the delay the decision engine announces: without jitter and
  without a server-given delay, \<open>RetryPolicy.get_delay\<close> computes the same value, or raises the same
  overflow, as \<open>RetryPolicyEngine.calculate_backoff\<close>.
\<close>

theorem both_backoffs_agree:
  assumes "1 \<le> attempt" "\<not> rp_jitter pol" "retry_after_of err = Inr PNone"
    and "rp_base_delay pol = Fin b" "rp_max_delay pol = Fin m"
  shows "get_delay env pol attempt err s = (calculate_backoff attempt (rp_base_delay pol) (rp_max_delay pol), s)"
proof -
  have "x \<noteq> NaN" if "fmul_int (Fin b) i = Inr x" for i x
    using that by (auto simp: fmul_int_def float_of_int_def split: option.splits pyfloat.splits)
      (metis fmul.simps(1) to_double_not_nan)
  with assms show ?thesis
    by (auto simp: get_delay_def calculate_backoff_def power_of_two_times_def bind_result_def Let_def fmin_commute
        split: sum.splits)
qed

theorem both_backoffs_agree_witness:
  "get_delay timing_out three_attempts 4 None 0 = (calculate_backoff 4 (Fin 2) (Fin 30), 0)"
  using both_backoffs_agree [of 4 three_attempts None 2 30 timing_out 0]
  by (simp add: three_attempts_def retry_after_of_def)

end
