(* ===== verification/Production_Readiness.thy ===== *)
theory Production_Readiness
  imports Runtime_World
begin

text \<open>
  \<open>src/agent/production_readiness.py\<close>: the preflight gate over a run policy, a retry policy and the
  two store files. It reads the idempotency file with a validator of its own, stricter than the
  store's, replays every run of the checkpoint log, and compares the two. Every function takes the
  files as they are and returns a value, so nothing can be written.

  A reason is a value that carries what its text is built from. A path that may be \<open>None\<close> or name no
  file is a \<open>store_path\<close>; \<open>read_ok\<close> says whether an existing file can be read during the call.
\<close>

section \<open>Reports\<close>

datatype readiness_status = READY | NOT_READY

datatype lifecycle_issue =
    UpdatedBeforeCreation
  | TimestampRollback
  | CreatedAtChanged
  | LeavesTerminal record_status record_status
  | OwnerChanged record_status
  | AttemptChanged record_status
  | AttemptNotIncremented record_status
  | IllegalTransition record_status record_status

datatype store_issue =
    MalformedJsonAt nat
  | RejectedLine nat exn
  | LifecycleAt nat lifecycle_issue string
  | StoreUnreadable

datatype readiness_reason =
    PolicyMissing
  | PolicyWrongType string
  | PolicyNegative string int
  | PolicyBadNumber string pyfloat
  | PolicyBadDelays pyfloat pyfloat
  | PolicyValid
  | PathNotConfigured
  | FileAbsent
  | CheckpointMalformed nat
  | CheckpointRejected nat exn
  | SequenceInvalid string exn
  | TransitionIllegal string exn
  | CheckpointUnreadable
  | CheckpointSound nat nat
  | StoreCorrupt store_issue
  | StoreSound nat
  | SkippedCorrupt
  | NoRuns
  | RecordMissing string pyval
  | RecordNotCompleted string pyval record_status
  | StartedRecordMissing string pyval
  | RunUnverifiable string exn
  | RunsVerified nat
  | TerminalRecoverable string run_state
  | TerminalRunsSafe

record readiness_check =
  rk_name :: string
  rk_passed :: bool
  rk_reason :: readiness_reason

record readiness_report =
  rr_status :: readiness_status
  rr_checks :: "readiness_check list"

definition rr_ready :: "readiness_report \<Rightarrow> bool" where
  "rr_ready r \<longleftrightarrow> rr_status r = READY"

text \<open>\<open>to_dict\<close>; \<open>render\<close> is the text of a reason.\<close>

definition report_to_dict :: "(readiness_reason \<Rightarrow> string) \<Rightarrow> readiness_report \<Rightarrow> pydict" where
  "report_to_dict render r =
     [(''status'', PStr (case rr_status r of READY \<Rightarrow> ''READY'' | NOT_READY \<Rightarrow> ''NOT_READY'')),
      (''ready'', PBool (rr_ready r)),
      (''checks'', PList (map (\<lambda>c. PDict [(''name'', PStr (rk_name c)), (''passed'', PBool (rk_passed c)),
                                        (''reason'', PStr (render (rk_reason c)))]) (rr_checks r)))]"

definition passed :: "string \<Rightarrow> readiness_reason \<Rightarrow> readiness_check" where
  "passed name why = \<lparr>rk_name = name, rk_passed = True, rk_reason = why\<rparr>"

definition refused :: "string \<Rightarrow> readiness_reason \<Rightarrow> readiness_check" where
  "refused name why = \<lparr>rk_name = name, rk_passed = False, rk_reason = why\<rparr>"

text \<open>Inside a check an exception leaves it, a \<open>return\<close> ends it with a refusal.\<close>

datatype 'r stop = Raise exn | Refuse 'r

definition raise_as :: "(exn \<Rightarrow> bool) \<Rightarrow> (exn \<Rightarrow> 'r) \<Rightarrow> exn + 'a \<Rightarrow> 'r stop + 'a" where
  "raise_as caught why x =
     (case x of Inl e \<Rightarrow> Inl (if caught e then Refuse (why e) else Raise e) | Inr v \<Rightarrow> Inr v)"

fun is_idempotency_corruption :: "exn \<Rightarrow> bool" where
  "is_idempotency_corruption (IdempotencyCorruptionError _ _) \<longleftrightarrow> True"
| "is_idempotency_corruption _ \<longleftrightarrow> False"

fun is_checkpoint_corruption :: "exn \<Rightarrow> bool" where
  "is_checkpoint_corruption (CheckpointCorruptionError _ _ _) \<longleftrightarrow> True"
| "is_checkpoint_corruption _ \<longleftrightarrow> False"

fun is_checkpoint_state_error :: "exn \<Rightarrow> bool" where
  "is_checkpoint_state_error (CheckpointStateError _ _ _) \<longleftrightarrow> True"
| "is_checkpoint_state_error _ \<longleftrightarrow> False"

section \<open>The read-only validator of the idempotency file\<close>

text \<open>A record that follows an earlier one of the same key.\<close>

definition lifecycle_step :: "idem_record \<Rightarrow> idem_record \<Rightarrow> lifecycle_issue option" where
  "lifecycle_step prev r =
     (let st = ir_status r; same_attempt = (ir_attempt r = ir_attempt prev);
          next_attempt = (ir_attempt r = ir_attempt prev + 1)
      in if flt (ir_updated_at r) (ir_updated_at prev) then Some TimestampRollback
         else if \<not> feq (ir_created_at r) (ir_created_at prev) then Some CreatedAtChanged
         else case ir_status prev of
                R_COMPLETED \<Rightarrow> Some (LeavesTerminal R_COMPLETED st)
              | R_FAILED \<Rightarrow> Some (LeavesTerminal R_FAILED st)
              | R_IN_PROGRESS \<Rightarrow>
                  if st \<in> {R_COMPLETED, R_FAILED, R_RECOVERABLE} then
                    (if ir_owner_id r \<noteq> ir_owner_id prev then Some (OwnerChanged st)
                     else if \<not> same_attempt then Some (AttemptChanged st) else None)
                  else if st = R_IN_PROGRESS then
                    (if \<not> next_attempt then Some (AttemptNotIncremented R_IN_PROGRESS) else None)
                  else Some (IllegalTransition R_IN_PROGRESS st)
              | prev_status \<Rightarrow>
                  if st \<noteq> R_IN_PROGRESS then Some (IllegalTransition prev_status st)
                  else if \<not> next_attempt then Some (AttemptNotIncremented prev_status) else None)"

definition read_only_line ::
  "nat \<times> line \<Rightarrow> (string \<times> idem_record) list \<Rightarrow> store_issue stop + (string \<times> idem_record) list" where
  "read_only_line nl recs =
     (case snd nl of
        Blank \<Rightarrow> Inr recs
      | Malformed \<Rightarrow> Inl (Refuse (MalformedJsonAt (fst nl)))
      | Json payload \<Rightarrow>
          bind_result (raise_as is_idempotency_corruption (RejectedLine (fst nl))
                         (record_from_dict payload (fst nl))) (\<lambda>r.
            let c = canonical (ir_key r);
                reject = (\<lambda>i. Inl (Refuse (LifecycleAt (fst nl) i c)))
            in if flt (ir_updated_at r) (ir_created_at r) then reject UpdatedBeforeCreation
               else case map_of recs c of
                      None \<Rightarrow> Inr (AList.update c r recs)
                    | Some prev \<Rightarrow>
                        (case lifecycle_step prev r of
                           Some i \<Rightarrow> reject i
                         | None \<Rightarrow> Inr (AList.update c r recs))))"

datatype store_path = NotConfigured | PathTo "jsonl option"

text \<open>The pair of the source, the error first; a file that is not there has no records.\<close>

definition parse_idempotency_store_read_only ::
  "bool \<Rightarrow> store_path \<Rightarrow> exn + store_issue option \<times> (string \<times> idem_record) list" where
  "parse_idempotency_store_read_only read_ok p =
     (case p of
        PathTo (Some f) \<Rightarrow>
          if \<not> read_ok then Inr (Some StoreUnreadable, [])
          else
            (case fold_result read_only_line (List.enumerate 1 (jl_lines f)) [] of
               Inr recs \<Rightarrow> Inr (None, recs)
             | Inl (Refuse i) \<Rightarrow> Inr (Some i, [])
             | Inl (Raise e) \<Rightarrow> Inl e)
      | _ \<Rightarrow> Inr (None, []))"

section \<open>The checks\<close>

text \<open>An optional argument that may also be an object of another class, named by its type.\<close>

datatype 'a config = Absent | OtherType string | Given 'a

definition check_run_policy :: "run_policy config \<Rightarrow> readiness_check" where
  "check_run_policy policy =
     (let name = ''run_policy_validity''
      in case policy of
           Absent \<Rightarrow> refused name PolicyMissing
         | OtherType t \<Rightarrow> refused name (PolicyWrongType t)
         | Given p \<Rightarrow>
             if pol_max_iterations p < 0 then refused name (PolicyNegative ''max_iterations'' (pol_max_iterations p))
             else if pol_max_tool_calls p < 0
             then refused name (PolicyNegative ''max_tool_calls'' (pol_max_tool_calls p))
             else if fle (pol_timeout_seconds p) (Fin 0)
             then refused name (PolicyBadNumber ''timeout_seconds'' (pol_timeout_seconds p))
             else passed name PolicyValid)"

definition check_retry_policy :: "retry_policy config \<Rightarrow> readiness_check" where
  "check_retry_policy policy =
     (let name = ''retry_policy_sanity''
      in case policy of
           Absent \<Rightarrow> refused name PolicyMissing
         | OtherType t \<Rightarrow> refused name (PolicyWrongType t)
         | Given p \<Rightarrow>
             if rp_max_attempts p < 1 then refused name (PolicyNegative ''max_attempts'' (rp_max_attempts p))
             else if flt (rp_base_delay p) (Fin 0)
             then refused name (PolicyBadNumber ''base_delay'' (rp_base_delay p))
             else if flt (rp_max_delay p) (rp_base_delay p)
             then refused name (PolicyBadDelays (rp_max_delay p) (rp_base_delay p))
             else passed name PolicyValid)"

text \<open>\<open>events_by_run.setdefault(run_id, []).append(evt)\<close>, runs in the order of their first event.\<close>

definition group_event_line ::
  "nat \<times> line \<Rightarrow> (string \<times> checkpoint_event list) list
     \<Rightarrow> readiness_reason stop + (string \<times> checkpoint_event list) list" where
  "group_event_line nl runs =
     (case snd nl of
        Blank \<Rightarrow> Inr runs
      | Malformed \<Rightarrow> Inl (Refuse (CheckpointMalformed (fst nl)))
      | Json v \<Rightarrow>
          bind_result (raise_as is_checkpoint_corruption (CheckpointRejected (fst nl))
                         (event_from_dict v (Some (fst nl)))) (\<lambda>e.
            Inr (AList.map_default (ev_run_id e) [e] (\<lambda>es. es @ [e]) runs)))"

definition check_run_events :: "string \<times> checkpoint_event list \<Rightarrow> unit \<Rightarrow> readiness_reason stop + unit" where
  "check_run_events run _ =
     bind_result (raise_as is_checkpoint_error (SequenceInvalid (fst run))
                    (validate_event_sequence (snd run))) (\<lambda>_.
     bind_result (raise_as is_checkpoint_state_error (TransitionIllegal (fst run))
                    (run_transitions (snd run) PENDING)) (\<lambda>_. Inr ()))"

definition check_checkpoint_store :: "bool \<Rightarrow> store_path \<Rightarrow> exn + readiness_check \<times> string list" where
  "check_checkpoint_store read_ok p =
     (let name = ''checkpoint_store_health''
      in case p of
           NotConfigured \<Rightarrow> Inr (passed name PathNotConfigured, [])
         | PathTo None \<Rightarrow> Inr (passed name FileAbsent, [])
         | PathTo (Some f) \<Rightarrow>
             if \<not> read_ok then Inr (refused name CheckpointUnreadable, [])
             else
               (case bind_result (fold_result group_event_line (List.enumerate 1 (jl_lines f)) []) (\<lambda>runs.
                       bind_result (fold_result check_run_events runs ()) (\<lambda>_. Inr runs)) of
                  Inl (Raise e) \<Rightarrow> Inl e
                | Inl (Refuse why) \<Rightarrow> Inr (refused name why, [])
                | Inr runs \<Rightarrow>
                    Inr (passed name (CheckpointSound (length runs) (sum_list (map (length \<circ> snd) runs))),
                         map fst runs)))"

definition check_idempotency_store ::
  "bool \<Rightarrow> store_path \<Rightarrow> exn + readiness_check \<times> (string \<times> idem_record) list" where
  "check_idempotency_store read_ok p =
     (let name = ''idempotency_store_health''
      in case p of
           NotConfigured \<Rightarrow> Inr (passed name PathNotConfigured, [])
         | PathTo None \<Rightarrow> Inr (passed name FileAbsent, [])
         | PathTo (Some f) \<Rightarrow>
             bind_result (parse_idempotency_store_read_only read_ok p) (\<lambda>(err, recs).
               case err of
                 Some i \<Rightarrow> Inr (refused name (StoreCorrupt i), [])
               | None \<Rightarrow> Inr (passed name (StoreSound (length recs)), recs)))"

subsection \<open>Across the two stores\<close>

definition add_started :: "checkpoint_event \<Rightarrow> pyval list \<Rightarrow> exn + pyval list" where
  "add_started e ids =
     (let cid = dget (ev_payload e) ''call_id'' PNone
      in if ev_type e \<in> {TOOL_ATTEMPT_STARTED, RETRY_SCHEDULED} \<and> truthy cid then set_add cid ids else Inr ids)"

definition started_call_ids :: "checkpoint_event list \<Rightarrow> exn + pyval list" where
  "started_call_ids evs = fold_result add_started evs []"

text \<open>The call of a completed id: the first one the assistant messages name, else the result's tool.\<close>

definition completed_call ::
  "(string \<Rightarrow> pyval \<Rightarrow> string) \<Rightarrow> string \<Rightarrow> session \<Rightarrow> pyval \<Rightarrow> tool_result \<Rightarrow> exn + tool_call" where
  "completed_call md5_hex rid s cid r =
     (case find (\<lambda>tc. py_key_eq (atc_call_id tc) cid) (concat (map msg_tool_calls (se_messages s))) of
        Some tc \<Rightarrow> mk_tool_call md5_hex (atc_name tc) (atc_arguments tc) cid rid
      | None \<Rightarrow> mk_tool_call md5_hex (tr_tool_name r) (PDict []) cid rid)"

text \<open>
  The name the check looks a record up by: \<open>json.dumps\<close> with its default \<open>ensure_ascii=True\<close>. With a key
  that is not a string the text has no second string literal and names no record.
\<close>

definition ascii_key :: "tool_call \<Rightarrow> string option" where
  "ascii_key call =
     (case tc_idempotency_key call of
        PStr k \<Rightarrow>
          Some (CHR ''['' # json_str True (''tool:'' @ tc_name call) @ CHR '','' # json_str True k @ [CHR '']''])
      | _ \<Rightarrow> None)"

definition lookup_call :: "(string \<times> idem_record) list \<Rightarrow> tool_call \<Rightarrow> idem_record option" where
  "lookup_call recs call = Option.bind (ascii_key call) (map_of recs)"

definition unverifiable :: "string \<Rightarrow> exn + 'a \<Rightarrow> readiness_reason + 'a" where
  "unverifiable rid x = (case x of Inl e \<Rightarrow> Inl (RunUnverifiable rid e) | Inr v \<Rightarrow> Inr v)"

definition check_completed_call ::
  "(string \<Rightarrow> pyval \<Rightarrow> string) \<Rightarrow> string \<Rightarrow> session \<Rightarrow> pyval list \<Rightarrow> (string \<times> idem_record) list
     \<Rightarrow> pyval \<times> tool_result \<Rightarrow> unit \<Rightarrow> readiness_reason + unit" where
  "check_completed_call md5_hex rid s started recs cr _ =
     (if \<not> py_in (fst cr) started then Inr ()
      else
        bind_result (unverifiable rid (completed_call md5_hex rid s (fst cr) (snd cr))) (\<lambda>call.
          case lookup_call recs call of
            None \<Rightarrow> Inl (RecordMissing rid (fst cr))
          | Some r \<Rightarrow>
              if ir_status r \<noteq> R_COMPLETED then Inl (RecordNotCompleted rid (fst cr) (ir_status r))
              else Inr ()))"

definition check_pending_call ::
  "string \<Rightarrow> pyval list \<Rightarrow> (string \<times> idem_record) list \<Rightarrow> pyval \<times> tool_call \<Rightarrow> unit \<Rightarrow> readiness_reason + unit" where
  "check_pending_call rid started recs pc _ =
     (if py_in (fst pc) started \<and> lookup_call recs (snd pc) = None
      then Inl (StartedRecordMissing rid (fst pc)) else Inr ())"

definition check_run_records ::
  "(string \<Rightarrow> pyval \<Rightarrow> string) \<Rightarrow> bool \<Rightarrow> jsonl option \<Rightarrow> (string \<times> idem_record) list \<Rightarrow> string
     \<Rightarrow> unit \<Rightarrow> readiness_reason + unit" where
  "check_run_records md5_hex read_ok f recs rid _ =
     bind_result (unverifiable rid (load_events_for_run read_ok f rid)) (\<lambda>evs.
     bind_result (unverifiable rid (reconstruct_session md5_hex read_ok f rid)) (\<lambda>s.
     bind_result (unverifiable rid (started_call_ids evs)) (\<lambda>started.
     bind_result (fold_result (check_completed_call md5_hex rid s started recs) (se_completed s) ()) (\<lambda>_.
     if se_last_state s \<in> {COMPLETED, HALTED, FAILED} then Inr ()
     else fold_result (check_pending_call rid started recs) (se_pending s) ()))))"

definition check_cross_store ::
  "(string \<Rightarrow> pyval \<Rightarrow> string) \<Rightarrow> bool \<Rightarrow> store_path \<Rightarrow> (string \<times> idem_record) list \<Rightarrow> string list
     \<Rightarrow> bool \<Rightarrow> bool \<Rightarrow> readiness_check" where
  "check_cross_store md5_hex read_ok cp recs run_ids cp_healthy idem_healthy =
     (let name = ''cross_store_consistency''
      in if \<not> cp_healthy \<or> \<not> idem_healthy then refused name SkippedCorrupt
         else case cp of
                PathTo (Some f) \<Rightarrow>
                  if run_ids = [] then passed name NoRuns
                  else (case fold_result (check_run_records md5_hex read_ok (Some f) recs) run_ids () of
                          Inl why \<Rightarrow> refused name why
                        | Inr _ \<Rightarrow> passed name (RunsVerified (length run_ids)))
              | _ \<Rightarrow> passed name NoRuns)"

definition check_terminal_run ::
  "(string \<Rightarrow> pyval \<Rightarrow> string) \<Rightarrow> py_text \<Rightarrow> bool \<Rightarrow> jsonl option \<Rightarrow> string \<Rightarrow> unit \<Rightarrow> readiness_reason + unit" where
  "check_terminal_run md5_hex tx read_ok f rid _ =
     (let d = analyze md5_hex tx read_ok f rid
      in if dg_current_state d \<in> {COMPLETED, HALTED, FAILED} \<and> dg_potential d = P_RECOVERABLE
         then Inl (TerminalRecoverable rid (dg_current_state d)) else Inr ())"

definition check_terminal_immutability ::
  "(string \<Rightarrow> pyval \<Rightarrow> string) \<Rightarrow> py_text \<Rightarrow> bool \<Rightarrow> store_path \<Rightarrow> string list \<Rightarrow> bool \<Rightarrow> readiness_check" where
  "check_terminal_immutability md5_hex tx read_ok cp run_ids cp_healthy =
     (let name = ''terminal_run_immutability''
      in if \<not> cp_healthy then refused name SkippedCorrupt
         else case cp of
                PathTo (Some f) \<Rightarrow>
                  if run_ids = [] then passed name NoRuns
                  else (case fold_result (check_terminal_run md5_hex tx read_ok (Some f)) run_ids () of
                          Inl why \<Rightarrow> refused name why
                        | Inr _ \<Rightarrow> passed name TerminalRunsSafe)
              | _ \<Rightarrow> passed name NoRuns)"

section \<open>The evaluation\<close>

text \<open>\<open>list(dict.fromkeys(xs))\<close> keeps the first occurrence of every element.\<close>

definition unique :: "'a list \<Rightarrow> 'a list" where
  "unique xs = rev (remdups (rev xs))"

definition evaluate ::
  "(string \<Rightarrow> pyval \<Rightarrow> string) \<Rightarrow> py_text \<Rightarrow> bool \<Rightarrow> bool \<Rightarrow> run_policy config \<Rightarrow> retry_policy config
     \<Rightarrow> store_path \<Rightarrow> store_path \<Rightarrow> string list \<Rightarrow> exn + readiness_report" where
  "evaluate md5_hex tx cp_ok idem_ok policy retry_policy cp idem run_ids =
     bind_result (check_checkpoint_store cp_ok cp) (\<lambda>(cp_check, discovered).
     let runs = unique (discovered @ run_ids) in
     bind_result (check_idempotency_store idem_ok idem) (\<lambda>(idem_check, recs).
     let checks =
           [check_run_policy policy, check_retry_policy retry_policy, cp_check, idem_check,
            check_cross_store md5_hex cp_ok cp recs runs (rk_passed cp_check) (rk_passed idem_check),
            check_terminal_immutability md5_hex tx cp_ok cp runs (rk_passed cp_check)]
     in Inr \<lparr>rr_status = (if list_all rk_passed checks then READY else NOT_READY), rr_checks = checks\<rparr>))"

text \<open>
  \<open>evaluate_agent\<close>: the paths and policies of a running agent. A store that keeps no file has no
  \<open>db_path\<close>; \<open>path_of\<close> is that attribute of the store object.
\<close>

definition evaluate_agent ::
  "('c, 'st, 'x) env \<Rightarrow> ('st exec_store \<Rightarrow> store_path) \<Rightarrow> bool \<Rightarrow> bool
     \<Rightarrow> ('st, 'x) world \<Rightarrow> exn + readiness_report" where
  "evaluate_agent env path_of cp_ok idem_ok w =
     evaluate (en_md5 env) (en_text env) cp_ok idem_ok (Given (en_policy env)) (Given (en_retry env))
       (PathTo (cm_file (w_cm w))) (path_of (w_store w)) []"

end
