(* ===== verification/Readiness_Properties.thy ===== *)
theory Readiness_Properties
  imports Data_Properties Production_Readiness
begin

text \<open>
  What a readiness report means: the read-only validator accepts only files the store opens with the
  same records, every file the store can have written passes it, and a READY report means that both
  stores are sound and that no executed call can run again. One theorem shows where the gate is
  wrong: a call with a non-ASCII name is reported missing whatever the store holds.
\<close>

section \<open>The read-only validator and the store\<close>

lemma raise_as_Inr [simp]: "raise_as P why x = Inr v \<longleftrightarrow> x = Inr v"
  by (cases x) (auto simp: raise_as_def)

lemma read_only_line_Json:
  "read_only_line (n, Json v) recs = Inr recs' \<longleftrightarrow>
     (\<exists>r. record_from_dict v n = Inr r \<and> \<not> flt (ir_updated_at r) (ir_created_at r) \<and>
          recs' = AList.update (canonical (ir_key r)) r recs \<and>
          (\<forall>p. map_of recs (canonical (ir_key r)) = Some p \<longrightarrow> lifecycle_step p r = None))"
proof (cases "record_from_dict v n")
  case (Inr r)
  then show ?thesis
    by (cases "map_of recs (canonical (ir_key r))"; cases "lifecycle_step (the (map_of recs (canonical (ir_key r)))) r")
      (auto simp: read_only_line_def raise_as_def Let_def)
qed (simp add: read_only_line_def raise_as_def)

lemma read_only_line_other [simp]:
  "read_only_line (n, Blank) recs = Inr recs'  \<longleftrightarrow> recs' = recs"
  "read_only_line (n, Malformed) recs \<noteq> Inr recs'"
  by (auto simp: read_only_line_def)

lemma lifecycle_step_time: "lifecycle_step p r = None \<Longrightarrow> \<not> flt (ir_updated_at r) (ir_updated_at p)"
  by (auto simp: lifecycle_step_def Let_def)

lemma read_only_line_load:
  assumes "read_only_line (n, l) recs = Inr recs'"
  shows "load_line n l recs = Inr recs'"
proof (cases l)
  case (Json v)
  with assms obtain r where r: "record_from_dict v n = Inr r" "recs' = AList.update (canonical (ir_key r)) r recs"
    "\<And>p. map_of recs (canonical (ir_key r)) = Some p \<Longrightarrow> lifecycle_step p r = None"
    by (auto simp: read_only_line_Json)
  with Json show ?thesis
    by (cases "map_of recs (canonical (ir_key r))") (simp_all add: load_line_def lifecycle_step_time Let_def)
qed (use assms in \<open>auto simp: load_line_def\<close>)

lemma read_only_load_lines:
  "fold_result read_only_line (List.enumerate n ls) recs = Inr recs' \<Longrightarrow>
     load_lines n ls recs = (Inr (), recs')"
  by (induction ls arbitrary: n recs) (auto simp: bind_result_Inr_iff dest: read_only_line_load)

definition sound_records :: "(string \<times> idem_record) list \<Rightarrow> bool" where
  "sound_records recs \<longleftrightarrow> (\<forall>(c, r) \<in> set recs. canonical (ir_key r) = c \<and> validate_record c r = Inr r)"

lemma read_only_line_sound:
  assumes "read_only_line (n, l) recs = Inr recs'" "sound_records recs"
  shows "sound_records recs'"
proof (cases l)
  case (Json v)
  with assms(1) obtain r where r: "record_from_dict v n = Inr r" "\<not> flt (ir_updated_at r) (ir_created_at r)"
    "recs' = AList.update (canonical (ir_key r)) r recs"
    by (auto simp: read_only_line_Json)
  with record_from_dict_fields [OF r(1)] have "validate_record (canonical (ir_key r)) r = Inr r"
    by (auto simp: validate_record_def)
  with r(3) assms(2) update_set_subset [of "canonical (ir_key r)" r recs] show ?thesis
    by (auto simp: sound_records_def)
qed (use assms in auto)

lemma parse_read_only_Inr:
  assumes "parse_idempotency_store_read_only True (PathTo f) = Inr (None, recs)"
  shows "store_reload True js = (Inr (), js\<lparr>js_records := recs\<rparr>) \<or> js_file js \<noteq> f" and "sound_records recs"
proof -
  have "sound_records recs \<and> (js_file js = f \<longrightarrow> store_reload True js = (Inr (), js\<lparr>js_records := recs\<rparr>))"
  proof (cases f)
    case None
    with assms show ?thesis
      by (auto simp: parse_idempotency_store_read_only_def store_reload_def sound_records_def)
  next
    case (Some j)
    with assms have p: "fold_result read_only_line (List.enumerate 1 (jl_lines j)) [] = Inr recs"
      by (auto simp: parse_idempotency_store_read_only_def split: sum.splits stop.splits)
    have "sound_records recs"
      by (rule fold_result_invariant [OF p])
        (auto simp: sound_records_def [of "[]"] dest: read_only_line_sound)
    with read_only_load_lines [OF p] Some show ?thesis by (auto simp: store_reload_def)
  qed
  then show "store_reload True js = (Inr (), js\<lparr>js_records := recs\<rparr>) \<or> js_file js \<noteq> f" "sound_records recs"
    by auto
qed

section \<open>Histories the store writes\<close>

definition lifecycle_history :: "idem_record list \<Rightarrow> bool" where
  "lifecycle_history rs \<longleftrightarrow>
     (\<forall>k. successively (\<lambda>a b. lifecycle_step a b = None) (filter (\<lambda>r. ir_key r = k) rs))"

lemma lifecycle_history_Nil [simp]: "lifecycle_history []"
  by (simp add: lifecycle_history_def)

lemma lifecycle_history_snoc:
  "lifecycle_history (rs @ [r]) \<longleftrightarrow>
     lifecycle_history rs \<and> (\<forall>p. latest rs (ir_key r) = Some p \<longrightarrow> lifecycle_step p r = None)"
  by (auto simp: lifecycle_history_def latest_def successively_append_iff Let_def)

lemma parse_history:
  "\<forall>r \<in> set rs. wf_record r \<Longrightarrow>
     fold_result read_only_line (List.enumerate 1 (map rec_line rs)) [] = Inr recs \<longleftrightarrow>
       lifecycle_history rs \<and> recs = index_records rs"
proof (induction rs arbitrary: recs rule: rev_induct)
  case Nil
  then show ?case by (auto simp: index_records_def)
next
  case (snoc r rs)
  then have r: "record_from_dict (PDict (record_to_dict r)) (Suc (length rs)) = Inr r"
    "\<not> flt (ir_updated_at r) (ir_created_at r)"
    by (simp_all add: record_from_to_dict wf_record_def)
  have "fold_result read_only_line (List.enumerate 1 (map rec_line (rs @ [r]))) [] = Inr recs \<longleftrightarrow>
      lifecycle_history rs \<and> read_only_line (Suc (length rs), rec_line r) (index_records rs) = Inr recs"
    using snoc by (simp add: enumerate_append_eq fold_result_snoc_Inr)
  also have "\<dots> \<longleftrightarrow> lifecycle_history (rs @ [r]) \<and> recs = index_records (rs @ [r])"
    using r by (auto simp: rec_line_def read_only_line_Json map_of_index_records lifecycle_history_snoc)
  finally show ?case .
qed

lemma parse_valid_store:
  assumes "closed_file f" "file_lines f = map rec_line rs" "wf_history rs"
  shows "parse_idempotency_store_read_only True (PathTo f) = Inr (None, recs) \<longleftrightarrow>
    lifecycle_history rs \<and> recs = index_records rs"
proof (cases f)
  case None
  with assms show ?thesis
    by (auto simp: parse_idempotency_store_read_only_def file_lines_def index_records_def)
next
  case (Some j)
  with assms have "jl_lines j = map rec_line rs" "\<forall>r \<in> set rs. wf_record r"
    by (simp_all add: file_lines_def wf_history_def)
  with parse_history [of rs recs] Some show ?thesis
    by (auto simp: parse_idempotency_store_read_only_def split: sum.splits stop.splits)
qed

section \<open>A concrete file\<close>

lemma ex_lifecycle: "lifecycle_history [ex_record, ex_done]"
  using lifecycle_history_snoc [of "[ex_record]" ex_done] lifecycle_history_snoc [of "[]" ex_record]
    latest_snoc [of "[]" ex_record]
  by (simp add: lifecycle_step_def feq_def ex_done_def)

lemma ex_parse:
  "parse_idempotency_store_read_only True (PathTo (js_file ex_completed)) = Inr (None, [(canonical ex_key, ex_done)])"
  using parse_valid_store [of "js_file ex_completed" "[ex_record, ex_done]"] ex_history ex_lifecycle
  by (simp add: ex_completed_eq closed_file_def file_lines_def index_records_def)

text \<open>
  The read-only validator is a faithful stand-in for the store: a file it accepts is opened by
  the store with exactly the records it reports, and no later lookup in that file raises.
\<close>

theorem read_only_parser_agrees_with_store:
  assumes "parse_idempotency_store_read_only True (PathTo f) = Inr (None, recs)" "validate_ttl ttl = Inr ()"
  shows "store_init si_fine ttl f = Inr \<lparr>js_file = f, js_ttl = ttl, js_records = recs\<rparr> \<and>
    (\<forall>k now. fst (jsonl_get si_fine now k \<lparr>js_file = f, js_ttl = ttl, js_records = recs\<rparr>) =
       Inr (map_option (present_lease ttl now) (map_of recs (canonical k))))"
proof -
  have reload: "store_reload True js = (Inr (), js\<lparr>js_records := recs\<rparr>)" if "js_file js = f" for js
    using parse_read_only_Inr(1) [OF assms(1), of js] that by simp
  have "fst (jsonl_get si_fine now k \<lparr>js_file = f, js_ttl = ttl, js_records = recs\<rparr>) =
      Inr (map_option (present_lease ttl now) (map_of recs (canonical k)))" for k now
  proof (cases "map_of recs (canonical k)")
    case (Some r)
    then have "validate_record (canonical k) r = Inr r"
      using parse_read_only_Inr(2) [OF assms(1)] by (auto simp: sound_records_def dest: map_of_SomeD)
    with Some show ?thesis by (simp add: jsonl_get_def with_lock_def si_fine_def reload)
  qed (simp add: jsonl_get_def with_lock_def si_fine_def reload)
  then show ?thesis
    using assms(2) by (simp add: store_init_def with_lock_def si_fine_def reload)
qed

theorem read_only_parser_agrees_with_store_witness:
  "store_init si_fine (PInt 60) (js_file ex_completed) = Inr ex_completed \<and>
   fst (jsonl_get si_fine (Fin 200) ex_key ex_completed) = Inr (Some ex_done)"
proof -
  have "validate_ttl (PInt 60) = Inr ()" by (simp add: validate_ttl_def)
  from read_only_parser_agrees_with_store [OF ex_parse this]
  have "store_init si_fine (PInt 60) (js_file ex_completed) = Inr ex_completed"
    "fst (jsonl_get si_fine (Fin 200) ex_key ex_completed) =
       Inr (map_option (present_lease (PInt 60) (Fin 200)) (map_of [(canonical ex_key, ex_done)] (canonical ex_key)))"
    by (simp_all add: ex_completed_eq)
  then show ?thesis by (simp add: present_lease_def)
qed

text \<open>The steps that change a store file: protocol calls, compaction, pruning and repair.\<close>

definition timed :: "jctx \<Rightarrow> bool" where
  "timed c \<longleftrightarrow> fst (snd c) \<noteq> NaN \<and> snd (snd c) \<noteq> NaN"

inductive store_reach :: "jsonl_store \<Rightarrow> jsonl_store \<Rightarrow> bool" for js0 where
  start: "store_reach js0 js0"
| call: "store_reach js0 js \<Longrightarrow> js_good (call_ctx c) js \<Longrightarrow> call_args_ok c \<Longrightarrow> timed (call_ctx c)
     \<Longrightarrow> store_reach js0 (snd (jsonl_call c js))"
| compact: "store_reach js0 js \<Longrightarrow> store_reach js0 (snd (compact io js))"
| prune: "store_reach js0 js \<Longrightarrow> store_reach js0 (snd (prune io now max_age js))"
| repair: "store_reach js0 js \<Longrightarrow> store_reach js0 (snd (repair io js))"

definition written_file :: "jsonl option \<Rightarrow> idem_record list \<Rightarrow> bool" where
  "written_file f rs \<longleftrightarrow>
     closed_file f \<and> file_lines f = map rec_line rs \<and> wf_history rs \<and> lifecycle_history rs \<and>
     (\<forall>r \<in> set rs. ir_created_at r \<noteq> NaN)"

definition follows :: "idem_record list \<Rightarrow> idem_record \<Rightarrow> bool" where
  "follows rs r \<longleftrightarrow>
     ir_created_at r \<noteq> NaN \<and> (\<forall>p. latest rs (ir_key r) = Some p \<longrightarrow> lifecycle_step p r = None)"

definition extends :: "idem_record list \<Rightarrow> jsonl option \<Rightarrow> bool" where
  "extends rs f \<longleftrightarrow>
     file_lines f = map rec_line rs \<or> (\<exists>r. file_lines f = map rec_line (rs @ [r]) \<and> follows rs r)"

lemma commit_extends:
  assumes "closed_file (js_file js)" "file_lines (js_file js) = map rec_line rs" "untorn (si_append io)" "follows rs r"
  shows "extends rs (js_file (snd (commit io r x js)))"
proof -
  have "js_file (snd (commit io r x js)) = append_effect (si_append io) (PDict (record_to_dict r)) (js_file js)"
    by (auto simp: commit_def store_append_def bind_op_def)
  with append_effect_untorn(2) [OF assms(1,3), of "PDict (record_to_dict r)"] assms(2,4) show ?thesis
    by (auto simp: extends_def rec_line_def)
qed

lemma claim_follows:
  "latest rs k = None \<Longrightarrow> t \<noteq> NaN \<Longrightarrow> follows rs (claim_record k ow 1 t t)"
  "latest rs k = Some p \<Longrightarrow> ir_status p \<in> {R_IN_PROGRESS, R_NEW, R_RECOVERABLE} \<Longrightarrow> \<not> flt t (ir_updated_at p) \<Longrightarrow>
     ir_created_at p \<noteq> NaN \<Longrightarrow> follows rs (claim_record k ow (ir_attempt p + 1) (ir_created_at p) t)"
  by (auto simp: follows_def claim_record_def lifecycle_step_def feq_def Let_def)

lemma transition_follows:
  assumes "latest rs k = Some p" "ir_status p = R_IN_PROGRESS" "\<not> flt t (ir_updated_at p)" "ir_created_at p \<noteq> NaN"
    "target \<in> {R_COMPLETED, R_FAILED, R_RECOVERABLE}"
  shows "follows rs \<lparr>ir_key = k, ir_status = target, ir_created_at = ir_created_at p, ir_updated_at = t,
                     ir_owner_id = ir_owner_id p, ir_attempt = ir_attempt p, ir_data = d\<rparr>"
  using assms by (auto simp: follows_def lifecycle_step_def feq_def Let_def)

lemma latest_in_file: "written_file f rs \<Longrightarrow> latest rs k = Some p \<Longrightarrow> p \<in> set rs \<and> ir_created_at p \<noteq> NaN"
  using latest_SomeD [of rs k p] by (auto simp: written_file_def)

lemma claim_locked_extends:
  assumes w: "written_file (js_file js) rs" "js_records js = index_records rs" "untorn (si_append io)"
    and t: "now \<noteq> NaN" "\<forall>r \<in> set rs. \<forall>t \<in> {now, now'}. \<not> flt t (ir_updated_at r)"
  shows "extends rs (js_file (snd (claim_locked io now now' k ow js)))"
proof -
  have f: "closed_file (js_file js)" "file_lines (js_file js) = map rec_line rs" "wf_history rs"
    using w(1) by (simp_all add: written_file_def)
  have same: "extends rs (js_file js)" using f by (simp add: extends_def)
  show ?thesis
  proof (cases "latest rs k")
    case None
    from commit_extends [OF f(1,2) w(3) claim_follows(1) [OF None t(1)]] None w(2) show ?thesis
      by (simp add: claim_locked_def map_of_index_records new_claim_claim_record)
  next
    case (Some p)
    note p = latest_in_file [OF w(1) Some]
    have grant: "extends rs (js_file (snd (commit io (claim_record k ow (ir_attempt p + 1) (ir_created_at p) u) x js)))"
      if "u \<in> {now, now'}" "ir_status p \<in> {R_IN_PROGRESS, R_NEW, R_RECOVERABLE}" for u and x :: claim_result
      by (rule commit_extends [OF f(1,2) w(3) claim_follows(2) [OF Some that(2)]]) (use p t(2) that(1) in auto)
    show ?thesis
      using Some w(2) validate_record_latest [OF f(3) Some] grant [of now] grant [of now'] same
      by (cases "ir_status p")
        (simp_all add: claim_locked_def map_of_index_records new_claim_claim_record Let_def)
  qed
qed

lemma transition_locked_extends:
  assumes w: "written_file (js_file js) rs" "js_records js = index_records rs" "untorn (si_append io)"
    and t: "\<forall>r \<in> set rs. \<not> flt now (ir_updated_at r)" "target \<in> {R_COMPLETED, R_FAILED, R_RECOVERABLE}"
  shows "extends rs (js_file (snd (transition_locked io now k (PStr ow) target d js)))"
proof -
  have f: "closed_file (js_file js)" "file_lines (js_file js) = map rec_line rs" "wf_history rs"
    using w(1) by (simp_all add: written_file_def)
  have same: "extends rs (js_file js)" using f by (simp add: extends_def)
  show ?thesis
  proof (cases "latest rs k")
    case (Some p)
    note p = latest_in_file [OF w(1) Some]
    have step: "extends rs (js_file (snd (commit io
        \<lparr>ir_key = k, ir_status = target, ir_created_at = ir_created_at p, ir_updated_at = now,
         ir_owner_id = ir_owner_id p, ir_attempt = ir_attempt p, ir_data = d\<rparr> () js)))"
      if "ir_status p = R_IN_PROGRESS"
      by (rule commit_extends [OF f(1,2) w(3) transition_follows [OF Some that _ _ t(2)]]) (use p t(1) in auto)
    show ?thesis
      using Some w(2) validate_record_latest [OF f(3) Some] step same
      by (cases "ow = []"; cases "ir_owner_id p = ow"; cases "ir_status p = R_IN_PROGRESS")
        (simp_all add: transition_locked_def validate_owner_id_def map_of_index_records)
  qed (use w(2) same in \<open>simp add: transition_locked_def validate_owner_id_def map_of_index_records\<close>)
qed

text \<open>Under the lock every operation works on the reloaded records, or leaves the file as it is.\<close>

lemma locked_extends:
  assumes w: "written_file (js_file js) rs"
    and body: "extends rs (js_file (snd (body (js\<lparr>js_records := index_records rs\<rparr>))))"
  shows "extends rs (js_file (snd (with_lock io (bind_op (store_reload b) (\<lambda>_. body)) js)))"
proof -
  have f: "closed_file (js_file js)" "file_lines (js_file js) = map rec_line rs" "wf_history rs"
    using w(1) by (simp_all add: written_file_def)
  have same: "extends rs (js_file js)" using f by (simp add: extends_def)
  consider e where "store_reload b js = (Inl e, js\<lparr>js_records := []\<rparr>)"
    | "store_reload b js = (Inr (), js\<lparr>js_records := index_records rs\<rparr>)"
    using store_reload_valid [OF f] by (cases b; cases "js_file js") (auto simp: store_reload_def)
  then show ?thesis using body same by cases (auto simp: with_lock_def bind_op_def)
qed

lemma rec_line_inj: "rec_line r = rec_line r' \<longleftrightarrow> r = r'"
proof -
  have st: "record_status_value a = record_status_value b \<Longrightarrow> a = b" for a b
    by (cases a; cases b) simp_all
  show ?thesis
    by (cases r; cases r'; cases "ir_key r"; cases "ir_key r'")
      (auto simp: rec_line_def record_to_dict_def dest: st)
qed

lemma map_rec_line_inj: "map rec_line xs = map rec_line ys \<longleftrightarrow> xs = ys"
  by (rule inj_map_eq_map) (auto simp: inj_def rec_line_inj)

lemma extends_written:
  assumes "written_file (js_file js) rs" "js_valid js'" "extends rs (js_file js')"
  shows "\<exists>rs'. written_file (js_file js') rs'"
proof -
  obtain rs' where rs': "closed_file (js_file js')" "file_lines (js_file js') = map rec_line rs'" "wf_history rs'"
    using assms(2) by (auto simp: js_valid_iff)
  with assms(3) have "rs' = rs \<or> (\<exists>r. rs' = rs @ [r] \<and> follows rs r)"
    by (auto simp: extends_def map_rec_line_inj simp del: map_append)
  with assms(1) rs' have "written_file (js_file js') rs'"
    by (auto simp: written_file_def follows_def lifecycle_history_snoc)
  then show ?thesis ..
qed

lemma call_written:
  assumes w: "written_file (js_file js) rs"
    and c: "js_good (call_ctx c) js" "call_args_ok c" "timed (call_ctx c)"
  shows "\<exists>rs'. written_file (js_file (snd (jsonl_call c js))) rs'"
proof -
  have v: "js_valid js" using w by (auto simp: written_file_def js_valid_iff)
  have fr: "file_records (js_file js) = rs"
    using w by (auto simp: written_file_def wf_history_def intro: file_records_lines)
  obtain io now now' where ctx: "call_ctx c = (io, now, now')" by (cases "call_ctx c") auto
  with c fr have t: "untorn (si_append io)" "now \<noteq> NaN"
    "\<forall>r \<in> set rs. \<forall>t \<in> {now, now'}. \<not> flt t (ir_updated_at r)"
    by (auto simp: js_good_def timed_def)
  let ?js = "js\<lparr>js_records := index_records rs\<rparr>"
  have w': "written_file (js_file ?js) rs" using w by simp
  have claim: "extends rs (js_file (snd (claim_locked io now now' k ow ?js)))" for k ow
    by (rule claim_locked_extends [OF w' _ t]) simp
  have move: "extends rs (js_file (snd (transition_locked io now k (PStr ow) st d ?js)))"
    if "st \<in> {R_COMPLETED, R_FAILED, R_RECOVERABLE}" for k ow st d
    by (rule transition_locked_extends [OF w' _ t(1) _ that]) (use t(3) in auto)
  have "extends rs (js_file (snd (jsonl_call c js)))"
  proof (cases c)
    case (Claim x k ow)
    with c(2) ctx locked_extends [OF w, where body = "claim_locked io now now' k ow", OF claim] show ?thesis
      by (simp add: jsonl_claim_def validate_owner_id_def)
  next
    case (Complete x k ow d)
    with ctx locked_extends [OF w, where body = "transition_locked io now k (PStr ow) R_COMPLETED d", OF move]
    show ?thesis by (simp add: jsonl_complete_def jsonl_transition_def)
  next
    case (Fail x k ow b d)
    with ctx locked_extends [OF w, where body = "transition_locked io now k (PStr ow) (fail_target b) d", OF move]
    show ?thesis by (simp add: jsonl_fail_def jsonl_transition_def fail_target_def)
  qed
  moreover have "js_valid (snd (jsonl_call c js))"
    using js.call_step_law [OF v c(1,2)] by (simp add: jsonl_call_js prod_eq_iff)
  ultimately show ?thesis using extends_written [OF w] by blast
qed

lemma successively_short: "length xs \<le> 1 \<Longrightarrow> successively P xs"
  by (cases xs; cases "tl xs") auto

lemma snapshot_written:
  assumes "written_file f rs"
  shows "written_file (Some \<lparr>jl_lines = map rec_line (snapshot keep rs), jl_open = False\<rparr>) (snapshot keep rs)"
proof -
  have "length (filter (\<lambda>r. ir_key r = k) (snapshot keep rs)) \<le> 1" for k
  proof -
    have d: "distinct (map ir_key (filter (\<lambda>r. ir_key r = k) (snapshot keep rs)))"
      using snapshot_distinct by (rule distinct_map_filter)
    have "set (map ir_key (filter (\<lambda>r. ir_key r = k) (snapshot keep rs))) \<subseteq> {k}" by auto
    from card_mono [OF _ this] distinct_card [OF d] show ?thesis by simp
  qed
  then have "lifecycle_history (snapshot keep rs)"
    unfolding lifecycle_history_def by (intro allI successively_short)
  with assms snapshot_history(1) [of rs keep] show ?thesis
    by (auto simp: written_file_def set_snapshot closed_file_def file_lines_def dest: latest_SomeD)
qed

lemma rewrite_written:
  assumes w: "written_file (js_file js) rs"
  shows "\<exists>rs'. written_file (js_file (snd (with_lock io (rewrite_locked io keep) js))) rs'"
proof -
  have f: "closed_file (js_file js)" "file_lines (js_file js) = map rec_line rs" "wf_history rs"
    using w by (simp_all add: written_file_def)
  let ?f = "Some \<lparr>jl_lines = map rec_line (snapshot keep rs), jl_open = False\<rparr>"
  consider e where "store_reload (si_read io) js = (Inl e, js\<lparr>js_records := []\<rparr>)"
    | "store_reload (si_read io) js = (Inr (), js\<lparr>js_records := index_records rs\<rparr>)"
    using store_reload_valid [OF f] by (cases "si_read io"; cases "js_file js") (auto simp: store_reload_def)
  then have "js_file (snd (with_lock io (rewrite_locked io keep) js)) \<in> {js_file js, ?f}"
    by cases (cases "si_snapshot io"; cases "si_replace io";
      auto simp: with_lock_def rewrite_locked_def write_snapshot_def replace_snapshot_def snapshot_def
        rec_line_def [abs_def])+
  with w snapshot_written [OF w, of keep] show ?thesis by auto
qed

lemma repair_written:
  assumes w: "written_file (js_file js) rs"
  shows "js_file (snd (repair io js)) = js_file js"
proof -
  have "corrupt_index (file_lines (js_file js)) = None"
    using w corrupt_index_healthy [of rs] by (simp add: written_file_def wf_history_def)
  then show ?thesis
    by (auto simp: repair_def with_lock_def file_lines_def split: option.splits)
qed

lemma reach_written:
  assumes "store_reach js0 js" "js_file js0 = None"
  shows "\<exists>rs. written_file (js_file js) rs"
  using assms
proof (induction rule: store_reach.induct)
  case start
  then show ?case
    by (intro exI [of _ "[]"]) (simp add: written_file_def closed_file_def file_lines_def)
next
  case (call js c)
  then show ?case using call_written by blast
next
  case (compact js io)
  then show ?case using rewrite_written unfolding compact_def by blast
next
  case (prune js io now max_age)
  then show ?case using rewrite_written [of js]
    by (cases "validate_max_age max_age") (auto simp: prune_def)
next
  case (repair js io)
  then show ?case using repair_written by metis
qed

text \<open>
  C18. What the store writes passes the validator: from a missing file, after any protocol calls with
  valid arguments whose appends tear no line (they may fail) and whose clock readings are numbers and
  not before a stamp in the file, and any compactions, prunings and repairs with any outcome of their
  file operations, the read-only validator accepts the file and reports exactly the records the store
  holds. Files that a clock running backwards or a torn line left behind are not covered (C9).
\<close>

theorem store_files_pass_readiness:
  assumes "store_reach js0 js" "js_file js0 = None"
  shows "\<exists>recs. parse_idempotency_store_read_only True (PathTo (js_file js)) = Inr (None, recs) \<and>
    (\<forall>k. map_of recs (canonical k) = js_view js k)"
proof -
  obtain rs where w: "written_file (js_file js) rs" using reach_written [OF assms] ..
  then have f: "closed_file (js_file js)" "file_lines (js_file js) = map rec_line rs" "wf_history rs"
    "lifecycle_history rs"
    by (simp_all add: written_file_def)
  with parse_valid_store [OF f(1-3)] js_valid_view [OF f(1-3) refl] map_of_index_records [of rs]
  show ?thesis by auto
qed

theorem store_files_pass_readiness_witness:
  "\<exists>recs. parse_idempotency_store_read_only True (PathTo (js_file ex_completed)) = Inr (None, recs) \<and>
     map_of recs (canonical ex_key) = Some ex_done"
proof -
  have "timed (at_time t)" for t by (simp add: timed_def at_time_def)
  then have "store_reach ex_empty ex_claimed" "timed (at_time 101)"
    using store_reach.call [OF store_reach.start, of "Claim (at_time 100) ex_key ''A''" ex_empty] ex_good(1) [of 100]
    by (simp_all add: ex_claimed_def)
  then have "store_reach ex_empty ex_completed"
    using store_reach.call [of ex_empty ex_claimed "Complete (at_time 101) ex_key ''A'' ex_data"] ex_good(2) [of 101]
    by (simp add: ex_completed_def)
  from store_files_pass_readiness [OF this] show ?thesis by (auto simp: ex_empty_def ex_completed_view)
qed

section \<open>A READY report\<close>











lemma unverifiable_Inr [simp]: "unverifiable rid x = Inr v \<longleftrightarrow> x = Inr v"
  by (cases x) (auto simp: unverifiable_def)


section \<open>The name a record is looked up by\<close>

definition ascii :: "string \<Rightarrow> bool" where
  "ascii s \<longleftrightarrow> (\<forall>c \<in> set s. (of_char c :: nat) \<le> 126)"

lemma json_char_ascii: "(of_char c :: nat) \<le> 126 \<Longrightarrow> json_char True c = json_char False c"
  by (simp add: json_char_def not_less split: option.split)




section \<open>What READY guarantees\<close>




lemma set_unique [simp]: "set (unique xs) = set xs"
  by (simp add: unique_def)







section \<open>Names beyond ASCII\<close>

lemma json_char_mixed:
  assumes "json_char True c @ r = json_char False d @ s"
  shows "c = d \<and> (of_char c :: nat) \<le> 126 \<and> r = s"
proof (cases "(of_char c :: nat) \<le> 126")
  case True
  with assms json_char_prefix_code [of False c r d s] show ?thesis by (simp add: json_char_ascii)
next
  case False
  have "(of_char c :: nat) \<le> 126" if "short_escape c = Some e" for e
    using short_escape_Some [OF that] by auto
  with False have c: "json_char True c = unicode_escape (of_char c)"
    by (cases "short_escape c") (auto simp: json_char_def)
  consider e where "json_char False d = [CHR 0x5C, e]" "e \<noteq> CHR ''u''"
    | "json_char False d = unicode_escape (of_char d)" "(of_char d :: nat) < 32"
    | "json_char False d = [d]" "d \<noteq> CHR 0x5C"
    by (cases False d rule: json_char_cases) (auto simp: json_char_def unicode_escape_def split: if_splits)
  then show ?thesis
  proof cases
    case 2
    with assms c have "unicode_escape (of_char c) = unicode_escape (of_char d)"
      by (simp add: unicode_escape_def)
    then have "(of_char c :: nat) = of_char d" by (rule unicode_escape_inj [rotated 2]) simp_all
    with 2(2) False show ?thesis by simp
  qed (use assms c in \<open>auto simp: unicode_escape_def\<close>)
qed

lemma json_chars_mixed:
  "concat (map (json_char True) s) @ CHR 0x22 # r = concat (map (json_char False) t) @ CHR 0x22 # q
     \<Longrightarrow> s = t \<and> ascii s \<and> r = q"
proof (induction s arbitrary: t)
  case Nil
  show ?case
  proof (cases t)
    case (Cons d t')
    with Nil json_char_no_quote [of False d] show ?thesis by (cases "json_char False d") auto
  qed (use Nil in \<open>simp add: ascii_def\<close>)
next
  case (Cons c s)
  show ?case
  proof (cases t)
    case Nil
    with Cons.prems json_char_no_quote [of True c] show ?thesis by (cases "json_char True c") auto
  next
    case (Cons d t')
    with Cons.prems json_char_mixed [of c _ d]
    have "c = d" "(of_char c :: nat) \<le> 126"
      "concat (map (json_char True) s) @ CHR 0x22 # r = concat (map (json_char False) t') @ CHR 0x22 # q"
      by fastforce+
    with Cons.IH Cons show ?thesis by (auto simp: ascii_def)
  qed
qed

lemma ascii_key_canonical:
  assumes "ascii_key call = Some (canonical k)"
  shows "ascii (tc_name call)"
proof -
  from assms obtain i where "CHR ''['' # json_str True (''tool:'' @ tc_name call) @ CHR '','' # json_str True i @ [CHR '']'']
      = canonical k"
    by (auto simp: ascii_key_def split: pyval.splits)
  then have "concat (map (json_char True) (''tool:'' @ tc_name call)) @ CHR 0x22 #
        (CHR '','' # json_str True i @ [CHR '']''])
      = concat (map (json_char False) (operation_key k)) @ CHR 0x22 #
        (CHR '','' # json_str False (idempotency_key k) @ [CHR '']''])"
    unfolding canonical_def json_str_def by simp
  from json_chars_mixed [OF this] show ?thesis by (auto simp: ascii_def)
qed

text \<open>
  C35. A call whose tool name has a character beyond ASCII is reported as missing from the
  idempotency store whatever accepted records the store holds, its own completed record included: the
  gate escapes such characters in the name it looks up, the store does not.
\<close>

theorem non_ascii_call_is_reported_missing:
  assumes "parse_idempotency_store_read_only True (PathTo f) = Inr (None, recs)"
    "completed_call md5 rid s cid r = Inr call" "\<not> ascii (tc_name call)" "py_in cid started"
  shows "check_completed_call md5 rid s started recs (cid, r) () = Inl (RecordMissing rid cid)"
proof -
  have "map_of recs name = None" if "ascii_key call = Some name" for name
  proof (rule ccontr)
    assume "map_of recs name \<noteq> None"
    then obtain x where "(name, x) \<in> set recs" by (auto dest: map_of_SomeD)
    with parse_read_only_Inr(2) [OF assms(1)] have "name = canonical (ir_key x)"
      by (auto simp: sound_records_def)
    with ascii_key_canonical that assms(3) show False by blast
  qed
  then have "lookup_call recs call = None" by (cases "ascii_key call") (simp_all add: lookup_call_def)
  with assms(2,4) show ?thesis by (simp add: check_completed_call_def unverifiable_def)
qed













text \<open>A tool whose name has the character U+00E9, and its completed record.\<close>

definition ex_accent :: idem_record where
  "ex_accent = ex_done\<lparr>ir_key := \<lparr>operation_key = ''tool:'' @ [CHR 0xE9], idempotency_key = ''run_1''\<rparr>\<rparr>"

theorem non_ascii_call_is_reported_missing_witness:
  "check_completed_call (\<lambda>n a. ''1'') ''run'' (empty_session ''run'') [PStr ''c1''] [(canonical (ir_key ex_accent), ex_accent)]
     (PStr ''c1'', ex_result\<lparr>tr_tool_name := PStr [CHR 0xE9]\<rparr>) () = Inl (RecordMissing ''run'' (PStr ''c1'')) \<and>
   ir_status ex_accent = R_COMPLETED"
proof -
  have wf: "wf_record ex_accent"
    using ex_done_fields(5) by (simp add: wf_record_def ex_accent_def wf_key_def)
  then have "wf_history [ex_accent]" "lifecycle_history [ex_accent]"
    using wf_history_snoc [of "[]" ex_accent] lifecycle_history_snoc [of "[]" ex_accent] by simp_all
  then have p: "parse_idempotency_store_read_only True (PathTo (Some \<lparr>jl_lines = map rec_line [ex_accent], jl_open = False\<rparr>))
      = Inr (None, [(canonical (ir_key ex_accent), ex_accent)])"
    using parse_valid_store [of "Some \<lparr>jl_lines = map rec_line [ex_accent], jl_open = False\<rparr>" "[ex_accent]"]
    by (simp add: closed_file_def file_lines_def index_records_def)
  let ?r = "ex_result\<lparr>tr_tool_name := PStr [CHR 0xE9]\<rparr>"
  let ?call = "ex_call\<lparr>tc_name := [CHR 0xE9]\<rparr>"
  have "completed_call (\<lambda>n a. ''1'') ''run'' (empty_session ''run'') (PStr ''c1'') ?r = Inr ?call"
    by (simp add: completed_call_def empty_session_def mk_tool_call_def ex_call_def)
  moreover have "\<not> ascii (tc_name ?call)" by (simp add: ascii_def)
  moreover have "py_in (PStr ''c1'') [PStr ''c1'']" by (simp add: py_in_def py_key_eq_def)
  ultimately show ?thesis
    using non_ascii_call_is_reported_missing [OF p] by (simp add: ex_accent_def)
qed

end
