(* ===== verification/Py_Regex.thy ===== *)
theory Py_Regex
  imports Py_Prelude
begin

text \<open>
  The part of Python's \<open>re\<close> module the modelled code uses: character classes, greedy and lazy repetition of a
  class, greedy repetition of a group, sequence, ordered alternation, options, groups and the assertions for word
  boundary, end, and (with \<open>MULTILINE\<close>) start and end of a line. A
  matcher maps the character before the position, the rest of the subject and the groups captured so
  far to all ways to go on, in the order in which the backtracking engine tries them; \<open>match\<close>, \<open>search\<close>
  and \<open>fullmatch\<close> take the first that fits. Characters are Latin-1 code points.
\<close>

datatype rx =
    Chars "char \<Rightarrow> bool"
  | Many "char \<Rightarrow> bool"
  | Then rx rx
  | Or rx rx
  | Optional rx
  | Star rx
  | Capture rx
  | Boundary
  | Dollar
  | Nothing
  | Lazy "char \<Rightarrow> bool"
  | LineStart
  | LineEnd

definition in_range :: "nat \<Rightarrow> nat \<Rightarrow> char \<Rightarrow> bool" where
  "in_range a b c \<longleftrightarrow> a \<le> (of_char c :: nat) \<and> (of_char c :: nat) \<le> b"

definition is_digit :: "char \<Rightarrow> bool" where
  "is_digit c \<longleftrightarrow> in_range 48 57 c"

definition is_lower :: "char \<Rightarrow> bool" where
  "is_lower c \<longleftrightarrow> in_range 97 122 c"

definition is_upper :: "char \<Rightarrow> bool" where
  "is_upper c \<longleftrightarrow> in_range 65 90 c"

definition lower_alnum :: "char \<Rightarrow> bool" where
  "lower_alnum c \<longleftrightarrow> is_lower c \<or> is_digit c"

definition is_word :: "char \<Rightarrow> bool" where
  "is_word c \<longleftrightarrow>
     is_digit c \<or> is_lower c \<or> is_upper c \<or> c = CHR ''_'' \<or>
     (of_char c :: nat) \<in> {170, 178, 179, 181, 185, 186, 188, 189, 190} \<or>
     192 \<le> (of_char c :: nat) \<and> (of_char c :: nat) \<notin> {215, 247}"

fun word_at :: "string \<Rightarrow> bool" where
  "word_at [] \<longleftrightarrow> False"
| "word_at (c # _) \<longleftrightarrow> is_word c"

type_synonym rx_state = "char option \<times> string \<times> string list"

definition advance :: "nat \<Rightarrow> rx_state \<Rightarrow> rx_state" where
  "advance n st =
     (let (prev, s, g) = st in (if n = 0 then prev else Some (s ! (n - 1)), drop n s, g))"

text \<open>Greedy repetition of a group, as long as each round consumes something.\<close>

fun star_run :: "(rx_state \<Rightarrow> rx_state list) \<Rightarrow> nat \<Rightarrow> rx_state \<Rightarrow> rx_state list" where
  "star_run f 0 st = [st]"
| "star_run f (Suc n) st =
     concat (map (\<lambda>st'. if length (fst (snd st')) < length (fst (snd st)) then star_run f n st' else []) (f st)) @ [st]"

fun rx_run :: "rx \<Rightarrow> rx_state \<Rightarrow> rx_state list" where
  "rx_run (Chars p) (prev, s, g) =
     (case s of [] \<Rightarrow> [] | c # cs \<Rightarrow> if p c then [(Some c, cs, g)] else [])"
| "rx_run (Many p) (prev, s, g) =
     map (\<lambda>n. advance n (prev, s, g)) (rev [0..<Suc (length (takeWhile p s))])"
| "rx_run (Then a b) st = concat (map (rx_run b) (rx_run a st))"
| "rx_run (Or a b) st = rx_run a st @ rx_run b st"
| "rx_run (Optional a) st = rx_run a st @ [st]"
| "rx_run (Star a) (prev, s, g) = star_run (rx_run a) (length s) (prev, s, g)"
| "rx_run (Capture a) (prev, s, g) =
     map (\<lambda>(prev', s', g'). (prev', s', g' @ [take (length s - length s') s])) (rx_run a (prev, s, g))"
| "rx_run Boundary (prev, s, g) =
     (if (case prev of None \<Rightarrow> False | Some c \<Rightarrow> is_word c) \<noteq> word_at s then [(prev, s, g)] else [])"
| "rx_run Dollar (prev, s, g) = (if s = [] \<or> s = [CHR 0x0A] then [(prev, s, g)] else [])"
| "rx_run Nothing st = [st]"
| "rx_run (Lazy p) (prev, s, g) =
     map (\<lambda>n. advance n (prev, s, g)) [0..<Suc (length (takeWhile p s))]"
| "rx_run LineStart (prev, s, g) = (if prev = None \<or> prev = Some (CHR 0x0A) then [(prev, s, g)] else [])"
| "rx_run LineEnd (prev, s, g) = (if s = [] \<or> hd s = CHR 0x0A then [(prev, s, g)] else [])"

definition some_chars :: "(char \<Rightarrow> bool) \<Rightarrow> rx" where
  "some_chars p = Then (Chars p) (Many p)"

fun lit :: "string \<Rightarrow> rx" where
  "lit [] = Nothing"
| "lit (c # cs) = Then (Chars (\<lambda>d. d = c)) (lit cs)"

fun times :: "nat \<Rightarrow> rx \<Rightarrow> rx" where
  "times 0 r = Nothing"
| "times (Suc n) r = Then r (times n r)"

fun one_of :: "rx list \<Rightarrow> rx" where
  "one_of [] = Chars (\<lambda>_. False)"
| "one_of [r] = r"
| "one_of (r # rs) = Or r (one_of rs)"

fun first_of :: "'a list \<Rightarrow> 'a option" where
  "first_of [] = None"
| "first_of (x # _) = Some x"

text \<open>\<open>re.match\<close>, \<open>re.search\<close> and \<open>re.fullmatch\<close>; the result is the list of captured groups.\<close>

definition re_match :: "rx \<Rightarrow> string \<Rightarrow> string list option" where
  "re_match r s = map_option (\<lambda>(_, _, g). g) (first_of (rx_run r (None, s, [])))"

definition re_fullmatch :: "rx \<Rightarrow> string \<Rightarrow> string list option" where
  "re_fullmatch r s =
     map_option (\<lambda>(_, _, g). g) (find (\<lambda>(_, rest, _). rest = []) (rx_run r (None, s, [])))"

fun search_from :: "rx \<Rightarrow> char option \<Rightarrow> string \<Rightarrow> string list option" where
  "search_from r prev [] = map_option (\<lambda>(_, _, g). g) (first_of (rx_run r (prev, [], [])))"
| "search_from r prev (c # cs) =
     (case rx_run r (prev, c # cs, []) of
        (_, _, g) # _ \<Rightarrow> Some g
      | [] \<Rightarrow> search_from r (Some c) cs)"

definition re_search :: "rx \<Rightarrow> string \<Rightarrow> string list option" where
  "re_search r s = search_from r None s"

lemma re_match_iff: "re_match r s = None \<longleftrightarrow> rx_run r (None, s, []) = []"
  by (cases "rx_run r (None, s, [])") (simp_all add: re_match_def)

lemma dollar_advance:
  "rx_run Dollar (advance n (prev, s, g)) = [] \<longleftrightarrow> drop n s \<noteq> [] \<and> drop n s \<noteq> [CHR 0x0A]"
  by (simp add: advance_def)

lemma rx_run_some_chars_Dollar:
  "rx_run (Then (some_chars p) Dollar) (prev, s, g) \<noteq> [] \<longleftrightarrow>
     (\<exists>w. w \<noteq> [] \<and> list_all p w \<and> (s = w \<or> s = w @ [CHR 0x0A]))"
proof (cases s)
  case Nil
  then show ?thesis by (auto simp: some_chars_def)
next
  case (Cons c cs)
  have "rx_run (Then (some_chars p) Dollar) (prev, s, g) \<noteq> [] \<longleftrightarrow>
      p c \<and> (\<exists>n \<le> length (takeWhile p cs). drop n cs = [] \<or> drop n cs = [CHR 0x0A])"
    using Cons by (auto simp: some_chars_def dollar_advance less_Suc_eq_le simp del: upt_Suc rx_run.simps(9))
  also have "\<dots> \<longleftrightarrow> (\<exists>w. w \<noteq> [] \<and> list_all p w \<and> (s = w \<or> s = w @ [CHR 0x0A]))"
  proof
    assume "p c \<and> (\<exists>n \<le> length (takeWhile p cs). drop n cs = [] \<or> drop n cs = [CHR 0x0A])"
    then obtain n where n: "p c" "n \<le> length (takeWhile p cs)" "drop n cs = [] \<or> drop n cs = [CHR 0x0A]" by blast
    have "take n cs = take n (takeWhile p cs)"
      using n(2) by (metis takeWhile_eq_take take_take min.absorb1)
    then have "list_all p (c # take n cs)"
      using n(1) by (auto simp: list_all_iff dest: in_set_takeD set_takeWhileD)
    moreover have "s = (c # take n cs) @ drop n cs" using Cons append_take_drop_id [of n cs] by simp
    ultimately show "\<exists>w. w \<noteq> [] \<and> list_all p w \<and> (s = w \<or> s = w @ [CHR 0x0A])"
      using n(3) by (intro exI [of _ "c # take n cs"]) (metis append_Nil2 list.distinct(1))
  next
    assume "\<exists>w. w \<noteq> [] \<and> list_all p w \<and> (s = w \<or> s = w @ [CHR 0x0A])"
    then obtain w where w: "w \<noteq> []" "list_all p w" "s = w \<or> s = w @ [CHR 0x0A]" by blast
    with Cons obtain v where v: "w = c # v" "cs = v \<or> cs = v @ [CHR 0x0A]" by (cases w) auto
    have long: "length v \<le> length (takeWhile p (v @ u))" for u
      using w(2) v(1) by (subst takeWhile_append2) (simp_all add: list_all_iff)
    from long [of "[]"] long [of "[CHR 0x0A]"] v(2) have "length v \<le> length (takeWhile p cs)"
      unfolding append_Nil2 by metis
    moreover have "drop (length v) cs = [] \<or> drop (length v) cs = [CHR 0x0A]" using v(2) by auto
    ultimately show "p c \<and> (\<exists>n \<le> length (takeWhile p cs). drop n cs = [] \<or> drop n cs = [CHR 0x0A])"
      using w(2) v(1) by auto
  qed
  finally show ?thesis .
qed

end
