(* ===== verification/Entity_Resolution.thy ===== *)
theory Entity_Resolution
  imports Core_Types Py_Regex "HOL-Library.List_Lexorder" "HOL-Library.Char_ord" "HOL-Library.Product_Lexorder"
begin

text \<open>
  \<open>src/product_intelligence/entity_resolution.py\<close> with the value classes of
  \<open>src/product_source/models.py\<close> it reads: the deterministic decision whether two marketplace
  observations show the same variant, the same product family, different products, or cannot be told.

  A dictionary of non-empty sets is a function to sets, with \<open>{}\<close> for a missing key. The time of an
  observation is a type of its own (\<open>'t\<close>), which is only compared. Text is Latin-1; \<open>nfkd_ascii\<close> is
  \<open>unicodedata.normalize("NFKD", s).encode("ascii", "ignore")\<close> on it.
\<close>

section \<open>Source packs\<close>

datatype media_role = M_PRIMARY | M_GALLERY | M_VARIANT | M_SELLER_DESCRIPTION

datatype media_provenance =
    STRUCTURED_PRODUCT_DATA | SEMANTIC_PRODUCT_GALLERY | SEMANTIC_VARIANT_MEDIA
  | SEMANTIC_SELLER_DESCRIPTION | PLATFORM_SCOPED_FALLBACK

record product_fact =
  pf_key :: string
  pf_value :: string
  pf_source_section :: string
  pf_provenance :: string
  pf_unit :: "string option"

definition mk_product_fact :: "product_fact \<Rightarrow> exn + product_fact" where
  "mk_product_fact f =
     (if strip (pf_key f) = [] then Inl (ValueError ''key cannot be empty'')
      else if strip (pf_value f) = [] then Inl (ValueError ''value cannot be empty'')
      else Inr f)"

record media_ref =
  mr_source_url :: string
  mr_platform :: string
  mr_role :: media_role
  mr_provenance :: media_provenance
  mr_ordinal :: int
  mr_alt_text :: "string option"
  mr_variant_label :: "string option"
  mr_content_type :: "string option"
  mr_byte_size :: "int option"
  mr_sha256_hash :: "string option"
  mr_perceptual_hash :: "string option"
  mr_local_filename :: "string option"

definition starts_with :: "string \<Rightarrow> string \<Rightarrow> bool" where
  "starts_with p s \<longleftrightarrow> take (length p) s = p"

definition mk_media_ref :: "media_ref \<Rightarrow> exn + media_ref" where
  "mk_media_ref m =
     (if \<not> (starts_with ''http://'' (mr_source_url m) \<or> starts_with ''https://'' (mr_source_url m))
      then Inl (ValueError ''source_url must start with http:// or https://'')
      else if mr_ordinal m < 0 then Inl (ValueError ''ordinal must be >= 0'')
      else (case mr_byte_size m of
              Some n \<Rightarrow> if n \<le> 0 then Inl (ValueError ''byte_size must be > 0 if set'') else Inr m
            | None \<Rightarrow> Inr m))"

record 't source_pack =
  sp_source_pack_id :: string
  sp_platform :: string
  sp_product_url :: string
  sp_observed_at :: 't
  sp_collector :: string
  sp_title :: "string option"
  sp_source_product_id :: "string option"
  sp_shop_name :: "string option"
  sp_brand :: "string option"
  sp_model_sku :: "string option"
  sp_description_text :: "string option"
  sp_facts :: "product_fact list"
  sp_media :: "media_ref list"
  sp_diagnostic_codes :: "string list"

definition mk_source_pack :: "'t source_pack \<Rightarrow> exn + 't source_pack" where
  "mk_source_pack p =
     (if sp_source_pack_id p = [] then Inl (ValueError ''source_pack_id cannot be empty'')
      else if sp_platform p = [] then Inl (ValueError ''platform cannot be empty'')
      else if \<not> (starts_with ''http://'' (sp_product_url p) \<or> starts_with ''https://'' (sp_product_url p))
      then Inl (ValueError ''product_url must start with http'')
      else Inr (p\<lparr>sp_description_text := map_option (take 10000) (sp_description_text p)\<rparr>))"

section \<open>Results\<close>

datatype relationship = EXACT_VARIANT_MATCH | SAME_PRODUCT_FAMILY | DIFFERENT_PRODUCT | UNCERTAIN

record 't identity =
  si_source_pack_id :: string
  si_platform :: string
  si_source_product_id :: "string option"
  si_product_url :: string
  si_observed_at :: 't

definition from_pack :: "'t source_pack \<Rightarrow> 't identity" where
  "from_pack p =
     \<lparr>si_source_pack_id = sp_source_pack_id p, si_platform = sp_platform p,
      si_source_product_id = sp_source_product_id p, si_product_url = sp_product_url p,
      si_observed_at = sp_observed_at p\<rparr>"

text \<open>One piece of evidence is its code and its detail.\<close>

type_synonym evidence = "string \<times> string"

record 't resolution =
  rs_relationship :: relationship
  rs_confidence :: pyfloat
  rs_left :: "'t identity"
  rs_right :: "'t identity"
  rs_reasons :: "string list"
  rs_evidence :: "evidence list"

section \<open>Normalisation\<close>

definition nfkd_ascii_char :: "char \<Rightarrow> string" where
  "nfkd_ascii_char c =
     (let n = of_char c :: nat in
      if n < 128 then [c]
      else if n \<in> {160, 168, 175, 180, 184} then '' ''
      else if n = 170 \<or> 224 \<le> n \<and> n \<le> 229 then ''a''
      else if n = 178 then ''2'' else if n = 179 then ''3'' else if n = 185 then ''1''
      else if n = 186 \<or> 242 \<le> n \<and> n \<le> 246 then ''o''
      else if n = 188 then ''14'' else if n = 189 then ''12'' else if n = 190 then ''34''
      else if 192 \<le> n \<and> n \<le> 197 then ''A'' else if n = 199 then ''C''
      else if 200 \<le> n \<and> n \<le> 203 then ''E'' else if 204 \<le> n \<and> n \<le> 207 then ''I''
      else if n = 209 then ''N'' else if 210 \<le> n \<and> n \<le> 214 then ''O''
      else if 217 \<le> n \<and> n \<le> 220 then ''U'' else if n = 221 then ''Y''
      else if n = 231 then ''c'' else if 232 \<le> n \<and> n \<le> 235 then ''e''
      else if 236 \<le> n \<and> n \<le> 239 then ''i'' else if n = 241 then ''n''
      else if 249 \<le> n \<and> n \<le> 252 then ''u'' else if n = 253 \<or> n = 255 then ''y''
      else [])"

lemma dropWhile_shorter [termination_simp]: "length (dropWhile P xs) < Suc (length xs)"
  by (simp add: length_dropWhile_le less_Suc_eq_le)

text \<open>\<open>re.sub(r"[^a-z0-9]+", " ", s)\<close>\<close>

fun squash :: "string \<Rightarrow> string" where
  "squash [] = []"
| "squash (c # cs) =
     (if lower_alnum c then c # squash cs else CHR '' '' # squash (dropWhile (\<lambda>d. \<not> lower_alnum d) cs))"

definition norm_text :: "string option \<Rightarrow> string option" where
  "norm_text v =
     (case v of
        None \<Rightarrow> None
      | Some s \<Rightarrow>
          if strip s = [] then None
          else
            (let n = strip (squash (lower (concat (map nfkd_ascii_char s))))
             in if n = [] then None else Some n))"

definition key_of :: "string \<Rightarrow> string" where
  "key_of s = filter lower_alnum (case norm_text (Some s) of None \<Rightarrow> [] | Some n \<Rightarrow> n)"

text \<open>\<open>str.lower\<close> and \<open>str.casefold\<close> on Latin-1 (the micro sign, which leaves Latin-1, is kept).\<close>

definition latin_lower :: "char \<Rightarrow> char" where
  "latin_lower c =
     (let n = of_char c :: nat
      in if 65 \<le> n \<and> n \<le> 90 \<or> 192 \<le> n \<and> n \<le> 222 \<and> n \<noteq> 215 then char_of (n + 32) else c)"

definition casefold :: "string \<Rightarrow> string" where
  "casefold s = concat (map (\<lambda>c. if (of_char c :: nat) = 223 then ''ss'' else [latin_lower c]) s)"

section \<open>Facts\<close>

type_synonym fact_map = "string \<Rightarrow> string set"

definition facts_of :: "'t source_pack \<Rightarrow> fact_map" where
  "facts_of p k =
     set (List.map_filter (\<lambda>f. if key_of (pf_key f) = k then norm_text (Some (pf_value f)) else None) (sp_facts p))"

definition values_of :: "fact_map \<Rightarrow> string list \<Rightarrow> string set" where
  "values_of facts ks = \<Union> (set (map facts ks))"

definition global_id_keys :: "string list" where
  "global_id_keys =
     [''ean'', ''ean13'', ''gtin'', ''gtin8'', ''gtin12'', ''gtin13'', ''gtin14'', ''isbn'', ''upc'', ''upca'', ''upce'']"

definition manufacturer_id_keys :: "string list" where
  "manufacturer_id_keys = [''mpn'', ''manufacturerpartnumber'', ''manufacturerproductnumber'']"

definition brand_keys :: "string list" where
  "brand_keys = [''brand'', ''manufacturer'']"

definition model_keys :: "string list" where
  "model_keys = [''model'', ''modelnumber'', ''productmodel'']"

definition variant_keys :: "string list" where
  "variant_keys =
     [''color'', ''colour'', ''capacity'', ''storage'', ''size'', ''variantsize'', ''flavor'', ''flavour'',
      ''scent'', ''style'', ''material'', ''voltage'', ''edition'', ''configuration'', ''variant'',
      ''variantname'', ''option'']"

definition count_keys :: "string list" where
  "count_keys = [''count'', ''itemcount'', ''packcount'', ''quantity'', ''quantityperpack'', ''unitsperpack'']"

definition composition_keys :: "string list" where
  "composition_keys = [''bundle'', ''isbundle'', ''composition'', ''packagecontent'', ''productcomposition'']"

definition brand_of :: "'t source_pack \<Rightarrow> fact_map \<Rightarrow> string set" where
  "brand_of p facts =
     values_of facts brand_keys \<union> (case norm_text (sp_brand p) of None \<Rightarrow> {} | Some b \<Rightarrow> {b})"

definition models_of :: "fact_map \<Rightarrow> string set" where
  "models_of facts = values_of facts model_keys"

text \<open>A single variant label describes the observed variant; several labels are a catalogue.\<close>

definition variants_of :: "'t source_pack \<Rightarrow> fact_map \<Rightarrow> (string \<times> string set) list" where
  "variants_of p facts =
     (let variants = filter (\<lambda>(k, vs). vs \<noteq> {}) (map (\<lambda>k. (k, facts k)) variant_keys);
          labels = set (List.map_filter (\<lambda>m. if mr_role m = M_VARIANT then norm_text (mr_variant_label m) else None)
                      (sp_media p))
      in if variants = [] \<and> card labels = 1 then [(''variantlabel'', labels)] else variants)"

section \<open>Composition\<close>

text \<open>\<open>re.finditer(r"\d+", s)\<close> and \<open>int\<close> of a run of digits.\<close>

fun digit_runs :: "string \<Rightarrow> string list" where
  "digit_runs [] = []"
| "digit_runs (c # cs) =
     (if is_digit c then (c # takeWhile is_digit cs) # digit_runs (dropWhile is_digit cs) else digit_runs cs)"

definition int_of_digits :: "string \<Rightarrow> nat" where
  "int_of_digits s = fold (\<lambda>c n. 10 * n + (of_char c - 48)) s 0"

abbreviation spaces :: rx where
  "spaces \<equiv> Many is_space"

abbreviation number :: rx where
  "number \<equiv> Capture (some_chars is_digit)"

definition pack_re :: rx where
  "pack_re =
     Or (Then Boundary
          (Then (Or (Then (lit ''pack'') (Then spaces (Optional (Then (lit ''of'') spaces))))
                    (Then (lit ''x'') spaces))
          (Then number Boundary)))
        (Then Boundary
          (Then number
          (Then spaces
          (Then (one_of [lit ''pack'', Then (lit ''pc'') (Optional (lit ''s'')),
                         Then (lit ''piece'') (Optional (lit ''s'')), Then (lit ''unit'') (Optional (lit ''s''))])
           Boundary))))"

definition bundle_re :: rx where
  "bundle_re = Then Boundary (Then (Capture (one_of [lit ''bundle'', lit ''combo'', lit ''set''])) Boundary)"

definition single_re :: rx where
  "single_re =
     Then Boundary
       (Then (Capture (one_of
          [lit ''single'',
           Then (lit ''one'') (Then (some_chars is_space) (one_of [lit ''piece'', lit ''unit''])),
           Then (lit ''1'') (Then spaces (one_of [lit ''pack'', lit ''pc'', lit ''piece'', lit ''unit'']))]))
        Boundary)"

definition join_words :: "string list \<Rightarrow> string" where
  "join_words ws = (case ws of [] \<Rightarrow> [] | v # vs \<Rightarrow> v @ concat (map (\<lambda>w. '' '' @ w) vs))"

definition composition_of :: "'t source_pack \<Rightarrow> fact_map \<Rightarrow> string option" where
  "composition_of p facts =
     (let counts = values_of facts count_keys;
          parsed = \<Union> ((\<lambda>v. set (map int_of_digits (digit_runs v))) ` counts);
          composition = join_words (sorted_list_of_set (values_of facts composition_keys));
          text = join_words (filter (\<lambda>w. w \<noteq> []) [composition, case norm_text (sp_title p) of None \<Rightarrow> [] | Some t \<Rightarrow> t])
      in if parsed \<noteq> {} \<and> (\<forall>n \<in> parsed. 1 < n) then Some ''multi''
         else if parsed = {1} then Some ''single''
         else if (case re_search pack_re text of Some (n # _) \<Rightarrow> 1 < int_of_digits n | _ \<Rightarrow> False)
         then Some ''multi''
         else if re_search bundle_re text \<noteq> None then Some ''multi''
         else if re_search single_re text \<noteq> None then Some ''single'' else None)"

section \<open>The decision\<close>

definition overlap :: "string set \<Rightarrow> string set \<Rightarrow> bool" where
  "overlap l r \<longleftrightarrow> l \<noteq> {} \<and> r \<noteq> {} \<and> l \<inter> r \<noteq> {}"

definition disjoint :: "string set \<Rightarrow> string set \<Rightarrow> bool" where
  "disjoint l r \<longleftrightarrow> l \<noteq> {} \<and> r \<noteq> {} \<and> l \<inter> r = {}"

definition mk_resolution ::
  "'t source_pack \<Rightarrow> 't source_pack \<Rightarrow> relationship \<Rightarrow> rat \<Rightarrow> string list \<Rightarrow> evidence list \<Rightarrow> 't resolution" where
  "mk_resolution l r rel conf reasons ev =
     \<lparr>rs_relationship = rel, rs_confidence = to_double conf, rs_left = from_pack l, rs_right = from_pack r,
      rs_reasons = sorted_list_of_set (set reasons), rs_evidence = sorted_list_of_set (set ev)\<rparr>"

definition same_platform :: "'t source_pack \<Rightarrow> 't source_pack \<Rightarrow> bool" where
  "same_platform l r \<longleftrightarrow> casefold (sp_platform l) = casefold (sp_platform r)"

definition same_product_id :: "'t source_pack \<Rightarrow> 't source_pack \<Rightarrow> bool" where
  "same_product_id l r \<longleftrightarrow>
     sp_source_product_id l \<noteq> None \<and> sp_source_product_id l \<noteq> Some [] \<and>
     sp_source_product_id l = sp_source_product_id r"

definition same_title :: "'t source_pack \<Rightarrow> 't source_pack \<Rightarrow> bool" where
  "same_title l r \<longleftrightarrow> norm_text (sp_title l) \<noteq> None \<and> norm_text (sp_title l) = norm_text (sp_title r)"

definition same_sku :: "'t source_pack \<Rightarrow> 't source_pack \<Rightarrow> bool" where
  "same_sku l r \<longleftrightarrow>
     sp_model_sku l \<noteq> None \<and> sp_model_sku l \<noteq> Some [] \<and> sp_model_sku r \<noteq> None \<and> sp_model_sku r \<noteq> Some [] \<and>
     norm_text (sp_model_sku l) = norm_text (sp_model_sku r)"

definition media_hashes :: "'t source_pack \<Rightarrow> string set" where
  "media_hashes p =
     set (List.map_filter (\<lambda>m. case mr_sha256_hash m of
            Some h \<Rightarrow> if h = [] then None else Some (map latin_lower h) | None \<Rightarrow> None) (sp_media p))"

text \<open>What identifies the family: evidence that is authoritative, or the same listing; \<open>None\<close> is strength 0.\<close>

definition family_evidence :: "'t source_pack \<Rightarrow> 't source_pack \<Rightarrow> evidence option" where
  "family_evidence l r =
     (let lf = facts_of l; rf = facts_of r;
          same_brand = overlap (brand_of l lf) (brand_of r rf)
      in if overlap (values_of lf global_id_keys) (values_of rf global_id_keys)
         then Some (''GLOBAL_IDENTIFIER_MATCH'', ''authoritative identifier matches'')
         else if same_brand \<and> (overlap (models_of lf) (models_of rf) \<or>
                overlap (values_of lf manufacturer_id_keys) (values_of rf manufacturer_id_keys))
         then Some (''BRAND_MODEL_MATCH'', ''brand and manufacturer model match'')
         else if same_platform l r \<and> same_product_id l r
         then Some (''SCOPED_LISTING_MATCH'', ''platform-scoped listing identifier matches'')
         else None)"

definition conflict_evidence :: "'t source_pack \<Rightarrow> 't source_pack \<Rightarrow> (rat \<times> string \<times> evidence) option" where
  "conflict_evidence l r =
     (let lf = facts_of l; rf = facts_of r; lc = composition_of l lf; rc = composition_of r rf;
          lb = brand_of l lf; rb = brand_of r rf;
          other_model = disjoint (models_of lf) (models_of rf) \<or>
            disjoint (values_of lf manufacturer_id_keys) (values_of rf manufacturer_id_keys)
      in if lc \<noteq> None \<and> rc \<noteq> None \<and> lc \<noteq> rc
         then Some (99 / 100, ''materially different sellable composition'',
                (''COMPOSITION_CONFLICT'', min (the lc) (the rc) @ '' versus '' @ max (the lc) (the rc)))
         else if disjoint (values_of lf global_id_keys) (values_of rf global_id_keys)
         then Some (99 / 100, ''reliable product-family identifiers conflict'',
                (''GLOBAL_IDENTIFIER_CONFLICT'', ''authoritative identifier values differ''))
         else if disjoint lb rb \<and> other_model
         then Some (97 / 100, ''reliable product-family identity conflicts'',
                (''FAMILY_IDENTITY_CONFLICT'', ''brand and manufacturer model evidence differ''))
         else if overlap lb rb \<and> other_model
         then Some (96 / 100, ''reliable manufacturer model evidence conflicts'',
                (''MODEL_CONFLICT'', ''same brand has different manufacturer model''))
         else None)"

definition weak_evidence :: "'t source_pack \<Rightarrow> 't source_pack \<Rightarrow> string list \<times> evidence list" where
  "weak_evidence l r =
     (let title = same_title l r; media = media_hashes l \<inter> media_hashes r \<noteq> {};
          cross = \<not> same_platform l r \<and> same_product_id l r; sku = same_sku l r
      in ((if title then [''matching normalized title''] else []) @ (if media then [''matching media hash''] else []),
          (if title then [(''TITLE_SIMILARITY'', ''titles match after normalization'')] else []) @
          (if media then [(''MEDIA_SIMILARITY'', ''exact media hash matches'')] else []) @
          (if cross then [(''CROSS_PLATFORM_SCOPED_ID_EQUALITY'', ''same text in different marketplace namespaces'')] else []) @
          (if sku then [(''UNSCOPED_MODEL_SKU_EQUALITY'', ''model_sku text matches without authoritative namespace'')] else [])))"

definition variant_conflict :: "(string \<times> string set) list \<Rightarrow> (string \<times> string set) list \<Rightarrow> bool" where
  "variant_conflict lv rv \<longleftrightarrow> (\<exists>(k, vs) \<in> set lv. \<exists>(k', ws) \<in> set rv. k = k' \<and> vs \<inter> ws = {})"

definition resolve_product_entities :: "'t source_pack \<Rightarrow> 't source_pack \<Rightarrow> 't resolution" where
  "resolve_product_entities l r =
     (case conflict_evidence l r of
        Some (conf, reason, ev) \<Rightarrow> mk_resolution l r DIFFERENT_PRODUCT conf [reason] [ev]
      | None \<Rightarrow>
          (let lv = variants_of l (facts_of l); rv = variants_of r (facts_of r)
           in case family_evidence l r of
                Some ev \<Rightarrow>
                  if variant_conflict lv rv
                  then mk_resolution l r SAME_PRODUCT_FAMILY (96 / 100)
                         [''same product family'', ''different sellable variant'']
                         [ev, (''VARIANT_CONFLICT'', ''observed sellable variant attributes differ'')]
                  else if lv \<noteq> [] \<and> rv \<noteq> [] \<and> lv = rv
                  then mk_resolution l r EXACT_VARIANT_MATCH (98 / 100)
                         [''same product family'', ''same observed sellable variant'']
                         [ev, (''VARIANT_MATCH'', ''observed sellable variant attributes match'')]
                  else mk_resolution l r SAME_PRODUCT_FAMILY (86 / 100)
                         [''same product family'', ''insufficient variant evidence for exact match''] [ev]
              | None \<Rightarrow>
                  (let (weak, ev) = weak_evidence l r
                   in mk_resolution l r UNCERTAIN (if weak \<noteq> [] then 35 / 100 else 1 / 10)
                        (weak @ [''insufficient reliable identity evidence'']) ev)))"

end
