(* ===== verification/Graph_Search.thy ===== *)
theory Graph_Search
  imports Py_Prelude
begin

text \<open>
  Breadth-first search over a dictionary of adjacency lists with labelled edges, as the two modules of the
  entity resolution graph write it with a \<open>deque\<close> and a \<open>visited\<close> set: the search for a path and the
  collection of a component. The lemmas give both against the relation \<open>edge_rel\<close> of the dictionary:
  the path is a shortest chain and is missing exactly when there is none, and the component is the set of
  the nodes reachable outside the ones already visited.
\<close>

type_synonym ('n, 'e) adjacency = "('n \<times> ('n \<times> 'e) list) list"

text \<open>\<open>adj.get(x, [])\<close>\<close>

definition neighbours :: "('n, 'e) adjacency \<Rightarrow> 'n \<Rightarrow> ('n \<times> 'e) list" where
  "neighbours adj x = (case map_of adj x of None \<Rightarrow> [] | Some es \<Rightarrow> es)"

text \<open>The loop over the neighbours: what it appends to the queue and the nodes visited after it.\<close>

fun visit_new :: "('n \<times> 'e) list \<Rightarrow> 'n set \<Rightarrow> ('n \<times> 'e) list \<times> 'n set" where
  "visit_new [] seen = ([], seen)"
| "visit_new ((y, e) # es) seen =
     (if y \<in> seen then visit_new es seen
      else (let (new, seen') = visit_new es (insert y seen) in ((y, e) # new, seen')))"

definition targets :: "('n, 'e) adjacency \<Rightarrow> 'n set" where
  "targets adj = (\<Union>(_, es) \<in> set adj. fst ` set es)"

lemma finite_targets [simp]: "finite (targets adj)"
  by (auto simp: targets_def)

lemma neighbours_in_targets: "fst ` set (neighbours adj x) \<subseteq> targets adj"
proof (cases "map_of adj x")
  case (Some es)
  from map_of_SomeD [OF this] have "fst ` set es \<subseteq> targets adj" unfolding targets_def by blast
  with Some show ?thesis by (simp add: neighbours_def)
qed (simp add: neighbours_def)

lemma visit_new_seen:
  "visit_new es seen = (new, seen') \<Longrightarrow> seen' = seen \<union> fst ` set es"
  by (induction es seen arbitrary: new seen' rule: visit_new.induct)
    (auto simp: insert_absorb split: if_splits prod.splits)

lemma visit_new_edges: "visit_new es seen = (new, seen') \<Longrightarrow> set new \<subseteq> set es"
  by (induction es seen arbitrary: new seen' rule: visit_new.induct) (auto split: if_splits prod.splits)

lemma visit_new_nodes: "visit_new es seen = (new, seen') \<Longrightarrow> fst ` set new = fst ` set es - seen"
proof (induction es seen arbitrary: new seen' rule: visit_new.induct)
  case (2 y e es seen)
  obtain n s where n: "visit_new es (insert y seen) = (n, s)" by force
  with 2(2) [OF _ this] have "y \<notin> seen \<Longrightarrow> fst ` set n = fst ` set es - insert y seen" by simp
  moreover have "new = (y, e) # n" if "y \<notin> seen" using 2(3) n that by simp
  moreover have "fst ` set new = fst ` set es - seen" if "y \<in> seen" using 2(1) 2(3) that by simp
  ultimately show ?case by (cases "y \<in> seen") (simp_all add: insert_Diff_if, blast)
qed simp

lemma visit_new_distinct: "visit_new es seen = (new, seen') \<Longrightarrow> distinct (map fst new)"
proof (induction es seen arbitrary: new seen' rule: visit_new.induct)
  case (2 y e es seen)
  obtain n s where n: "visit_new es (insert y seen) = (n, s)" by force
  from visit_new_nodes [OF n] have "y \<notin> set (map fst n)" by simp
  with 2(2) [OF _ n] 2(1,3) n show ?case by (cases "y \<in> seen") auto
qed simp

lemma visit_new_measure:
  assumes "visit_new (neighbours adj x) seen = (new, seen')"
  shows "length new + card (targets adj - seen') = card (targets adj - seen)"
proof -
  let ?N = "fst ` set (neighbours adj x) - seen"
  have "length new = card ?N"
    using visit_new_nodes [OF assms] distinct_card [OF visit_new_distinct [OF assms]] by simp
  moreover have "targets adj - seen' = (targets adj - seen) - ?N"
    using visit_new_seen [OF assms] by auto
  moreover have "card ((targets adj - seen) - ?N) = card (targets adj - seen) - card ?N"
    using neighbours_in_targets [of adj x] by (intro card_Diff_subset) (auto intro: finite_subset)
  moreover have "card ?N \<le> card (targets adj - seen)"
    using neighbours_in_targets [of adj x] by (intro card_mono) auto
  ultimately show ?thesis by simp
qed

section \<open>The search for a path\<close>

function path_search ::
  "('n, 'e) adjacency \<Rightarrow> 'n \<Rightarrow> ('n \<times> 'e list) list \<Rightarrow> 'n set \<Rightarrow> 'e list option" where
  "path_search adj t [] seen = None"
| "path_search adj t ((x, p) # queue) seen =
     (if x = t \<and> p \<noteq> [] then Some p
      else path_search adj t
             (queue @ map (\<lambda>(y, e). (y, p @ [e])) (fst (visit_new (neighbours adj x) seen)))
             (snd (visit_new (neighbours adj x) seen)))"
  by pat_completeness auto
termination
proof (relation "measure (\<lambda>(adj, t, queue, seen). length queue + card (targets adj - seen))")
  fix adj :: "('n, 'e) adjacency" and t x p queue seen
  obtain new seen' where "visit_new (neighbours adj x) seen = (new, seen')" by force
  from visit_new_measure [OF this] this
  show "((adj, t, queue @ map (\<lambda>(y, e). (y, p @ [e])) (fst (visit_new (neighbours adj x) seen)),
            snd (visit_new (neighbours adj x) seen)), adj, t, (x, p) # queue, seen)
        \<in> measure (\<lambda>(adj, t, queue, seen). length queue + card (targets adj - seen))"
    by simp
qed simp

definition find_path :: "('n, 'e) adjacency \<Rightarrow> 'n \<Rightarrow> 'n \<Rightarrow> 'e list option" where
  "find_path adj s t = path_search adj t [(s, [])] {s}"

text \<open>A chain of edges from a node to a node, and the relation they span.\<close>

fun chain :: "('n, 'e) adjacency \<Rightarrow> 'n \<Rightarrow> 'e list \<Rightarrow> 'n \<Rightarrow> bool" where
  "chain adj x [] y \<longleftrightarrow> x = y"
| "chain adj x (e # es) y \<longleftrightarrow> (\<exists>z. (z, e) \<in> set (neighbours adj x) \<and> chain adj z es y)"

definition edge_rel :: "('n, 'e) adjacency \<Rightarrow> ('n \<times> 'n) set" where
  "edge_rel adj = {(x, y). y \<in> fst ` set (neighbours adj x)}"

lemma chain_append: "chain adj x (p @ q) z \<longleftrightarrow> (\<exists>y. chain adj x p y \<and> chain adj y q z)"
  by (induction p arbitrary: x) auto

lemma chain_relpow: "chain adj x p y \<Longrightarrow> (x, y) \<in> edge_rel adj ^^ length p"
proof (induction p arbitrary: x)
  case (Cons e p)
  then obtain z where "(z, e) \<in> set (neighbours adj x)" "(z, y) \<in> edge_rel adj ^^ length p" by auto
  then show ?case by (force simp: edge_rel_def intro: relpow_Suc_I2 simp del: relpow.simps)
qed simp

text \<open>
  The invariant of the loop: every queue entry holds a shortest chain, the entries are ordered by length and
  span at most two lengths, no node nearer than the head is unvisited, and the nodes done with are closed.
\<close>

definition bfs_inv :: "('n, 'e) adjacency \<Rightarrow> 'n \<Rightarrow> 'n \<Rightarrow> ('n \<times> 'e list) list \<Rightarrow> 'n set \<Rightarrow> bool" where
  "bfs_inv adj s t queue seen \<longleftrightarrow>
     s \<in> seen \<and> fst ` set queue \<subseteq> seen \<and>
     (\<forall>(x, p) \<in> set queue. chain adj s p x \<and> (\<forall>n. (s, x) \<in> edge_rel adj ^^ n \<longrightarrow> length p \<le> n)) \<and>
     sorted (map (length \<circ> snd) queue) \<and>
     (\<forall>(x, p) \<in> set queue. length p \<le> Suc (length (snd (hd queue)))) \<and>
     (queue \<noteq> [] \<longrightarrow> (\<forall>n z. (s, z) \<in> edge_rel adj ^^ n \<longrightarrow> n \<le> length (snd (hd queue)) \<longrightarrow> z \<in> seen)) \<and>
     (\<forall>x \<in> seen - fst ` set queue. edge_rel adj `` {x} \<subseteq> seen \<and> (x = t \<longrightarrow> x = s))"

lemma bfs_inv_start: "bfs_inv adj s t [(s, [])] {s}"
  by (simp add: bfs_inv_def)

lemma edge_rel_visit:
  assumes "visit_new (neighbours adj x) seen = (new, seen')"
  shows "seen' = seen \<union> edge_rel adj `` {x}"
  using visit_new_seen [OF assms] by (auto simp: edge_rel_def)

lemma bfs_inv_step:
  assumes inv: "bfs_inv adj s t ((x, p) # queue) seen" and go: "x = t \<longrightarrow> p = []"
    and v: "visit_new (neighbours adj x) seen = (new, seen')"
  shows "bfs_inv adj s t (queue @ map (\<lambda>(y, e). (y, p @ [e])) new) seen'"
proof -
  let ?new = "map (\<lambda>(y, e). (y, p @ [e])) new" let ?q = "queue @ ?new" let ?R = "edge_rel adj"
  have seen': "seen' = seen \<union> ?R `` {x}" by (rule edge_rel_visit [OF v])
  have new: "set new \<subseteq> set (neighbours adj x)" "fst ` set new = ?R `` {x} - seen"
    using visit_new_edges [OF v] visit_new_nodes [OF v] by (auto simp: edge_rel_def)
  have near: "z \<in> seen" if "(s, z) \<in> ?R ^^ n" "n \<le> length p" for n z
    using inv that by (simp add: bfs_inv_def)
  have sub: "s \<in> seen" "fst ` set ((x, p) # queue) \<subseteq> seen"
    using inv by (simp_all add: bfs_inv_def)
  have closed: "?R `` {y} \<subseteq> seen \<and> (y = t \<longrightarrow> y = s)" if "y \<in> seen" "y \<notin> fst ` set ((x, p) # queue)" for y
  proof -
    have "\<forall>y \<in> seen - fst ` set ((x, p) # queue). ?R `` {y} \<subseteq> seen \<and> (y = t \<longrightarrow> y = s)"
      using inv unfolding bfs_inv_def by (elim conjE)
    from bspec [OF this DiffI [OF that]] show ?thesis .
  qed
  have p: "chain adj s p x" using inv by (simp add: bfs_inv_def)
  have q: "chain adj s r y \<and> length p \<le> length r \<and> length r \<le> Suc (length p) \<and>
      (\<forall>n. (s, y) \<in> ?R ^^ n \<longrightarrow> length r \<le> n)" if "(y, r) \<in> set queue" for y r
  proof -
    have "\<forall>(y, r) \<in> set ((x, p) # queue). chain adj s r y \<and> (\<forall>n. (s, y) \<in> ?R ^^ n \<longrightarrow> length r \<le> n)"
      using inv unfolding bfs_inv_def by (elim conjE)
    from bspec [OF this, of "(y, r)"] that
    have "chain adj s r y" "\<forall>n. (s, y) \<in> ?R ^^ n \<longrightarrow> length r \<le> n" by simp_all
    moreover have "\<forall>(y, r) \<in> set ((x, p) # queue). length r \<le> Suc (length (snd (hd ((x, p) # queue))))"
      using inv unfolding bfs_inv_def by (elim conjE)
    from bspec [OF this, of "(y, r)"] that have "length r \<le> Suc (length p)" by simp
    moreover have "sorted (map (length \<circ> snd) ((x, p) # queue))" using inv unfolding bfs_inv_def by (elim conjE)
    with that have "length p \<le> length r" by auto
    ultimately show ?thesis by simp
  qed
  have entry: "chain adj s r y \<and> length p \<le> length r \<and> length r \<le> Suc (length p) \<and>
      (\<forall>n. (s, y) \<in> ?R ^^ n \<longrightarrow> length r \<le> n)" if "(y, r) \<in> set ?q" for y r
  proof (cases "(y, r) \<in> set queue")
    case False
    with that obtain e where e: "(y, e) \<in> set new" "r = p @ [e]" by auto
    with new(1) p have "chain adj s r y" by (auto simp: chain_append)
    moreover from e(1) new(2) have "y \<notin> seen" by force
    with near have "Suc (length p) \<le> n" if "(s, y) \<in> ?R ^^ n" for n using that not_less_eq_eq by blast
    ultimately show ?thesis using e(2) by simp
  qed (rule q)
  have sorted: "sorted (map (length \<circ> snd) ?q)"
  proof -
    have "sorted (map (length \<circ> snd) ((x, p) # queue))" using inv unfolding bfs_inv_def by (elim conjE)
    moreover have "length r \<le> Suc (length p)" if "(y, r) \<in> set queue" for y r using q that by blast
    moreover have "map (length \<circ> snd) ?new = replicate (length new) (Suc (length p))"
      by (induction new) auto
    ultimately show ?thesis by (auto simp: sorted_append)
  qed
  have nodes: "fst ` set ?q = fst ` set queue \<union> fst ` set new"
    by (simp add: image_Un image_image case_prod_unfold)
  have all_seen: "fst ` set ?q \<subseteq> seen'" "s \<in> seen'"
    using sub new(2) seen' nodes by auto
  have closed': "?R `` {y} \<subseteq> seen' \<and> (y = t \<longrightarrow> y = s)" if "y \<in> seen'" "y \<notin> fst ` set ?q" for y
  proof (cases "y = x")
    case True
    with seen' go p show ?thesis by auto
  next
    case False
    have "y \<in> seen" "y \<notin> fst ` set ((x, p) # queue)"
      using that seen' False new(2) unfolding nodes by auto
    from closed [OF this] seen' show ?thesis by auto
  qed
  have near': "z \<in> seen'" if "(s, z) \<in> ?R ^^ n" "n \<le> length (snd (hd ?q))" "?q \<noteq> []" for n z
  proof (cases "n \<le> length p")
    case True
    with near that(1) seen' show ?thesis by auto
  next
    case False
    obtain y r where h: "hd ?q = (y, r)" by force
    with that(3) have "(y, r) \<in> set ?q" using hd_in_set by metis
    from entry [OF this] h that(2) False have n: "n = Suc (length p)" "length r = n" by auto
    from that(1) n(1) obtain w where w: "(s, w) \<in> ?R ^^ length p" "(w, z) \<in> ?R" by auto
    have "w \<notin> fst ` set ?q"
    proof
      assume "w \<in> fst ` set ?q"
      then obtain r' where r': "(w, r') \<in> set ?q" by force
      have "length r \<le> length r'"
        using sorted r' h that(3) by (cases ?q) auto
      with entry [OF r'] w(1) n show False by force
    qed
    with closed' [of w] near [OF w(1)] seen' w(2) show ?thesis by auto
  qed
  have "\<forall>(y, r) \<in> set ?q. length r \<le> Suc (length (snd (hd ?q)))"
  proof (cases "?q = []")
    case False
    obtain y r where h: "hd ?q = (y, r)" by force
    with False have "(y, r) \<in> set ?q" using hd_in_set by metis
    from entry [OF this] have "Suc (length p) \<le> Suc (length (snd (hd ?q)))" using h by simp
    moreover have "length r' \<le> Suc (length p)" if "(y', r') \<in> set ?q" for y' r' using entry [OF that] by simp
    ultimately show ?thesis by (auto simp del: set_append intro: le_trans)
  qed simp
  moreover have "\<forall>(x, p) \<in> set ?q. chain adj s p x \<and> (\<forall>n. (s, x) \<in> ?R ^^ n \<longrightarrow> length p \<le> n)"
    using entry by blast
  moreover have "?q \<noteq> [] \<longrightarrow> (\<forall>n z. (s, z) \<in> ?R ^^ n \<longrightarrow> n \<le> length (snd (hd ?q)) \<longrightarrow> z \<in> seen')"
    using near' by blast
  moreover have "\<forall>y \<in> seen' - fst ` set ?q. ?R `` {y} \<subseteq> seen' \<and> (y = t \<longrightarrow> y = s)"
    using closed' by blast
  ultimately show ?thesis unfolding bfs_inv_def using sorted all_seen by (intro conjI)
qed

lemma bfs_inv_empty:
  assumes "bfs_inv adj s t [] seen" "s \<noteq> t"
  shows "(s, t) \<notin> (edge_rel adj)\<^sup>*"
proof
  assume "(s, t) \<in> (edge_rel adj)\<^sup>*"
  then have "t \<in> seen"
    by (induction rule: rtrancl_induct) (use assms in \<open>auto simp: bfs_inv_def\<close>)
  with assms show False by (auto simp: bfs_inv_def)
qed

lemma path_search_correct:
  assumes "bfs_inv adj s t queue seen" "s \<noteq> t"
  shows "(case path_search adj t queue seen of
            None \<Rightarrow> (s, t) \<notin> (edge_rel adj)\<^sup>*
          | Some p \<Rightarrow> chain adj s p t \<and> (\<forall>n. (s, t) \<in> edge_rel adj ^^ n \<longrightarrow> length p \<le> n))"
  using assms
proof (induction adj t queue seen rule: path_search.induct)
  case (1 adj t seen)
  then show ?case by (simp add: bfs_inv_empty)
next
  case (2 adj t x p queue seen)
  show ?case
  proof (cases "x = t \<and> p \<noteq> []")
    case True
    with 2(2) show ?thesis by (auto simp: bfs_inv_def)
  next
    case False
    with 2 bfs_inv_step [OF 2(2), of "fst (visit_new (neighbours adj x) seen)" "snd (visit_new (neighbours adj x) seen)"]
    show ?thesis by simp
  qed
qed

theorem find_path_None:
  assumes "s \<noteq> t"
  shows "find_path adj s t = None \<longleftrightarrow> (s, t) \<notin> (edge_rel adj)\<^sup>*"
proof (cases "find_path adj s t")
  case (Some p)
  with path_search_correct [OF bfs_inv_start assms, of adj] have "chain adj s p t" by (simp add: find_path_def)
  from relpow_imp_rtrancl [OF chain_relpow [OF this]] Some show ?thesis by simp
qed (use path_search_correct [OF bfs_inv_start assms, of adj] in \<open>simp add: find_path_def\<close>)

theorem find_path_Some:
  assumes "s \<noteq> t" "find_path adj s t = Some p"
  shows "chain adj s p t" and "chain adj s p' t \<Longrightarrow> length p \<le> length p'"
  using path_search_correct [OF bfs_inv_start assms(1), of adj] assms(2)
  by (simp_all add: find_path_def chain_relpow)

section \<open>Connected components\<close>

text \<open>The inner loop: the members in the order the queue gives them, and the nodes visited after it.\<close>

function collect :: "('n, 'e) adjacency \<Rightarrow> 'n list \<Rightarrow> 'n set \<Rightarrow> 'n list \<times> 'n set" where
  "collect adj [] seen = ([], seen)"
| "collect adj (x # queue) seen =
     (case collect adj (queue @ map fst (fst (visit_new (neighbours adj x) seen)))
             (snd (visit_new (neighbours adj x) seen)) of
        (found, seen') \<Rightarrow> (x # found, seen'))"
  by pat_completeness auto
termination
proof (relation "measure (\<lambda>(adj, queue, seen). length queue + card (targets adj - seen))")
  fix adj :: "('n, 'e) adjacency" and x queue seen
  obtain new seen' where "visit_new (neighbours adj x) seen = (new, seen')" by force
  from visit_new_measure [OF this] this
  show "((adj, queue @ map fst (fst (visit_new (neighbours adj x) seen)),
            snd (visit_new (neighbours adj x) seen)), adj, x # queue, seen)
        \<in> measure (\<lambda>(adj, queue, seen). length queue + card (targets adj - seen))"
    by simp
qed simp

text \<open>The outer loop, over the observations in their order.\<close>

fun components :: "('n, 'e) adjacency \<Rightarrow> 'n list \<Rightarrow> 'n set \<Rightarrow> 'n list list" where
  "components adj [] seen = []"
| "components adj (x # xs) seen =
     (if x \<in> seen then components adj xs seen
      else (case collect adj [x] (insert x seen) of
              (found, seen') \<Rightarrow> found # components adj xs seen'))"

lemma collect_distinct:
  "collect adj queue seen = (found, seen') \<Longrightarrow> distinct queue \<Longrightarrow> set queue \<subseteq> seen \<Longrightarrow>
     distinct found \<and> set found \<inter> (seen - set queue) = {} \<and> set queue \<subseteq> set found \<and> seen' = seen \<union> set found"
proof (induction adj queue seen arbitrary: found seen' rule: collect.induct)
  case (2 adj x queue seen)
  obtain new s where v: "visit_new (neighbours adj x) seen = (new, s)" by force
  obtain c where c: "collect adj (queue @ map fst new) s = (c, seen')" "found = x # c"
    using 2(2) v by (auto split: prod.splits)
  have new: "distinct (map fst new)" "set (map fst new) \<inter> seen = {}" "s = seen \<union> set (map fst new)"
    using visit_new_distinct [OF v] visit_new_nodes [OF v] visit_new_seen [OF v] by auto
  have IH: "distinct c \<and> set c \<inter> (s - set (queue @ map fst new)) = {} \<and> set (queue @ map fst new) \<subseteq> set c \<and>
      seen' = s \<union> set c"
    using 2(1) v c(1) 2(3,4) new by auto
  have "seen - set queue \<subseteq> s - set (queue @ map fst new)" using new(2,3) by (auto simp del: set_map)
  with IH have old: "set c \<inter> (seen - set queue) = {}" by blast
  with 2(3,4) have "x \<notin> set c" by auto
  with IH old 2(3,4) show ?case unfolding c(2) new(3) by auto
qed auto

lemma collect_closed:
  "collect adj queue seen = (found, seen') \<Longrightarrow> edge_rel adj `` (seen - set queue) \<subseteq> seen \<Longrightarrow>
     edge_rel adj `` seen' \<subseteq> seen'"
proof (induction adj queue seen arbitrary: found seen' rule: collect.induct)
  case (2 adj x queue seen)
  obtain new s where v: "visit_new (neighbours adj x) seen = (new, s)" by force
  obtain c where c: "collect adj (queue @ map fst new) s = (c, seen')" "found = x # c"
    using 2(2) v by (auto split: prod.splits)
  have "fst ` set new = edge_rel adj `` {x} - seen" "s = seen \<union> edge_rel adj `` {x}"
    using visit_new_nodes [OF v] edge_rel_visit [OF v] by (auto simp: edge_rel_def)
  then have "edge_rel adj `` (s - set (queue @ map fst new)) \<subseteq> s" using 2(3) by auto
  with 2(1) v c(1) show ?case by simp
qed auto

lemma collect_reach:
  "collect adj queue seen = (found, seen') \<Longrightarrow> set found \<subseteq> (edge_rel adj)\<^sup>* `` set queue"
proof (induction adj queue seen arbitrary: found seen' rule: collect.induct)
  case (2 adj x queue seen)
  obtain new s where v: "visit_new (neighbours adj x) seen = (new, s)" by force
  obtain c where c: "collect adj (queue @ map fst new) s = (c, seen')" "found = x # c"
    using 2(2) v by (auto split: prod.splits)
  have "set c \<subseteq> (edge_rel adj)\<^sup>* `` (set queue \<union> fst ` set new)" using 2(1) v c(1) by simp
  moreover have "fst ` set new \<subseteq> edge_rel adj `` {x}" using visit_new_nodes [OF v] by (auto simp: edge_rel_def)
  ultimately have "set c \<subseteq> (edge_rel adj)\<^sup>* `` (set queue \<union> edge_rel adj `` {x})" by blast
  also have "\<dots> \<subseteq> (edge_rel adj)\<^sup>* `` (set (x # queue))" by (auto intro: converse_rtrancl_into_rtrancl)
  finally show ?case using c(2) by auto
qed auto

lemma closed_reach: "R `` S \<subseteq> S \<Longrightarrow> R\<^sup>* `` S \<subseteq> S"
proof
  fix y assume "R `` S \<subseteq> S" "y \<in> R\<^sup>* `` S"
  then obtain x where "(x, y) \<in> R\<^sup>*" "x \<in> S" by blast
  then show "y \<in> S" using \<open>R `` S \<subseteq> S\<close> by (induction rule: rtrancl_induct) auto
qed

text \<open>
  In a symmetric graph, starting outside a closed set, the loop collects exactly the component of its start.
\<close>

lemma collect_component:
  assumes c: "collect adj [x] (insert x seen) = (found, seen')" and closed: "edge_rel adj `` seen \<subseteq> seen"
    and fresh: "x \<notin> seen" and sym: "sym (edge_rel adj)"
  shows "distinct found" "set found = (edge_rel adj)\<^sup>* `` {x}" "seen' = seen \<union> set found"
    "set found \<inter> seen = {}" "edge_rel adj `` seen' \<subseteq> seen'"
proof -
  let ?R = "edge_rel adj"
  have d: "distinct found" "set found \<inter> seen = {}" "x \<in> set found" "seen' = seen \<union> set found"
    using collect_distinct [OF c] fresh by auto
  have cl: "?R `` seen' \<subseteq> seen'" using collect_closed [OF c] closed fresh by auto
  have "?R\<^sup>* `` {x} \<inter> seen = {}"
  proof -
    have "(x, y) \<in> ?R\<^sup>* \<Longrightarrow> y \<in> seen \<Longrightarrow> False" for y
      using symD [OF sym_rtrancl [OF sym]] closed_reach [OF closed] fresh by blast
    then show ?thesis by auto
  qed
  moreover have "?R\<^sup>* `` {x} \<subseteq> seen'" using closed_reach [OF cl] d by auto
  ultimately have "?R\<^sup>* `` {x} \<subseteq> set found" using d(4) by auto
  with collect_reach [OF c] show "set found = ?R\<^sup>* `` {x}" by auto
  from d cl show "distinct found" "seen' = seen \<union> set found" "set found \<inter> seen = {}" "?R `` seen' \<subseteq> seen'" by auto
qed

theorem components_correct:
  assumes "edge_rel adj `` seen \<subseteq> seen" and "sym (edge_rel adj)"
  shows "distinct (concat (components adj xs seen)) \<and>
    (\<forall>c \<in> set (components adj xs seen). c \<noteq> [] \<and> (\<forall>x \<in> set c. set c = (edge_rel adj)\<^sup>* `` {x})) \<and>
    set (concat (components adj xs seen)) = (edge_rel adj)\<^sup>* `` set xs - seen"
  using assms
proof (induction adj xs seen rule: components.induct)
  case (2 adj x xs seen)
  let ?R = "(edge_rel adj)\<^sup>*"
  show ?case
  proof (cases "x \<in> seen")
    case True
    with closed_reach [OF 2(3)] have "?R `` {x} \<subseteq> seen" by blast
    moreover have "?R `` set (x # xs) = ?R `` {x} \<union> ?R `` set xs" by auto
    ultimately show ?thesis using 2(1) [OF True 2(3,4)] True by auto
  next
    case False
    obtain c s where c: "collect adj [x] (insert x seen) = (c, s)" by force
    note comp = collect_component [OF c 2(3) False 2(4)]
    let ?cs = "components adj xs s"
    have one: "\<forall>y \<in> set c. set c = ?R `` {y}"
      using comp(2) sym_rtrancl [OF 2(4)] by (auto dest: symD intro: rtrancl_trans)
    have ne: "c \<noteq> []" using comp(2) by auto
    have IH: "distinct (concat ?cs)" "\<forall>c \<in> set ?cs. c \<noteq> [] \<and> (\<forall>x \<in> set c. set c = ?R `` {x})"
        "set (concat ?cs) = ?R `` set xs - s"
      using 2(2) [OF False, OF c [symmetric]] comp(5) 2(4) by simp_all
    have eq: "components adj (x # xs) seen = c # ?cs" using False c by simp
    have "distinct (concat (c # ?cs))" using comp(1,3) IH(1,3) by auto
    moreover have "set (concat (c # ?cs)) = ?R `` set (x # xs) - seen"
    proof -
      have "?R `` set (x # xs) = ?R `` {x} \<union> ?R `` set xs" by auto
      with comp(2,3,4) IH(3) show ?thesis by auto
    qed
    ultimately show ?thesis unfolding eq using one ne IH(2) by simp
  qed
qed simp

end
