(* ===== verification/Resolution_Graph.thy ===== *)
theory Resolution_Graph
  imports Entity_Resolution Graph_Search
begin

text \<open>
  \<open>src/product_intelligence/entity_resolution_graph.py\<close>: all pairwise decisions over a bounded collection
  of observations and the contradictions among them. Identities are ordered by their \<open>repr\<close>, which is the
  parameter \<open>rep\<close>; the local \<open>pair_map\<close> of \<open>_find_conflicts\<close> is written and never read, and is left out.
\<close>

datatype multi_error = MultiObservationResolutionError string

record 't pair_evidence =
  pe_left :: "'t identity"
  pe_right :: "'t identity"
  pe_relationship :: relationship
  pe_confidence :: pyfloat
  pe_reasons :: "string list"

record 't family_conflict =
  fc_conflict_type :: string
  fc_contradictory_pair :: "'t pair_evidence"
  fc_positive_path :: "'t pair_evidence list"
  fc_affected_identities :: "'t identity list"
  fc_detail :: string

record 't resolution_graph =
  rg_observations :: "'t identity list"
  rg_pairwise_results :: "'t resolution list"
  rg_conflicts :: "'t family_conflict list"

definition graph_has_conflicts :: "'t resolution_graph \<Rightarrow> bool" where
  "graph_has_conflicts g \<longleftrightarrow> 0 < length (rg_conflicts g)"

fun check_duplicates :: "('t identity \<Rightarrow> string) \<Rightarrow> 't identity list \<Rightarrow> 't identity set \<Rightarrow> multi_error + unit" where
  "check_duplicates rep [] seen = Inr ()"
| "check_duplicates rep (x # xs) seen =
     (if x \<in> seen
      then Inl (MultiObservationResolutionError (''Duplicate exact SourceObservationIdentity detected: '' @ rep x))
      else check_duplicates rep xs (insert x seen))"

definition validate_observations ::
  "('t identity \<Rightarrow> string) \<Rightarrow> 't source_pack list \<Rightarrow> multi_error + 't identity list" where
  "validate_observations rep packs =
     (if length packs < 2 \<or> 100 < length packs
      then Inl (MultiObservationResolutionError
             (''Observation count must be between 2 and 100, got '' @ nat_str (length packs)))
      else (case check_duplicates rep (map from_pack packs) {} of
              Inl e \<Rightarrow> Inl e
            | Inr _ \<Rightarrow> Inr (map from_pack packs)))"

text \<open>\<open>sorted((left, right), key=_identity_sort_key)\<close>; the sort is stable.\<close>

definition sorted_pair :: "('t identity \<Rightarrow> string) \<Rightarrow> 't resolution \<Rightarrow> 't identity \<times> 't identity" where
  "sorted_pair rep res =
     (if rep (rs_right res) < rep (rs_left res) then (rs_right res, rs_left res) else (rs_left res, rs_right res))"

definition to_conflict_evidence :: "('t identity \<Rightarrow> string) \<Rightarrow> 't resolution \<Rightarrow> 't pair_evidence" where
  "to_conflict_evidence rep res =
     \<lparr>pe_left = fst (sorted_pair rep res), pe_right = snd (sorted_pair rep res),
      pe_relationship = rs_relationship res, pe_confidence = rs_confidence res, pe_reasons = rs_reasons res\<rparr>"

definition positive :: "relationship \<Rightarrow> bool" where
  "positive r \<longleftrightarrow> r = EXACT_VARIANT_MATCH \<or> r = SAME_PRODUCT_FAMILY"

text \<open>What the loop over the results appends to \<open>adj[x]\<close>, then the sort of every list by the neighbour.\<close>

fun edges_at :: "'t resolution list \<Rightarrow> 't identity \<Rightarrow> ('t identity \<times> 't resolution) list" where
  "edges_at [] x = []"
| "edges_at (res # rs) x =
     (if positive (rs_relationship res)
      then (if rs_left res = x then [(rs_right res, res)] else []) @
           (if rs_right res = x then [(rs_left res, res)] else [])
      else []) @ edges_at rs x"

definition positive_adjacency ::
  "('t identity \<Rightarrow> string) \<Rightarrow> 't identity list \<Rightarrow> 't resolution list \<Rightarrow> ('t identity, 't resolution) adjacency" where
  "positive_adjacency rep ids results = map (\<lambda>x. (x, sort_key (\<lambda>(y, _). rep y) (edges_at results x))) ids"

fun nodes_in_path :: "'t identity \<Rightarrow> 't resolution list \<Rightarrow> 't identity list" where
  "nodes_in_path cur [] = [cur]"
| "nodes_in_path cur (edge # path) =
     cur # nodes_in_path (if rs_left edge = cur then rs_right edge else rs_left edge) path"

definition conflict_of ::
  "('t identity \<Rightarrow> string) \<Rightarrow> ('t identity, 't resolution) adjacency \<Rightarrow> 't resolution \<Rightarrow> 't family_conflict option" where
  "conflict_of rep adj res =
     (let (u, v) = sorted_pair rep res
      in case find_path adj u v of
           None \<Rightarrow> None
         | Some path \<Rightarrow> Some
             \<lparr>fc_conflict_type = ''POSITIVE_FAMILY_CHAIN_CONTRADICTS_DIFFERENT_PRODUCT'',
              fc_contradictory_pair = to_conflict_evidence rep res,
              fc_positive_path = map (to_conflict_evidence rep) path,
              fc_affected_identities = nodes_in_path u path,
              fc_detail = ''Observations '' @ si_source_pack_id u @ '' and '' @ si_source_pack_id v @
                '' have a direct DIFFERENT_PRODUCT relationship but are connected by a '' @
                nat_str (length path) @ ''-hop positive product-family chain.''\<rparr>)"

definition find_conflicts ::
  "('t identity \<Rightarrow> string) \<Rightarrow> 't identity list \<Rightarrow> 't resolution list \<Rightarrow> 't family_conflict list" where
  "find_conflicts rep ids results =
     List.map_filter (conflict_of rep (positive_adjacency rep ids results))
       (sort_key (\<lambda>res. (rep (fst (sorted_pair rep res)), rep (snd (sorted_pair rep res))))
         (filter (\<lambda>res. rs_relationship res = DIFFERENT_PRODUCT) results))"

text \<open>The two loops over the index pairs \<open>i < j\<close>.\<close>

fun pairwise :: "'t source_pack list \<Rightarrow> 't resolution list" where
  "pairwise [] = []"
| "pairwise (p # ps) = map (resolve_product_entities p) ps @ pairwise ps"

definition resolve_multi_observations ::
  "('t identity \<Rightarrow> string) \<Rightarrow> 't source_pack list \<Rightarrow> multi_error + 't resolution_graph" where
  "resolve_multi_observations rep packs =
     (case validate_observations rep packs of
        Inl e \<Rightarrow> Inl e
      | Inr ids \<Rightarrow> Inr
          \<lparr>rg_observations = ids, rg_pairwise_results = pairwise packs,
           rg_conflicts = find_conflicts rep ids (pairwise packs)\<rparr>)"

section \<open>Lemmas\<close>

lemma check_duplicates_ok:
  "check_duplicates rep xs seen = Inr () \<longleftrightarrow> distinct xs \<and> set xs \<inter> seen = {}"
  by (induction rep xs seen rule: check_duplicates.induct) auto

lemma validate_observations_ok:
  "validate_observations rep packs = Inr ids \<longleftrightarrow>
     2 \<le> length packs \<and> length packs \<le> 100 \<and> distinct (map from_pack packs) \<and> ids = map from_pack packs"
  using check_duplicates_ok [of rep "map from_pack packs" "{}"]
  by (auto simp: validate_observations_def split: sum.splits)

lemma resolve_multi_ok:
  "resolve_multi_observations rep packs = Inr g \<longleftrightarrow>
     2 \<le> length packs \<and> length packs \<le> 100 \<and> distinct (map from_pack packs) \<and>
     g = \<lparr>rg_observations = map from_pack packs, rg_pairwise_results = pairwise packs,
          rg_conflicts = find_conflicts rep (map from_pack packs) (pairwise packs)\<rparr>"
  by (auto simp: resolve_multi_observations_def validate_observations_ok split: sum.splits)
    (metis sum.exhaust sum.distinct(1) validate_observations_ok)+

lemma set_edges_at:
  "(y, res) \<in> set (edges_at rs x) \<longleftrightarrow>
     res \<in> set rs \<and> positive (rs_relationship res) \<and>
     (rs_left res = x \<and> rs_right res = y \<or> rs_right res = x \<and> rs_left res = y)"
  by (induction rs x rule: edges_at.induct) auto

lemma neighbours_positive:
  "neighbours (positive_adjacency rep ids rs) x =
     (if x \<in> set ids then sort_key (\<lambda>(y, _). rep y) (edges_at rs x) else [])"
  by (auto simp: neighbours_def positive_adjacency_def map_of_map_restrict restrict_map_def)

lemma rs_ends [simp]:
  "rs_left (resolve_product_entities l r) = from_pack l"
  "rs_right (resolve_product_entities l r) = from_pack r"
  by (simp_all add: resolve_product_entities_def mk_resolution_def Let_def split: option.splits prod.splits)

end
