(* ===== verification/Resolution_Facts.thy ===== *)
theory Resolution_Facts
  imports Resolution_Graph
begin

text \<open>
  Lemmas on the pairwise decision (it is symmetric, and when it is positive) and on the resolution graph:
  the edges the search walks are the positive decisions, and a contradiction is reported exactly for the
  pairs decided different that a chain of positive decisions connects.
\<close>

section \<open>The decision is symmetric\<close>

definition flip :: "'t resolution \<Rightarrow> 't resolution" where
  "flip res = res\<lparr>rs_left := rs_right res, rs_right := rs_left res\<rparr>"

lemma overlap_sym: "overlap l r = overlap r l"
  by (auto simp: overlap_def)

lemma disjoint_sym: "disjoint l r = disjoint r l"
  by (auto simp: disjoint_def)

lemma conflict_evidence_sym: "conflict_evidence l r = conflict_evidence r l"
  unfolding conflict_evidence_def Let_def
  by (simp add: overlap_sym [of "brand_of l _"] disjoint_sym [of "values_of (facts_of l) _"]
      disjoint_sym [of "brand_of l _"] disjoint_sym [of "models_of (facts_of l)"] min.commute max.commute
      eq_commute [of "composition_of l _"] conj_ac cong: conj_cong)

lemma same_sym:
  "same_platform l r = same_platform r l" "same_product_id l r = same_product_id r l"
  "same_title l r = same_title r l" "same_sku l r = same_sku r l"
  unfolding same_platform_def same_product_id_def same_title_def same_sku_def by metis+

lemma family_evidence_sym: "family_evidence l r = family_evidence r l"
  unfolding family_evidence_def Let_def
  by (simp only: overlap_sym [of "brand_of l _"] overlap_sym [of "values_of (facts_of l) _"]
      overlap_sym [of "models_of (facts_of l)"] same_sym [of l])

lemma variant_conflict_sym: "variant_conflict lv rv \<Longrightarrow> variant_conflict rv lv"
  unfolding variant_conflict_def by (auto simp: Int_commute) blast

lemma variant_conflict_iff: "variant_conflict lv rv \<longleftrightarrow> variant_conflict rv lv"
  using variant_conflict_sym by blast

lemma weak_evidence_sym: "weak_evidence l r = weak_evidence r l"
  unfolding weak_evidence_def Let_def by (simp only: same_sym [of l] Int_commute [of "media_hashes l"])

lemma mk_resolution_flip: "mk_resolution r l rel conf reasons ev = flip (mk_resolution l r rel conf reasons ev)"
  by (simp add: mk_resolution_def flip_def)

lemma resolve_flip: "resolve_product_entities r l = flip (resolve_product_entities l r)"
  unfolding resolve_product_entities_def Let_def
  by (simp add: conflict_evidence_sym [of r] family_evidence_sym [of r] weak_evidence_sym [of r]
      variant_conflict_iff [of "variants_of r _"] mk_resolution_flip [of r l] eq_commute [of "variants_of r _"]
      split: option.splits prod.splits)

section \<open>What the graph says\<close>

text \<open>The positive decisions as a relation on the identities, without the order in which pairs were taken.\<close>

definition family_link :: "'t source_pack list \<Rightarrow> ('t identity \<times> 't identity) set" where
  "family_link packs =
     {(from_pack l, from_pack r) | l r. l \<in> set packs \<and> r \<in> set packs \<and> l \<noteq> r \<and>
        positive (rs_relationship (resolve_product_entities l r))}"

lemma rs_relationship_flip [simp]: "rs_relationship (flip res) = rs_relationship res"
  by (simp add: flip_def)

lemma relationship_sym:
  "rs_relationship (resolve_product_entities r l) = rs_relationship (resolve_product_entities l r)"
  by (simp add: resolve_flip [of r l])

lemma sym_family_link: "sym (family_link packs)"
  unfolding family_link_def by (rule symI, clarify) (metis relationship_sym)

lemma pairwise_results:
  "res \<in> set (pairwise packs) \<Longrightarrow> \<exists>l \<in> set packs. \<exists>r \<in> set packs. res = resolve_product_entities l r"
  by (induction packs) auto

lemma pairwise_results_distinct:
  "res \<in> set (pairwise packs) \<Longrightarrow> distinct (map from_pack packs) \<Longrightarrow> rs_left res \<noteq> rs_right res"
  by (induction packs) (auto simp: image_iff)

lemma pairwise_complete:
  "l \<in> set packs \<Longrightarrow> r \<in> set packs \<Longrightarrow> l \<noteq> r \<Longrightarrow>
     resolve_product_entities l r \<in> set (pairwise packs) \<or> resolve_product_entities r l \<in> set (pairwise packs)"
  by (induction packs) auto

lemma from_pack_inj:
  "distinct (map from_pack packs) \<Longrightarrow> l \<in> set packs \<Longrightarrow> r \<in> set packs \<Longrightarrow> from_pack l = from_pack r \<longleftrightarrow> l = r"
  by (auto simp: distinct_map dest: inj_onD)

lemma positive_edge:
  assumes "distinct (map from_pack packs)"
  shows "(\<exists>res. (y, res) \<in> set (edges_at (pairwise packs) x)) \<longleftrightarrow> (x, y) \<in> family_link packs"
proof
  assume "\<exists>res. (y, res) \<in> set (edges_at (pairwise packs) x)"
  then obtain res where res: "res \<in> set (pairwise packs)" "positive (rs_relationship res)"
    "rs_left res = x \<and> rs_right res = y \<or> rs_right res = x \<and> rs_left res = y"
    by (auto simp: set_edges_at)
  obtain l r where lr: "l \<in> set packs" "r \<in> set packs" "res = resolve_product_entities l r"
    using pairwise_results [OF res(1)] by blast
  with pairwise_results_distinct [OF res(1) assms] have "l \<noteq> r" by auto
  with lr res(2,3) have "(from_pack l, from_pack r) \<in> family_link packs" "{x, y} = {from_pack l, from_pack r}"
    by (auto simp: family_link_def)
  with symD [OF sym_family_link] show "(x, y) \<in> family_link packs" by (metis doubleton_eq_iff)
next
  assume "(x, y) \<in> family_link packs"
  then obtain l r where "x = from_pack l" "y = from_pack r" "l \<in> set packs" "r \<in> set packs" "l \<noteq> r"
    "positive (rs_relationship (resolve_product_entities l r))" by (auto simp: family_link_def)
  with pairwise_complete [of l packs r] show "\<exists>res. (y, res) \<in> set (edges_at (pairwise packs) x)"
    by (auto simp: set_edges_at relationship_sym)
qed

lemma edge_rel_positive:
  assumes "distinct (map from_pack packs)"
  shows "edge_rel (positive_adjacency rep (map from_pack packs) (pairwise packs)) = family_link packs"
proof -
  have "(x, y) \<in> family_link packs \<Longrightarrow> x \<in> from_pack ` set packs" for x y by (auto simp: family_link_def)
  then show ?thesis
    using positive_edge [OF assms] by (force simp: edge_rel_def neighbours_positive)
qed

lemma sorted_pair_ends: "{fst (sorted_pair rep res), snd (sorted_pair rep res)} = {rs_left res, rs_right res}"
  by (auto simp: sorted_pair_def)

lemma set_find_conflicts:
  "c \<in> set (find_conflicts rep ids results) \<longleftrightarrow>
     (\<exists>res \<in> set results. rs_relationship res = DIFFERENT_PRODUCT \<and>
        conflict_of rep (positive_adjacency rep ids results) res = Some c)"
  by (force simp: find_conflicts_def List.map_filter_def)

lemma conflict_of_Some:
  assumes "conflict_of rep adj res = Some c"
  obtains path where "find_path adj (fst (sorted_pair rep res)) (snd (sorted_pair rep res)) = Some path"
    "fc_contradictory_pair c = to_conflict_evidence rep res"
    "fc_positive_path c = map (to_conflict_evidence rep) path"
    "fc_affected_identities c = nodes_in_path (fst (sorted_pair rep res)) path"
  using assms by (auto simp: conflict_of_def Let_def case_prod_unfold split: option.splits)

lemma conflict_of_iff:
  assumes "rs_left res \<noteq> rs_right res" "sym (edge_rel adj)"
  shows "(\<exists>c. conflict_of rep adj res = Some c) \<longleftrightarrow> (rs_left res, rs_right res) \<in> (edge_rel adj)\<^sup>*"
proof -
  have "fst (sorted_pair rep res) \<noteq> snd (sorted_pair rep res)" using assms(1) by (simp add: sorted_pair_def)
  from find_path_None [OF this, of adj]
  have "(\<exists>c. conflict_of rep adj res = Some c) \<longleftrightarrow>
      (fst (sorted_pair rep res), snd (sorted_pair rep res)) \<in> (edge_rel adj)\<^sup>*"
    by (auto simp: conflict_of_def Let_def case_prod_unfold split: option.splits)
  also have "\<dots> \<longleftrightarrow> (rs_left res, rs_right res) \<in> (edge_rel adj)\<^sup>*"
    using symD [OF sym_rtrancl [OF assms(2)]] by (auto simp: sorted_pair_def)
  finally show ?thesis .
qed

text \<open>A conflict is reported exactly for the contradicted pairs, and its path is a shortest chain.\<close>

lemma conflict_pair_iff:
  assumes "resolve_multi_observations rep packs = Inr g" and l: "l \<in> set packs" and r: "r \<in> set packs" and "l \<noteq> r"
  shows "(\<exists>c \<in> set (rg_conflicts g).
            {pe_left (fc_contradictory_pair c), pe_right (fc_contradictory_pair c)} = {from_pack l, from_pack r}) \<longleftrightarrow>
         rs_relationship (resolve_product_entities l r) = DIFFERENT_PRODUCT \<and>
         (from_pack l, from_pack r) \<in> (family_link packs)\<^sup>*" (is "?L \<longleftrightarrow> ?R")
proof -
  let ?adj = "positive_adjacency rep (map from_pack packs) (pairwise packs)"
  have d: "distinct (map from_pack packs)" and
    g: "rg_conflicts g = find_conflicts rep (map from_pack packs) (pairwise packs)"
    using assms(1) by (auto simp: resolve_multi_ok)
  note rel = edge_rel_positive [OF d, of rep] and sy = sym_rtrancl [OF sym_family_link, of packs]
  have iff: "(\<exists>c. conflict_of rep ?adj res = Some c) \<longleftrightarrow> (rs_left res, rs_right res) \<in> (family_link packs)\<^sup>*"
    if "res \<in> set (pairwise packs)" for res
    using conflict_of_iff [OF pairwise_results_distinct [OF that d]] rel sym_family_link by metis
  have ends: "{pe_left (fc_contradictory_pair c), pe_right (fc_contradictory_pair c)} = {rs_left res, rs_right res}"
    if "conflict_of rep ?adj res = Some c" for c res
    using conflict_of_Some [OF that] sorted_pair_ends by (metis to_conflict_evidence_def pair_evidence.select_convs(1,2))
  show ?thesis
  proof
    assume ?L
    then obtain c where c: "c \<in> set (rg_conflicts g)"
      "{pe_left (fc_contradictory_pair c), pe_right (fc_contradictory_pair c)} = {from_pack l, from_pack r}" by blast
    then obtain res where res: "res \<in> set (pairwise packs)" "rs_relationship res = DIFFERENT_PRODUCT"
      "conflict_of rep ?adj res = Some c" unfolding g set_find_conflicts by blast
    have same: "{rs_left res, rs_right res} = {from_pack l, from_pack r}"
      using ends [OF res(3)] c(2) by (rule trans [OF sym])
    obtain l' r' where lr: "l' \<in> set packs" "r' \<in> set packs" "res = resolve_product_entities l' r'"
      using pairwise_results [OF res(1)] by blast
    from same have "from_pack l' = from_pack l \<and> from_pack r' = from_pack r \<or> from_pack l' = from_pack r \<and> from_pack r' = from_pack l"
      unfolding lr(3) by (simp add: doubleton_eq_iff)
    with from_pack_inj [OF d] lr(1,2) l r have "l' = l \<and> r' = r \<or> l' = r \<and> r' = l" by blast
    moreover from res(3) iff [OF res(1)] have "(from_pack l', from_pack r') \<in> (family_link packs)\<^sup>*"
      by (simp add: lr(3))
    ultimately show ?R using res(2) lr(3) symD [OF sy] relationship_sym [of l r] by metis
  next
    assume R: ?R
    obtain res where res: "res \<in> set (pairwise packs)" "{rs_left res, rs_right res} = {from_pack l, from_pack r}"
      "rs_relationship res = DIFFERENT_PRODUCT" "(rs_left res, rs_right res) \<in> (family_link packs)\<^sup>*"
      using pairwise_complete [OF l r assms(4)]
    proof
      assume "resolve_product_entities l r \<in> set (pairwise packs)"
      with that [OF this] R show ?thesis by simp
    next
      assume "resolve_product_entities r l \<in> set (pairwise packs)"
      with that [OF this] R symD [OF sy] show ?thesis by (simp add: relationship_sym [of r l] insert_commute)
    qed
    then obtain c where c: "conflict_of rep ?adj res = Some c" using iff by blast
    from res(1,3) c have "c \<in> set (rg_conflicts g)" unfolding g set_find_conflicts by blast
    moreover from ends [OF c] res(2) have
      "{pe_left (fc_contradictory_pair c), pe_right (fc_contradictory_pair c)} = {from_pack l, from_pack r}" by (rule trans)
    ultimately show ?L by blast
  qed
qed

text \<open>Walking a chain of edges of the adjacency lists visits linked identities.\<close>

fun walk :: "('n \<times> 'n) set \<Rightarrow> 'n list \<Rightarrow> bool" where
  "walk R (x # y # xs) \<longleftrightarrow> (x, y) \<in> R \<and> walk R (y # xs)"
| "walk R _ \<longleftrightarrow> True"

lemma nodes_in_path_chain:
  assumes "chain (positive_adjacency rep ids results) u path v"
    and "\<forall>res \<in> set results. rs_left res \<noteq> rs_right res"
  shows "walk (edge_rel (positive_adjacency rep ids results)) (nodes_in_path u path) \<and>
    hd (nodes_in_path u path) = u \<and> last (nodes_in_path u path) = v \<and>
    length (nodes_in_path u path) = Suc (length path)"
  using assms(1)
proof (induction path arbitrary: u)
  case (Cons res path)
  let ?adj = "positive_adjacency rep ids results"
  from Cons.prems obtain z where z: "(z, res) \<in> set (neighbours ?adj u)" "chain ?adj z path v" by auto
  then have "res \<in> set results" "rs_left res = u \<and> rs_right res = z \<or> rs_right res = u \<and> rs_left res = z"
    by (auto simp: neighbours_positive set_edges_at split: if_splits)
  with assms(2) have step: "(if rs_left res = u then rs_right res else rs_left res) = z" by auto
  have "(u, z) \<in> edge_rel ?adj" using z(1) by (force simp: edge_rel_def)
  with Cons.IH [OF z(2)] step show ?case by (cases path) auto
qed simp

lemma conflict_path:
  assumes "resolve_multi_observations rep packs = Inr g" and c: "c \<in> set (rg_conflicts g)"
  shows "walk (family_link packs) (fc_affected_identities c)"
    and "hd (fc_affected_identities c) = pe_left (fc_contradictory_pair c)"
    and "last (fc_affected_identities c) = pe_right (fc_contradictory_pair c)"
    and "length (fc_affected_identities c) = Suc (length (fc_positive_path c))"
    and "(pe_left (fc_contradictory_pair c), pe_right (fc_contradictory_pair c)) \<in> family_link packs ^^ n \<Longrightarrow>
         length (fc_positive_path c) \<le> n"
proof -
  let ?adj = "positive_adjacency rep (map from_pack packs) (pairwise packs)"
  have d: "distinct (map from_pack packs)" and
    g: "rg_conflicts g = find_conflicts rep (map from_pack packs) (pairwise packs)"
    using assms(1) by (auto simp: resolve_multi_ok)
  note rel = edge_rel_positive [OF d, of rep]
  obtain res where res: "res \<in> set (pairwise packs)" "conflict_of rep ?adj res = Some c"
    using c by (auto simp: g set_find_conflicts)
  let ?u = "fst (sorted_pair rep res)" let ?v = "snd (sorted_pair rep res)"
  obtain path where p: "find_path ?adj ?u ?v = Some path" "fc_contradictory_pair c = to_conflict_evidence rep res"
    "fc_positive_path c = map (to_conflict_evidence rep) path" "fc_affected_identities c = nodes_in_path ?u path"
    using conflict_of_Some [OF res(2)] by blast
  have ends: "pe_left (fc_contradictory_pair c) = ?u" "pe_right (fc_contradictory_pair c) = ?v"
    by (simp_all add: p(2) to_conflict_evidence_def)
  have ne: "?u \<noteq> ?v" using pairwise_results_distinct [OF res(1) d] by (simp add: sorted_pair_def)
  have ch: "chain ?adj ?u path ?v" using find_path_Some(1) [OF ne p(1)] .
  have "\<forall>res \<in> set (pairwise packs). rs_left res \<noteq> rs_right res" using pairwise_results_distinct d by blast
  note walk = nodes_in_path_chain [OF ch this, unfolded rel]
  show "walk (family_link packs) (fc_affected_identities c)"
    "hd (fc_affected_identities c) = pe_left (fc_contradictory_pair c)"
    "last (fc_affected_identities c) = pe_right (fc_contradictory_pair c)"
    "length (fc_affected_identities c) = Suc (length (fc_positive_path c))"
    using walk by (simp_all add: p(3,4) ends)
  show "length (fc_positive_path c) \<le> n"
    if "(pe_left (fc_contradictory_pair c), pe_right (fc_contradictory_pair c)) \<in> family_link packs ^^ n"
    using that path_search_correct [OF bfs_inv_start ne, of ?adj] p(1) by (simp add: p(3) ends rel find_path_def)
qed

end
