(* ===== verification/Entity_Grouping.thy ===== *)
theory Entity_Grouping
  imports Resolution_Facts "HOL-Library.Multiset"
begin

text \<open>
  \<open>src/product_intelligence/entity_grouping.py\<close>: the partition of the observations of a resolution graph
  into provisional product families. \<open>isofmt\<close> is \<open>datetime.isoformat\<close>, a parameter. The set of neighbours is
  kept as a list without repetitions, so the order in which the code iterates over it, which Python leaves
  open, is fixed here; the members are sorted afterwards.
\<close>

datatype group_status = G_SINGLETON | G_POSITIVE_CONNECTED | G_CONFLICTED

record 't family_group =
  fg_members :: "'t identity list"
  fg_status :: group_status
  fg_conflicts :: "'t family_conflict list"

type_synonym 't grouping = "'t family_group list"

definition member_count :: "'t family_group \<Rightarrow> nat" where
  "member_count g = length (fg_members g)"

definition group_has_conflicts :: "'t family_group \<Rightarrow> bool" where
  "group_has_conflicts g \<longleftrightarrow> 0 < length (fg_conflicts g)"

definition group_count :: "'t grouping \<Rightarrow> nat" where
  "group_count gs = length gs"

definition observation_count :: "'t grouping \<Rightarrow> nat" where
  "observation_count gs = sum_list (map member_count gs)"

definition conflicted_group_count :: "'t grouping \<Rightarrow> nat" where
  "conflicted_group_count gs = length (filter (\<lambda>g. fg_status g = G_CONFLICTED) gs)"

type_synonym identity_key = "string \<times> string \<times> bool \<times> string \<times> string \<times> string"

definition identity_canonical_key :: "('t \<Rightarrow> string) \<Rightarrow> 't identity \<Rightarrow> identity_key" where
  "identity_canonical_key isofmt x =
     (si_source_pack_id x, si_platform x, si_source_product_id x \<noteq> None,
      case si_source_product_id x of None \<Rightarrow> [] | Some s \<Rightarrow> s, si_product_url x, isofmt (si_observed_at x))"

definition conflict_canonical_key ::
  "('t \<Rightarrow> string) \<Rightarrow> 't family_conflict \<Rightarrow> identity_key \<times> identity_key \<times> string \<times> string" where
  "conflict_canonical_key isofmt c =
     (let l = identity_canonical_key isofmt (pe_left (fc_contradictory_pair c));
          r = identity_canonical_key isofmt (pe_right (fc_contradictory_pair c))
      in (min l r, max l r, fc_conflict_type c, fc_detail c))"

definition add_neighbour :: "'n \<Rightarrow> ('n \<times> unit) list \<Rightarrow> ('n \<times> unit) list" where
  "add_neighbour y es = (if (y, ()) \<in> set es then es else es @ [(y, ())])"

text \<open>The loop that fills \<open>adj\<close>, as the neighbours it collects for one identity.\<close>

fun family_neighbours :: "'t identity set \<Rightarrow> 't resolution list \<Rightarrow> 't identity \<Rightarrow> ('t identity \<times> unit) list \<Rightarrow> ('t identity \<times> unit) list" where
  "family_neighbours ids [] x es = es"
| "family_neighbours ids (res # rs) x es =
     (if positive (rs_relationship res) \<and> rs_left res \<in> ids \<and> rs_right res \<in> ids
      then (let es = (if rs_left res = x then add_neighbour (rs_right res) es else es);
                es = (if rs_right res = x then add_neighbour (rs_left res) es else es)
            in family_neighbours ids rs x es)
      else family_neighbours ids rs x es)"

definition family_adjacency :: "'t resolution_graph \<Rightarrow> ('t identity, unit) adjacency" where
  "family_adjacency g =
     map (\<lambda>x. (x, family_neighbours (set (rg_observations g)) (rg_pairwise_results g) x []))
       (rg_observations g)"

definition group_of :: "('t \<Rightarrow> string) \<Rightarrow> 't resolution_graph \<Rightarrow> 't identity list \<Rightarrow> 't family_group" where
  "group_of isofmt g members =
     (let conflicts = filter (\<lambda>c. pe_left (fc_contradictory_pair c) \<in> set members \<or>
                pe_right (fc_contradictory_pair c) \<in> set members) (rg_conflicts g)
      in \<lparr>fg_members = sort_key (identity_canonical_key isofmt) members,
          fg_status = (if length members = 1 then G_SINGLETON
                       else if 0 < length conflicts then G_CONFLICTED else G_POSITIVE_CONNECTED),
          fg_conflicts = sort_key (conflict_canonical_key isofmt) conflicts\<rparr>)"

definition group_resolution_graph :: "('t \<Rightarrow> string) \<Rightarrow> 't resolution_graph \<Rightarrow> 't grouping" where
  "group_resolution_graph isofmt g =
     sort_key (\<lambda>grp. map (identity_canonical_key isofmt) (fg_members grp))
       (map (group_of isofmt g)
         (components (family_adjacency g) (sort_key (identity_canonical_key isofmt) (rg_observations g)) {}))"

section \<open>Lemmas\<close>

lemma set_add_neighbour [simp]: "set (add_neighbour y es) = insert (y, ()) (set es)"
  by (auto simp: add_neighbour_def)

lemma set_family_neighbours:
  "(y, u) \<in> set (family_neighbours ids rs x es) \<longleftrightarrow>
     (y, u) \<in> set es \<or>
     (\<exists>res \<in> set rs. positive (rs_relationship res) \<and> rs_left res \<in> ids \<and> rs_right res \<in> ids \<and>
        (rs_left res = x \<and> rs_right res = y \<or> rs_right res = x \<and> rs_left res = y))"
  by (induction ids rs x es rule: family_neighbours.induct) (auto simp: Let_def)

lemma edge_rel_family:
  "edge_rel (family_adjacency g) =
     {(x, y). \<exists>res \<in> set (rg_pairwise_results g). positive (rs_relationship res) \<and>
        rs_left res \<in> set (rg_observations g) \<and> rs_right res \<in> set (rg_observations g) \<and>
        (rs_left res = x \<and> rs_right res = y \<or> rs_right res = x \<and> rs_left res = y)}"
proof -
  have "neighbours (family_adjacency g) x =
      (if x \<in> set (rg_observations g)
       then family_neighbours (set (rg_observations g)) (rg_pairwise_results g) x [] else [])" for x
    by (auto simp: neighbours_def family_adjacency_def map_of_map_restrict restrict_map_def)
  then show ?thesis
    by (auto simp: edge_rel_def set_family_neighbours image_iff Bex_def split: if_splits)
qed

lemma sym_edge_rel_family: "sym (edge_rel (family_adjacency g))"
  unfolding edge_rel_family by (rule symI) blast

lemma edge_rel_family_closed: "(edge_rel (family_adjacency g))\<^sup>* `` set (rg_observations g) = set (rg_observations g)"
proof -
  have "edge_rel (family_adjacency g) `` set (rg_observations g) \<subseteq> set (rg_observations g)"
    unfolding edge_rel_family by auto
  from closed_reach [OF this] show ?thesis by auto
qed

lemma group_components:
  "distinct (concat (components (family_adjacency g) (sort_key k (rg_observations g)) {}))"
  "c \<in> set (components (family_adjacency g) (sort_key k (rg_observations g)) {}) \<Longrightarrow>
     c \<noteq> [] \<and> (\<forall>x \<in> set c. set c = (edge_rel (family_adjacency g))\<^sup>* `` {x})"
  "set (concat (components (family_adjacency g) (sort_key k (rg_observations g)) {})) = set (rg_observations g)"
  using components_correct [of "family_adjacency g" "{}" "sort_key k (rg_observations g)"]
    sym_edge_rel_family [of g] edge_rel_family_closed [of g] by auto

lemma group_of_members [simp]: "set (fg_members (group_of isofmt g members)) = set members"
  by (simp add: group_of_def Let_def)

lemma sum_list_sort_key: "sum_list (map f (sort_key k xs)) = sum_list (map f xs)" for f :: "'a \<Rightarrow> 'b::comm_monoid_add"
  by (metis mset_map mset_sort sum_mset_sum_list)

text \<open>The groups partition the observations.\<close>

lemma groups_partition:
  "distinct (concat (map fg_members (group_resolution_graph isofmt g)))"
  "set (concat (map fg_members (group_resolution_graph isofmt g))) = set (rg_observations g)"
proof -
  let ?cs = "components (family_adjacency g) (sort_key (identity_canonical_key isofmt) (rg_observations g)) {}"
  have mset: "mset (concat (map fg_members (group_resolution_graph isofmt g))) = mset (concat ?cs)"
    by (simp add: group_resolution_graph_def mset_concat o_def sum_list_sort_key) (simp add: group_of_def Let_def o_def)
  show "distinct (concat (map fg_members (group_resolution_graph isofmt g)))"
    using group_components(1) mset_eq_imp_distinct_iff [OF mset] by blast
  show "set (concat (map fg_members (group_resolution_graph isofmt g))) = set (rg_observations g)"
    using group_components(3) mset_eq_setD [OF mset] by metis
qed

lemma set_groups:
  "grp \<in> set (group_resolution_graph isofmt g) \<longleftrightarrow>
     (\<exists>c \<in> set (components (family_adjacency g) (sort_key (identity_canonical_key isofmt) (rg_observations g)) {}).
        grp = group_of isofmt g c)"
  by (auto simp: group_resolution_graph_def)

lemma group_members_component:
  "grp \<in> set (group_resolution_graph isofmt g) \<Longrightarrow> x \<in> set (fg_members grp) \<Longrightarrow>
     set (fg_members grp) = (edge_rel (family_adjacency g))\<^sup>* `` {x}"
  using group_components(2) by (fastforce simp: set_groups)

lemma same_group_iff:
  assumes "x \<in> set (rg_observations g)"
  shows "(\<exists>grp \<in> set (group_resolution_graph isofmt g). x \<in> set (fg_members grp) \<and> y \<in> set (fg_members grp)) \<longleftrightarrow>
     (x, y) \<in> (edge_rel (family_adjacency g))\<^sup>*"
proof
  assume "\<exists>grp \<in> set (group_resolution_graph isofmt g). x \<in> set (fg_members grp) \<and> y \<in> set (fg_members grp)"
  then obtain grp where "grp \<in> set (group_resolution_graph isofmt g)" "x \<in> set (fg_members grp)" "y \<in> set (fg_members grp)"
    by blast
  with group_members_component [OF this(1,2)] show "(x, y) \<in> (edge_rel (family_adjacency g))\<^sup>*" by simp
next
  assume xy: "(x, y) \<in> (edge_rel (family_adjacency g))\<^sup>*"
  from assms groups_partition(2) [of isofmt g] obtain grp where
    grp: "grp \<in> set (group_resolution_graph isofmt g)" "x \<in> set (fg_members grp)" by auto
  with group_members_component [OF this] xy
  show "\<exists>grp \<in> set (group_resolution_graph isofmt g). x \<in> set (fg_members grp) \<and> y \<in> set (fg_members grp)" by auto
qed

lemma edge_rel_resolved:
  assumes "resolve_multi_observations rep packs = Inr g"
  shows "edge_rel (family_adjacency g) = family_link packs"
proof -
  have d: "distinct (map from_pack packs)" and g: "rg_observations g = map from_pack packs"
    "rg_pairwise_results g = pairwise packs" using assms by (auto simp: resolve_multi_ok)
  have "(x, y) \<in> edge_rel (family_adjacency g) \<longleftrightarrow> (x, y) \<in> family_link packs" for x y
    unfolding positive_edge [OF d, symmetric] edge_rel_family set_edges_at g
    using pairwise_results [of _ packs] by fastforce
  then show ?thesis by auto
qed

lemma group_status_iff:
  assumes "grp \<in> set (group_resolution_graph isofmt g)"
  shows "fg_status grp = G_SINGLETON \<longleftrightarrow> length (fg_members grp) = 1"
    and "fg_status grp = G_CONFLICTED \<longleftrightarrow> length (fg_members grp) \<noteq> 1 \<and>
      (\<exists>c \<in> set (rg_conflicts g). pe_left (fc_contradictory_pair c) \<in> set (fg_members grp) \<or>
         pe_right (fc_contradictory_pair c) \<in> set (fg_members grp))"
proof -
  obtain c where grp: "grp = group_of isofmt g c" using assms by (auto simp: set_groups)
  show "fg_status grp = G_SINGLETON \<longleftrightarrow> length (fg_members grp) = 1"
    unfolding grp by (simp add: group_of_def Let_def)
  show "fg_status grp = G_CONFLICTED \<longleftrightarrow> length (fg_members grp) \<noteq> 1 \<and>
      (\<exists>c \<in> set (rg_conflicts g). pe_left (fc_contradictory_pair c) \<in> set (fg_members grp) \<or>
         pe_right (fc_contradictory_pair c) \<in> set (fg_members grp))"
    unfolding grp by (simp add: group_of_def Let_def filter_empty_conv)
qed

text \<open>In a resolved graph a conflict lies within one group, so its status says whether two members contradict.\<close>

lemma group_conflicted_iff:
  assumes g: "resolve_multi_observations rep packs = Inr g" and grp: "grp \<in> set (group_resolution_graph isofmt g)"
  shows "fg_status grp = G_CONFLICTED \<longleftrightarrow>
    (\<exists>l \<in> set packs. \<exists>r \<in> set packs. l \<noteq> r \<and> from_pack l \<in> set (fg_members grp) \<and> from_pack r \<in> set (fg_members grp) \<and>
       rs_relationship (resolve_product_entities l r) = DIFFERENT_PRODUCT)" (is "?L \<longleftrightarrow> ?R")
proof -
  let ?E = "(family_link packs)\<^sup>*"
  have rel: "edge_rel (family_adjacency g) = family_link packs" by (rule edge_rel_resolved [OF g])
  note sy = symD [OF sym_rtrancl [OF sym_family_link]]
  have obs: "rg_observations g = map from_pack packs" and d: "distinct (map from_pack packs)"
    using g by (auto simp: resolve_multi_ok)
  have comp: "set (fg_members grp) = ?E `` {x}" if "x \<in> set (fg_members grp)" for x
    using group_members_component [OF grp that] rel by simp
  show ?thesis
  proof
    assume ?L
    then obtain c where c: "c \<in> set (rg_conflicts g)" "pe_left (fc_contradictory_pair c) \<in> set (fg_members grp) \<or>
         pe_right (fc_contradictory_pair c) \<in> set (fg_members grp)"
      using group_status_iff(2) [OF grp] by auto
    obtain res where res: "res \<in> set (pairwise packs)" "rs_relationship res = DIFFERENT_PRODUCT"
      "fc_contradictory_pair c = to_conflict_evidence rep res"
      using c(1) g conflict_of_Some by (auto simp: resolve_multi_ok set_find_conflicts) blast
    obtain l r where lr: "l \<in> set packs" "r \<in> set packs" "res = resolve_product_entities l r"
      using pairwise_results [OF res(1)] by blast
    have ne: "l \<noteq> r" using pairwise_results_distinct [OF res(1) d] lr(3) by auto
    have pair: "{pe_left (fc_contradictory_pair c), pe_right (fc_contradictory_pair c)} = {from_pack l, from_pack r}"
      using sorted_pair_ends [of rep res] by (simp add: res(3) to_conflict_evidence_def lr(3))
    have "(from_pack l, from_pack r) \<in> ?E" using conflict_pair_iff [OF g lr(1,2) ne] c(1) pair by blast
    moreover from pair c(2) have "from_pack l \<in> set (fg_members grp) \<or> from_pack r \<in> set (fg_members grp)"
      by (auto simp: doubleton_eq_iff)
    ultimately have "from_pack l \<in> set (fg_members grp) \<and> from_pack r \<in> set (fg_members grp)"
      using comp sy by blast
    with lr ne res(2) show ?R by auto
  next
    assume ?R
    then obtain l r where lr: "l \<in> set packs" "r \<in> set packs" "l \<noteq> r" "from_pack l \<in> set (fg_members grp)"
      "from_pack r \<in> set (fg_members grp)" "rs_relationship (resolve_product_entities l r) = DIFFERENT_PRODUCT" by blast
    have "(from_pack l, from_pack r) \<in> ?E" using comp [OF lr(4)] lr(5) by auto
    with conflict_pair_iff [OF g lr(1,2,3)] lr(6) obtain c where c: "c \<in> set (rg_conflicts g)"
      "{pe_left (fc_contradictory_pair c), pe_right (fc_contradictory_pair c)} = {from_pack l, from_pack r}" by blast
    have "from_pack l \<noteq> from_pack r" using from_pack_inj [OF d lr(1,2)] lr(3) by simp
    then have "length (fg_members grp) \<noteq> 1" using lr(4,5) by (cases "fg_members grp") auto
    moreover from c(2) lr(4,5) have "pe_left (fc_contradictory_pair c) \<in> set (fg_members grp)"
      by (auto simp: doubleton_eq_iff)
    ultimately show ?L using group_status_iff(2) [OF grp] c(1) by blast
  qed
qed

end
