(* ===== verification/Resolution_Order.thy ===== *)
theory Resolution_Order
  imports Entity_Grouping
begin

text \<open>
  The conflicts and the groups do not depend on the order in which the observations are given. A pairwise
  result taken the other way round is the same result flipped, so everything is compared through \<open>canon\<close>,
  which orders the two ends of a result by their \<open>repr\<close>.
\<close>

section \<open>Sorting by an injective key\<close>

lemma sort_key_perm:
  assumes "mset xs = mset ys" "inj_on k (set xs)"
  shows "sort_key k xs = sort_key k ys"
  by (rule sort_key_inj_key_eq) (simp_all add: assms)

lemma map_insort_key: "map f (insort_key (\<lambda>x. k (f x)) x xs) = insort_key k (f x) (map f xs)"
  by (induction xs) auto

lemma map_sort_key: "map f (sort_key (\<lambda>x. k (f x)) xs) = sort_key k (map f xs)"
  by (induction xs) (simp_all add: map_insort_key)

section \<open>Results up to the order of their ends\<close>

definition canon :: "('t identity \<Rightarrow> string) \<Rightarrow> 't resolution \<Rightarrow> 't resolution" where
  "canon rep res = (if rep (rs_right res) < rep (rs_left res) then flip res else res)"

lemma flip_ends [simp]: "rs_left (flip res) = rs_right res" "rs_right (flip res) = rs_left res"
  by (simp_all add: flip_def)

lemma flip_same [simp]: "rs_left res = rs_right res \<Longrightarrow> flip res = res"
  by (simp add: flip_def)

lemma flip_flip [simp]: "flip (flip res) = res"
  by (simp add: flip_def)

lemma canon_relationship [simp]: "rs_relationship (canon rep res) = rs_relationship res"
  by (simp add: canon_def)

lemma sorted_pair_canon [simp]: "sorted_pair rep (canon rep res) = sorted_pair rep res"
  by (auto simp: canon_def sorted_pair_def)

lemma evidence_canon [simp]: "to_conflict_evidence rep (canon rep res) = to_conflict_evidence rep res"
  by (simp add: to_conflict_evidence_def) (simp add: canon_def flip_def)

lemma canon_ends: "rs_left (canon rep res) = fst (sorted_pair rep res)" "rs_right (canon rep res) = snd (sorted_pair rep res)"
  by (auto simp: canon_def sorted_pair_def)

lemma canon_flip:
  assumes "rep (rs_left res) = rep (rs_right res) \<Longrightarrow> rs_left res = rs_right res"
  shows "canon rep (flip res) = canon rep res"
  using assms by (auto simp: canon_def dest: less_asym)

lemma canon_resolve:
  assumes "inj_on rep (from_pack ` set packs)" "l \<in> set packs" "r \<in> set packs"
  shows "canon rep (resolve_product_entities r l) = canon rep (resolve_product_entities l r)"
  using assms by (simp add: resolve_flip [of r l]) (rule canon_flip, auto dest: inj_onD)

lemma canon_pairwise_move:
  assumes "inj_on rep (from_pack ` set (xs @ p # ys))"
  shows "mset (map (canon rep) (pairwise (xs @ p # ys))) = mset (map (canon rep) (pairwise (p # xs @ ys)))"
  using assms
proof (induction xs)
  case (Cons x xs)
  have "canon rep (resolve_product_entities x p) = canon rep (resolve_product_entities p x)"
    by (rule canon_resolve [OF Cons.prems]) auto
  moreover have "inj_on rep (from_pack ` set (xs @ p # ys))"
    using Cons.prems by (rule inj_on_subset) auto
  ultimately show ?case using Cons.IH by simp
qed simp

lemma canon_pairwise_perm:
  "mset packs = mset packs' \<Longrightarrow> inj_on rep (from_pack ` set packs) \<Longrightarrow>
     mset (map (canon rep) (pairwise packs)) = mset (map (canon rep) (pairwise packs'))"
proof (induction packs arbitrary: packs')
  case (Cons p ps)
  have "p \<in> set packs'" using Cons.prems(1) by (metis list.set_intros(1) mset_eq_setD)
  then obtain xs ys where packs': "packs' = xs @ p # ys" by (meson split_list)
  with Cons.prems(1) have ps: "mset ps = mset (xs @ ys)" by simp
  then have set: "set ps = set (xs @ ys)" by (rule mset_eq_setD)
  have "mset (map (canon rep) (pairwise packs')) = mset (map (canon rep) (pairwise (p # xs @ ys)))"
    unfolding packs' by (rule canon_pairwise_move) (use Cons.prems set packs' in \<open>auto simp: insert_commute Un_commute\<close>)
  moreover have "mset (map (canon rep) (pairwise ps)) = mset (map (canon rep) (pairwise (xs @ ys)))"
    using Cons.prems(2) by (intro Cons.IH [OF ps]) (auto intro: inj_on_subset)
  moreover have "image_mset (\<lambda>q. canon rep (resolve_product_entities p q)) (mset ps) =
      image_mset (\<lambda>q. canon rep (resolve_product_entities p q)) (mset (xs @ ys))" using ps by simp
  ultimately show ?case by (simp add: image_mset.compositionality o_def)
qed simp

text \<open>The ends determine the result.\<close>

lemma canon_inj:
  assumes d: "distinct (map from_pack packs)" and i: "inj_on rep (from_pack ` set packs)"
    and "a \<in> set (pairwise packs)" "b \<in> set (pairwise packs)" "sorted_pair rep a = sorted_pair rep b"
  shows "canon rep a = canon rep b"
proof -
  obtain l r where a: "l \<in> set packs" "r \<in> set packs" "a = resolve_product_entities l r"
    using pairwise_results [OF assms(3)] by blast
  obtain l' r' where b: "l' \<in> set packs" "r' \<in> set packs" "b = resolve_product_entities l' r'"
    using pairwise_results [OF assms(4)] by blast
  have "{rs_left a, rs_right a} = {rs_left b, rs_right b}"
    using sorted_pair_ends [of rep a] sorted_pair_ends [of rep b] assms(5) by simp
  then have "l = l' \<and> r = r' \<or> l = r' \<and> r = l'"
    using from_pack_inj [OF d] a b by (simp add: doubleton_eq_iff)
  with a(3) b(3) canon_resolve [OF i a(1,2)] show ?thesis by auto
qed

section \<open>The search sees only the neighbours, and the edges only label\<close>

lemma visit_new_map:
  "visit_new (map (\<lambda>(y, e). (y, f e)) es) seen =
     (map (\<lambda>(y, e). (y, f e)) (fst (visit_new es seen)), snd (visit_new es seen))"
  by (induction es seen rule: visit_new.induct) (auto split: prod.splits)

lemma queue_entry_map:
  "(\<lambda>(x, p). (x, map f p)) \<circ> (\<lambda>(y, e). (y, p @ [e])) = (\<lambda>(y, e). (y, map f p @ [e])) \<circ> (\<lambda>(y, e). (y, f e))"
  by auto

lemma path_search_map:
  assumes "\<And>x. neighbours adj' x = map (\<lambda>(y, e). (y, f e)) (neighbours adj x)"
  shows "path_search adj' t (map (\<lambda>(x, p). (x, map f p)) queue) seen =
     map_option (map f) (path_search adj t queue seen)"
  using assms
proof (induction adj t queue seen rule: path_search.induct)
  case (2 adj t x p queue seen)
  then show ?case by (simp add: visit_new_map queue_entry_map)
qed simp

lemma find_path_map:
  "(\<And>x. neighbours adj' x = map (\<lambda>(y, e). (y, f e)) (neighbours adj x)) \<Longrightarrow>
     find_path adj' s t = map_option (map f) (find_path adj s t)"
  using path_search_map [of adj' f adj t "[(s, [])]" "{s}"] by (simp add: find_path_def)

lemma edges_at_concat: "edges_at rs x = concat (map (\<lambda>res. edges_at [res] x) rs)"
  by (induction rs) simp_all

lemma mset_edges_at_sum: "mset (edges_at rs x) = (\<Sum>res \<in># mset rs. mset (edges_at [res] x))"
  by (induction rs) simp_all

lemma mset_edges_at: "mset rs = mset rs' \<Longrightarrow> mset (edges_at rs x) = mset (edges_at rs' x)"
  unfolding mset_edges_at_sum [of rs] mset_edges_at_sum [of rs'] by simp

lemma edges_at_Cons: "edges_at (res # rs) x = edges_at [res] x @ edges_at rs x"
  by simp

lemma edges_at_canon1:
  "rs_left res \<noteq> rs_right res \<Longrightarrow>
     edges_at [canon rep res] x = map (\<lambda>(y, res). (y, canon rep res)) (edges_at [res] x)"
  by (simp add: canon_def)

lemma edges_at_canon:
  "\<forall>res \<in> set rs. rs_left res \<noteq> rs_right res \<Longrightarrow>
     edges_at (map (canon rep) rs) x = map (\<lambda>(y, res). (y, canon rep res)) (edges_at rs x)"
proof (induction rs)
  case (Cons res rs)
  then have IH: "edges_at (map (canon rep) rs) x = map (\<lambda>(y, res). (y, canon rep res)) (edges_at rs x)" by simp
  have one: "edges_at [canon rep res] x = map (\<lambda>(y, res). (y, canon rep res)) (edges_at [res] x)"
    using Cons.prems by (intro edges_at_canon1) simp
  show ?case
    unfolding list.map(2) edges_at_Cons [of "canon rep res" "map (canon rep) rs"] edges_at_Cons [of res rs] map_append one IH ..
qed simp

lemma sorted_pair_cong:
  assumes "{rs_left a, rs_right a} = {rs_left b, rs_right b}" "inj_on rep {rs_left a, rs_right a}"
  shows "sorted_pair rep a = sorted_pair rep b"
proof (cases "rs_left a = rs_left b")
  case True
  with assms(1) have "rs_right a = rs_right b" by (auto simp: doubleton_eq_iff)
  with True show ?thesis by (simp add: sorted_pair_def)
next
  case False
  with assms(1) have "rs_left a = rs_right b" "rs_right a = rs_left b" by (auto simp: doubleton_eq_iff)
  moreover from this False assms(2) have "rep (rs_left b) \<noteq> rep (rs_right b)" by (auto simp: inj_on_def)
  ultimately show ?thesis by (auto simp: sorted_pair_def)
qed

section \<open>Conflicts\<close>

text \<open>Everything below is about one list of observations that the graph accepts.\<close>

definition well_named :: "('t identity \<Rightarrow> string) \<Rightarrow> 't source_pack list \<Rightarrow> bool" where
  "well_named rep packs \<longleftrightarrow> distinct (map from_pack packs) \<and> inj_on rep (from_pack ` set packs)"

lemma well_named_perm: "well_named rep packs \<Longrightarrow> mset packs = mset packs' \<Longrightarrow> well_named rep packs'"
  unfolding well_named_def by (metis mset_eq_imp_distinct_iff mset_map set_mset_mset)

lemma pairwise_ends:
  "res \<in> set (pairwise packs) \<Longrightarrow> rs_left res \<in> from_pack ` set packs \<and> rs_right res \<in> from_pack ` set packs"
  using pairwise_results by fastforce

lemma sorted_pair_mem:
  "res \<in> set (pairwise packs) \<Longrightarrow>
     fst (sorted_pair rep res) \<in> from_pack ` set packs \<and> snd (sorted_pair rep res) \<in> from_pack ` set packs"
  using pairwise_ends [of res packs] by (simp add: sorted_pair_def)

lemma sorted_pair_pairwise:
  assumes "well_named rep packs" "a \<in> set (pairwise packs)" "b \<in> set (pairwise packs)"
    and "{rs_left a, rs_right a} = {rs_left b, rs_right b}"
  shows "canon rep a = canon rep b"
proof -
  have "inj_on rep {rs_left a, rs_right a}"
    by (rule inj_on_subset [of rep "from_pack ` set packs"])
      (use assms(1) pairwise_ends [OF assms(2)] in \<open>simp_all add: well_named_def\<close>)
  from sorted_pair_cong [OF assms(4) this] canon_inj [OF _ _ assms(2,3)] assms(1)
  show ?thesis by (simp add: well_named_def)
qed

lemma canon_neighbours:
  assumes w: "well_named rep packs"
  shows "map (\<lambda>(y, res). (y, canon rep res)) (neighbours (positive_adjacency rep (map from_pack packs) (pairwise packs)) x) =
    (if x \<in> from_pack ` set packs then sort_key (\<lambda>(y, _). rep y) (edges_at (map (canon rep) (pairwise packs)) x) else [])"
proof -
  have "\<forall>res \<in> set (pairwise packs). rs_left res \<noteq> rs_right res"
    using w pairwise_results_distinct unfolding well_named_def by blast
  moreover have "map (\<lambda>(y, res). (y, canon rep res)) (sort_key (\<lambda>(y, _). rep y) es) =
      sort_key (\<lambda>(y, _). rep y) (map (\<lambda>(y, res). (y, canon rep res)) es)" for es
    using map_sort_key [of "\<lambda>(y, res). (y, canon rep res)" "\<lambda>(y, _). rep y" es] by (simp add: case_prod_unfold)
  ultimately show ?thesis by (simp add: neighbours_positive edges_at_canon)
qed

lemma neighbour_key_inj:
  assumes w: "well_named rep packs"
  shows "inj_on (\<lambda>(y, _). rep y) (set (edges_at (map (canon rep) (pairwise packs)) x))"
proof (rule inj_onI)
  fix e f
  assume e: "e \<in> set (edges_at (map (canon rep) (pairwise packs)) x)"
    and f: "f \<in> set (edges_at (map (canon rep) (pairwise packs)) x)"
    and key: "(\<lambda>(y, _). rep y) e = (\<lambda>(y, _). rep y) f"
  have shape: "\<exists>y a. e = (y, canon rep a) \<and> a \<in> set (pairwise packs) \<and> {rs_left a, rs_right a} = {x, y}"
    if "e \<in> set (edges_at (map (canon rep) (pairwise packs)) x)" for e
  proof -
    obtain y r where e: "e = (y, r)" by force
    with that have "r \<in> canon rep ` set (pairwise packs)" "{rs_left r, rs_right r} = {x, y}"
      by (auto simp: set_edges_at)
    then obtain a where "a \<in> set (pairwise packs)" "r = canon rep a" "{rs_left r, rs_right r} = {x, y}" by blast
    then show ?thesis using e canon_ends [of rep a] sorted_pair_ends [of rep a] by auto
  qed
  obtain y a where a: "e = (y, canon rep a)" "a \<in> set (pairwise packs)" "{rs_left a, rs_right a} = {x, y}"
    using shape [OF e] by blast
  obtain z b where b: "f = (z, canon rep b)" "b \<in> set (pairwise packs)" "{rs_left b, rs_right b} = {x, z}"
    using shape [OF f] by blast
  have "y \<in> from_pack ` set packs" "z \<in> from_pack ` set packs"
    using pairwise_ends [OF a(2)] pairwise_ends [OF b(2)] a(3) b(3) by (auto simp: doubleton_eq_iff)
  with key a(1) b(1) w have "y = z" by (auto simp: well_named_def dest: inj_onD)
  with sorted_pair_pairwise [OF w a(2) b(2)] a b show "e = f" by simp
qed

lemma canon_neighbours_perm:
  assumes w: "well_named rep packs" and p: "mset packs = mset packs'"
  shows "map (\<lambda>(y, res). (y, canon rep res)) (neighbours (positive_adjacency rep (map from_pack packs) (pairwise packs)) x) =
    map (\<lambda>(y, res). (y, canon rep res)) (neighbours (positive_adjacency rep (map from_pack packs') (pairwise packs')) x)"
proof -
  have "mset (edges_at (map (canon rep) (pairwise packs)) x) = mset (edges_at (map (canon rep) (pairwise packs')) x)"
    using canon_pairwise_perm [OF p] w by (intro mset_edges_at) (simp add: well_named_def)
  from sort_key_perm [OF this neighbour_key_inj [OF w]] mset_eq_setD [OF p]
  show ?thesis by (simp add: canon_neighbours [OF w] canon_neighbours [OF well_named_perm [OF w p]])
qed

lemma nodes_in_path_canon:
  assumes "chain (positive_adjacency rep ids results) u path v" "\<forall>res \<in> set results. rs_left res \<noteq> rs_right res"
  shows "nodes_in_path u (map (canon rep) path) = nodes_in_path u path"
  using assms(1)
proof (induction path arbitrary: u)
  case (Cons res path)
  let ?adj = "positive_adjacency rep ids results"
  from Cons.prems obtain z where z: "(z, res) \<in> set (neighbours ?adj u)" "chain ?adj z path v" by auto
  then have "res \<in> set results" and ends: "rs_left res = u \<and> rs_right res = z \<or> rs_right res = u \<and> rs_left res = z"
    by (auto simp: neighbours_positive set_edges_at split: if_splits)
  with assms(2) have "(if rs_left res = u then rs_right res else rs_left res) = z"
    "(if rs_left (canon rep res) = u then rs_right (canon rep res) else rs_left (canon rep res)) = z"
    by (auto simp: canon_def)
  with Cons.IH [OF z(2)] show ?case by simp
qed simp

text \<open>The adjacency lists with canonical edges.\<close>

definition canon_adjacency :: "('t identity \<Rightarrow> string) \<Rightarrow> 't source_pack list \<Rightarrow> ('t identity, 't resolution) adjacency" where
  "canon_adjacency rep packs =
     map (\<lambda>(x, es). (x, map (\<lambda>(y, res). (y, canon rep res)) es))
       (positive_adjacency rep (map from_pack packs) (pairwise packs))"

lemma neighbours_map:
  "neighbours (map (\<lambda>(x, es). (x, g es)) adj) x = (case map_of adj x of None \<Rightarrow> [] | Some es \<Rightarrow> g es)"
  unfolding neighbours_def by (subst map_of_map) (simp split: option.splits)

lemma neighbours_canon:
  "neighbours (canon_adjacency rep packs) x =
     map (\<lambda>(y, res). (y, canon rep res)) (neighbours (positive_adjacency rep (map from_pack packs) (pairwise packs)) x)"
  unfolding canon_adjacency_def neighbours_map by (simp add: neighbours_def split: option.splits)

lemma find_path_canon:
  "find_path (canon_adjacency rep packs) u v =
     map_option (map (canon rep)) (find_path (positive_adjacency rep (map from_pack packs) (pairwise packs)) u v)"
  by (rule find_path_map) (rule neighbours_canon)

lemma find_path_canon_perm:
  assumes "well_named rep packs" "mset packs = mset packs'"
  shows "find_path (canon_adjacency rep packs) u v = find_path (canon_adjacency rep packs') u v"
  using find_path_map [of "canon_adjacency rep packs" id "canon_adjacency rep packs'" u v] canon_neighbours_perm [OF assms]
  by (simp add: neighbours_canon option.map_id)

lemma conflict_of_canon:
  assumes w: "well_named rep packs" and res: "res \<in> set (pairwise packs)"
  shows "conflict_of rep (positive_adjacency rep (map from_pack packs) (pairwise packs)) res =
    conflict_of rep (canon_adjacency rep packs) (canon rep res)"
proof -
  let ?adj = "positive_adjacency rep (map from_pack packs) (pairwise packs)"
  let ?u = "fst (sorted_pair rep res)" let ?v = "snd (sorted_pair rep res)"
  have ne: "\<forall>res \<in> set (pairwise packs). rs_left res \<noteq> rs_right res"
    using w pairwise_results_distinct unfolding well_named_def by blast
  with res have uv: "?u \<noteq> ?v" by (auto simp: sorted_pair_def)
  show ?thesis
  proof (cases "find_path ?adj ?u ?v")
    case None
    then show ?thesis by (simp add: conflict_of_def case_prod_unfold find_path_canon Let_def)
  next
    case (Some path)
    from nodes_in_path_canon [OF find_path_Some(1) [OF uv Some] ne] Some
    show ?thesis by (simp add: conflict_of_def case_prod_unfold find_path_canon Let_def)
  qed
qed

lemma map_filter_eq: "(\<And>x. x \<in> set xs \<Longrightarrow> f x = g x) \<Longrightarrow> List.map_filter f xs = List.map_filter g xs"
  by (induction xs) (auto simp: List.map_filter_def)

lemma find_conflicts_canon:
  assumes w: "well_named rep packs"
  shows "find_conflicts rep (map from_pack packs) (pairwise packs) =
    List.map_filter (conflict_of rep (canon_adjacency rep packs))
      (sort_key (\<lambda>res. (rep (fst (sorted_pair rep res)), rep (snd (sorted_pair rep res))))
        (filter (\<lambda>res. rs_relationship res = DIFFERENT_PRODUCT) (map (canon rep) (pairwise packs))))"
proof -
  let ?k = "\<lambda>res. (rep (fst (sorted_pair rep res)), rep (snd (sorted_pair rep res)))"
  let ?D = "\<lambda>res. rs_relationship res = DIFFERENT_PRODUCT"
  have "find_conflicts rep (map from_pack packs) (pairwise packs) =
      List.map_filter (\<lambda>res. conflict_of rep (canon_adjacency rep packs) (canon rep res)) (sort_key ?k (filter ?D (pairwise packs)))"
    unfolding find_conflicts_def by (rule map_filter_eq) (simp add: conflict_of_canon [OF w])
  also have "\<dots> = List.map_filter (conflict_of rep (canon_adjacency rep packs)) (map (canon rep) (sort_key ?k (filter ?D (pairwise packs))))"
    by (simp add: List.map_filter_def filter_map o_def)
  also have "map (canon rep) (sort_key ?k (filter ?D (pairwise packs))) = sort_key ?k (map (canon rep) (filter ?D (pairwise packs)))"
    using map_sort_key [of "canon rep" ?k "filter ?D (pairwise packs)"] by simp
  also have "map (canon rep) (filter ?D (pairwise packs)) = filter ?D (map (canon rep) (pairwise packs))"
    by (simp add: filter_map o_def)
  finally show ?thesis .
qed

lemma find_conflicts_perm:
  assumes w: "well_named rep packs" and p: "mset packs = mset packs'"
  shows "find_conflicts rep (map from_pack packs) (pairwise packs) = find_conflicts rep (map from_pack packs') (pairwise packs')"
proof -
  let ?k = "\<lambda>res. (rep (fst (sorted_pair rep res)), rep (snd (sorted_pair rep res)))"
  let ?D = "\<lambda>res. rs_relationship res = DIFFERENT_PRODUCT"
  have "mset (map (canon rep) (pairwise packs)) = mset (map (canon rep) (pairwise packs'))"
    using canon_pairwise_perm [OF p] w by (simp add: well_named_def)
  then have same: "mset (filter ?D (map (canon rep) (pairwise packs))) = mset (filter ?D (map (canon rep) (pairwise packs')))"
    by (simp only: mset_filter)
  have inj: "inj_on ?k (set (filter ?D (map (canon rep) (pairwise packs))))"
  proof (rule inj_onI)
    fix x y assume x: "x \<in> set (filter ?D (map (canon rep) (pairwise packs)))"
      and y: "y \<in> set (filter ?D (map (canon rep) (pairwise packs)))" and k: "?k x = ?k y"
    obtain a b where ab: "x = canon rep a" "a \<in> set (pairwise packs)" "y = canon rep b" "b \<in> set (pairwise packs)"
      using x y by auto
    have "fst (sorted_pair rep a) = fst (sorted_pair rep b)" "snd (sorted_pair rep a) = snd (sorted_pair rep b)"
      using k ab(1,3) inj_onD [OF conjunct2 [OF w [unfolded well_named_def]]]
        sorted_pair_mem [OF ab(2), of rep] sorted_pair_mem [OF ab(4), of rep] by simp_all
    with ab w canon_inj [OF _ _ ab(2,4)] show "x = y" by (simp add: well_named_def prod_eq_iff)
  qed
  have conf: "conflict_of rep (canon_adjacency rep packs) = conflict_of rep (canon_adjacency rep packs')"
    by (simp add: fun_eq_iff conflict_of_def find_path_canon_perm [OF w p])
  show ?thesis
    unfolding find_conflicts_canon [OF w] find_conflicts_canon [OF well_named_perm [OF w p]]
      sort_key_perm [OF same inj] conf ..
qed

section \<open>Groups\<close>

lemma canonical_key_inj: "inj isofmt \<Longrightarrow> inj (identity_canonical_key isofmt)"
  by (rule injI) (auto simp: identity_canonical_key_def inj_eq split: option.splits)

text \<open>The members of the groups, each component as its sorted list.\<close>

definition sorted_components :: "('t \<Rightarrow> string) \<Rightarrow> 't resolution_graph \<Rightarrow> 't identity list list" where
  "sorted_components isofmt g =
     map (sort_key (identity_canonical_key isofmt))
       (components (family_adjacency g) (sort_key (identity_canonical_key isofmt) (rg_observations g)) {})"

lemma sort_key_set_eq:
  "distinct xs \<Longrightarrow> distinct ys \<Longrightarrow> set xs = set ys \<Longrightarrow> inj_on k (set xs) \<Longrightarrow> sort_key k xs = sort_key k ys"
  by (rule sort_key_perm) (simp_all add: set_eq_iff_mset_eq_distinct)

lemma set_sorted_components:
  assumes "inj isofmt"
  shows "set (sorted_components isofmt g) =
    {c. distinct c \<and> sorted (map (identity_canonical_key isofmt) c) \<and>
        (\<exists>x \<in> set (rg_observations g). set c = (edge_rel (family_adjacency g))\<^sup>* `` {x})}" (is "_ = ?S")
proof -
  let ?k = "identity_canonical_key isofmt"
  let ?cs = "components (family_adjacency g) (sort_key ?k (rg_observations g)) {}"
  have dc: "distinct c" if "c \<in> set ?cs" for c
    using group_components(1) that by (metis distinct_concat_iff)
  show ?thesis
  proof
    show "set (sorted_components isofmt g) \<subseteq> ?S"
    proof
      fix c assume "c \<in> set (sorted_components isofmt g)"
      then obtain d where d: "d \<in> set ?cs" "c = sort_key ?k d" by (auto simp: sorted_components_def)
      from group_components(2) [OF d(1)] obtain x where x: "x \<in> set d" by (cases d) auto
      with d(1) have "x \<in> set (concat ?cs)" by auto
      then have "x \<in> set (rg_observations g)" unfolding group_components(3) .
      moreover have "set c = (edge_rel (family_adjacency g))\<^sup>* `` {x}" using group_components(2) [OF d(1)] x d(2) by simp
      ultimately show "c \<in> ?S" using d dc by auto
    qed
    show "?S \<subseteq> set (sorted_components isofmt g)"
    proof
      fix c assume "c \<in> ?S"
      then obtain x where c: "distinct c" "sorted (map ?k c)" "x \<in> set (rg_observations g)"
        "set c = (edge_rel (family_adjacency g))\<^sup>* `` {x}" by blast
      from c(3) have "x \<in> set (concat ?cs)" unfolding group_components(3) .
      then obtain d where d: "d \<in> set ?cs" "x \<in> set d" by auto
      with group_components(2) [OF d(1)] c(4) have "set c = set d" by simp
      with c(1,2) dc [OF d(1)] have "sort_key ?k d = c"
        by (intro sort_key_inj_key_eq)
          (auto simp: set_eq_iff_mset_eq_distinct intro: inj_on_subset [OF canonical_key_inj [OF assms]])
      with d(1) show "c \<in> set (sorted_components isofmt g)" by (force simp: sorted_components_def)
    qed
  qed
qed

lemma distinct_sorted_components: "distinct (sorted_components isofmt g)"
proof -
  let ?k = "identity_canonical_key isofmt"
  let ?cs = "components (family_adjacency g) (sort_key ?k (rg_observations g)) {}"
  have cs: "distinct (concat ?cs)" "\<forall>c \<in> set ?cs. c \<noteq> []" using group_components by blast+
  have "distinct ?cs"
    using cs by (auto simp: distinct_concat_iff removeAll_id)
  moreover have "inj_on (sort_key ?k) (set ?cs)"
  proof (rule inj_onI)
    fix c d assume c: "c \<in> set ?cs" and d: "d \<in> set ?cs" and "sort_key ?k c = sort_key ?k d"
    then have "set c = set d" by (metis set_sort)
    then show "c = d" using cs c d by (metis distinct_concat_iff inf.idem set_empty)
  qed
  ultimately show ?thesis by (simp add: sorted_components_def distinct_map)
qed

definition group_with :: "('t \<Rightarrow> string) \<Rightarrow> 't family_conflict list \<Rightarrow> 't identity list \<Rightarrow> 't family_group" where
  "group_with isofmt conflicts members =
     (let own = filter (\<lambda>c. pe_left (fc_contradictory_pair c) \<in> set members \<or>
                pe_right (fc_contradictory_pair c) \<in> set members) conflicts
      in \<lparr>fg_members = members,
          fg_status = (if length members = 1 then G_SINGLETON
                       else if 0 < length own then G_CONFLICTED else G_POSITIVE_CONNECTED),
          fg_conflicts = sort_key (conflict_canonical_key isofmt) own\<rparr>)"

lemma groups_sorted_components:
  "group_resolution_graph isofmt g =
     sort_key (\<lambda>grp. map (identity_canonical_key isofmt) (fg_members grp))
       (map (group_with isofmt (rg_conflicts g)) (sorted_components isofmt g))"
proof -
  have "group_of isofmt g = group_with isofmt (rg_conflicts g) \<circ> sort_key (identity_canonical_key isofmt)"
    by (rule ext) (simp add: group_of_def group_with_def)
  then show ?thesis by (simp add: group_resolution_graph_def sorted_components_def)
qed

theorem groups_order_independent:
  assumes i: "inj isofmt" and o: "set (rg_observations g) = set (rg_observations g')"
    and e: "edge_rel (family_adjacency g) = edge_rel (family_adjacency g')" and c: "rg_conflicts g = rg_conflicts g'"
  shows "group_resolution_graph isofmt g = group_resolution_graph isofmt g'"
proof -
  have "set (sorted_components isofmt g) = set (sorted_components isofmt g')"
    unfolding set_sorted_components [OF i] o e ..
  then have "mset (sorted_components isofmt g) = mset (sorted_components isofmt g')"
    by (simp add: set_eq_iff_mset_eq_distinct [OF distinct_sorted_components distinct_sorted_components])
  then have m: "mset (map (group_with isofmt (rg_conflicts g')) (sorted_components isofmt g)) =
      mset (map (group_with isofmt (rg_conflicts g')) (sorted_components isofmt g'))" by simp
  have "inj_on (\<lambda>grp. map (identity_canonical_key isofmt) (fg_members grp))
      (set (map (group_with isofmt (rg_conflicts g')) (sorted_components isofmt g)))"
  proof (rule inj_onI, clarsimp)
    fix c d
    assume "map (identity_canonical_key isofmt) (fg_members (group_with isofmt (rg_conflicts g') c)) =
      map (identity_canonical_key isofmt) (fg_members (group_with isofmt (rg_conflicts g') d))"
    then have "c = d" by (simp add: group_with_def Let_def inj_map_eq_map [OF canonical_key_inj [OF i]])
    then show "group_with isofmt (rg_conflicts g') c = group_with isofmt (rg_conflicts g') d" by simp
  qed
  from sort_key_perm [OF m this] show ?thesis unfolding groups_sorted_components c .
qed

end
