(* ===== verification/Resolution_Properties.thy ===== *)
theory Resolution_Properties
  imports Resolution_Order
begin

text \<open>
  What the entity resolution of \<open>src/product_intelligence\<close> guarantees, from the pairwise decision to the
  groups. The example has three observations: \<open>a\<close> and \<open>b\<close> share an EAN, \<open>b\<close> and \<open>c\<close> are the same listing,
  and \<open>a\<close> is a pack of two where \<open>c\<close> is a single piece.
\<close>

definition obs :: "string \<Rightarrow> nat source_pack" where
  "obs i = \<lparr>sp_source_pack_id = i, sp_platform = ''shopee'', sp_product_url = ''https://x'', sp_observed_at = 0,
     sp_collector = [], sp_title = None, sp_source_product_id = None, sp_shop_name = None, sp_brand = None,
     sp_model_sku = None, sp_description_text = None, sp_facts = [], sp_media = [], sp_diagnostic_codes = []\<rparr>"

definition ean_fact :: product_fact where
  "ean_fact = \<lparr>pf_key = ''EAN-13'', pf_value = ''40063'', pf_source_section = [], pf_provenance = [], pf_unit = None\<rparr>"

definition obs_a :: "nat source_pack" where
  "obs_a = (obs ''a'')\<lparr>sp_facts := [ean_fact], sp_title := Some ''pack of 2''\<rparr>"

definition obs_b :: "nat source_pack" where
  "obs_b = (obs ''b'')\<lparr>sp_facts := [ean_fact], sp_source_product_id := Some ''7''\<rparr>"

definition obs_c :: "nat source_pack" where
  "obs_c = (obs ''c'')\<lparr>sp_source_product_id := Some ''7'', sp_title := Some ''single''\<rparr>"

definition trio :: "nat source_pack list" where
  "trio = [obs_a, obs_b, obs_c]"

section \<open>The pairwise decision\<close>

lemma resolve_relationship:
  "rs_relationship (resolve_product_entities l r) =
     (if conflict_evidence l r \<noteq> None then DIFFERENT_PRODUCT
      else if family_evidence l r = None then UNCERTAIN
      else if variant_conflict (variants_of l (facts_of l)) (variants_of r (facts_of r)) then SAME_PRODUCT_FAMILY
      else if variants_of l (facts_of l) \<noteq> [] \<and> variants_of r (facts_of r) \<noteq> [] \<and>
              variants_of l (facts_of l) = variants_of r (facts_of r)
      then EXACT_VARIANT_MATCH else SAME_PRODUCT_FAMILY)"
proof (cases "conflict_evidence l r")
  case None
  then show ?thesis
    by (cases "family_evidence l r") (simp_all add: resolve_product_entities_def mk_resolution_def Let_def case_prod_unfold)
qed (simp add: resolve_product_entities_def mk_resolution_def case_prod_unfold)

lemma positive_iff:
  "positive (rs_relationship (resolve_product_entities l r)) \<longleftrightarrow>
     conflict_evidence l r = None \<and> family_evidence l r \<noteq> None"
  unfolding resolve_relationship positive_def
  by (cases "conflict_evidence l r"; cases "family_evidence l r") simp_all

lemma different_iff:
  "rs_relationship (resolve_product_entities l r) = DIFFERENT_PRODUCT \<longleftrightarrow> conflict_evidence l r \<noteq> None"
  unfolding resolve_relationship by (cases "conflict_evidence l r"; cases "family_evidence l r") simp_all

lemma example_ab_consistent: "conflict_evidence obs_a obs_b = None"
  by code_simp

lemma example_ab_family: "family_evidence obs_a obs_b \<noteq> None"
  by code_simp

lemma example_bc_consistent: "conflict_evidence obs_b obs_c = None"
  by code_simp

lemma example_bc_family: "family_evidence obs_b obs_c \<noteq> None"
  by code_simp

lemma example_ac: "conflict_evidence obs_a obs_c \<noteq> None"
  by code_simp

lemma example_positive:
  "positive (rs_relationship (resolve_product_entities obs_a obs_b))"
  "positive (rs_relationship (resolve_product_entities obs_b obs_c))"
  unfolding positive_iff by (simp_all only: example_ab_consistent example_ab_family example_bc_consistent example_bc_family) simp_all

lemma example_ids: "map from_pack trio = [from_pack obs_a, from_pack obs_b, from_pack obs_c]"
  "distinct (map from_pack trio)"
  by (simp_all add: trio_def from_pack_def obs_a_def obs_b_def obs_c_def obs_def)

text \<open>
  C19. The resolver never merges on weak evidence. A verdict that two observations are the same variant or
  the same product family needs a shared global identifier, a shared brand together with a shared model or
  manufacturer number, or the same listing of the same marketplace; and it is never given to observations
  whose package compositions or global identifiers contradict each other, nor, when the brands of both are
  known, to observations whose models or whose manufacturer numbers contradict each other. Titles, images and
  SKU texts alone never produce it.
\<close>

theorem positive_needs_authority:
  assumes "positive (rs_relationship (resolve_product_entities l r))"
  shows "(overlap (values_of (facts_of l) global_id_keys) (values_of (facts_of r) global_id_keys) \<or>
          overlap (brand_of l (facts_of l)) (brand_of r (facts_of r)) \<and>
            (overlap (models_of (facts_of l)) (models_of (facts_of r)) \<or>
             overlap (values_of (facts_of l) manufacturer_id_keys) (values_of (facts_of r) manufacturer_id_keys)) \<or>
          casefold (sp_platform l) = casefold (sp_platform r) \<and>
            sp_source_product_id l = sp_source_product_id r \<and> sp_source_product_id l \<notin> {None, Some []}) \<and>
         \<not> disjoint (values_of (facts_of l) global_id_keys) (values_of (facts_of r) global_id_keys) \<and>
         (brand_of l (facts_of l) \<noteq> {} \<and> brand_of r (facts_of r) \<noteq> {} \<longrightarrow>
            \<not> disjoint (models_of (facts_of l)) (models_of (facts_of r)) \<and>
            \<not> disjoint (values_of (facts_of l) manufacturer_id_keys) (values_of (facts_of r) manufacturer_id_keys)) \<and>
         {composition_of l (facts_of l), composition_of r (facts_of r)} \<noteq> {Some ''single'', Some ''multi''}"
proof -
  from assms have c: "conflict_evidence l r = None" and f: "family_evidence l r \<noteq> None" by (simp_all add: positive_iff)
  from f have "overlap (values_of (facts_of l) global_id_keys) (values_of (facts_of r) global_id_keys) \<or>
      overlap (brand_of l (facts_of l)) (brand_of r (facts_of r)) \<and>
        (overlap (models_of (facts_of l)) (models_of (facts_of r)) \<or>
         overlap (values_of (facts_of l) manufacturer_id_keys) (values_of (facts_of r) manufacturer_id_keys)) \<or>
      same_platform l r \<and> same_product_id l r"
    unfolding family_evidence_def Let_def by (auto split: if_splits)
  moreover from c have "\<not> disjoint (values_of (facts_of l) global_id_keys) (values_of (facts_of r) global_id_keys)"
    "composition_of l (facts_of l) = None \<or> composition_of r (facts_of r) = None \<or>
     composition_of l (facts_of l) = composition_of r (facts_of r)"
    unfolding conflict_evidence_def Let_def by (auto split: if_splits)
  moreover have "brand_of l (facts_of l) \<noteq> {} \<and> brand_of r (facts_of r) \<noteq> {} \<longrightarrow>
      \<not> disjoint (models_of (facts_of l)) (models_of (facts_of r)) \<and>
      \<not> disjoint (values_of (facts_of l) manufacturer_id_keys) (values_of (facts_of r) manufacturer_id_keys)"
  proof -
    have "brand_of l (facts_of l) \<noteq> {} \<and> brand_of r (facts_of r) \<noteq> {} \<Longrightarrow>
        disjoint (brand_of l (facts_of l)) (brand_of r (facts_of r)) \<or> overlap (brand_of l (facts_of l)) (brand_of r (facts_of r))"
      by (simp add: disjoint_def overlap_def)
    with c show ?thesis unfolding conflict_evidence_def Let_def by (auto split: if_splits)
  qed
  ultimately show ?thesis by (auto simp: same_platform_def same_product_id_def doubleton_eq_iff)
qed

text \<open>Two observations of one branded model.\<close>

definition model_fact :: product_fact where
  "model_fact = \<lparr>pf_key = ''model'', pf_value = ''X-200'', pf_source_section = [], pf_provenance = [], pf_unit = None\<rparr>"

definition obs_d :: "nat source_pack" where
  "obs_d = (obs ''d'')\<lparr>sp_brand := Some ''Acme'', sp_facts := [model_fact]\<rparr>"

definition obs_e :: "nat source_pack" where
  "obs_e = (obs ''e'')\<lparr>sp_brand := Some ''ACME'', sp_facts := [model_fact], sp_model_sku := Some ''7''\<rparr>"

lemma example_de_consistent: "conflict_evidence obs_d obs_e = None"
  by code_simp

lemma example_de_family: "family_evidence obs_d obs_e \<noteq> None"
  by code_simp

lemma example_de_brands: "brand_of obs_d (facts_of obs_d) \<noteq> {}" "brand_of obs_e (facts_of obs_e) \<noteq> {}"
  by (simp_all add: brand_of_def obs_d_def obs_e_def) code_simp+

theorem positive_needs_authority_witness:
  "brand_of obs_d (facts_of obs_d) \<noteq> {} \<and> brand_of obs_e (facts_of obs_e) \<noteq> {} \<and>
   \<not> disjoint (models_of (facts_of obs_d)) (models_of (facts_of obs_e)) \<and>
   (overlap (values_of (facts_of obs_d) global_id_keys) (values_of (facts_of obs_e) global_id_keys) \<or>
    overlap (brand_of obs_d (facts_of obs_d)) (brand_of obs_e (facts_of obs_e)) \<or>
    sp_source_product_id obs_d = sp_source_product_id obs_e)"
  using positive_needs_authority [of obs_d obs_e] example_de_consistent example_de_family example_de_brands
  unfolding positive_iff by blast

text \<open>
  C20. The decision does not depend on the order of the two observations: the result for them the other way
  round is the same verdict with the same confidence, reasons and evidence, and the two ends exchanged.
\<close>

theorem resolution_is_symmetric:
  "resolve_product_entities r l =
     (resolve_product_entities l r)\<lparr>rs_left := from_pack r, rs_right := from_pack l\<rparr>"
  using resolve_flip [of r l] by (simp add: flip_def)

text \<open>
  The check of \<open>EntityResolutionResult.__post_init__\<close> never fails: the confidence of every result is a
  number between 0 and 1.
\<close>

theorem confidence_in_range:
  "fle (Fin 0) (rs_confidence (resolve_product_entities l r)) \<and> fle (rs_confidence (resolve_product_entities l r)) (Fin 1)"
proof -
  have "\<exists>q. 0 < q \<and> q \<le> 1 \<and> rs_confidence (resolve_product_entities l r) = to_double q"
  proof (cases "conflict_evidence l r")
    case (Some c)
    obtain q reason ev where c: "c = (q, reason, ev)" by (cases c)
    have "0 < q" "q \<le> 1"
      using Some unfolding c conflict_evidence_def Let_def by (auto split: if_splits)
    with Some c show ?thesis by (auto simp: resolve_product_entities_def mk_resolution_def)
  next
    case None
    have ok: "0 < q \<and> q \<le> 1" if "q \<in> {96 / 100, 98 / 100, 86 / 100, 35 / 100, 1 / 10 :: rat}" for q
      using that by auto
    have "\<exists>q \<in> {96 / 100, 98 / 100, 86 / 100, 35 / 100, 1 / 10}. rs_confidence (resolve_product_entities l r) = to_double q"
      using None by (cases "family_evidence l r")
        (simp_all add: resolve_product_entities_def mk_resolution_def Let_def case_prod_unfold)
    with ok show ?thesis by blast
  qed
  with to_double_unit_le show ?thesis by fastforce
qed

section \<open>The graph and the groups\<close>

lemma trio_resolves: "\<exists>g. resolve_multi_observations rep trio = Inr g"
  using example_ids by (simp add: resolve_multi_ok) (simp add: trio_def)

lemma trio_links:
  "(from_pack obs_a, from_pack obs_b) \<in> family_link trio" "(from_pack obs_b, from_pack obs_c) \<in> family_link trio"
proof -
  have "obs_a \<noteq> obs_b" "obs_b \<noteq> obs_c" using example_ids(2) by (auto simp: trio_def)
  then show "(from_pack obs_a, from_pack obs_b) \<in> family_link trio" "(from_pack obs_b, from_pack obs_c) \<in> family_link trio"
    using example_positive unfolding family_link_def trio_def
    by (intro CollectI exI [of _ obs_a] exI [of _ obs_b] exI [of _ obs_c]; simp)+
qed

lemma trio_connected: "(from_pack obs_a, from_pack obs_c) \<in> (family_link trio)\<^sup>*"
  using trio_links by (meson converse_rtrancl_into_rtrancl r_into_rtrancl)

lemma trio_distinct: "obs_a \<noteq> obs_c" "obs_a \<in> set trio" "obs_b \<in> set trio" "obs_c \<in> set trio"
  using example_ids(2) by (auto simp: trio_def)

text \<open>
  A collection of observations is accepted exactly when it has between 2 and 100 members with pairwise
  different identities; otherwise the only effect is the error. An accepted one yields exactly one result
  for every unordered pair.
\<close>

theorem observations_accepted_iff:
  "(\<exists>g. resolve_multi_observations rep packs = Inr g \<and> rg_observations g = map from_pack packs \<and>
        2 * length (rg_pairwise_results g) = length packs * (length packs - 1)) \<longleftrightarrow>
   2 \<le> length packs \<and> length packs \<le> 100 \<and> distinct (map from_pack packs)"
proof -
  have "2 * length (pairwise packs) = length packs * (length packs - 1)"
  proof (induction packs)
    case (Cons p ps)
    then show ?case by (cases "length ps") simp_all
  qed simp
  then show ?thesis by (auto simp: resolve_multi_ok)
qed

text \<open>
  C21. Contradictions are neither invented nor missed: a conflict is reported for a pair of observations
  exactly when the resolver decided that they are different products although a chain of positive decisions
  connects them.
\<close>

theorem conflicts_are_exact:
  assumes "resolve_multi_observations rep packs = Inr g" and "l \<in> set packs" and "r \<in> set packs" and "l \<noteq> r"
  shows "(\<exists>c \<in> set (rg_conflicts g).
            {pe_left (fc_contradictory_pair c), pe_right (fc_contradictory_pair c)} = {from_pack l, from_pack r}) \<longleftrightarrow>
         rs_relationship (resolve_product_entities l r) = DIFFERENT_PRODUCT \<and>
         (from_pack l, from_pack r) \<in> (family_link packs)\<^sup>*"
  by (rule conflict_pair_iff [OF assms])

theorem conflicts_are_exact_witness:
  "\<exists>g. resolve_multi_observations si_source_pack_id trio = Inr g \<and>
     (\<exists>c \<in> set (rg_conflicts g).
        {pe_left (fc_contradictory_pair c), pe_right (fc_contradictory_pair c)} = {from_pack obs_a, from_pack obs_c})"
proof -
  obtain g where g: "resolve_multi_observations si_source_pack_id trio = Inr g" using trio_resolves by blast
  from conflicts_are_exact [OF g trio_distinct(2,4,1)] trio_connected example_ac different_iff g
  show ?thesis by blast
qed

text \<open>
  The evidence of a conflict is a real and shortest chain: the affected identities walk from one end of
  the contradicted pair to the other over positive decisions only, the path has one entry per step, and no
  chain of positive decisions between the two ends is shorter.
\<close>

theorem conflict_path_is_shortest:
  assumes "resolve_multi_observations rep packs = Inr g" and "c \<in> set (rg_conflicts g)"
  shows "walk (family_link packs) (fc_affected_identities c) \<and>
    hd (fc_affected_identities c) = pe_left (fc_contradictory_pair c) \<and>
    last (fc_affected_identities c) = pe_right (fc_contradictory_pair c) \<and>
    length (fc_affected_identities c) = Suc (length (fc_positive_path c)) \<and>
    (\<forall>n. (pe_left (fc_contradictory_pair c), pe_right (fc_contradictory_pair c)) \<in> family_link packs ^^ n \<longrightarrow>
          length (fc_positive_path c) \<le> n)"
  using conflict_path [OF assms] by blast

theorem conflict_path_is_shortest_witness:
  "\<exists>g c. resolve_multi_observations si_source_pack_id trio = Inr g \<and> c \<in> set (rg_conflicts g) \<and>
     walk (family_link trio) (fc_affected_identities c) \<and> length (fc_positive_path c) \<le> 2"
proof -
  obtain g where g: "resolve_multi_observations si_source_pack_id trio = Inr g" using trio_resolves by blast
  from conflict_pair_iff [OF g trio_distinct(2,4,1)] trio_connected example_ac different_iff
  obtain c where c: "c \<in> set (rg_conflicts g)"
    "{pe_left (fc_contradictory_pair c), pe_right (fc_contradictory_pair c)} = {from_pack obs_a, from_pack obs_c}" by blast
  have two: "(from_pack obs_a, from_pack obs_c) \<in> family_link trio ^^ 2" "(from_pack obs_c, from_pack obs_a) \<in> family_link trio ^^ 2"
    using trio_links symD [OF sym_family_link] by (auto simp: numeral_2_eq_2)
  then have "(pe_left (fc_contradictory_pair c), pe_right (fc_contradictory_pair c)) \<in> family_link trio ^^ 2"
    using c(2) by (auto simp: doubleton_eq_iff)
  with conflict_path_is_shortest [OF g c(1)] g c(1) show ?thesis by blast
qed

text \<open>
  Grouping is a partition: whatever graph is given, the groups contain every observation, contain nothing
  else, and no two groups and no two places in a group hold the same identity.
\<close>

theorem groups_partition_observations:
  "distinct (concat (map fg_members (group_resolution_graph isofmt g))) \<and>
   set (concat (map fg_members (group_resolution_graph isofmt g))) = set (rg_observations g)"
  using groups_partition by blast

text \<open>
  C22. Two observations end up in the same group exactly when a chain of positive pairwise decisions connects
  them, and a group is marked as conflicted exactly when the resolver decided for two of its members that
  they are different products.
\<close>

theorem groups_are_families:
  assumes "resolve_multi_observations rep packs = Inr g" and "p \<in> set packs"
  shows "((\<exists>grp \<in> set (group_resolution_graph isofmt g). from_pack p \<in> set (fg_members grp) \<and> y \<in> set (fg_members grp)) \<longleftrightarrow>
          (from_pack p, y) \<in> (family_link packs)\<^sup>*) \<and>
    (\<forall>grp \<in> set (group_resolution_graph isofmt g). fg_status grp = G_CONFLICTED \<longleftrightarrow>
       (\<exists>l \<in> set packs. \<exists>r \<in> set packs. l \<noteq> r \<and> from_pack l \<in> set (fg_members grp) \<and> from_pack r \<in> set (fg_members grp) \<and>
          rs_relationship (resolve_product_entities l r) = DIFFERENT_PRODUCT))"
proof -
  have "from_pack p \<in> set (rg_observations g)" using assms by (auto simp: resolve_multi_ok)
  from same_group_iff [OF this, of isofmt y] show ?thesis
    using group_conflicted_iff [OF assms(1), of _ isofmt] edge_rel_resolved [OF assms(1)] by simp
qed

theorem groups_are_families_witness:
  "\<exists>g. resolve_multi_observations si_source_pack_id trio = Inr g \<and>
     (\<exists>grp \<in> set (group_resolution_graph (\<lambda>t. []) g).
        from_pack obs_a \<in> set (fg_members grp) \<and> from_pack obs_c \<in> set (fg_members grp) \<and> fg_status grp = G_CONFLICTED)"
proof -
  obtain g where g: "resolve_multi_observations si_source_pack_id trio = Inr g" using trio_resolves by blast
  note families = groups_are_families [OF g trio_distinct(2), where isofmt = "\<lambda>t. []" and y = "from_pack obs_c"]
  from families trio_connected obtain grp where grp: "grp \<in> set (group_resolution_graph (\<lambda>t. []) g)"
    "from_pack obs_a \<in> set (fg_members grp)" "from_pack obs_c \<in> set (fg_members grp)" by blast
  have "rs_relationship (resolve_product_entities obs_a obs_c) = DIFFERENT_PRODUCT"
    using example_ac different_iff by blast
  with families grp trio_distinct have "fg_status grp = G_CONFLICTED" by blast
  with g grp show ?thesis by blast
qed

text \<open>
  C23. The outcome does not depend on the order in which the observations are collected: for the same
  observations in another order the conflicts are the same list and the groups are the same list, provided
  that \<open>repr\<close> tells the identities apart and \<open>isoformat\<close> the times.
\<close>

theorem grouping_ignores_input_order:
  assumes "resolve_multi_observations rep packs = Inr g" and "resolve_multi_observations rep packs' = Inr g'"
    and "mset packs = mset packs'" and "inj_on rep (from_pack ` set packs)" and "inj isofmt"
  shows "rg_conflicts g = rg_conflicts g' \<and> group_resolution_graph isofmt g = group_resolution_graph isofmt g'"
proof -
  have w: "well_named rep packs" using assms(1,4) by (simp add: well_named_def resolve_multi_ok)
  have c: "rg_conflicts g = rg_conflicts g'"
    using find_conflicts_perm [OF w assms(3)] assms(1,2) by (auto simp: resolve_multi_ok)
  have "set packs = set packs'" using assms(3) by (rule mset_eq_setD)
  then have "set (rg_observations g) = set (rg_observations g')" "family_link packs = family_link packs'"
    using assms(1,2) by (auto simp: resolve_multi_ok family_link_def)
  with groups_order_independent [OF assms(5) _ _ c] c edge_rel_resolved [OF assms(1)] edge_rel_resolved [OF assms(2)]
  show ?thesis by simp
qed

theorem grouping_ignores_input_order_witness:
  "\<exists>g g'. resolve_multi_observations si_source_pack_id trio = Inr g \<and>
     resolve_multi_observations si_source_pack_id (rev trio) = Inr g' \<and> rg_conflicts g = rg_conflicts g'"
proof -
  obtain g where g: "resolve_multi_observations si_source_pack_id trio = Inr g" using trio_resolves by blast
  obtain g' where g': "resolve_multi_observations si_source_pack_id (rev trio) = Inr g'"
    using trio_resolves [of si_source_pack_id] by (simp add: resolve_multi_ok rev_map [symmetric])
  have "inj_on si_source_pack_id (from_pack ` set trio)"
    by (auto simp: trio_def from_pack_def obs_a_def obs_b_def obs_c_def obs_def)
  from grouping_ignores_input_order [OF g g' _ this, where isofmt = "\<lambda>n. replicate n (CHR ''x'')"] g g'
  show ?thesis by (auto simp: inj_def replicate_eq_replicate)
qed

end
