(* ===== verification/Executor_Lease.thy ===== *)
theory Executor_Lease
  imports Idempotency_Contract Py_Regex
begin

text \<open>
  \<open>src/aios_bridge/continuity/lease.py\<close>: the lease that names the one executor of a task, its validation and
  its serialised form. Every \<open>ContinuityStateValidationError\<close> is one constructor of \<open>lease_error\<close>;
  \<open>LeaseOSError\<close> is an \<open>OSError\<close> that leaves the store, \<open>ProcessKilled\<close> stands for a call that never
  returned because its process died. SHA-256 is a parameter.
\<close>

datatype execution_operation = OP_RUN | OP_FIX

fun operation_value :: "execution_operation \<Rightarrow> string" where
  "operation_value OP_RUN = ''RUN''"
| "operation_value OP_FIX = ''FIX''"

datatype lease_error =
    NotANonEmptyString string
  | BadPattern string string
  | Padded string string
  | TooLong string nat
  | UnsupportedSchema pyval
  | InvalidOperation pyval
  | SizeLimit nat
  | RootNotADict
  | ForbiddenFields "string list"
  | UnknownFields "string list"
  | MissingField string
  | MalformedJson
  | BindingMismatch string
  | NoActiveLease string
  | LeaseIdMismatch string string
  | FingerprintMismatch string string
  | ActiveIsDirectory
  | ActiveUnreadable
  | ActiveEmpty
  | NamespaceMismatch string string
  | WorkspaceMismatch string string
  | AlreadyLeased string string
  | AcquireFailed
  | ReleaseFailed
  | LeaseOSError
  | ProcessKilled

abbreviation max_serialized_bytes :: nat where
  "max_serialized_bytes \<equiv> 16384"

section \<open>Validators\<close>

definition task_id_re :: rx where
  "task_id_re = Then (lit ''TASK-'') (Then (some_chars is_digit) Dollar)"

text \<open>\<open>(?:[a-z0-9_.\-:]+)*\<close> and \<open>(?:-[a-z0-9]+)*\<close> are repetitions of a group.\<close>

definition lease_id_char :: "char \<Rightarrow> bool" where
  "lease_id_char c \<longleftrightarrow> lower_alnum c \<or> c \<in> set ''_.-:''"

definition lease_id_re :: rx where
  "lease_id_re = Then (some_chars lower_alnum) (Then (Star (some_chars lease_id_char)) Dollar)"

definition actor_id_re :: rx where
  "actor_id_re =
     Then (some_chars lower_alnum) (Then (Star (Then (lit ''-'') (some_chars lower_alnum))) Dollar)"

definition lower_hex :: "char \<Rightarrow> bool" where
  "lower_hex c \<longleftrightarrow> is_digit c \<or> in_range 97 102 c"

definition sha64_re :: rx where
  "sha64_re = Then (times 64 (Chars lower_hex)) Dollar"

definition validate_task_id :: "string \<Rightarrow> pyval \<Rightarrow> lease_error + string" where
  "validate_task_id field v =
     (case v of
        PStr s \<Rightarrow> if re_match task_id_re s = None then Inl (BadPattern field s) else Inr s
      | _ \<Rightarrow> Inl (NotANonEmptyString field))"

text \<open>\<open>_validate_actor_id\<close> of \<open>continuity/state.py\<close>, and the wrapper around it.\<close>

definition validate_actor_id :: "string \<Rightarrow> pyval \<Rightarrow> lease_error + string" where
  "validate_actor_id field v =
     (case v of
        PStr s \<Rightarrow>
          if s = [] then Inl (NotANonEmptyString field)
          else if s \<noteq> strip s then Inl (Padded field s)
          else if re_match actor_id_re s = None then Inl (BadPattern field s) else Inr s
      | _ \<Rightarrow> Inl (NotANonEmptyString field))"

definition validate_canonical_actor_id :: "string \<Rightarrow> pyval \<Rightarrow> lease_error + string" where
  "validate_canonical_actor_id field v =
     (case v of
        PStr s \<Rightarrow>
          if s \<noteq> strip s \<or> s = [] then Inl (Padded field s)
          else bind_result (validate_actor_id field v)
                 (\<lambda>c. if s \<noteq> c then Inl (BadPattern field s) else Inr c)
      | _ \<Rightarrow> Inl (NotANonEmptyString field))"

definition validate_canonical_lease_id :: "string \<Rightarrow> pyval \<Rightarrow> lease_error + string" where
  "validate_canonical_lease_id field v =
     (case v of
        PStr s \<Rightarrow>
          if s = [] then Inl (NotANonEmptyString field)
          else if s \<noteq> strip s then Inl (Padded field s)
          else if 64 < length s then Inl (TooLong field (length s))
          else if re_match lease_id_re s = None then Inl (BadPattern field s) else Inr s
      | _ \<Rightarrow> Inl (NotANonEmptyString field))"

definition validate_exact_hex_sha_64 :: "string \<Rightarrow> pyval \<Rightarrow> lease_error + string" where
  "validate_exact_hex_sha_64 field v =
     (case v of
        PStr s \<Rightarrow>
          if s = [] then Inl (NotANonEmptyString field)
          else if s \<noteq> strip s then Inl (Padded field s)
          else if re_match sha64_re s = None then Inl (BadPattern field s) else Inr s
      | _ \<Rightarrow> Inl (NotANonEmptyString field))"

text \<open>\<open>ExecutionOperation(value)\<close>\<close>

definition parse_operation :: "pyval \<Rightarrow> lease_error + execution_operation" where
  "parse_operation v =
     (if v = PStr ''RUN'' then Inr OP_RUN else if v = PStr ''FIX'' then Inr OP_FIX else Inl (InvalidOperation v))"

section \<open>The lease\<close>

record executor_lease =
  el_schema_version :: string
  el_lease_id :: string
  el_task_id :: string
  el_workspace_id :: string
  el_executor_id :: string
  el_operation :: execution_operation
  el_execution_fingerprint :: string

text \<open>\<open>json.dumps\<close> of a dictionary of strings with sorted keys, the compact separators and \<open>ensure_ascii=False\<close>.\<close>

definition lease_items :: "executor_lease \<Rightarrow> (string \<times> string) list" where
  "lease_items l =
     [(''execution_fingerprint'', el_execution_fingerprint l), (''executor_id'', el_executor_id l),
      (''lease_id'', el_lease_id l), (''operation'', operation_value (el_operation l)),
      (''schema_version'', el_schema_version l), (''task_id'', el_task_id l), (''workspace_id'', el_workspace_id l)]"

definition lease_to_dict :: "executor_lease \<Rightarrow> pydict" where
  "lease_to_dict l = map (\<lambda>(k, v). (k, PStr v)) (lease_items l)"

fun comma_list :: "string list \<Rightarrow> string" where
  "comma_list [] = []"
| "comma_list [x] = x"
| "comma_list (x # xs) = x @ '','' @ comma_list xs"

definition lease_to_canonical_json :: "executor_lease \<Rightarrow> string" where
  "lease_to_canonical_json l =
     ''{'' @ comma_list (map (\<lambda>(k, v). json_str False k @ '':'' @ json_str False v) (lease_items l)) @ ''}''"

text \<open>The number of bytes of \<open>s.encode("utf-8")\<close>, for Latin-1 text.\<close>

definition utf8_length :: "string \<Rightarrow> nat" where
  "utf8_length s = sum_list (map (\<lambda>c. if (of_char c :: nat) < 128 then 1 else 2) s)"

definition lease_fingerprint :: "(string \<Rightarrow> string) \<Rightarrow> executor_lease \<Rightarrow> string" where
  "lease_fingerprint sha256 l = sha256 (lease_to_canonical_json l)"

text \<open>\<open>ExecutorLease.__post_init__\<close> on the values given to the constructor.\<close>

definition mk_executor_lease ::
  "pyval \<Rightarrow> pyval \<Rightarrow> pyval \<Rightarrow> pyval \<Rightarrow> pyval \<Rightarrow> pyval \<Rightarrow> pyval \<Rightarrow> lease_error + executor_lease" where
  "mk_executor_lease schema lid task ws ex opn fp =
     (if schema \<noteq> PStr ''1'' then Inl (UnsupportedSchema schema)
      else bind_result (validate_canonical_lease_id ''lease_id'' lid) (\<lambda>lid.
           bind_result (validate_task_id ''task_id'' task) (\<lambda>task.
           bind_result (validate_exact_hex_sha_64 ''workspace_id'' ws) (\<lambda>ws.
           bind_result (validate_canonical_actor_id ''executor_id'' ex) (\<lambda>ex.
           bind_result (parse_operation opn) (\<lambda>opn.
           bind_result (validate_exact_hex_sha_64 ''execution_fingerprint'' fp) (\<lambda>fp.
             (let l = \<lparr>el_schema_version = ''1'', el_lease_id = lid, el_task_id = task, el_workspace_id = ws,
                       el_executor_id = ex, el_operation = opn, el_execution_fingerprint = fp\<rparr>;
                  n = utf8_length (lease_to_canonical_json l)
              in if max_serialized_bytes < n then Inl (SizeLimit n) else Inr l))))))))"

definition forbidden_lease_keys :: "string list" where
  "forbidden_lease_keys =
     [''approved'', ''human_approved'', ''merge_allowed'', ''authorization_token'', ''api_key'', ''cookie'',
      ''cookies'', ''auth_header'', ''session_secret'', ''expires_at'', ''ttl'', ''heartbeat'',
      ''failover_target'', ''token'', ''auth'']"

definition allowed_lease_keys :: "string list" where
  "allowed_lease_keys =
     [''execution_fingerprint'', ''executor_id'', ''lease_id'', ''operation'', ''schema_version'', ''task_id'',
      ''workspace_id'']"

text \<open>
  The keys in the first two errors are in the order of the dictionary, where the messages sort them; of several
  missing fields the code names one, depending on the iteration order of a set.
\<close>

definition lease_from_dict :: "pyval \<Rightarrow> lease_error + executor_lease" where
  "lease_from_dict v =
     (case v of
        PDict d \<Rightarrow>
          (let forbidden = filter (\<lambda>k. k \<in> set forbidden_lease_keys) (map fst d);
               extra = filter (\<lambda>k. k \<notin> set allowed_lease_keys) (map fst d);
               missing = filter (\<lambda>k. \<not> has_key d k) allowed_lease_keys;
               field = (\<lambda>k. dget d k PNone)
           in if forbidden \<noteq> [] then Inl (ForbiddenFields forbidden)
              else if extra \<noteq> [] then Inl (UnknownFields extra)
              else if missing \<noteq> [] then Inl (MissingField (hd missing))
              else mk_executor_lease (field ''schema_version'') (field ''lease_id'') (field ''task_id'')
                     (field ''workspace_id'') (field ''executor_id'') (field ''operation'')
                     (field ''execution_fingerprint''))
      | _ \<Rightarrow> Inl RootNotADict)"

text \<open>Bytes of a file: how many they are, and the value \<open>json.loads\<close> reads from their text, if any.\<close>

record file_body =
  fb_size :: nat
  fb_json :: "pyval option"

definition lease_from_json :: "file_body \<Rightarrow> lease_error + executor_lease" where
  "lease_from_json b =
     (if max_serialized_bytes < fb_size b then Inl (SizeLimit (fb_size b))
      else (case fb_json b of None \<Rightarrow> Inl MalformedJson | Some v \<Rightarrow> lease_from_dict v))"

definition validate_executor_lease_binding ::
  "executor_lease \<Rightarrow> string \<Rightarrow> string \<Rightarrow> string \<Rightarrow> execution_operation \<Rightarrow> string \<Rightarrow> lease_error + unit" where
  "validate_executor_lease_binding l task ws ex opn fp =
     (if el_task_id l \<noteq> task then Inl (BindingMismatch ''task_id'')
      else if el_workspace_id l \<noteq> ws then Inl (BindingMismatch ''workspace_id'')
      else if el_executor_id l \<noteq> ex then Inl (BindingMismatch ''executor_id'')
      else if el_operation l \<noteq> opn then Inl (BindingMismatch ''operation'')
      else if el_execution_fingerprint l \<noteq> fp then Inl (BindingMismatch ''execution_fingerprint'')
      else Inr ())"

section \<open>Lemmas\<close>

text \<open>A lease that the constructor accepts.\<close>

definition wf_lease :: "executor_lease \<Rightarrow> bool" where
  "wf_lease l \<longleftrightarrow>
     mk_executor_lease (PStr (el_schema_version l)) (PStr (el_lease_id l)) (PStr (el_task_id l))
       (PStr (el_workspace_id l)) (PStr (el_executor_id l)) (PStr (operation_value (el_operation l)))
       (PStr (el_execution_fingerprint l)) = Inr l"

lemma bind_result_Inr: "bind_result r f = Inr y \<longleftrightarrow> (\<exists>x. r = Inr x \<and> f x = Inr y)"
  by (cases r) (simp_all add: bind_result_def)

lemma validate_Inr:
  "validate_task_id fld v = Inr s \<Longrightarrow> v = PStr s"
  "validate_actor_id fld v = Inr s \<Longrightarrow> v = PStr s"
  "validate_canonical_actor_id fld v = Inr s \<Longrightarrow> v = PStr s"
  "validate_canonical_lease_id fld v = Inr s \<Longrightarrow> v = PStr s"
  "validate_exact_hex_sha_64 fld v = Inr s \<Longrightarrow> v = PStr s"
proof -
  show a: "validate_actor_id fld v = Inr s \<Longrightarrow> v = PStr s" for v s
    by (auto simp: validate_actor_id_def split: pyval.splits if_splits)
  show "validate_canonical_actor_id fld v = Inr s \<Longrightarrow> v = PStr s"
    by (auto simp: validate_canonical_actor_id_def bind_result_Inr split: pyval.splits if_splits)
qed (auto simp: validate_task_id_def validate_canonical_lease_id_def validate_exact_hex_sha_64_def
      split: pyval.splits if_splits)

lemma parse_operation_Inr: "parse_operation v = Inr opn \<Longrightarrow> v = PStr (operation_value opn)"
  by (auto simp: parse_operation_def split: if_splits)

lemma mk_executor_lease_fields:
  assumes "mk_executor_lease schema lid task ws ex opn fp = Inr l"
  shows "schema = PStr (el_schema_version l)" "lid = PStr (el_lease_id l)" "task = PStr (el_task_id l)"
    "ws = PStr (el_workspace_id l)" "ex = PStr (el_executor_id l)"
    "opn = PStr (operation_value (el_operation l))" "fp = PStr (el_execution_fingerprint l)"
  using assms unfolding mk_executor_lease_def
  by (auto simp: bind_result_Inr Let_def dest!: validate_Inr parse_operation_Inr split: if_splits)

lemma mk_executor_lease_wf: "mk_executor_lease schema lid task ws ex opn fp = Inr l \<Longrightarrow> wf_lease l"
  using mk_executor_lease_fields [of schema lid task ws ex opn fp l] by (simp add: wf_lease_def)

lemma lease_from_dict_wf: "lease_from_dict v = Inr l \<Longrightarrow> wf_lease l"
  by (auto simp: lease_from_dict_def Let_def split: pyval.splits if_splits dest: mk_executor_lease_wf)

lemma lease_from_json_wf: "lease_from_json b = Inr l \<Longrightarrow> wf_lease l"
  by (auto simp: lease_from_json_def split: if_splits option.splits dest: lease_from_dict_wf)

lemma lease_dict_round_trip: "wf_lease l \<Longrightarrow> lease_from_dict (PDict (lease_to_dict l)) = Inr l"
  by (simp add: lease_from_dict_def lease_to_dict_def lease_items_def wf_lease_def forbidden_lease_keys_def
      allowed_lease_keys_def)

lemma wf_lease_size: "wf_lease l \<Longrightarrow> utf8_length (lease_to_canonical_json l) \<le> max_serialized_bytes"
  unfolding wf_lease_def mk_executor_lease_def
  by (auto simp: bind_result_Inr Let_def split: if_splits)

end
