(* ===== verification/Lease_Store.thy ===== *)
theory Lease_Store
  imports Executor_Lease
begin

text \<open>
  \<open>src/aios_bridge/runtime_lease.py\<close>: the file system store of executor leases. The store is shared by all
  processes; a mutating call holds the task's thread and file lock (\<open>_task_mutation_guard\<close>), so it is one
  step. What the operating system does in a call is an input: whether the lock and the files can be opened,
  how many bytes of a lease reach the file before a write, sync or close fails, whether the clean-up can
  remove the file, and whether the process is killed on the way. The text of a lease cut short is never JSON.
\<close>

datatype active_entry = ActiveDir | ActiveFile file_body

record task_dir =
  td_active :: "active_entry option"
  td_history :: "(string \<times> file_body) list"

record lease_store =
  lt_workspace :: string
  lt_tasks :: "string \<Rightarrow> task_dir"

text \<open>\<open>AtomicExecutorLeaseStore.__init__\<close>, on a root directory with the given content.\<close>

definition lease_store_init :: "(string \<Rightarrow> task_dir) \<Rightarrow> pyval \<Rightarrow> lease_error + lease_store" where
  "lease_store_init tasks ws =
     bind_result (validate_exact_hex_sha_64 ''workspace_id'' ws) (\<lambda>w. Inr \<lparr>lt_workspace = w, lt_tasks = tasks\<rparr>)"

definition get_task_dir :: "lease_store \<Rightarrow> string \<Rightarrow> lease_error + task_dir" where
  "get_task_dir s t = bind_result (validate_task_id ''task_id'' (PStr t)) (\<lambda>t. Inr (lt_tasks s t))"

definition set_task_dir :: "lease_store \<Rightarrow> string \<Rightarrow> task_dir \<Rightarrow> lease_store" where
  "set_task_dir s t d = s\<lparr>lt_tasks := (lt_tasks s)(t := d)\<rparr>"

definition load_active :: "bool \<Rightarrow> string \<Rightarrow> lease_store \<Rightarrow> lease_error + executor_lease option" where
  "load_active readable t s =
     bind_result (get_task_dir s t) (\<lambda>d.
       case td_active d of
         None \<Rightarrow> Inr None
       | Some ActiveDir \<Rightarrow> Inl ActiveIsDirectory
       | Some (ActiveFile b) \<Rightarrow>
           if \<not> readable then Inl ActiveUnreadable
           else if fb_size b = 0 then Inl ActiveEmpty
           else if max_serialized_bytes < fb_size b then Inl (SizeLimit (max_serialized_bytes + 1))
           else bind_result (lease_from_json b) (\<lambda>l.
             if el_task_id l \<noteq> t then Inl (NamespaceMismatch (el_task_id l) t)
             else if el_workspace_id l \<noteq> lt_workspace s then Inl (WorkspaceMismatch (el_workspace_id l) (lt_workspace s))
             else Inr (Some l)))"

definition require_active ::
  "(string \<Rightarrow> string) \<Rightarrow> bool \<Rightarrow> executor_lease \<Rightarrow> lease_store \<Rightarrow> lease_error + executor_lease" where
  "require_active sha256 readable expected s =
     bind_result (load_active readable (el_task_id expected) s) (\<lambda>active.
       case active of
         None \<Rightarrow> Inl (NoActiveLease (el_task_id expected))
       | Some l \<Rightarrow>
           bind_result (validate_executor_lease_binding l (el_task_id expected) (el_workspace_id expected)
               (el_executor_id expected) (el_operation expected) (el_execution_fingerprint expected)) (\<lambda>_.
             if el_lease_id l \<noteq> el_lease_id expected then Inl (LeaseIdMismatch (el_lease_id l) (el_lease_id expected))
             else if lease_fingerprint sha256 l \<noteq> lease_fingerprint sha256 expected
             then Inl (FingerprintMismatch (lease_fingerprint sha256 l) (lease_fingerprint sha256 expected))
             else Inr l))"

section \<open>Acquire\<close>

text \<open>The flag of a failure says whether the clean-up removed the file.\<close>

datatype write_outcome =
    W_Fine
  | W_OpenFailed
  | W_WriteFailed nat bool
  | W_SyncFailed bool
  | W_CloseFailed bool
  | W_Killed nat

record acquire_io =
  ai_guard :: bool
  ai_readable :: bool
  ai_write :: write_outcome

definition lease_body :: "executor_lease \<Rightarrow> file_body" where
  "lease_body l = \<lparr>fb_size = utf8_length (lease_to_canonical_json l), fb_json = Some (PDict (lease_to_dict l))\<rparr>"

definition body_prefix :: "nat \<Rightarrow> executor_lease \<Rightarrow> file_body" where
  "body_prefix n l = (if fb_size (lease_body l) \<le> n then lease_body l else \<lparr>fb_size = n, fb_json = None\<rparr>)"

definition leave :: "bool \<Rightarrow> file_body \<Rightarrow> active_entry option" where
  "leave removed b = (if removed then None else Some (ActiveFile b))"

definition acquire :: "acquire_io \<Rightarrow> executor_lease \<Rightarrow> lease_store \<Rightarrow> (lease_error + executor_lease) \<times> lease_store" where
  "acquire io l s =
     (if el_workspace_id l \<noteq> lt_workspace s then (Inl (WorkspaceMismatch (el_workspace_id l) (lt_workspace s)), s)
      else (case get_task_dir s (el_task_id l) of
              Inl e \<Rightarrow> (Inl e, s)
            | Inr d \<Rightarrow>
                if \<not> ai_guard io then (Inl LeaseOSError, s)
                else if td_active d \<noteq> None
                then (case load_active (ai_readable io) (el_task_id l) s of
                        Inl e \<Rightarrow> (Inl e, s)
                      | Inr (Some existing) \<Rightarrow> (Inl (AlreadyLeased (el_executor_id existing) (el_lease_id existing)), s)
                      | Inr None \<Rightarrow> (Inl AcquireFailed, s))
                else (let put = (\<lambda>a. set_task_dir s (el_task_id l) (d\<lparr>td_active := a\<rparr>))
                      in case ai_write io of
                           W_Fine \<Rightarrow> (Inr l, put (Some (ActiveFile (lease_body l))))
                         | W_OpenFailed \<Rightarrow> (Inl AcquireFailed, s)
                         | W_WriteFailed n removed \<Rightarrow> (Inl AcquireFailed, put (leave removed (body_prefix n l)))
                         | W_SyncFailed removed \<Rightarrow> (Inl AcquireFailed, put (leave removed (lease_body l)))
                         | W_CloseFailed removed \<Rightarrow> (Inl AcquireFailed, put (leave removed (lease_body l)))
                         | W_Killed n \<Rightarrow> (Inl ProcessKilled, put (Some (ActiveFile (body_prefix n l)))))))"

section \<open>Release\<close>

text \<open>A kill is before or after the rename.\<close>

datatype rename_outcome = R_Fine | R_MkdirFailed | R_RenameFailed | R_KilledBefore | R_KilledAfter

record release_io =
  ri_guard :: bool
  ri_readable :: bool
  ri_now :: nat
  ri_rename :: rename_outcome

definition released_name :: "executor_lease \<Rightarrow> nat \<Rightarrow> string" where
  "released_name l now = ''RELEASED-'' @ el_lease_id l @ ''-'' @ nat_str now @ ''.json''"

definition release ::
  "(string \<Rightarrow> string) \<Rightarrow> release_io \<Rightarrow> executor_lease \<Rightarrow> lease_store \<Rightarrow> (lease_error + executor_lease) \<times> lease_store" where
  "release sha256 io expected s =
     (case get_task_dir s (el_task_id expected) of
        Inl e \<Rightarrow> (Inl e, s)
      | Inr d \<Rightarrow>
          if \<not> ri_guard io then (Inl LeaseOSError, s)
          else (case require_active sha256 (ri_readable io) expected s of
                  Inl e \<Rightarrow> (Inl e, s)
                | Inr _ \<Rightarrow>
                    (let moved = (case td_active d of
                           Some (ActiveFile b) \<Rightarrow> set_task_dir s (el_task_id expected)
                             (d\<lparr>td_active := None,
                                td_history := AList.update (released_name expected (ri_now io)) b (td_history d)\<rparr>)
                         | _ \<Rightarrow> s)
                     in case ri_rename io of
                          R_Fine \<Rightarrow> (Inr expected, moved)
                        | R_MkdirFailed \<Rightarrow> (Inl LeaseOSError, s)
                        | R_RenameFailed \<Rightarrow> (Inl ReleaseFailed, s)
                        | R_KilledBefore \<Rightarrow> (Inl ProcessKilled, s)
                        | R_KilledAfter \<Rightarrow> (Inl ProcessKilled, moved))))"

section \<open>Calls by any number of processes\<close>

datatype lease_call = Acquire acquire_io executor_lease | Release release_io executor_lease

fun lease_step :: "(string \<Rightarrow> string) \<Rightarrow> lease_call \<Rightarrow> lease_store \<Rightarrow> (lease_error + executor_lease) \<times> lease_store" where
  "lease_step sha256 (Acquire io l) s = acquire io l s"
| "lease_step sha256 (Release io l) s = release sha256 io l s"

fun lease_run ::
  "(string \<Rightarrow> string) \<Rightarrow> lease_call list \<Rightarrow> lease_store \<Rightarrow> (lease_call \<times> (lease_error + executor_lease)) list \<times> lease_store" where
  "lease_run sha256 [] s = ([], s)"
| "lease_run sha256 (c # cs) s =
     (let (r, s') = lease_step sha256 c s; (rs, s'') = lease_run sha256 cs s' in ((c, r) # rs, s''))"

fun call_lease :: "lease_call \<Rightarrow> executor_lease" where
  "call_lease (Acquire io l) = l"
| "call_lease (Release io l) = l"

section \<open>Lemmas\<close>

text \<open>The active entry of the task of \<open>l\<close> is the record of \<open>l\<close>.\<close>

definition holds :: "lease_store \<Rightarrow> executor_lease \<Rightarrow> bool" where
  "holds s l \<longleftrightarrow>
     wf_lease l \<and> el_workspace_id l = lt_workspace s \<and>
     td_active (lt_tasks s (el_task_id l)) = Some (ActiveFile (lease_body l))"

lemma wf_lease_task: "wf_lease l \<Longrightarrow> validate_task_id fld (PStr (el_task_id l)) = Inr (el_task_id l)"
proof -
  assume "wf_lease l"
  then obtain t where "validate_task_id ''task_id'' (PStr (el_task_id l)) = Inr t"
    unfolding wf_lease_def mk_executor_lease_def by (auto simp: bind_result_Inr split: if_splits)
  then show ?thesis by (auto simp: validate_task_id_def split: if_splits)
qed

lemma get_task_dir_wf: "wf_lease l \<Longrightarrow> get_task_dir s (el_task_id l) = Inr (lt_tasks s (el_task_id l))"
  by (simp add: get_task_dir_def bind_result_def wf_lease_task)

lemma canonical_json_nonempty: "0 < utf8_length (lease_to_canonical_json l)"
  by (simp add: lease_to_canonical_json_def utf8_length_def)

lemma load_active_holds:
  assumes "holds s l"
  shows "load_active readable (el_task_id l) s = (if readable then Inr (Some l) else Inl ActiveUnreadable)"
proof -
  have "lease_from_json (lease_body l) = Inr l"
    using assms wf_lease_size [of l] lease_dict_round_trip [of l]
    by (simp add: holds_def lease_from_json_def lease_body_def)
  with assms wf_lease_size [of l] canonical_json_nonempty [of l] show ?thesis
    by (simp add: holds_def load_active_def get_task_dir_wf bind_result_def) (simp add: lease_body_def)
qed

lemma require_active_holds:
  assumes "holds s l"
  shows "require_active sha256 True l s = Inr l"
  by (simp add: require_active_def load_active_holds [OF assms] bind_result_def validate_executor_lease_binding_def)

lemma schema_of_wf: "wf_lease l \<Longrightarrow> el_schema_version l = ''1''"
  unfolding wf_lease_def mk_executor_lease_def by (auto split: if_splits)

lemma load_active_Some:
  assumes "load_active readable t s = Inr (Some l)"
  obtains b where "readable" "td_active (lt_tasks s t) = Some (ActiveFile b)" "lease_from_json b = Inr l"
    "el_task_id l = t" "el_workspace_id l = lt_workspace s"
proof -
  obtain d where d: "get_task_dir s t = Inr d"
    using assms unfolding load_active_def bind_result_Inr by blast
  then have task: "d = lt_tasks s t"
    by (auto simp: get_task_dir_def bind_result_Inr validate_task_id_def split: if_splits)
  show thesis
  proof (cases "td_active d")
    case None
    with assms d show ?thesis by (simp add: load_active_def bind_result_def)
  next
    case (Some a)
    with assms d show ?thesis
      by (cases a) (auto simp: load_active_def bind_result_Inr task split: if_splits intro: that)
  qed
qed

lemma load_active_wf: "load_active readable t s = Inr (Some l) \<Longrightarrow>
    wf_lease l \<and> el_task_id l = t \<and> el_workspace_id l = lt_workspace s"
  by (erule load_active_Some) (auto dest: lease_from_json_wf)

lemma require_active_eq:
  assumes "require_active sha256 readable l s = Inr l'" and "wf_lease l"
  shows "l' = l \<and> readable \<and> load_active readable (el_task_id l) s = Inr (Some l)"
proof -
  from assms(1) have a: "load_active readable (el_task_id l) s = Inr (Some l')"
    and b: "validate_executor_lease_binding l' (el_task_id l) (el_workspace_id l) (el_executor_id l)
      (el_operation l) (el_execution_fingerprint l) = Inr ()" and c: "el_lease_id l' = el_lease_id l"
    by (auto simp: require_active_def bind_result_Inr split: option.splits if_splits)
  from load_active_wf [OF a] have "wf_lease l'" by simp
  with b c schema_of_wf [of l'] schema_of_wf [OF assms(2)] have "l' = l"
    by (auto simp: validate_executor_lease_binding_def split: if_splits)
  moreover have "readable"
    using load_active_Some [OF a] by blast
  ultimately show ?thesis using a by simp
qed

text \<open>A call on a held task: nothing but the release of that very lease changes who holds it.\<close>

lemma set_task_dir_other: "t \<noteq> t' \<Longrightarrow> lt_tasks (set_task_dir s t d) t' = lt_tasks s t'"
  by (simp add: set_task_dir_def)

lemma set_task_dir_simps [simp]:
  "lt_workspace (set_task_dir s t d) = lt_workspace s" "lt_tasks (set_task_dir s t d) t = d"
  by (simp_all add: set_task_dir_def)

lemma get_task_dir_Inr: "get_task_dir s t = Inr d \<Longrightarrow> d = lt_tasks s t"
  by (auto simp: get_task_dir_def bind_result_Inr validate_task_id_def split: if_splits)

lemma acquire_frame:
  assumes "acquire io l s = (r, s')"
  shows "lt_workspace s' = lt_workspace s" and "t \<noteq> el_task_id l \<Longrightarrow> lt_tasks s' t = lt_tasks s t"
  using assms
  by (auto simp: acquire_def Let_def set_task_dir_other split: if_splits sum.splits option.splits write_outcome.splits)

lemma release_frame:
  assumes "release sha256 io l s = (r, s')"
  shows "lt_workspace s' = lt_workspace s" and "t \<noteq> el_task_id l \<Longrightarrow> lt_tasks s' t = lt_tasks s t"
  using assms
  by (auto simp: release_def Let_def set_task_dir_other
      split: if_splits sum.splits option.splits rename_outcome.splits active_entry.splits)

lemma acquire_occupied:
  assumes "acquire io l s = (r, s')" and "td_active (lt_tasks s (el_task_id l)) \<noteq> None"
  shows "s' = s \<and> (\<exists>e. r = Inl e)"
  using assms get_task_dir_Inr
  by (auto simp: acquire_def split: if_splits sum.splits option.splits)

lemma acquire_Inr:
  assumes "acquire io l s = (Inr l', s')" and "wf_lease l"
  shows "l' = l \<and> td_active (lt_tasks s (el_task_id l)) = None \<and> holds s' l"
proof -
  have "td_active (lt_tasks s (el_task_id l)) = None"
    using acquire_occupied [OF assms(1)] by (metis Inr_not_Inl)
  with assms show ?thesis
    by (auto simp: acquire_def holds_def get_task_dir_wf Let_def split: if_splits write_outcome.splits)
qed

lemma release_other:
  assumes "release sha256 io l s = (r, s')" and "holds s h" and "el_task_id l = el_task_id h" and "wf_lease l" and "l \<noteq> h"
  shows "s' = s \<and> (\<exists>e. r = Inl e)"
proof -
  obtain e where e: "require_active sha256 (ri_readable io) l s = Inl e"
  proof (cases "require_active sha256 (ri_readable io) l s")
    case (Inr l')
    from require_active_eq [OF this assms(4)] load_active_holds [OF assms(2)] assms(3,5) show ?thesis by auto
  qed blast
  with assms(1,4) show ?thesis by (auto simp: release_def get_task_dir_wf e split: if_splits)
qed

lemma step_keeps_holder:
  assumes "lease_step sha256 c s = (r, s')" and "holds s h" and "wf_lease (call_lease c)"
    and "\<forall>io. c \<noteq> Release io h"
  shows "holds s' h" and "el_task_id (call_lease c) = el_task_id h \<Longrightarrow> \<exists>e. r = Inl e"
proof -
  have occ: "td_active (lt_tasks s (el_task_id h)) \<noteq> None" using assms(2) by (simp add: holds_def)
  have "holds s' h \<and> (el_task_id (call_lease c) = el_task_id h \<longrightarrow> (\<exists>e. r = Inl e))"
  proof (cases c)
    case (Acquire io l)
    show ?thesis
    proof (cases "el_task_id l = el_task_id h")
      case True
      with Acquire assms(1) occ acquire_occupied [of io l s r s'] assms(2) show ?thesis by simp
    next
      case False
      with Acquire assms(1,2) acquire_frame [of io l s r s'] show ?thesis by (simp add: holds_def)
    qed
  next
    case (Release io l)
    show ?thesis
    proof (cases "el_task_id l = el_task_id h")
      case True
      with Release assms release_other [of sha256 io l s r s' h] show ?thesis by auto
    next
      case False
      with Release assms(1,2) release_frame [of sha256 io l s r s'] show ?thesis by (simp add: holds_def)
    qed
  qed
  then show "holds s' h" "el_task_id (call_lease c) = el_task_id h \<Longrightarrow> \<exists>e. r = Inl e" by blast+
qed

lemma run_keeps_holder:
  assumes "lease_run sha256 cs s = (rs, s')" and "holds s h" and "\<forall>c \<in> set cs. wf_lease (call_lease c) \<and> (\<forall>io. c \<noteq> Release io h)"
  shows "holds s' h \<and> (\<forall>(c, r) \<in> set rs. el_task_id (call_lease c) = el_task_id h \<longrightarrow> (\<exists>e. r = Inl e))"
  using assms
proof (induction cs arbitrary: s rs)
  case (Cons c cs)
  obtain r s1 where step: "lease_step sha256 c s = (r, s1)" by force
  obtain rs1 where run: "lease_run sha256 cs s1 = (rs1, s')" "rs = (c, r) # rs1"
    using Cons.prems(1) step by (auto split: prod.splits)
  note keep = step_keeps_holder [OF step Cons.prems(2)]
  from Cons.IH [OF run(1) keep(1)] keep(2) Cons.prems(3) run(2) show ?case by auto
qed simp

text \<open>An active file that cannot be loaded stays, and no call on its task succeeds.\<close>

lemma release_unreadable:
  assumes "release sha256 io l s = (r, s')" and "load_active (ri_readable io) (el_task_id l) s = Inl e"
  shows "s' = s \<and> (\<exists>e. r = Inl e)"
proof -
  have req: "require_active sha256 (ri_readable io) l s = Inl e"
    by (simp add: require_active_def bind_result_def assms(2))
  with assms(1) show ?thesis by (auto simp: release_def req split: sum.splits if_splits)
qed

definition stuck :: "lease_store \<Rightarrow> string \<Rightarrow> file_body \<Rightarrow> bool" where
  "stuck s t b \<longleftrightarrow> td_active (lt_tasks s t) = Some (ActiveFile b) \<and> (\<forall>readable. \<exists>e. load_active readable t s = Inl e)"

lemma load_active_cong:
  assumes "lt_tasks s t = lt_tasks s' t" and "lt_workspace s = lt_workspace s'"
  shows "load_active readable t s = load_active readable t s'"
proof -
  have "get_task_dir s t = get_task_dir s' t"
    by (cases "validate_task_id ''task_id'' (PStr t)")
      (auto simp: get_task_dir_def bind_result_def assms(1) dest!: validate_Inr(1))
  then show ?thesis unfolding load_active_def assms(2) by simp
qed

lemma step_stuck:
  assumes "lease_step sha256 c s = (r, s')" and "stuck s t b"
  shows "stuck s' t b" and "el_task_id (call_lease c) = t \<Longrightarrow> \<exists>e. r = Inl e"
proof -
  have "stuck s' t b \<and> (el_task_id (call_lease c) = t \<longrightarrow> (\<exists>e. r = Inl e))"
  proof (cases "el_task_id (call_lease c) = t")
    case True
    have "s' = s \<and> (\<exists>e. r = Inl e)"
    proof (cases c)
      case (Acquire io l)
      with True assms acquire_occupied [of io l s r s'] show ?thesis by (simp add: stuck_def)
    next
      case (Release io l)
      with True assms(2) obtain e where "load_active (ri_readable io) (el_task_id l) s = Inl e" by (auto simp: stuck_def)
      with Release assms(1) release_unreadable [of sha256 io l s r s' e] show ?thesis by simp
    qed
    with assms(2) show ?thesis by simp
  next
    case False
    then have "lt_tasks s' t = lt_tasks s t" "lt_workspace s' = lt_workspace s"
      using assms(1) acquire_frame release_frame by (cases c; simp)+
    with assms(2) load_active_cong [of s' t s] False show ?thesis by (simp add: stuck_def)
  qed
  then show "stuck s' t b" "el_task_id (call_lease c) = t \<Longrightarrow> \<exists>e. r = Inl e" by blast+
qed

lemma run_stuck:
  assumes "lease_run sha256 cs s = (rs, s')" and "stuck s t b"
  shows "stuck s' t b \<and> (\<forall>(c, r) \<in> set rs. el_task_id (call_lease c) = t \<longrightarrow> (\<exists>e. r = Inl e))"
  using assms
proof (induction cs arbitrary: s rs)
  case (Cons c cs)
  obtain r s1 where step: "lease_step sha256 c s = (r, s1)" by force
  obtain rs1 where run: "lease_run sha256 cs s1 = (rs1, s')" "rs = (c, r) # rs1"
    using Cons.prems(1) step by (auto split: prod.splits)
  from Cons.IH [OF run(1) step_stuck(1) [OF step Cons.prems(2)]] step_stuck(2) [OF step Cons.prems(2)] run(2)
  show ?case by auto
qed simp

end
