(* ===== verification/Lease_Properties.thy ===== *)
theory Lease_Properties
  imports Lease_Store
begin

text \<open>
  What the lease store guarantees, for any number of processes and with every failure of the file system.
  The examples use one task, two executors and the empty store.
\<close>

definition hex64 :: string where
  "hex64 = replicate 64 (CHR ''a'')"

definition sample_lease :: "string \<Rightarrow> string \<Rightarrow> executor_lease" where
  "sample_lease lid task =
     \<lparr>el_schema_version = ''1'', el_lease_id = lid, el_task_id = task, el_workspace_id = hex64,
      el_executor_id = ''dev'', el_operation = OP_RUN, el_execution_fingerprint = hex64\<rparr>"

definition empty_store :: lease_store where
  "empty_store = \<lparr>lt_workspace = hex64, lt_tasks = (\<lambda>t. \<lparr>td_active = None, td_history = []\<rparr>)\<rparr>"

definition fine_io :: acquire_io where
  "fine_io = \<lparr>ai_guard = True, ai_readable = True, ai_write = W_Fine\<rparr>"

definition fine_release :: "nat \<Rightarrow> release_io" where
  "fine_release now = \<lparr>ri_guard = True, ri_readable = True, ri_now = now, ri_rename = R_Fine\<rparr>"

text \<open>A task id is accepted when it is \<open>TASK-\<close> and digits, with or without a line feed after them.\<close>

lemma task_id_accepted:
  "validate_task_id fld (PStr s) = Inr s \<longleftrightarrow>
     (\<exists>ds. ds \<noteq> [] \<and> list_all is_digit ds \<and> (s = ''TASK-'' @ ds \<or> s = ''TASK-'' @ ds @ [CHR 0x0A]))"
proof -
  have lit: "rx_run (Then (lit w) r) (prev, s, g) \<noteq> [] \<longleftrightarrow>
      (\<exists>u. s = w @ u \<and> rx_run r (if w = [] then prev else Some (last w), u, g) \<noteq> [])" for w r prev s g
  proof (induction w arbitrary: prev s)
    case (Cons c w)
    have "rx_run (Then (lit (c # w)) r) (prev, s, g) \<noteq> [] \<longleftrightarrow>
        (\<exists>cs. s = c # cs \<and> rx_run (Then (lit w) r) (Some c, cs, g) \<noteq> [])"
      by (cases s) auto
    then show ?case unfolding Cons.IH by auto
  qed simp
  have "re_match task_id_re s \<noteq> None \<longleftrightarrow>
      (\<exists>u. s = ''TASK-'' @ u \<and> rx_run (Then (some_chars is_digit) Dollar) (Some (CHR ''-''), u, []) \<noteq> [])"
    unfolding re_match_iff task_id_re_def lit by simp
  then show ?thesis
    unfolding rx_run_some_chars_Dollar by (auto simp: validate_task_id_def)
qed

lemma hex64_valid: "validate_exact_hex_sha_64 fld (PStr hex64) = Inr hex64"
  by code_simp

lemma sample_wf:
  assumes "validate_canonical_lease_id ''lease_id'' (PStr lid) = Inr lid"
    and "validate_task_id ''task_id'' (PStr task) = Inr task"
    and "utf8_length (lease_to_canonical_json (sample_lease lid task)) \<le> max_serialized_bytes"
  shows "wf_lease (sample_lease lid task)"
proof -
  have "validate_canonical_actor_id ''executor_id'' (PStr ''dev'') = Inr ''dev''" by code_simp
  with assms show ?thesis
    by (simp add: wf_lease_def sample_lease_def mk_executor_lease_def bind_result_def hex64_valid parse_operation_def)
qed

lemma sample_1: "wf_lease (sample_lease ''l1'' ''TASK-7'')"
  by (rule sample_wf; code_simp)

lemma sample_2: "wf_lease (sample_lease ''l2'' ''TASK-7'')"
  by (rule sample_wf; code_simp)

lemma sample_newline: "wf_lease (sample_lease ''l1'' (''TASK-7'' @ [CHR 0x0A]))"
  by (rule sample_wf; code_simp)

lemma sample_fields [simp]:
  "el_task_id (sample_lease lid task) = task" "el_lease_id (sample_lease lid task) = lid"
  "el_workspace_id (sample_lease lid task) = hex64"
  by (simp_all add: sample_lease_def)

lemma sample_acquire:
  assumes "wf_lease (sample_lease lid task)"
  shows "\<exists>s. acquire fine_io (sample_lease lid task) empty_store = (Inr (sample_lease lid task), s)"
  using assms by (simp add: acquire_def get_task_dir_def bind_result_def empty_store_def fine_io_def
      wf_lease_task [OF assms, simplified])

text \<open>
  C24. A task has one executor at a time. Once \<open>acquire\<close> returned a lease, and as long as nobody releases that
  very lease, whatever calls any processes make with whatever failures and kills: every acquisition and every
  release for the task raises an error, the lease is still the active one, and \<open>require_active\<close> accepts it and
  no other.
\<close>

theorem one_executor_per_task:
  assumes "acquire io l s = (Inr l', s1)" and "wf_lease l" and "lease_run sha256 cs s1 = (rs, s2)"
    and "\<forall>c \<in> set cs. wf_lease (call_lease c) \<and> (\<forall>io. c \<noteq> Release io l)"
  shows "(\<forall>(c, r) \<in> set rs. el_task_id (call_lease c) = el_task_id l \<longrightarrow> (\<exists>e. r = Inl e)) \<and>
    (\<forall>h. wf_lease h \<and> el_task_id h = el_task_id l \<longrightarrow>
       require_active sha256 True h s2 = Inr h \<longleftrightarrow> h = l)"
proof -
  have "holds s1 l" using acquire_Inr [OF assms(1,2)] by simp
  from run_keeps_holder [OF assms(3) this assms(4)]
  have keep: "holds s2 l" "\<forall>(c, r) \<in> set rs. el_task_id (call_lease c) = el_task_id l \<longrightarrow> (\<exists>e. r = Inl e)" by auto
  have "h = l" if "wf_lease h" "el_task_id h = el_task_id l" "require_active sha256 True h s2 = Inr h" for h
  proof -
    from require_active_eq [OF that(3,1)] have "load_active True (el_task_id l) s2 = Inr (Some h)"
      unfolding that(2) by blast
    with load_active_holds [OF keep(1), of True] show ?thesis by simp
  qed
  moreover have "require_active sha256 True l s2 = Inr l" by (rule require_active_holds [OF keep(1)])
  ultimately have "\<forall>h. wf_lease h \<and> el_task_id h = el_task_id l \<longrightarrow> require_active sha256 True h s2 = Inr h \<longleftrightarrow> h = l"
    by metis
  with keep(2) show ?thesis by simp
qed

theorem one_executor_per_task_witness:
  "\<exists>s1. acquire fine_io (sample_lease ''l1'' ''TASK-7'') empty_store = (Inr (sample_lease ''l1'' ''TASK-7''), s1) \<and>
     (\<exists>e. fst (acquire fine_io (sample_lease ''l2'' ''TASK-7'') s1) = Inl e)"
proof -
  obtain s1 where s1: "acquire fine_io (sample_lease ''l1'' ''TASK-7'') empty_store = (Inr (sample_lease ''l1'' ''TASK-7''), s1)"
    using sample_acquire [OF sample_1] by blast
  let ?c = "Acquire fine_io (sample_lease ''l2'' ''TASK-7'')"
  obtain r s2 where r: "lease_step id ?c s1 = (r, s2)" by force
  then have "lease_run id [?c] s1 = ([(?c, r)], s2)" by simp
  from one_executor_per_task [OF s1 sample_1 this] sample_2 r s1 show ?thesis by auto
qed

text \<open>
  The store fails closed: after a process was killed while it wrote a lease, or a failed write could not
  be cleaned up, so that a part of the record remains, no call of any process ever gets or gives back the
  lease of that task, and the remains stay as they are.
\<close>

theorem torn_lease_blocks_the_task:
  assumes "n < utf8_length (lease_to_canonical_json l)" and "wf_lease l" and "el_workspace_id l = lt_workspace s"
    and "td_active (lt_tasks s (el_task_id l)) = None"
    and "ai_guard io" and "ai_write io = W_Killed n \<or> ai_write io = W_WriteFailed n False"
    and "acquire io l s = (r, s1)" and "lease_run sha256 cs s1 = (rs, s2)"
  shows "(\<forall>(c, r) \<in> set rs. el_task_id (call_lease c) = el_task_id l \<longrightarrow> (\<exists>e. r = Inl e)) \<and>
    td_active (lt_tasks s2 (el_task_id l)) = Some (ActiveFile \<lparr>fb_size = n, fb_json = None\<rparr>) \<and>
    (\<forall>readable. \<exists>e. load_active readable (el_task_id l) s2 = Inl e)"
proof -
  have "td_active (lt_tasks s1 (el_task_id l)) = Some (ActiveFile \<lparr>fb_size = n, fb_json = None\<rparr>)"
    using assms(1-7)
    by (auto simp: acquire_def get_task_dir_wf Let_def body_prefix_def lease_body_def leave_def split: if_splits)
  then have "stuck s1 (el_task_id l) \<lparr>fb_size = n, fb_json = None\<rparr>"
    using assms(2) by (simp add: stuck_def load_active_def get_task_dir_wf bind_result_def lease_from_json_def)
  from run_stuck [OF assms(8) this] show ?thesis by (simp add: stuck_def)
qed

theorem torn_lease_blocks_the_task_witness:
  "\<exists>s1. snd (acquire (fine_io\<lparr>ai_write := W_Killed 5\<rparr>) (sample_lease ''l1'' ''TASK-7'') empty_store) = s1 \<and>
     (\<forall>io sha256. \<exists>e. fst (lease_step sha256 (Acquire io (sample_lease ''l2'' ''TASK-7'')) s1) = Inl e)"
proof -
  let ?l = "sample_lease ''l1'' ''TASK-7''" and ?io = "fine_io\<lparr>ai_write := W_Killed 5\<rparr>"
  obtain r s1 where a: "acquire ?io ?l empty_store = (r, s1)" by force
  have n: "5 < utf8_length (lease_to_canonical_json ?l)"
    by (simp add: utf8_length_def lease_to_canonical_json_def lease_items_def json_str_def json_char_def short_escape_def)
  have "\<exists>e. fst (lease_step sha256 (Acquire io (sample_lease ''l2'' ''TASK-7'')) s1) = Inl e" for io sha256
  proof -
    let ?c = "Acquire io (sample_lease ''l2'' ''TASK-7'')"
    obtain r2 s2 where r: "lease_step sha256 ?c s1 = (r2, s2)" by force
    then have "lease_run sha256 [?c] s1 = ([(?c, r2)], s2)" by simp
    from torn_lease_blocks_the_task [OF n sample_1 _ _ _ _ a this] r show ?thesis
      by (simp add: empty_store_def fine_io_def)
  qed
  with a show ?thesis by auto
qed

text \<open>
  A failed writer cleans up only after itself: when \<open>acquire\<close> raises, the process was not killed and the
  removal of its own incomplete file did not fail, the store is exactly as before; in particular the lease of
  another executor is never removed.
\<close>

theorem failed_acquire_changes_nothing:
  assumes "acquire io l s = (Inl e, s')"
    and "\<forall>n. ai_write io \<noteq> W_Killed n \<and> ai_write io \<noteq> W_WriteFailed n False"
    and "ai_write io \<noteq> W_SyncFailed False" and "ai_write io \<noteq> W_CloseFailed False"
  shows "s' = s"
proof -
  have same: "set_task_dir s t (d\<lparr>td_active := None\<rparr>) = s" if "d = lt_tasks s t" "td_active d = None" for t d
  proof -
    have "d\<lparr>td_active := None\<rparr> = d" using that(2) by (cases d) simp
    with that(1) show ?thesis by (cases s) (simp add: set_task_dir_def)
  qed
  show ?thesis
    using assms get_task_dir_Inr [of s "el_task_id l"]
    by (auto simp: acquire_def Let_def leave_def same split: if_splits sum.splits option.splits write_outcome.splits)
qed

theorem failed_acquire_changes_nothing_witness:
  "acquire (fine_io\<lparr>ai_write := W_SyncFailed True\<rparr>) (sample_lease ''l1'' ''TASK-7'') empty_store = (Inl AcquireFailed, empty_store)"
proof -
  let ?io = "fine_io\<lparr>ai_write := W_SyncFailed True\<rparr>" and ?l = "sample_lease ''l1'' ''TASK-7''"
  obtain s' where a: "acquire ?io ?l empty_store = (Inl AcquireFailed, s')"
  proof -
    have "get_task_dir empty_store ''TASK-7'' = Inr \<lparr>td_active = None, td_history = []\<rparr>"
      using get_task_dir_wf [OF sample_1, of empty_store] by (simp add: empty_store_def)
    moreover have "lt_workspace empty_store = hex64" by (simp add: empty_store_def)
    ultimately show ?thesis using that by (simp add: acquire_def fine_io_def)
  qed
  with failed_acquire_changes_nothing [OF a] show ?thesis by (simp add: fine_io_def)
qed

text \<open>
  A lease survives the file: what \<open>acquire\<close> writes for a valid lease is within the size limit and reads
  back as exactly that lease, and whatever bytes are read, the result is a valid lease or an error.
\<close>

theorem lease_survives_its_file:
  assumes "wf_lease l"
  shows "lease_from_json (lease_body l) = Inr l \<and> fb_size (lease_body l) \<le> max_serialized_bytes \<and>
    (\<forall>b h. lease_from_json b = Inr h \<longrightarrow> wf_lease h)"
  using assms wf_lease_size [OF assms] lease_dict_round_trip [OF assms] lease_from_json_wf
  by (simp add: lease_from_json_def lease_body_def)

theorem lease_survives_its_file_witness:
  "lease_from_json (lease_body (sample_lease ''l1'' ''TASK-7'')) = Inr (sample_lease ''l1'' ''TASK-7'')"
  using lease_survives_its_file [OF sample_1] by simp

text \<open>
  Task ids are \<open>TASK-\<close> and decimal digits, but \<open>$\<close> also matches before a line feed at the end: exactly the
  ids of that form with or without one trailing line feed are accepted. An id and the same id with a line feed
  name different directories, so both can be leased at once.
\<close>

theorem task_ids_accepted:
  "(\<exists>r. validate_task_id fld (PStr s) = Inr r) \<longleftrightarrow>
     (\<exists>ds. ds \<noteq> [] \<and> list_all is_digit ds \<and> (s = ''TASK-'' @ ds \<or> s = ''TASK-'' @ ds @ [CHR 0x0A]))"
proof -
  have "(\<exists>r. validate_task_id fld (PStr s) = Inr r) \<longleftrightarrow> validate_task_id fld (PStr s) = Inr s"
    by (auto simp: validate_task_id_def)
  then show ?thesis unfolding task_id_accepted .
qed

text \<open>
  A successful release was made with the active lease: afterwards the task is free, the record lies in the
  history under the name of the lease and the second, and every record of another name is still there. A
  record already stored under that name is replaced.
\<close>

theorem release_moves_the_lease:
  assumes "release sha256 io l s = (Inr l', s')" and "wf_lease l"
  shows "\<exists>b. td_active (lt_tasks s (el_task_id l)) = Some (ActiveFile b) \<and> lease_from_json b = Inr l \<and>
    td_active (lt_tasks s' (el_task_id l)) = None \<and>
    map_of (td_history (lt_tasks s' (el_task_id l))) =
      (map_of (td_history (lt_tasks s (el_task_id l))))(released_name l (ri_now io) \<mapsto> b)"
proof -
  obtain l0 where req: "require_active sha256 (ri_readable io) l s = Inr l0"
    using assms by (auto simp: release_def get_task_dir_wf split: if_splits sum.splits)
  from require_active_eq [OF req assms(2)] have "load_active (ri_readable io) (el_task_id l) s = Inr (Some l)" by blast
  then obtain b where b: "td_active (lt_tasks s (el_task_id l)) = Some (ActiveFile b)" "lease_from_json b = Inr l"
    by (rule load_active_Some)
  with assms req show ?thesis
    by (auto simp: release_def get_task_dir_wf update_conv' Let_def split: if_splits rename_outcome.splits)
qed

theorem release_moves_the_lease_witness:
  "\<exists>s1 s2. acquire fine_io (sample_lease ''l1'' ''TASK-7'') empty_store = (Inr (sample_lease ''l1'' ''TASK-7''), s1) \<and>
     release id (fine_release 5) (sample_lease ''l1'' ''TASK-7'') s1 = (Inr (sample_lease ''l1'' ''TASK-7''), s2) \<and>
     td_active (lt_tasks s2 ''TASK-7'') = None"
proof -
  let ?l = "sample_lease ''l1'' ''TASK-7''"
  obtain s1 where s1: "acquire fine_io ?l empty_store = (Inr ?l, s1)" using sample_acquire [OF sample_1] by blast
  have h: "holds s1 ?l" using acquire_Inr [OF s1 sample_1] by simp
  obtain s2 where s2: "release id (fine_release 5) ?l s1 = (Inr ?l, s2)"
    using get_task_dir_wf [OF sample_1, of s1] by (simp add: release_def require_active_holds [OF h] fine_release_def)
  from release_moves_the_lease [OF s2 sample_1] s1 s2 show ?thesis by auto
qed

end
