(* ===== verification/Score_Numbers.thy ===== *)
theory Score_Numbers
  imports Core_Types "HOL-Library.List_Lexorder" "HOL-Library.Char_ord" "HOL-Library.Product_Lexorder"
begin

text \<open>
  The float arithmetic of the scoring code beyond \<open>Py_Prelude\<close>: division, \<open>sum\<close>, clamping, \<open>math.isclose\<close>, and
  the order of floats as a \<open>linorder\<close> (with \<open>nan\<close> on top), which is Python's order as long as no \<open>nan\<close> occurs.
\<close>

text \<open>True division; the code never divides by zero.\<close>

fun fdiv :: "pyfloat \<Rightarrow> pyfloat \<Rightarrow> pyfloat" where
  "fdiv (Fin a) (Fin b) = (if b = 0 then NaN else to_double (a / b))"
| "fdiv NaN _ = NaN"
| "fdiv _ NaN = NaN"
| "fdiv (Fin a) _ = Fin 0"
| "fdiv PosInf (Fin b) = (if b < 0 then NegInf else PosInf)"
| "fdiv NegInf (Fin b) = (if b < 0 then PosInf else NegInf)"
| "fdiv _ _ = NaN"

text \<open>\<open>sum\<close> of floats starts with the integer 0 and adds from left to right (before Python 3.12).\<close>

definition fsum :: "pyfloat list \<Rightarrow> pyfloat" where
  "fsum xs = foldl fadd (Fin 0) xs"

text \<open>\<open>max(0.0, min(hi, x))\<close>\<close>

definition clamp :: "pyfloat \<Rightarrow> pyfloat \<Rightarrow> pyfloat" where
  "clamp hi x = fmax (Fin 0) (fmin hi x)"

fun float_abs :: "pyfloat \<Rightarrow> pyfloat" where
  "float_abs (Fin a) = Fin \<bar>a\<bar>"
| "float_abs NegInf = PosInf"
| "float_abs x = x"

text \<open>\<open>math.isclose(a, b, rel_tol=r)\<close>\<close>

definition isclose :: "pyfloat \<Rightarrow> pyfloat \<Rightarrow> pyfloat \<Rightarrow> bool" where
  "isclose r a b \<longleftrightarrow>
     feq a b \<or>
     a \<noteq> PosInf \<and> a \<noteq> NegInf \<and> b \<noteq> PosInf \<and> b \<noteq> NegInf \<and>
     (let diff = float_abs (fsub b a)
      in fle diff (float_abs (fmul r b)) \<or> fle diff (float_abs (fmul r a)) \<or> fle diff (Fin 0))"

section \<open>The order of floats\<close>

fun float_le :: "pyfloat \<Rightarrow> pyfloat \<Rightarrow> bool" where
  "float_le a NaN \<longleftrightarrow> True"
| "float_le NaN b \<longleftrightarrow> False"
| "float_le a b \<longleftrightarrow> fle a b"

instantiation pyfloat :: linorder
begin

definition "less_eq_pyfloat a b = float_le a b"

definition "less_pyfloat a b = (float_le a b \<and> \<not> float_le b a)"

instance
proof
  fix x y z :: pyfloat
  show "x < y \<longleftrightarrow> x \<le> y \<and> \<not> y \<le> x" by (simp add: less_eq_pyfloat_def less_pyfloat_def)
  show "x \<le> x" by (cases x) (simp_all add: less_eq_pyfloat_def)
  show "x \<le> y \<Longrightarrow> y \<le> z \<Longrightarrow> x \<le> z"
    by (cases x; cases y; cases z) (auto simp: less_eq_pyfloat_def fle_def)
  show "x \<le> y \<Longrightarrow> y \<le> x \<Longrightarrow> x = y"
    by (cases x; cases y) (auto simp: less_eq_pyfloat_def fle_def)
  show "x \<le> y \<or> y \<le> x"
    by (cases x; cases y) (auto simp: less_eq_pyfloat_def fle_def)
qed

end

lemma less_is_flt: "a \<noteq> NaN \<Longrightarrow> b \<noteq> NaN \<Longrightarrow> a < b \<longleftrightarrow> flt a b"
  by (cases a; cases b) (auto simp: less_pyfloat_def fle_def)

lemma le_is_fle: "a \<noteq> NaN \<Longrightarrow> b \<noteq> NaN \<Longrightarrow> a \<le> b \<longleftrightarrow> fle a b"
  by (cases a; cases b) (auto simp: less_eq_pyfloat_def)

section \<open>Bounds\<close>

text \<open>\<open>lies_in hi x\<close>: \<open>x\<close> is a number between 0 and \<open>hi\<close>.\<close>

definition lies_in :: "pyfloat \<Rightarrow> pyfloat \<Rightarrow> bool" where
  "lies_in hi x \<longleftrightarrow> fle (Fin 0) x \<and> fle x hi"

text \<open>Clamping gives a number in range whatever comes in, also for \<open>nan\<close>.\<close>

lemma clamp_lies_in [simp]: "fle (Fin 0) hi \<Longrightarrow> lies_in hi (clamp hi x)"
  by (cases hi; cases x) (auto simp: lies_in_def clamp_def fmax_def fmin_def fle_def)

lemma clamp_id: "lies_in hi x \<Longrightarrow> clamp hi x = x"
  by (cases hi; cases x) (auto simp: lies_in_def clamp_def fmax_def fmin_def not_less fle_def)

lemma clamp_wf: "wf_float hi \<Longrightarrow> wf_float x \<Longrightarrow> wf_float (clamp hi x)"
  by (simp add: clamp_def fmax_def fmin_def wf_float_def is_double_def to_double_def)

text \<open>Guards are tried in order; the first that holds raises its \<open>ValueError\<close>.\<close>

fun raise_first :: "(bool \<times> string) list \<Rightarrow> 'a \<Rightarrow> exn + 'a" where
  "raise_first [] x = Inr x"
| "raise_first ((b, m) # gs) x = (if b then Inl (ValueError m) else raise_first gs x)"

lemma raise_first_Inr: "raise_first gs x = Inr y \<longleftrightarrow> y = x \<and> (\<forall>g \<in> set gs. \<not> fst g)"
  by (induction gs x rule: raise_first.induct) auto

lemma raise_first_value_error: "raise_first gs x = Inl e \<Longrightarrow> \<exists>m. e = ValueError m"
  by (induction gs x rule: raise_first.induct) (auto split: if_splits)

lemma lies_in_not_NaN: "lies_in hi x \<Longrightarrow> x \<noteq> NaN"
  by (auto simp: lies_in_def)

lemma lies_in_Fin: "lies_in (Fin h) x \<Longrightarrow> \<exists>q. x = Fin q \<and> 0 \<le> q \<and> q \<le> h"
  by (cases x) (auto simp: lies_in_def)

text \<open>Rounding never rises above a double that lies above the exact result.\<close>

lemma to_double_le_double:
  assumes "is_double x" "0 \<le> q" "q \<le> x"
  shows "fle (to_double q) (Fin x)"
proof (cases "q = 0")
  case True
  with assms show ?thesis by (simp add: to_double_def)
next
  case False
  with assms have q: "0 < q" and x: "0 < x" by auto
  define ex where "ex = max (bin_exponent x) (- 1022) - 52"
  define eq where "eq = max (bin_exponent q) (- 1022) - 52"
  define n where "n = round_half_even (q / 2 powi eq)"
  from assms(1) x have xi: "x = of_int (round_half_even (x / 2 powi ex)) * 2 powi ex" and xb: "x < 2 ^ 1024"
    by (auto simp: is_double_def to_double_def Let_def ex_def not_le split: if_splits)
  have mono: "bin_exponent q \<le> bin_exponent x" using bin_exponent_mono [OF q assms(3)] .
  have key: "of_int n * 2 powi eq \<le> x"
  proof (cases "ex = eq")
    case True
    have "q / (2 powi eq :: rat) \<le> of_int (round_half_even (x / 2 powi ex))"
      using xi assms(3) True by (simp add: pos_divide_le_eq)
    then have "n \<le> round_half_even (x / 2 powi ex)" unfolding n_def by (rule round_half_even_le)
    then have "(of_int n :: rat) * 2 powi eq \<le> of_int (round_half_even (x / 2 powi ex)) * 2 powi eq"
      by (intro mult_right_mono) auto
    with xi True show ?thesis by simp
  next
    case False
    with mono have lt: "bin_exponent q < bin_exponent x" and lo: "- 1022 < bin_exponent x"
      by (auto simp: ex_def eq_def max_def split: if_splits)
    define k where "k = max (bin_exponent q + 1) (- 1021) "
    have e: "eq = k - 53" by (simp add: eq_def k_def max_def)
    have "q \<le> 2 powi k"
    proof -
      have "q < 2 powi (bin_exponent q + 1)" by (rule bin_exponent_bounds(2) [OF q])
      also have "\<dots> \<le> 2 powi k" by (intro power_int_increasing) (auto simp: k_def)
      finally show ?thesis by simp
    qed
    then have "q / 2 powi eq \<le> of_int (2 ^ 53)" by (simp add: e power_int_diff pos_divide_le_eq)
    then have "n \<le> 2 ^ 53" unfolding n_def by (rule round_half_even_le)
    then have "(of_int n :: rat) \<le> of_int (2 ^ 53)" by (simp only: of_int_le_iff)
    then have "(of_int n :: rat) * 2 powi eq \<le> of_int (2 ^ 53) * 2 powi eq" by (intro mult_right_mono) auto
    also have "\<dots> = 2 powi k" by (simp add: e power_int_diff)
    also have "\<dots> \<le> 2 powi bin_exponent x" using lt lo by (intro power_int_increasing) (auto simp: k_def)
    also have "\<dots> \<le> x" by (rule bin_exponent_bounds(1) [OF x])
    finally show ?thesis .
  qed
  with xb have "\<not> 2 ^ 1024 \<le> (of_int n * 2 powi eq :: rat)" by linarith
  with key q show ?thesis by (simp add: to_double_def Let_def eq_def [symmetric] n_def [symmetric])
qed

lemma fmul_unit_le:
  assumes "wf_float a" "lies_in (Fin h) a" "lies_in (Fin 1) c"
  shows "fle (fmul a c) a"
proof -
  obtain r where c: "c = Fin r" "0 \<le> r" "r \<le> 1" using lies_in_Fin [OF assms(3)] by blast
  obtain q where a: "a = Fin q" "0 \<le> q" using lies_in_Fin [OF assms(2)] by blast
  with assms(1) have "is_double q" by (simp add: wf_float_def)
  with to_double_le_double [of q "q * r"] a c show ?thesis by (simp add: mult_left_le)
qed

section \<open>Evaluating roundings\<close>

text \<open>The double nearest to \<open>q\<close>, from the exponent \<open>k\<close> of the last digit of its mantissa.\<close>

lemma to_double_eqI:
  assumes q: "2 powi (k + 52) \<le> q" "q < 2 powi (k + 53)" and k: "- 1074 \<le> k" "k \<le> 970"
  shows "to_double q = Fin (of_int (round_half_even (q / 2 powi k)) * 2 powi k)"
proof -
  have pos: "0 < (2::rat) powi k" "0 < (2::rat) powi (k + 52)" by simp_all
  with q have q0: "0 < q" by linarith
  note b = bin_exponent_bounds [OF q0]
  have "bin_exponent q = k + 52"
  proof (rule ccontr)
    assume "bin_exponent q \<noteq> k + 52"
    then consider "bin_exponent q + 1 \<le> k + 52" | "k + 53 \<le> bin_exponent q" by linarith
    then show False
    proof cases
      case 1
      then have "(2::rat) powi (bin_exponent q + 1) \<le> 2 powi (k + 52)" by (intro power_int_increasing) auto
      with b q show False by linarith
    next
      case 2
      then have "(2::rat) powi (k + 53) \<le> 2 powi bin_exponent q" by (intro power_int_increasing) auto
      with b q show False by linarith
    qed
  qed
  with k have e: "max (bin_exponent q) (- 1022) - 52 = k" by simp
  have "q / 2 powi k \<le> of_int (2 ^ 53)" using q power_int_nat_shift [of 53 k] by (simp add: pos_divide_le_eq)
  then have "round_half_even (q / 2 powi k) \<le> 2 ^ 53" by (rule round_half_even_le)
  then have "(of_int (round_half_even (q / 2 powi k)) :: rat) \<le> of_int (2 ^ 53)" by (simp only: of_int_le_iff)
  then have "of_int (round_half_even (q / 2 powi k)) * 2 powi k \<le> of_int (2 ^ 53) * (2 powi k :: rat)"
    by (intro mult_right_mono) auto
  also have "\<dots> = 2 powi (k + 53)" using power_int_nat_shift [of 53 k] by simp
  also have "\<dots> < (2::rat) powi 1024" using k by (intro power_int_strict_increasing) auto
  finally have "\<not> 2 ^ 1024 \<le> (of_int (round_half_even (q / 2 powi k)) * 2 powi k :: rat)" by simp
  with q0 show ?thesis by (simp add: to_double_def Let_def e)
qed

lemma to_double_exact: "0 < y \<Longrightarrow> y = of_int n * 2 powi e \<Longrightarrow> n \<le> 2 ^ 53 \<Longrightarrow> - 1074 \<le> e \<Longrightarrow> y < 2 ^ 1024 \<Longrightarrow>
    to_double y = Fin y"
  using is_double_scaled unfolding is_double_def by blast

lemma to_double_shift:
  assumes "2 ^ 52 \<le> q * 2 ^ j" "q * 2 ^ j < 2 ^ 53" "round_half_even (q * 2 ^ j) = n" "j \<le> 1074"
  shows "to_double q = Fin (of_int n / 2 ^ j)"
proof -
  have p: "(2::rat) powi (i - int j) = 2 powi i / 2 ^ j" for i by (simp add: power_int_diff)
  have "- int j + 52 = 52 - int j" "- int j + 53 = 53 - int j" by simp_all
  then show ?thesis
    using to_double_eqI [of "- int j" q] assms p [of 0] p [of 52] p [of 53]
    by (simp add: pos_le_divide_eq pos_divide_le_eq pos_less_divide_eq pos_divide_less_eq)
qed

lemma round_half_even_near: "\<bar>x - of_int n\<bar> < 1 / 2 \<Longrightarrow> round_half_even x = n"
proof -
  assume "\<bar>x - of_int n\<bar> < 1 / 2"
  then have x: "of_int n - 1 / 2 < x" "x < of_int n + 1 / 2" by linarith+
  show ?thesis
  proof (cases "of_int n \<le> x")
    case True
    with x have "\<lfloor>x\<rfloor> = n" by (simp add: floor_eq_iff)
    with x show ?thesis by (simp add: round_half_even_def Let_def)
  next
    case False
    with x have "\<lfloor>x\<rfloor> = n - 1" by (simp add: floor_eq_iff)
    with x show ?thesis by (simp add: round_half_even_def Let_def)
  qed
qed

lemma round_half_even_tie: "x = of_int n + 1 / 2 \<Longrightarrow> round_half_even x = (if even n then n else n + 1)"
proof -
  assume x: "x = of_int n + 1 / 2"
  then have "\<lfloor>x\<rfloor> = n" by (simp add: floor_eq_iff)
  with x show ?thesis by (simp add: round_half_even_def)
qed

lemma to_double_near:
  assumes "2 ^ 52 \<le> q * 2 ^ j" "q * 2 ^ j < 2 ^ 53" "\<bar>q * 2 ^ j - of_int n\<bar> < 1 / 2" "j \<le> 1074"
  shows "to_double q = Fin (of_int n / 2 ^ j)"
  by (rule to_double_shift [OF assms(1,2) round_half_even_near [OF assms(3)] assms(4)])

lemma to_double_tie:
  assumes "2 ^ 52 \<le> q * 2 ^ j" "q * 2 ^ j < 2 ^ 53" "q * 2 ^ j = of_int n + 1 / 2" "j \<le> 1074"
  shows "to_double q = Fin (of_int (if even n then n else n + 1) / 2 ^ j)"
  by (rule to_double_shift [OF assms(1,2) round_half_even_tie [OF assms(3)] assms(4)])

text \<open>The constants of the default policy, and the roundings its sum of weights goes through.\<close>

named_theorems float_values \<open>roundings of particular numbers\<close>

lemma two_fifths [float_values]: "to_double (2 / 5) = Fin (3602879701896397 / 9007199254740992)"
  using to_double_near [of "2 / 5" 54 7205759403792794] by simp

lemma one_fifth [float_values]: "to_double (1 / 5) = Fin (3602879701896397 / 18014398509481984)"
  using to_double_near [of "1 / 5" 55 7205759403792794] by simp

lemma three_twentieths [float_values]: "to_double (3 / 20) = Fin (5404319552844595 / 36028797018963968)"
  using to_double_near [of "3 / 20" 55 5404319552844595] by simp

lemma thirteen_twentieths [float_values]: "to_double (13 / 20) = Fin (5854679515581645 / 9007199254740992)"
  using to_double_near [of "13 / 20" 53 5854679515581645] by simp

lemma one_quarter [float_values]: "to_double (1 / 4) = Fin (1 / 4)"
  using to_double_near [of "1 / 4" 54 4503599627370496] by simp

lemma three_quarters [float_values]: "to_double (3 / 4) = Fin (3 / 4)"
  using to_double_near [of "3 / 4" 53 6755399441055744] by simp

lemma one_half [float_values]: "to_double (1 / 2) = Fin (1 / 2)"
  using to_double_near [of "1 / 2" 53 4503599627370496] by simp

lemma seven_tenths [float_values]: "to_double (7 / 10) = Fin (3152519739159347 / 4503599627370496)"
  using to_double_near [of "7 / 10" 53 6305039478318694] by simp

lemma seven_twentieths [float_values]: "to_double (7 / 20) = Fin (3152519739159347 / 9007199254740992)"
  using to_double_near [of "7 / 20" 54 6305039478318694] by simp

lemma four_fifths [float_values]: "to_double (4 / 5) = Fin (3602879701896397 / 4503599627370496)"
  using to_double_near [of "4 / 5" 53 7205759403792794] by simp

lemma double_two_fifths [float_values]: "to_double (3602879701896397 / 9007199254740992) = Fin (3602879701896397 / 9007199254740992)"
  using to_double_near [of "3602879701896397 / 9007199254740992" 54 7205759403792794] by simp

lemma double_thirteen_twentieths [float_values]: "to_double (5854679515581645 / 9007199254740992) = Fin (5854679515581645 / 9007199254740992)"
  using to_double_near [of "5854679515581645 / 9007199254740992" 53 5854679515581645] by simp

lemma weights_sum_3 [float_values]: "to_double (15312238733059687 / 18014398509481984) = Fin (1914029841632461 / 2251799813685248)"
  using to_double_tie [of "15312238733059687 / 18014398509481984" 53 7656119366529843] by simp

lemma weights_sum_4 [float_values]: "to_double (36028797018963971 / 36028797018963968) = Fin (1)"
  using to_double_near [of "36028797018963971 / 36028797018963968" 52 4503599627370496] by simp

end
