(* ===== verification/Score_Model.thy ===== *)
theory Score_Model
  imports Score_Numbers
begin

text \<open>
  \<open>src/product_intelligence/models.py\<close> and \<open>src/product_intelligence/policy.py\<close>: the value classes of the
  product scoring with the checks of their constructors, and the scoring policy.

  A constructor \<open>mk_X\<close> takes the record of all attributes, defaults filled in, and returns it or raises.
  A \<open>py_datetime\<close> is the wall clock in microseconds with the UTC offset of an aware value (\<open>None\<close> when
  naive); the time zones are fixed offsets. The renderings \<open>to_dict\<close> and \<open>format_scalar\<close> are not modelled.
\<close>

section \<open>Enumerations and registries\<close>

datatype provenance = OBSERVED | DERIVED | INFERRED | MISSING

datatype category =
  DEMAND | MOMENTUM | COMMERCIAL_ATTRACTIVENESS | TRUST | CONTENTABILITY | COMPETITION_OPPORTUNITY

datatype band = RECOMMENDED | NEEDS_REVIEW | INSUFFICIENT_DATA | HOLD

definition factual_signals :: "(string \<times> category) list" where
  "factual_signals =
     [(''sold_volume'', DEMAND), (''review_depth'', DEMAND),
      (''sales_velocity'', MOMENTUM), (''creator_growth'', MOMENTUM),
      (''commission_rate'', COMMERCIAL_ATTRACTIVENESS), (''discount_appeal'', COMMERCIAL_ATTRACTIVENESS),
      (''rating_quality'', TRUST),
      (''market_whitespace'', COMPETITION_OPPORTUNITY), (''creator_whitespace'', COMPETITION_OPPORTUNITY)]"

definition semantic_signals :: "string list" where
  "semantic_signals =
     [''visual_demo_potential'', ''problem_solution_clarity'', ''hook_angles'', ''ugc_creator_appeal'']"

section \<open>Evidence\<close>

record py_datetime =
  dt_wall :: int
  dt_offset :: "int option"

record signal_evidence =
  ev_signal_name :: string
  ev_source_type :: string
  ev_observed_at :: py_datetime
  ev_source_url :: "string option"
  ev_collector :: string
  ev_raw_value :: "string option"
  ev_reliability :: pyfloat

definition max_raw_value_len :: nat where
  "max_raw_value_len = 120"

definition forbidden_raw_keywords :: "string list" where
  "forbidden_raw_keywords =
     [''bearer'', ''token'', ''cookie'', ''session'', ''auth'', ''secret'', ''apikey'', ''password'', ''credential'']"

definition forbidden_structure_chars :: string where
  "forbidden_structure_chars = ''{}<>[];=''"

definition raw_value_guards :: "string \<Rightarrow> (bool \<times> string) list" where
  "raw_value_guards r =
     [(max_raw_value_len < length r, ''raw_value_repr exceeds maximum safe scalar length of 120 chars''),
      (CHR 0x0A \<in> set r \<or> CHR 0x0D \<in> set r, ''raw_value_repr must be a single-line scalar diagnostic''),
      (\<exists>c \<in> set forbidden_structure_chars. c \<in> set r, ''raw_value_repr contains forbidden character''),
      (\<exists>k \<in> set forbidden_raw_keywords. substr k (lower r), ''raw_value_repr contains forbidden keyword'')]"

definition evidence_guards :: "signal_evidence \<Rightarrow> (bool \<times> string) list" where
  "evidence_guards e =
     [(\<not> lies_in (Fin 1) (ev_reliability e), ''source_reliability must be in [0.0, 1.0]''),
      (ev_signal_name e = [], ''signal_name cannot be empty''),
      (ev_source_type e = [], ''source_type cannot be empty'')] @
     (case ev_raw_value e of None \<Rightarrow> [] | Some r \<Rightarrow> raw_value_guards r)"

definition mk_evidence :: "signal_evidence \<Rightarrow> exn + signal_evidence" where
  "mk_evidence e = raise_first (evidence_guards e) e"

section \<open>Snapshots\<close>

record candidate =
  sn_candidate_id :: string
  sn_platform :: string
  sn_url :: string
  sn_observed_at :: py_datetime
  sn_title :: string
  sn_source_product_id :: "string option"
  sn_collector :: string
  sn_shop_id :: "string option"
  sn_shop_name :: "string option"
  sn_category :: "string option"
  sn_brand :: "string option"
  sn_model :: "string option"
  sn_price :: "pyfloat option"
  sn_original_price :: "pyfloat option"
  sn_discount_percent :: "pyfloat option"
  sn_sold_count :: "int option"
  sn_rating :: "pyfloat option"
  sn_review_count :: "int option"
  sn_commission_rate :: "pyfloat option"
  sn_commission_value :: "pyfloat option"
  sn_creator_count :: "int option"
  sn_video_count :: "int option"
  sn_similar_listing_count :: "int option"
  sn_sales_velocity :: "pyfloat option"
  sn_review_velocity :: "pyfloat option"
  sn_creator_velocity :: "pyfloat option"
  sn_video_velocity :: "pyfloat option"

definition negative_float :: "pyfloat option \<Rightarrow> bool" where
  "negative_float v = (case v of None \<Rightarrow> False | Some x \<Rightarrow> flt x (Fin 0))"

definition negative_int :: "int option \<Rightarrow> bool" where
  "negative_int v = (case v of None \<Rightarrow> False | Some n \<Rightarrow> n < 0)"

definition outside :: "pyfloat \<Rightarrow> pyfloat option \<Rightarrow> bool" where
  "outside hi v = (case v of None \<Rightarrow> False | Some x \<Rightarrow> \<not> lies_in hi x)"

definition snapshot_guards :: "candidate \<Rightarrow> (bool \<times> string) list" where
  "snapshot_guards s =
     [(sn_candidate_id s = [], ''candidate_id cannot be empty''),
      (sn_platform s = [], ''platform cannot be empty''),
      (sn_url s = [], ''url cannot be empty''),
      (sn_title s = [], ''title cannot be empty''),
      (negative_float (sn_price s), ''price cannot be negative''),
      (negative_float (sn_original_price s), ''original_price cannot be negative''),
      (outside (Fin 100) (sn_discount_percent s), ''discount_percent must be in [0, 100]''),
      (negative_int (sn_sold_count s), ''sold_count cannot be negative''),
      (outside (Fin 5) (sn_rating s), ''rating must be in [0.0, 5.0]''),
      (negative_int (sn_review_count s), ''review_count cannot be negative''),
      (outside (Fin 100) (sn_commission_rate s), ''affiliate_commission_rate must be in [0.0, 100.0]''),
      (negative_float (sn_commission_value s), ''estimated_commission_value cannot be negative''),
      (negative_int (sn_creator_count s), ''creator_count cannot be negative''),
      (negative_int (sn_video_count s), ''video_count cannot be negative''),
      (negative_int (sn_similar_listing_count s), ''similar_listing_count cannot be negative''),
      (negative_float (sn_sales_velocity s), ''sales_velocity cannot be negative''),
      (negative_float (sn_review_velocity s), ''review_velocity cannot be negative''),
      (negative_float (sn_creator_velocity s), ''creator_velocity cannot be negative''),
      (negative_float (sn_video_velocity s), ''video_velocity cannot be negative'')]"

definition mk_snapshot :: "candidate \<Rightarrow> exn + candidate" where
  "mk_snapshot s = raise_first (snapshot_guards s) s"

section \<open>Signals\<close>

record signal =
  sg_name :: string
  sg_category :: category
  sg_score :: pyfloat
  sg_provenance :: provenance
  sg_evidence :: "signal_evidence list"
  sg_freshness :: pyfloat
  sg_reliability :: pyfloat
  sg_weight :: pyfloat

definition signal_guards :: "signal \<Rightarrow> (bool \<times> string) list" where
  "signal_guards s =
     [(\<not> lies_in (Fin 1) (sg_score s), ''score must be in [0.0, 1.0]''),
      (\<not> lies_in (Fin 1) (sg_freshness s), ''freshness must be in [0.0, 1.0]''),
      (\<not> lies_in (Fin 1) (sg_reliability s), ''source_reliability must be in [0.0, 1.0]''),
      (fle (sg_weight s) (Fin 0), ''weight must be strictly positive''),
      (sg_name s = [], ''name cannot be empty'')] @
     (case map_of factual_signals (sg_name s) of
        None \<Rightarrow> []
      | Some c \<Rightarrow>
          [(sg_category s \<noteq> c, ''Canonical factual signal must belong to its category''),
           (sg_provenance s = INFERRED, ''Canonical factual signal cannot have INFERRED provenance'')]) @
     (if sg_name s \<in> set semantic_signals
      then [(sg_category s \<noteq> CONTENTABILITY, ''Canonical semantic signal must belong to category CONTENTABILITY''),
            (sg_provenance s = OBSERVED, ''Semantic signal cannot have OBSERVED provenance'')]
      else []) @
     (if sg_category s = CONTENTABILITY
      then [(sg_provenance s = OBSERVED, ''Semantic signal cannot have OBSERVED provenance''),
            (map_of factual_signals (sg_name s) \<noteq> None, ''Canonical factual signal cannot be placed in CONTENTABILITY'')]
      else [(sg_provenance s = INFERRED, ''Factual market signal cannot have INFERRED provenance'')]) @
     (if sg_provenance s = MISSING
      then [(\<not> feq (sg_score s) (Fin 0), ''MISSING signals must have score=0.0''),
            (sg_evidence s \<noteq> [], ''MISSING signals cannot have evidence references'')]
      else [])"

definition mk_signal :: "signal \<Rightarrow> exn + signal" where
  "mk_signal s = raise_first (signal_guards s) s"

section \<open>Results\<close>

record category_score =
  cs_category :: category
  cs_raw_score :: pyfloat
  cs_weight :: pyfloat
  cs_weighted_score :: pyfloat
  cs_coverage :: pyfloat
  cs_signals :: "signal list"

record confidence =
  cf_completeness :: pyfloat
  cf_freshness :: pyfloat
  cf_reliability :: pyfloat
  cf_evidence :: pyfloat
  cf_overall :: pyfloat

record winning_score =
  ws_candidate_id :: string
  ws_platform :: string
  ws_base_score :: pyfloat
  ws_confidence :: pyfloat
  ws_final_score :: pyfloat
  ws_band :: band
  ws_categories :: "(category \<times> category_score) list"
  ws_breakdown :: confidence
  ws_supporting :: "string list"
  ws_missing_or_weak :: "string list"
  ws_evidence :: "signal_evidence list"
  ws_reasons :: "string list"
  ws_evaluated_at :: py_datetime

section \<open>The policy\<close>

record policy =
  po_demand :: pyfloat
  po_momentum :: pyfloat
  po_commercial :: pyfloat
  po_trust :: pyfloat
  po_contentability :: pyfloat
  po_competition :: pyfloat
  po_completeness_weight :: pyfloat
  po_freshness_weight :: pyfloat
  po_reliability_weight :: pyfloat
  po_evidence_weight :: pyfloat
  po_recommended_score :: pyfloat
  po_recommended_confidence :: pyfloat
  po_review_score :: pyfloat
  po_review_confidence :: pyfloat
  po_insufficient :: pyfloat
  po_half_life :: pyfloat

definition default_policy :: policy where
  "default_policy =
     \<lparr>po_demand = Fin 25, po_momentum = Fin 20, po_commercial = Fin 15, po_trust = Fin 10,
      po_contentability = Fin 15, po_competition = Fin 15,
      po_completeness_weight = flit (4 / 10), po_freshness_weight = flit (1 / 4),
      po_reliability_weight = flit (2 / 10), po_evidence_weight = flit (15 / 100),
      po_recommended_score = Fin 80, po_recommended_confidence = flit (3 / 4),
      po_review_score = Fin 65, po_review_confidence = flit (65 / 100),
      po_insufficient = flit (1 / 2), po_half_life = Fin 72\<rparr>"

definition category_weights :: "policy \<Rightarrow> (category \<times> pyfloat) list" where
  "category_weights p =
     [(DEMAND, po_demand p), (MOMENTUM, po_momentum p), (COMMERCIAL_ATTRACTIVENESS, po_commercial p),
      (TRUST, po_trust p), (CONTENTABILITY, po_contentability p), (COMPETITION_OPPORTUNITY, po_competition p)]"

definition confidence_weights :: "policy \<Rightarrow> pyfloat list" where
  "confidence_weights p =
     [po_completeness_weight p, po_freshness_weight p, po_reliability_weight p, po_evidence_weight p]"

definition policy_guards :: "policy \<Rightarrow> (bool \<times> string) list" where
  "policy_guards p =
     map (\<lambda>w. (\<not> is_finite w \<or> fle w (Fin 0), ''Category weight must be finite and > 0.0''))
       (map snd (category_weights p)) @
     [(\<not> isclose (flit (1 / 100000)) (fsum (map snd (category_weights p))) (Fin 100),
       ''Category weights must sum to exactly 100.0'')] @
     map (\<lambda>w. (\<not> is_finite w \<or> \<not> lies_in (Fin 1) w, ''Confidence weight must be finite and in [0.0, 1.0]''))
       (confidence_weights p) @
     [(\<not> isclose (flit (1 / 100000)) (fsum (confidence_weights p)) (Fin 1),
       ''Confidence weights must sum to exactly 1.0'')] @
     map (\<lambda>t. (\<not> is_finite t \<or> \<not> lies_in (Fin 100) t, ''Score threshold must be in [0.0, 100.0]''))
       [po_recommended_score p, po_review_score p] @
     map (\<lambda>t. (\<not> is_finite t \<or> \<not> lies_in (Fin 1) t, ''Confidence threshold must be in [0.0, 1.0]''))
       [po_recommended_confidence p, po_review_confidence p, po_insufficient p] @
     [(flt (po_recommended_score p) (po_review_score p),
       ''recommended_min_final_score must be >= needs_review_min_final_score''),
      (flt (po_recommended_confidence p) (po_review_confidence p),
       ''recommended_min_confidence must be >= needs_review_min_confidence''),
      (flt (po_review_confidence p) (po_insufficient p),
       ''needs_review_min_confidence must be >= insufficient_data_confidence_threshold''),
      (\<not> is_finite (po_half_life p) \<or> fle (po_half_life p) (Fin 0),
       ''freshness_half_life_hours must be finite and strictly positive'')]"

definition mk_policy :: "policy \<Rightarrow> exn + policy" where
  "mk_policy p = raise_first (policy_guards p) p"

definition classify_decision :: "policy \<Rightarrow> pyfloat \<Rightarrow> pyfloat \<Rightarrow> band" where
  "classify_decision p final conf =
     (if flt conf (po_insufficient p) then INSUFFICIENT_DATA
      else if fle (po_recommended_score p) final \<and> fle (po_recommended_confidence p) conf then RECOMMENDED
      else if fle (po_review_score p) final \<and> fle (po_review_confidence p) conf then NEEDS_REVIEW
      else HOLD)"

text \<open>The bands from worst to best, as an operator reads them.\<close>

fun band_rank :: "band \<Rightarrow> nat" where
  "band_rank INSUFFICIENT_DATA = 0"
| "band_rank HOLD = 1"
| "band_rank NEEDS_REVIEW = 2"
| "band_rank RECOMMENDED = 3"

section \<open>What a valid policy gives\<close>

lemma mk_policy_iff:
  "mk_policy p = Inr q \<longleftrightarrow> q = p \<and>
     (\<forall>w \<in> snd ` set (category_weights p). is_finite w \<and> \<not> fle w (Fin 0)) \<and>
     isclose (flit (1 / 100000)) (fsum (map snd (category_weights p))) (Fin 100) \<and>
     (\<forall>w \<in> set (confidence_weights p). is_finite w \<and> lies_in (Fin 1) w) \<and>
     isclose (flit (1 / 100000)) (fsum (confidence_weights p)) (Fin 1) \<and>
     (\<forall>t \<in> {po_recommended_score p, po_review_score p}. is_finite t \<and> lies_in (Fin 100) t) \<and>
     (\<forall>t \<in> {po_recommended_confidence p, po_review_confidence p, po_insufficient p}. is_finite t \<and> lies_in (Fin 1) t) \<and>
     \<not> flt (po_recommended_score p) (po_review_score p) \<and>
     \<not> flt (po_recommended_confidence p) (po_review_confidence p) \<and>
     \<not> flt (po_review_confidence p) (po_insufficient p) \<and>
     is_finite (po_half_life p) \<and> \<not> fle (po_half_life p) (Fin 0)"
  unfolding mk_policy_def raise_first_Inr policy_guards_def
  by (simp add: ball_Un conj_ac)

lemma valid_policy:
  assumes "mk_policy p = Inr q"
  shows valid_policy_same: "q = p"
    and category_weight_positive: "\<And>c w. (c, w) \<in> set (category_weights p) \<Longrightarrow> is_finite w \<and> \<not> fle w (Fin 0)"
    and confidence_weight_unit: "\<And>w. w \<in> set (confidence_weights p) \<Longrightarrow> lies_in (Fin 1) w"
    and thresholds_in_range: "lies_in (Fin 100) (po_review_score p)" "lies_in (Fin 1) (po_insufficient p)"
      "lies_in (Fin 100) (po_recommended_score p)" "lies_in (Fin 1) (po_review_confidence p)"
      "lies_in (Fin 1) (po_recommended_confidence p)"
    and thresholds_ordered: "fle (po_review_score p) (po_recommended_score p)"
      "fle (po_review_confidence p) (po_recommended_confidence p)"
      "fle (po_insufficient p) (po_review_confidence p)"
proof -
  note a = assms [unfolded mk_policy_iff]
  from a show "q = p" by blast
  from a show "is_finite w \<and> \<not> fle w (Fin 0)" if "(c, w) \<in> set (category_weights p)" for c w
    using that by (metis imageI snd_conv)
  from a show "lies_in (Fin 1) w" if "w \<in> set (confidence_weights p)" for w using that by blast
  from a show range: "lies_in (Fin 100) (po_review_score p)" "lies_in (Fin 1) (po_insufficient p)"
    "lies_in (Fin 100) (po_recommended_score p)" "lies_in (Fin 1) (po_review_confidence p)"
    "lies_in (Fin 1) (po_recommended_confidence p)"
    by blast+
  note nn = range [THEN lies_in_not_NaN]
  from a show "fle (po_review_score p) (po_recommended_score p)"
    "fle (po_review_confidence p) (po_recommended_confidence p)"
    "fle (po_insufficient p) (po_review_confidence p)"
    using nn by (blast intro: not_flt_fle)+
qed

text \<open>The default weights add up to 1 exactly, after rounding.\<close>

lemma default_policy_valid: "mk_policy default_policy = Inr default_policy"
  by (simp add: mk_policy_iff default_policy_def category_weights_def confidence_weights_def isclose_def feq_def
      fsum_def to_double_numeral float_values lies_in_def is_finite_def)

end
