(* ===== verification/Normalizer.thy ===== *)
theory Normalizer
  imports Score_Model
begin

text \<open>
  \<open>src/product_intelligence/normalizer.py\<close>: a snapshot becomes nine canonical signals, each observed with
  evidence or explicitly missing.

  The C library behind \<open>math\<close> is a parameter: \<open>log10\<close> of an integer and of a float, and \<open>pow(0.5, x)\<close>.
  What the scores rely on is \<open>libm_ok\<close>: the logarithm of a number from 1 on is a number from 0 on. A
  snapshot value of minus zero would be printed with its sign; the model has one zero.
\<close>

section \<open>Printing numbers\<close>

definition int_str :: "int \<Rightarrow> string" where
  "int_str n = (if n < 0 then ''-'' @ nat_str (nat (- n)) else nat_str (nat n))"

text \<open>\<open>f"{x:.df}"\<close> rounds the exact value to \<open>d\<close> decimals, halves to even.\<close>

definition zero_padded :: "nat \<Rightarrow> string \<Rightarrow> string" where
  "zero_padded d s = replicate (d - length s) CHR ''0'' @ s"

definition fixed_str :: "nat \<Rightarrow> pyfloat \<Rightarrow> string" where
  "fixed_str d x =
     (case x of
        NaN \<Rightarrow> ''nan'' | PosInf \<Rightarrow> ''inf'' | NegInf \<Rightarrow> ''-inf''
      | Fin q \<Rightarrow>
          (let n = nat (round_half_even (\<bar>q\<bar> * 10 ^ d))
           in (if q < 0 then ''-'' else []) @ nat_str (n div 10 ^ d) @ ''.'' @ zero_padded d (nat_str (n mod 10 ^ d))))"

section \<open>The C library\<close>

record libm =
  log10_int :: "int \<Rightarrow> pyfloat"
  log10_float :: "pyfloat \<Rightarrow> pyfloat"
  half_pow :: "pyfloat \<Rightarrow> pyfloat"

definition libm_ok :: "libm \<Rightarrow> bool" where
  "libm_ok m \<longleftrightarrow> (\<forall>n \<ge> 1. fle (Fin 0) (log10_int m n)) \<and> (\<forall>x. fle (Fin 1) x \<longrightarrow> fle (Fin 0) (log10_float m x))"

section \<open>Freshness\<close>

text \<open>A naive time counts as UTC.\<close>

definition utc_micros :: "py_datetime \<Rightarrow> int" where
  "utc_micros t = dt_wall t - (case dt_offset t of None \<Rightarrow> 0 | Some z \<Rightarrow> z)"

definition calculate_freshness :: "libm \<Rightarrow> py_datetime \<Rightarrow> py_datetime \<Rightarrow> pyfloat \<Rightarrow> pyfloat" where
  "calculate_freshness m observed evaluated half_life =
     (let delta = to_double (of_int (utc_micros evaluated - utc_micros observed) / 10 ^ 6)
      in if fle delta (Fin 0) then Fin 1
         else clamp (Fin 1) (half_pow m (fdiv (fdiv delta (Fin 3600)) half_life)))"

section \<open>One signal\<close>

definition missing_signal :: "string \<Rightarrow> category \<Rightarrow> pyfloat \<Rightarrow> exn + signal" where
  "missing_signal name c w =
     mk_signal \<lparr>sg_name = name, sg_category = c, sg_score = Fin 0, sg_provenance = MISSING, sg_evidence = [],
       sg_freshness = Fin 0, sg_reliability = Fin 0, sg_weight = w\<rparr>"

definition present_signal ::
  "candidate \<Rightarrow> pyfloat \<Rightarrow> string \<Rightarrow> string \<Rightarrow> string \<Rightarrow> category \<Rightarrow> provenance \<Rightarrow> pyfloat \<Rightarrow> pyfloat \<Rightarrow> exn + signal" where
  "present_signal sn fresh field raw name c prov score w =
     bind_result
       (mk_evidence \<lparr>ev_signal_name = field, ev_source_type = sn_platform sn, ev_observed_at = sn_observed_at sn,
          ev_source_url = Some (sn_url sn), ev_collector = sn_collector sn, ev_raw_value = Some raw,
          ev_reliability = Fin 1\<rparr>)
       (\<lambda>e. mk_signal \<lparr>sg_name = name, sg_category = c, sg_score = score, sg_provenance = prov, sg_evidence = [e],
          sg_freshness = fresh, sg_reliability = Fin 1, sg_weight = w\<rparr>)"

text \<open>\<open>math.log10(max(1, n)) / d\<close> for an integer and a float.\<close>

definition log_share_int :: "libm \<Rightarrow> int \<Rightarrow> rat \<Rightarrow> pyfloat" where
  "log_share_int m n d = fdiv (log10_int m (max 1 n)) (to_double d)"

definition log_share_float :: "libm \<Rightarrow> pyfloat \<Rightarrow> rat \<Rightarrow> pyfloat" where
  "log_share_float m x d = fdiv (log10_float m (fmax (Fin 1) x)) (to_double d)"

section \<open>The nine signals\<close>

definition sold_volume :: "libm \<Rightarrow> candidate \<Rightarrow> pyfloat \<Rightarrow> exn + signal" where
  "sold_volume m sn fresh =
     (case sn_sold_count sn of
        Some n \<Rightarrow>
          present_signal sn fresh ''sold_count'' (int_str n) ''sold_volume'' DEMAND OBSERVED
            (if 0 < n then fmin (Fin 1) (log_share_int m n 4) else Fin 0) (Fin (3 / 2))
      | None \<Rightarrow> missing_signal ''sold_volume'' DEMAND (Fin (3 / 2)))"

definition review_depth :: "libm \<Rightarrow> candidate \<Rightarrow> pyfloat \<Rightarrow> exn + signal" where
  "review_depth m sn fresh =
     (case sn_review_count sn of
        Some n \<Rightarrow>
          present_signal sn fresh ''review_count'' (int_str n) ''review_depth'' DEMAND OBSERVED
            (if 0 < n then fmin (Fin 1) (log_share_int m n (37 / 10)) else Fin 0) (Fin 1)
      | None \<Rightarrow> missing_signal ''review_depth'' DEMAND (Fin 1))"

definition sales_velocity_signal :: "libm \<Rightarrow> candidate \<Rightarrow> pyfloat \<Rightarrow> exn + signal" where
  "sales_velocity_signal m sn fresh =
     (case sn_sales_velocity sn of
        Some v \<Rightarrow>
          present_signal sn fresh ''sales_velocity'' (fixed_str 2 v @ ''/day'') ''sales_velocity'' MOMENTUM DERIVED
            (fmin (Fin 1) (log_share_float m (fadd v (Fin 1)) (17 / 10))) (Fin (3 / 2))
      | None \<Rightarrow> missing_signal ''sales_velocity'' MOMENTUM (Fin (3 / 2)))"

definition creator_growth :: "libm \<Rightarrow> candidate \<Rightarrow> pyfloat \<Rightarrow> exn + signal" where
  "creator_growth m sn fresh =
     (case sn_creator_velocity sn of
        Some v \<Rightarrow>
          present_signal sn fresh ''creator_velocity'' (fixed_str 2 v @ ''/day'') ''creator_growth'' MOMENTUM DERIVED
            (fmin (Fin 1) (log_share_float m (fadd v (Fin 1)) (3 / 2))) (Fin 1)
      | None \<Rightarrow> missing_signal ''creator_growth'' MOMENTUM (Fin 1))"

definition commission_rate :: "candidate \<Rightarrow> pyfloat \<Rightarrow> exn + signal" where
  "commission_rate sn fresh =
     (case sn_commission_rate sn of
        Some r \<Rightarrow>
          present_signal sn fresh ''affiliate_commission_rate'' (fixed_str 1 r @ ''%'') ''commission_rate''
            COMMERCIAL_ATTRACTIVENESS OBSERVED (fmin (Fin 1) (fmax (Fin 0) (fdiv r (Fin 20)))) (Fin (3 / 2))
      | None \<Rightarrow> missing_signal ''commission_rate'' COMMERCIAL_ATTRACTIVENESS (Fin (3 / 2)))"

definition discount_appeal :: "candidate \<Rightarrow> pyfloat \<Rightarrow> exn + signal" where
  "discount_appeal sn fresh =
     (case sn_discount_percent sn of
        Some d \<Rightarrow>
          present_signal sn fresh ''discount_percent'' (fixed_str 1 d @ ''%'') ''discount_appeal''
            COMMERCIAL_ATTRACTIVENESS OBSERVED (fmin (Fin 1) (fmax (Fin 0) (fdiv d (Fin 50)))) (Fin 1)
      | None \<Rightarrow> missing_signal ''discount_appeal'' COMMERCIAL_ATTRACTIVENESS (Fin 1))"

definition reviews_of :: "candidate \<Rightarrow> int" where
  "reviews_of sn = (case sn_review_count sn of None \<Rightarrow> 0 | Some n \<Rightarrow> n)"

definition rating_quality :: "candidate \<Rightarrow> pyfloat \<Rightarrow> exn + signal" where
  "rating_quality sn fresh =
     (case sn_rating sn of
        Some r \<Rightarrow>
          (let base = fmax (Fin 0) (fdiv (fsub r (Fin 3)) (Fin 2));
               reviews = reviews_of sn;
               damping = (if reviews < 10 then fmin (Fin 1) (fdiv (to_double (of_int reviews)) (Fin 10)) else Fin 1);
               score = fmin (Fin 1) (fmul base (fadd (Fin (1 / 2)) (fmul (Fin (1 / 2)) damping)))
           in present_signal sn fresh ''rating'' (fixed_str 2 r @ '' ('' @ int_str reviews @ '' reviews)'')
                ''rating_quality'' TRUST OBSERVED score (Fin 1))
      | None \<Rightarrow> missing_signal ''rating_quality'' TRUST (Fin 1))"

definition whitespace_signal ::
  "libm \<Rightarrow> candidate \<Rightarrow> pyfloat \<Rightarrow> int option \<Rightarrow> string \<Rightarrow> string \<Rightarrow> rat \<Rightarrow> exn + signal" where
  "whitespace_signal m sn fresh count field name d =
     (case count of
        Some n \<Rightarrow>
          present_signal sn fresh field (int_str n) name COMPETITION_OPPORTUNITY OBSERVED
            (fmax (Fin 0) (fsub (Fin 1) (log_share_int m (n + 1) d))) (Fin 1)
      | None \<Rightarrow> missing_signal name COMPETITION_OPPORTUNITY (Fin 1))"

definition market_whitespace :: "libm \<Rightarrow> candidate \<Rightarrow> pyfloat \<Rightarrow> exn + signal" where
  "market_whitespace m sn fresh =
     whitespace_signal m sn fresh (sn_similar_listing_count sn) ''similar_listing_count'' ''market_whitespace'' 3"

definition creator_whitespace :: "libm \<Rightarrow> candidate \<Rightarrow> pyfloat \<Rightarrow> exn + signal" where
  "creator_whitespace m sn fresh =
     whitespace_signal m sn fresh (sn_creator_count sn) ''creator_count'' ''creator_whitespace'' (5 / 2)"

section \<open>The whole snapshot\<close>

fun collect_results :: "('e + 'a) list \<Rightarrow> 'e + 'a list" where
  "collect_results [] = Inr []"
| "collect_results (r # rs) = bind_result r (\<lambda>x. bind_result (collect_results rs) (\<lambda>xs. Inr (x # xs)))"

definition snapshot_signals :: "libm \<Rightarrow> candidate \<Rightarrow> pyfloat \<Rightarrow> (exn + signal) list" where
  "snapshot_signals m sn fresh =
     [sold_volume m sn fresh, review_depth m sn fresh, sales_velocity_signal m sn fresh, creator_growth m sn fresh,
      commission_rate sn fresh, discount_appeal sn fresh, rating_quality sn fresh,
      market_whitespace m sn fresh, creator_whitespace m sn fresh]"

definition normalize_snapshot :: "libm \<Rightarrow> candidate \<Rightarrow> py_datetime option \<Rightarrow> policy option \<Rightarrow> exn + signal list" where
  "normalize_snapshot m sn evaluated pol =
     (case evaluated of
        None \<Rightarrow> Inl (ValueError ''evaluated_at timestamp is required for deterministic normalization'')
      | Some now \<Rightarrow>
          let p = (case pol of None \<Rightarrow> default_policy | Some p \<Rightarrow> p)
          in collect_results (snapshot_signals m sn (calculate_freshness m (sn_observed_at sn) now (po_half_life p))))"

section \<open>Printed numbers pass the checks of the evidence\<close>

definition plain_chars :: string where
  "plain_chars = ''0123456789.-%/day ()reviewsinf''"

lemma plain_digit: "k < 10 \<Longrightarrow> char_of (48 + k) \<in> set plain_chars" for k :: nat
proof -
  have "list_all (\<lambda>k. char_of (48 + k :: nat) \<in> set plain_chars) [0..<10]" by code_simp
  then show "k < 10 \<Longrightarrow> ?thesis" unfolding list_all_iff set_upt by simp
qed

lemma plain_marks: "{CHR ''0'', CHR ''.'', CHR ''-''} \<subseteq> set plain_chars"
  by (simp add: plain_chars_def)

lemma nat_str_plain: "set (nat_str n) \<subseteq> set plain_chars"
proof (induction n rule: nat_str.induct)
  case (1 n)
  show ?case
  proof (cases "n < 10")
    case True
    then show ?thesis using plain_digit by (subst nat_str.simps) simp
  next
    case False
    then have "nat_str n = nat_str (n div 10) @ [char_of (48 + n mod 10)]" by (subst nat_str.simps) simp
    with 1 False plain_digit [of "n mod 10"] show ?thesis by simp
  qed
qed

lemma int_str_plain: "set (int_str n) \<subseteq> set plain_chars"
  using nat_str_plain [of "nat n"] nat_str_plain [of "nat (- n)"] plain_marks unfolding int_str_def by simp

lemma fixed_str_plain: "set (fixed_str d x) \<subseteq> set plain_chars"
proof (cases x)
  case (Fin q)
  have "set (zero_padded d (nat_str k)) \<subseteq> set plain_chars" for k
    using nat_str_plain [of k] plain_marks unfolding zero_padded_def by auto
  then show ?thesis using nat_str_plain plain_marks unfolding Fin fixed_str_def Let_def by (cases "q < 0") simp_all
qed (simp_all add: fixed_str_def plain_chars_def)

lemma substr_set: "substr k s \<Longrightarrow> set k \<subseteq> set s"
proof (induction k s rule: substr.induct)
  case (2 n c cs)
  then show ?case
    by (metis set_subset_Cons set_take_subset subset_trans substr.simps(2))
qed simp

lemma lower_plain: "set r \<subseteq> set plain_chars \<Longrightarrow> lower r = r"
proof (rule map_idI)
  fix c assume "set r \<subseteq> set plain_chars" "c \<in> set r"
  then have "c \<in> set plain_chars" by blast
  moreover have "list_all (\<lambda>c. lower_char c = c) plain_chars" by code_simp
  ultimately show "lower_char c = c" by (simp add: list_all_iff)
qed

lemma plain_raw_value:
  assumes "set r \<subseteq> set plain_chars"
  shows "(\<forall>g \<in> set (raw_value_guards r). \<not> fst g) \<longleftrightarrow> length r \<le> 120"
proof -
  have A: "list_all (\<lambda>c. c \<notin> set plain_chars) (forbidden_structure_chars @ [CHR 0x0A, CHR 0x0D])" by code_simp
  have B: "list_all (\<lambda>k. \<not> set k \<subseteq> set plain_chars) forbidden_raw_keywords" by code_simp
  from A assms have "\<forall>c \<in> set forbidden_structure_chars. c \<notin> set r" "CHR 0x0A \<notin> set r" "CHR 0x0D \<notin> set r"
    by (auto simp: list_all_iff)
  moreover from B assms have "\<not> substr k (lower r)" if "k \<in> set forbidden_raw_keywords" for k
    using that substr_set [of k r] lower_plain [OF assms] by (auto simp: list_all_iff)
  ultimately show ?thesis by (auto simp: raw_value_guards_def max_raw_value_len_def)
qed

section \<open>Scores are in range\<close>

lemma lies_in_fmin: "fle (Fin 0) y \<Longrightarrow> lies_in (Fin 1) (fmin (Fin 1) y)"
  by (cases y) (auto simp: lies_in_def fmin_def)

lemma fmax_zero_nonneg [simp]: "fle (Fin 0) (fmax (Fin 0) y)"
  by (cases y) (auto simp: fmax_def)

lemma is_double_numeral: "(numeral n :: int) \<le> 2 ^ 53 \<Longrightarrow> is_double (numeral n)"
  using to_double_numeral by (simp add: is_double_def)

lemma one_is_double: "is_double 1"
  using to_double_numeral [of num.One] by (simp add: is_double_def)

lemma to_double_between:
  assumes "1 \<le> d" "d \<le> 4"
  shows "\<exists>q. to_double d = Fin q \<and> 1 \<le> q"
proof -
  have "\<not> flt (to_double d) (Fin 1)" using one_is_double assms by (intro to_double_ge_double) auto
  moreover have "fle (to_double d) (Fin 4)" using is_double_numeral assms by (intro to_double_le_double) auto
  ultimately show ?thesis by (cases "to_double d") auto
qed

lemma to_double_ge_zero: "0 \<le> q \<Longrightarrow> fle (Fin 0) (to_double q)"
  using to_double_nonneg [of q] by (cases "to_double q") (auto simp: to_double_def Let_def split: if_splits)

lemma fdiv_nonneg: "fle (Fin 0) a \<Longrightarrow> 0 < q \<Longrightarrow> fle (Fin 0) (fdiv a (Fin q))"
  by (cases a) (auto simp: to_double_ge_zero)

lemma log_share_int_nonneg: "libm_ok m \<Longrightarrow> 1 \<le> d \<Longrightarrow> d \<le> 4 \<Longrightarrow> fle (Fin 0) (log_share_int m n d)"
  using to_double_between [of d] by (auto simp: log_share_int_def libm_ok_def intro!: fdiv_nonneg)

lemma log_share_float_nonneg: "libm_ok m \<Longrightarrow> 1 \<le> d \<Longrightarrow> d \<le> 4 \<Longrightarrow> fle (Fin 0) (log_share_float m x d)"
  using to_double_between [of d] by (auto simp: log_share_float_def libm_ok_def fmax_ge1 intro!: fdiv_nonneg)

lemma one_minus_in_range: "fle (Fin 0) z \<Longrightarrow> lies_in (Fin 1) (fmax (Fin 0) (fsub (Fin 1) z))"
proof (cases z)
  case (Fin q)
  assume "fle (Fin 0) z"
  with Fin have q: "0 \<le> q" by simp
  show ?thesis
  proof (cases "q \<le> 1")
    case True
    with q have "fle (to_double (1 - q)) (Fin 1)" using one_is_double by (intro to_double_le_double) auto
    then show ?thesis using Fin by (auto simp: lies_in_def fsub_def fmax_def) (simp add: fle_def)
  next
    case False
    have "0 \<le> round_half_even (\<bar>1 - q\<bar> / 2 powi e)" for e by (rule round_half_even_ge) simp
    then have "\<not> flt (Fin 0) (to_double (1 - q))"
      using False by (auto simp: to_double_def Let_def sgn_if zero_less_mult_iff not_less split: if_splits)
    then show ?thesis using Fin by (auto simp: lies_in_def fsub_def fmax_def)
  qed
qed (auto simp: lies_in_def fsub_def fmax_def)

lemma damped_weight:
  assumes "lies_in (Fin 1) d"
  shows "\<exists>y. fadd (Fin (1 / 2)) (fmul (Fin (1 / 2)) d) = Fin y \<and> 0 < y"
proof -
  obtain q where d: "d = Fin q" "0 \<le> q" "q \<le> 1" using lies_in_Fin [OF assms] by blast
  have "is_double (1 / 2)" using one_half by (simp add: is_double_def)
  moreover obtain x where x: "to_double (q / 2) = Fin x" "0 \<le> x" "x \<le> 1"
    using to_double_unit_le [of "q / 2"] d by (cases "q = 0") (auto simp: to_double_def)
  ultimately have "\<not> flt (to_double (1 / 2 + x)) (Fin (1 / 2))" by (intro to_double_ge_double) auto
  moreover have "fle (to_double (1 / 2 + x)) (Fin 2)" using is_double_numeral x by (intro to_double_le_double) auto
  ultimately show ?thesis using d x by (cases "to_double (1 / 2 + x)") auto
qed

lemma fmul_nonneg: "fle (Fin 0) a \<Longrightarrow> 0 < y \<Longrightarrow> fle (Fin 0) (fmul a (Fin y))"
  by (cases a) (auto simp: to_double_ge_zero fsign_def)

lemma calculate_freshness_unit: "lies_in (Fin 1) (calculate_freshness m u e h)"
  by (simp add: calculate_freshness_def Let_def) (simp add: lies_in_def)

section \<open>Each signal\<close>

lemma factual_registered:
  assumes "(name, c) \<in> set factual_signals"
  shows "map_of factual_signals name = Some c" "name \<notin> set semantic_signals" "c \<noteq> CONTENTABILITY" "name \<noteq> []"
proof -
  have "list_all (\<lambda>(n, c). map_of factual_signals n = Some c \<and> n \<notin> set semantic_signals \<and> c \<noteq> CONTENTABILITY \<and> n \<noteq> [])
    factual_signals" by code_simp
  with assms show "map_of factual_signals name = Some c" "name \<notin> set semantic_signals" "c \<noteq> CONTENTABILITY" "name \<noteq> []"
    by (auto simp only: list_all_iff split: prod.splits)
qed

lemma missing_signal_exists:
  assumes "(name, c) \<in> set factual_signals" "\<not> fle w (Fin 0)"
  shows "\<exists>s. missing_signal name c w = Inr s \<and> mk_signal s = Inr s \<and>
           sg_name s = name \<and> sg_category s = c \<and> sg_provenance s = MISSING"
  using factual_registered [OF assms(1)] assms(2)
  by (simp add: missing_signal_def mk_signal_def raise_first_Inr signal_guards_def lies_in_def feq_def)

lemma present_signal_exists:
  assumes n: "(name, c) \<in> set factual_signals" and w: "\<not> fle w (Fin 0)"
    and p: "sn_platform sn \<noteq> []" "field \<noteq> []" "prov \<in> {OBSERVED, DERIVED}"
    and r: "lies_in (Fin 1) score" "lies_in (Fin 1) fresh" and raw: "set raw \<subseteq> set plain_chars"
  shows "(\<exists>s. present_signal sn fresh field raw name c prov score w = Inr s) \<longleftrightarrow> length raw \<le> 120"
proof -
  have one: "lies_in (Fin 1) (Fin 1)" by (simp add: lies_in_def)
  let ?e = "\<lparr>ev_signal_name = field, ev_source_type = sn_platform sn, ev_observed_at = sn_observed_at sn,
    ev_source_url = Some (sn_url sn), ev_collector = sn_collector sn, ev_raw_value = Some raw, ev_reliability = Fin 1\<rparr>"
  let ?s = "\<lparr>sg_name = name, sg_category = c, sg_score = score, sg_provenance = prov, sg_evidence = [?e],
    sg_freshness = fresh, sg_reliability = Fin 1, sg_weight = w\<rparr>"
  have "mk_signal ?s = Inr ?s"
    using factual_registered [OF n] w p r one
    by (auto simp add: mk_signal_def raise_first_Inr signal_guards_def)
  moreover have "mk_evidence ?e = Inr e \<longleftrightarrow> e = ?e \<and> length raw \<le> 120" for e
    using p one plain_raw_value [OF raw] by (auto simp: mk_evidence_def raise_first_Inr evidence_guards_def)
  ultimately show ?thesis by (auto simp: present_signal_def bind_result_Inr_iff)
qed

lemma mk_signal_same: "mk_signal s = Inr t \<Longrightarrow> t = s"
  by (simp add: mk_signal_def raise_first_Inr)

lemma missing_signal_Inr:
  "missing_signal name c w = Inr s \<Longrightarrow>
     mk_signal s = Inr s \<and> sg_name s = name \<and> sg_category s = c \<and> sg_provenance s = MISSING \<and> sg_weight s = w"
  using mk_signal_same unfolding missing_signal_def by fastforce

lemma present_signal_Inr:
  assumes "present_signal sn fresh field raw name c prov score w = Inr s"
  shows "mk_signal s = Inr s \<and> sg_name s = name \<and> sg_category s = c \<and> sg_provenance s = prov \<and> sg_weight s = w \<and>
    (\<exists>e. sg_evidence s = [e] \<and> ev_observed_at e = sn_observed_at sn \<and> ev_source_type e = sn_platform sn)"
proof -
  from assms obtain e where e: "mk_evidence \<lparr>ev_signal_name = field, ev_source_type = sn_platform sn,
      ev_observed_at = sn_observed_at sn, ev_source_url = Some (sn_url sn), ev_collector = sn_collector sn,
      ev_raw_value = Some raw, ev_reliability = Fin 1\<rparr> = Inr e"
    and s: "mk_signal \<lparr>sg_name = name, sg_category = c, sg_score = score, sg_provenance = prov, sg_evidence = [e],
      sg_freshness = fresh, sg_reliability = Fin 1, sg_weight = w\<rparr> = Inr s"
    by (auto simp: present_signal_def bind_result_Inr_iff)
  from e have "ev_observed_at e = sn_observed_at sn" "ev_source_type e = sn_platform sn"
    by (auto simp: mk_evidence_def raise_first_Inr)
  with s mk_signal_same [OF s] show ?thesis by auto
qed

lemma collect_results_Inr: "collect_results rs = Inr xs \<longleftrightarrow> rs = map Inr xs"
  by (induction rs arbitrary: xs) (auto simp: bind_result_Inr_iff)

lemma collect_results_exists: "(\<exists>xs. collect_results rs = Inr xs) \<longleftrightarrow> (\<forall>r \<in> set rs. \<exists>x. r = Inr x)"
  by (induction rs) (auto simp: bind_result_Inr_iff)

end
