(* ===== verification/Normalizer_Facts.thy ===== *)
theory Normalizer_Facts
  imports Normalizer
begin

text \<open>
  What the normaliser makes of a valid snapshot: exactly the canonical signals, missing exactly when
  unobserved; and the one way it can fail, a diagnostic text longer than the evidence allows.
\<close>

text \<open>The texts the evidence of a snapshot carries.\<close>

definition diagnostics :: "candidate \<Rightarrow> string option list" where
  "diagnostics sn =
     [map_option int_str (sn_sold_count sn), map_option int_str (sn_review_count sn),
      map_option (\<lambda>v. fixed_str 2 v @ ''/day'') (sn_sales_velocity sn),
      map_option (\<lambda>v. fixed_str 2 v @ ''/day'') (sn_creator_velocity sn),
      map_option (\<lambda>r. fixed_str 1 r @ ''%'') (sn_commission_rate sn),
      map_option (\<lambda>d. fixed_str 1 d @ ''%'') (sn_discount_percent sn),
      map_option (\<lambda>r. fixed_str 2 r @ '' ('' @ int_str (reviews_of sn) @ '' reviews)'') (sn_rating sn),
      map_option int_str (sn_similar_listing_count sn), map_option int_str (sn_creator_count sn)]"

definition short :: "string option \<Rightarrow> bool" where
  "short r \<longleftrightarrow> (\<forall>t. r = Some t \<longrightarrow> length t \<le> 120)"

lemma short_simps [simp]: "short None" "short (Some t) \<longleftrightarrow> length t \<le> 120"
  by (simp_all add: short_def)

definition canonical_signal :: "candidate \<Rightarrow> string \<Rightarrow> category \<Rightarrow> string option \<Rightarrow> signal \<Rightarrow> bool" where
  "canonical_signal sn name c text s \<longleftrightarrow>
     mk_signal s = Inr s \<and> sg_name s = name \<and> sg_category s = c \<and>
     (case text of
        None \<Rightarrow> sg_provenance s = MISSING
      | Some t \<Rightarrow> sg_provenance s \<noteq> MISSING \<and>
          (\<exists>e. sg_evidence s = [e] \<and> ev_raw_value e = Some t \<and> ev_observed_at e = sn_observed_at sn))"

lemma present_signal_canonical:
  assumes "present_signal sn fresh field raw name c prov score w = Inr s" "prov \<noteq> MISSING"
  shows "canonical_signal sn name c (Some raw) s"
proof -
  from assms(1) obtain e where e: "mk_evidence \<lparr>ev_signal_name = field, ev_source_type = sn_platform sn,
      ev_observed_at = sn_observed_at sn, ev_source_url = Some (sn_url sn), ev_collector = sn_collector sn,
      ev_raw_value = Some raw, ev_reliability = Fin 1\<rparr> = Inr e" and "sg_evidence s = [e]"
    by (auto simp: present_signal_def bind_result_Inr_iff mk_signal_def raise_first_Inr)
  with present_signal_Inr [OF assms(1)] assms(2) show ?thesis
    by (auto simp: canonical_signal_def mk_evidence_def raise_first_Inr)
qed

lemma missing_signal_canonical: "missing_signal name c w = Inr s \<Longrightarrow> canonical_signal sn name c None s"
  by (auto simp: canonical_signal_def dest: missing_signal_Inr)

text \<open>The shape all nine share: a signal when the field was observed, else the missing one.\<close>

lemma optional_signal_canonical:
  assumes "(case x of Some v \<Rightarrow> present_signal sn fresh field (raw v) name c prov (score v) w
                    | None \<Rightarrow> missing_signal name c w) = Inr s" "prov \<noteq> MISSING"
  shows "canonical_signal sn name c (map_option raw x) s"
  using assms by (cases x) (simp_all add: present_signal_canonical missing_signal_canonical)

lemma optional_signal_exists:
  assumes "(name, c) \<in> set factual_signals" "\<not> fle w (Fin 0)" "field \<noteq> []" "prov \<in> {OBSERVED, DERIVED}"
    and "sn_platform sn \<noteq> []" "lies_in (Fin 1) fresh"
    and "\<And>v. x = Some v \<Longrightarrow> lies_in (Fin 1) (score v)" "\<And>v. set (raw v) \<subseteq> set plain_chars"
  shows "(\<exists>s. (case x of Some v \<Rightarrow> present_signal sn fresh field (raw v) name c prov (score v) w
                    | None \<Rightarrow> missing_signal name c w) = Inr s) \<longleftrightarrow> short (map_option raw x)"
proof (cases x)
  case None
  then show ?thesis using missing_signal_exists [OF assms(1,2)] by auto
next
  case (Some v)
  then show ?thesis using present_signal_exists [OF assms(1,2,5,3,4) assms(7) [of v] assms(6,8)] by simp
qed

section \<open>Each of the nine\<close>

lemma registered:
  "(''sold_volume'', DEMAND) \<in> set factual_signals" "(''review_depth'', DEMAND) \<in> set factual_signals"
  "(''sales_velocity'', MOMENTUM) \<in> set factual_signals" "(''creator_growth'', MOMENTUM) \<in> set factual_signals"
  "(''commission_rate'', COMMERCIAL_ATTRACTIVENESS) \<in> set factual_signals"
  "(''discount_appeal'', COMMERCIAL_ATTRACTIVENESS) \<in> set factual_signals"
  "(''rating_quality'', TRUST) \<in> set factual_signals"
  "(''market_whitespace'', COMPETITION_OPPORTUNITY) \<in> set factual_signals"
  "(''creator_whitespace'', COMPETITION_OPPORTUNITY) \<in> set factual_signals"
  by (simp_all add: factual_signals_def)

lemma plain_units: "set ''/day'' \<subseteq> set plain_chars" "set ''%'' \<subseteq> set plain_chars"
  "set '' ('' \<subseteq> set plain_chars" "set '' reviews)'' \<subseteq> set plain_chars"
  by (simp_all add: plain_chars_def)

lemma plain_append: "set r \<subseteq> A \<Longrightarrow> set t \<subseteq> A \<Longrightarrow> set (r @ t) \<subseteq> A"
  by simp

lemmas plain = int_str_plain fixed_str_plain plain_units plain_append

lemma zero_in_range: "lies_in (Fin 1) (Fin 0)"
  by (simp add: lies_in_def)

lemma positive_weights: "\<not> fle (Fin (3 / 2)) (Fin 0)" "\<not> fle (Fin 1) (Fin 0)"
  by simp_all

lemma rating_score_in_range:
  assumes "0 \<le> n"
  shows "lies_in (Fin 1) (fmin (Fin 1) (fmul (fmax (Fin 0) b) (fadd (Fin (1 / 2)) (fmul (Fin (1 / 2))
           (if n < 10 then fmin (Fin 1) (fdiv (to_double (of_int n)) (Fin 10)) else Fin 1)))))"
proof -
  have "lies_in (Fin 1) (if n < 10 then fmin (Fin 1) (fdiv (to_double (of_int n)) (Fin 10)) else Fin 1)"
    using assms by (auto simp: to_double_ge_zero intro!: lies_in_fmin fdiv_nonneg) (simp add: lies_in_def)
  from damped_weight [OF this] show ?thesis by (auto intro!: lies_in_fmin fmul_nonneg)
qed

lemma sold_volume_canonical:
  "sold_volume m sn fresh = Inr s \<Longrightarrow> canonical_signal sn ''sold_volume'' DEMAND
     (map_option int_str (sn_sold_count sn)) s"
  unfolding sold_volume_def by (rule optional_signal_canonical, assumption, simp)

lemma review_depth_canonical:
  "review_depth m sn fresh = Inr s \<Longrightarrow> canonical_signal sn ''review_depth'' DEMAND
     (map_option int_str (sn_review_count sn)) s"
  unfolding review_depth_def by (rule optional_signal_canonical, assumption, simp)

lemma sales_velocity_signal_canonical:
  "sales_velocity_signal m sn fresh = Inr s \<Longrightarrow> canonical_signal sn ''sales_velocity'' MOMENTUM
     (map_option (\<lambda>v. fixed_str 2 v @ ''/day'') (sn_sales_velocity sn)) s"
  unfolding sales_velocity_signal_def by (rule optional_signal_canonical, assumption, simp)

lemma creator_growth_canonical:
  "creator_growth m sn fresh = Inr s \<Longrightarrow> canonical_signal sn ''creator_growth'' MOMENTUM
     (map_option (\<lambda>v. fixed_str 2 v @ ''/day'') (sn_creator_velocity sn)) s"
  unfolding creator_growth_def by (rule optional_signal_canonical, assumption, simp)

lemma commission_rate_canonical:
  "commission_rate sn fresh = Inr s \<Longrightarrow> canonical_signal sn ''commission_rate'' COMMERCIAL_ATTRACTIVENESS
     (map_option (\<lambda>r. fixed_str 1 r @ ''%'') (sn_commission_rate sn)) s"
  unfolding commission_rate_def by (rule optional_signal_canonical, assumption, simp)

lemma discount_appeal_canonical:
  "discount_appeal sn fresh = Inr s \<Longrightarrow> canonical_signal sn ''discount_appeal'' COMMERCIAL_ATTRACTIVENESS
     (map_option (\<lambda>d. fixed_str 1 d @ ''%'') (sn_discount_percent sn)) s"
  unfolding discount_appeal_def by (rule optional_signal_canonical, assumption, simp)

lemma rating_quality_canonical:
  "rating_quality sn fresh = Inr s \<Longrightarrow> canonical_signal sn ''rating_quality'' TRUST
     (map_option (\<lambda>r. fixed_str 2 r @ '' ('' @ int_str (reviews_of sn) @ '' reviews)'') (sn_rating sn)) s"
  unfolding rating_quality_def Let_def by (rule optional_signal_canonical, assumption, simp)

lemma market_whitespace_canonical:
  "market_whitespace m sn fresh = Inr s \<Longrightarrow> canonical_signal sn ''market_whitespace'' COMPETITION_OPPORTUNITY
     (map_option int_str (sn_similar_listing_count sn)) s"
  unfolding market_whitespace_def whitespace_signal_def by (rule optional_signal_canonical, assumption, simp)

lemma creator_whitespace_canonical:
  "creator_whitespace m sn fresh = Inr s \<Longrightarrow> canonical_signal sn ''creator_whitespace'' COMPETITION_OPPORTUNITY
     (map_option int_str (sn_creator_count sn)) s"
  unfolding creator_whitespace_def whitespace_signal_def by (rule optional_signal_canonical, assumption, simp)

text \<open>What success needs of the input besides short texts.\<close>

definition good_input :: "libm \<Rightarrow> candidate \<Rightarrow> pyfloat \<Rightarrow> bool" where
  "good_input m sn fresh \<longleftrightarrow> libm_ok m \<and> sn_platform sn \<noteq> [] \<and> 0 \<le> reviews_of sn \<and> lies_in (Fin 1) fresh"

lemma sold_volume_exists:
  assumes "good_input m sn fresh"
  shows "(\<exists>s. sold_volume m sn fresh = Inr s) \<longleftrightarrow>
    short (map_option int_str (sn_sold_count sn))"
  unfolding sold_volume_def
  by (rule optional_signal_exists) (use assms in \<open>(simp_all only: good_input_def registered positive_weights plain, simp_all add: log_share_int_nonneg zero_in_range lies_in_fmin)\<close>)

lemma review_depth_exists:
  assumes "good_input m sn fresh"
  shows "(\<exists>s. review_depth m sn fresh = Inr s) \<longleftrightarrow>
    short (map_option int_str (sn_review_count sn))"
  unfolding review_depth_def
  by (rule optional_signal_exists) (use assms in \<open>(simp_all only: good_input_def registered positive_weights plain, simp_all add: log_share_int_nonneg zero_in_range lies_in_fmin)\<close>)

lemma sales_velocity_signal_exists:
  assumes "good_input m sn fresh"
  shows "(\<exists>s. sales_velocity_signal m sn fresh = Inr s) \<longleftrightarrow>
    short (map_option (\<lambda>v. fixed_str 2 v @ ''/day'') (sn_sales_velocity sn))"
  unfolding sales_velocity_signal_def
  by (rule optional_signal_exists) (use assms in \<open>(simp_all only: good_input_def registered positive_weights plain, simp_all add: log_share_float_nonneg lies_in_fmin)\<close>)

lemma creator_growth_exists:
  assumes "good_input m sn fresh"
  shows "(\<exists>s. creator_growth m sn fresh = Inr s) \<longleftrightarrow>
    short (map_option (\<lambda>v. fixed_str 2 v @ ''/day'') (sn_creator_velocity sn))"
  unfolding creator_growth_def
  by (rule optional_signal_exists) (use assms in \<open>(simp_all only: good_input_def registered positive_weights plain, simp_all add: log_share_float_nonneg lies_in_fmin)\<close>)

lemma commission_rate_exists:
  assumes "good_input m sn fresh"
  shows "(\<exists>s. commission_rate sn fresh = Inr s) \<longleftrightarrow>
    short (map_option (\<lambda>r. fixed_str 1 r @ ''%'') (sn_commission_rate sn))"
  unfolding commission_rate_def
  by (rule optional_signal_exists) (use assms in \<open>(simp_all only: good_input_def registered positive_weights plain, simp_all add: lies_in_fmin)\<close>)

lemma discount_appeal_exists:
  assumes "good_input m sn fresh"
  shows "(\<exists>s. discount_appeal sn fresh = Inr s) \<longleftrightarrow>
    short (map_option (\<lambda>d. fixed_str 1 d @ ''%'') (sn_discount_percent sn))"
  unfolding discount_appeal_def
  by (rule optional_signal_exists) (use assms in \<open>(simp_all only: good_input_def registered positive_weights plain, simp_all add: lies_in_fmin)\<close>)

lemma rating_quality_exists:
  assumes "good_input m sn fresh"
  shows "(\<exists>s. rating_quality sn fresh = Inr s) \<longleftrightarrow>
    short (map_option (\<lambda>r. fixed_str 2 r @ '' ('' @ int_str (reviews_of sn) @ '' reviews)'') (sn_rating sn))"
  unfolding rating_quality_def Let_def
  by (rule optional_signal_exists) (use assms in \<open>(simp_all only: good_input_def registered positive_weights plain rating_score_in_range, simp_all)\<close>)

lemma market_whitespace_exists:
  assumes "good_input m sn fresh"
  shows "(\<exists>s. market_whitespace m sn fresh = Inr s) \<longleftrightarrow>
    short (map_option int_str (sn_similar_listing_count sn))"
  unfolding market_whitespace_def whitespace_signal_def
  by (rule optional_signal_exists) (use assms in \<open>(simp_all only: good_input_def registered positive_weights plain, simp_all add: log_share_int_nonneg one_minus_in_range)\<close>)

lemma creator_whitespace_exists:
  assumes "good_input m sn fresh"
  shows "(\<exists>s. creator_whitespace m sn fresh = Inr s) \<longleftrightarrow>
    short (map_option int_str (sn_creator_count sn))"
  unfolding creator_whitespace_def whitespace_signal_def
  by (rule optional_signal_exists) (use assms in \<open>(simp_all only: good_input_def registered positive_weights plain, simp_all add: log_share_int_nonneg one_minus_in_range)\<close>)

section \<open>The whole snapshot\<close>

lemmas signals_canonical =
  sold_volume_canonical review_depth_canonical sales_velocity_signal_canonical creator_growth_canonical commission_rate_canonical
  discount_appeal_canonical rating_quality_canonical market_whitespace_canonical creator_whitespace_canonical

lemmas signals_exist =
  sold_volume_exists review_depth_exists sales_velocity_signal_exists creator_growth_exists commission_rate_exists
  discount_appeal_exists rating_quality_exists market_whitespace_exists creator_whitespace_exists

lemma normalize_Inr:
  "normalize_snapshot m sn ev pol = Inr ss \<Longrightarrow>
     \<exists>now. ev = Some now \<and> snapshot_signals m sn (calculate_freshness m (sn_observed_at sn) now
       (po_half_life (case pol of None \<Rightarrow> default_policy | Some p \<Rightarrow> p))) = map Inr ss"
  by (auto simp: normalize_snapshot_def collect_results_Inr split: option.splits)

lemma normalize_canonical:
  assumes "normalize_snapshot m sn ev pol = Inr ss"
  shows "list_all2 (\<lambda>((n, c), t) s. canonical_signal sn n c t s) (zip factual_signals (diagnostics sn)) ss"
proof -
  obtain fresh where "map Inr ss = snapshot_signals m sn fresh" using normalize_Inr [OF assms] by metis
  then show ?thesis
    unfolding snapshot_signals_def factual_signals_def diagnostics_def
    by (clarsimp simp: map_eq_Cons_conv simp del: One_nat_def append.simps) (intro conjI signals_canonical; erule sym)
qed

lemma valid_snapshot_good:
  assumes "mk_snapshot sn = Inr sn" "libm_ok m" "lies_in (Fin 1) fresh"
  shows "good_input m sn fresh"
proof -
  from assms(1) have "\<forall>g \<in> set (snapshot_guards sn). \<not> fst g" by (simp add: mk_snapshot_def raise_first_Inr)
  with assms(2,3) show ?thesis
    by (auto simp: snapshot_guards_def good_input_def reviews_of_def negative_int_def split: option.splits)
qed

lemma normalize_exists:
  assumes "mk_snapshot sn = Inr sn" "libm_ok m"
  shows "(\<exists>ss. normalize_snapshot m sn (Some now) pol = Inr ss) \<longleftrightarrow> list_all short (diagnostics sn)"
proof -
  define fresh where
    "fresh = calculate_freshness m (sn_observed_at sn) now (po_half_life (case pol of None \<Rightarrow> default_policy | Some p \<Rightarrow> p))"
  have "good_input m sn fresh" unfolding fresh_def by (rule valid_snapshot_good [OF assms calculate_freshness_unit])
  note e = signals_exist [OF this]
  have "(\<exists>ss. normalize_snapshot m sn (Some now) pol = Inr ss) \<longleftrightarrow> (\<forall>r \<in> set (snapshot_signals m sn fresh). \<exists>s. r = Inr s)"
    unfolding normalize_snapshot_def option.case Let_def fresh_def by (rule collect_results_exists)
  also have "\<dots> \<longleftrightarrow> list_all short (diagnostics sn)"
    unfolding snapshot_signals_def diagnostics_def list_all_iff list.set ball_simps e ..
  finally show ?thesis .
qed

text \<open>Whatever goes wrong is a \<open>ValueError\<close>.\<close>

definition value_errors :: "exn + 'a \<Rightarrow> bool" where
  "value_errors r \<longleftrightarrow> (\<forall>e. r = Inl e \<longrightarrow> (\<exists>t. e = ValueError t))"

lemma value_errors_simps [simp]:
  "value_errors (Inr x)" "value_errors (Inl (ValueError t))" "value_errors (raise_first gs y)"
  using raise_first_value_error by (auto simp: value_errors_def)

lemma value_errors_bind: "value_errors r \<Longrightarrow> (\<And>x. value_errors (f x)) \<Longrightarrow> value_errors (bind_result r f)"
  by (cases r) (auto simp: value_errors_def)

lemma value_errors_collect: "(\<And>r. r \<in> set rs \<Longrightarrow> value_errors r) \<Longrightarrow> value_errors (collect_results rs)"
  by (induction rs) (auto intro!: value_errors_bind)

lemma value_errors_signal:
  "value_errors (missing_signal n c w)" "value_errors (present_signal sn f fi r n c pr sc w)"
  by (auto simp: missing_signal_def present_signal_def mk_signal_def mk_evidence_def intro!: value_errors_bind)

lemma value_errors_signals: "r \<in> set (snapshot_signals m sn fresh) \<Longrightarrow> value_errors r"
  unfolding snapshot_signals_def list.set sold_volume_def review_depth_def
    sales_velocity_signal_def creator_growth_def commission_rate_def discount_appeal_def rating_quality_def
    market_whitespace_def creator_whitespace_def whitespace_signal_def Let_def
  by (elim insertE emptyE) (simp_all only: value_errors_signal split: option.split, simp_all)

lemma normalize_value_errors: "value_errors (normalize_snapshot m sn ev pol)"
  unfolding normalize_snapshot_def Let_def
  by (cases ev) (auto intro!: value_errors_collect value_errors_signals)

end
