(* ===== verification/Scoring.thy ===== *)
theory Scoring
  imports Normalizer_Facts
begin

text \<open>
  \<open>src/product_intelligence/scoring.py\<close>: the winning product score of a list of signals. Weights may be
  infinite or \<open>nan\<close> (the constructor of a signal only refuses weights up to 0); the arithmetic follows them.
\<close>

section \<open>Weighted signals\<close>

definition present_signals :: "signal list \<Rightarrow> signal list" where
  "present_signals ss = filter (\<lambda>s. sg_provenance s \<noteq> MISSING) ss"

definition total_weight :: "signal list \<Rightarrow> pyfloat" where
  "total_weight ss = fsum (map sg_weight ss)"

text \<open>\<open>sum(f(s) * s.weight) / sum(s.weight) if sum(s.weight) > 0 else 0.0\<close>\<close>

definition weighted_mean :: "(signal \<Rightarrow> pyfloat) \<Rightarrow> signal list \<Rightarrow> pyfloat" where
  "weighted_mean f ss =
     (if flt (Fin 0) (total_weight ss)
      then fdiv (fsum (map (\<lambda>s. fmul (f s) (sg_weight s)) ss)) (total_weight ss) else Fin 0)"

definition signal_coverage :: "signal list \<Rightarrow> pyfloat" where
  "signal_coverage ss =
     (if ss \<noteq> [] \<and> flt (Fin 0) (total_weight ss)
      then fdiv (total_weight (present_signals ss)) (total_weight ss) else Fin 0)"

section \<open>Categories\<close>

definition category_signals :: "signal list \<Rightarrow> category \<Rightarrow> signal list" where
  "category_signals ss c = filter (\<lambda>s. sg_category s = c) ss"

definition category_raw :: "signal list \<Rightarrow> category \<Rightarrow> pyfloat" where
  "category_raw ss c =
     (let present = present_signals (category_signals ss c)
      in if present = [] then Fin 0 else weighted_mean sg_score present)"

definition category_entry :: "signal list \<Rightarrow> category \<Rightarrow> pyfloat \<Rightarrow> category_score" where
  "category_entry ss c w =
     \<lparr>cs_category = c, cs_raw_score = clamp (Fin 1) (category_raw ss c), cs_weight = w,
      cs_weighted_score =
        clamp w (if present_signals (category_signals ss c) = [] then Fin 0 else fmul (category_raw ss c) w),
      cs_coverage = clamp (Fin 1) (signal_coverage (category_signals ss c)), cs_signals = category_signals ss c\<rparr>"

text \<open>
  The loop over the categories: the sums take the weight and the points, before clamping, of the categories
  with a present signal.
\<close>

fun category_loop ::
  "signal list \<Rightarrow> (category \<times> pyfloat) list \<Rightarrow> pyfloat \<Rightarrow> pyfloat \<Rightarrow>
     (category \<times> category_score) list \<times> pyfloat \<times> pyfloat" where
  "category_loop ss [] aw asc = ([], aw, asc)"
| "category_loop ss ((c, w) # cws) aw asc =
     (let missing = present_signals (category_signals ss c) = [];
          (scores, aw', asc') =
            category_loop ss cws (if missing then aw else fadd aw w)
              (if missing then asc else fadd asc (fmul (category_raw ss c) w))
      in ((c, category_entry ss c w) # scores, aw', asc'))"

definition base_score_of :: "pyfloat \<Rightarrow> pyfloat \<Rightarrow> pyfloat" where
  "base_score_of aw asc = clamp (Fin 100) (if flt (Fin 0) aw then fmul (fdiv asc aw) (Fin 100) else Fin 0)"

section \<open>Confidence\<close>

definition data_completeness :: "policy \<Rightarrow> (category \<times> category_score) list \<Rightarrow> pyfloat" where
  "data_completeness p scores =
     clamp (Fin 1)
       (fsum (map (\<lambda>(c, cs). fmul (cs_coverage cs) (fdiv (the (map_of (category_weights p) c)) (Fin 100))) scores))"

definition mean_of_present :: "(signal \<Rightarrow> pyfloat) \<Rightarrow> signal list \<Rightarrow> pyfloat" where
  "mean_of_present f present = clamp (Fin 1) (if present = [] then Fin 0 else weighted_mean f present)"

definition evidence_coverage :: "signal list \<Rightarrow> pyfloat" where
  "evidence_coverage present =
     clamp (Fin 1)
       (if present = [] then Fin 0
        else to_double (of_nat (length (filter (\<lambda>s. sg_evidence s \<noteq> [] \<and> sg_provenance s \<in> {OBSERVED, DERIVED}) present))
                        / of_nat (length present)))"

definition confidence_of :: "policy \<Rightarrow> (category \<times> category_score) list \<Rightarrow> signal list \<Rightarrow> confidence" where
  "confidence_of p scores present =
     (let dc = data_completeness p scores;
          fr = mean_of_present sg_freshness present;
          sr = mean_of_present sg_reliability present;
          ec = evidence_coverage present;
          overall = fadd (fadd (fadd (fmul (po_completeness_weight p) dc) (fmul (po_freshness_weight p) fr))
                      (fmul (po_reliability_weight p) sr)) (fmul (po_evidence_weight p) ec)
      in \<lparr>cf_completeness = dc, cf_freshness = fr, cf_reliability = sr, cf_evidence = ec,
          cf_overall = clamp (Fin 1) overall\<rparr>)"

section \<open>Explanations\<close>

definition supporting_signals :: "signal list \<Rightarrow> string list" where
  "supporting_signals present = map sg_name (filter (\<lambda>s. fle (flit (7 / 10)) (sg_score s)) present)"

fun weak_signals :: "signal list \<Rightarrow> string list" where
  "weak_signals [] = []"
| "weak_signals (s # ss) =
     (if sg_provenance s = MISSING then (''MISSING_'' @ sg_name s) # weak_signals ss
      else if flt (sg_score s) (flit (35 / 100)) then sg_name s # weak_signals ss else weak_signals ss)"

text \<open>The key of a piece of evidence; the printed time tells the same times apart as the time does.\<close>

definition evidence_key :: "signal_evidence \<Rightarrow> string \<times> string \<times> py_datetime" where
  "evidence_key e = (ev_signal_name e, ev_source_type e, ev_observed_at e)"

fun unique_evidence :: "signal_evidence list \<Rightarrow> (string \<times> string \<times> py_datetime) set \<Rightarrow> signal_evidence list" where
  "unique_evidence [] seen = []"
| "unique_evidence (e # es) seen =
     (if evidence_key e \<in> seen then unique_evidence es seen
      else e # unique_evidence es (insert (evidence_key e) seen))"

definition category_reason ::
  "(category \<times> category_score) list \<Rightarrow> category \<Rightarrow> string \<Rightarrow> string \<Rightarrow> (rat \<times> string) option \<Rightarrow> string list" where
  "category_reason scores c missing strong weak =
     (let cs = the (map_of scores c)
      in if feq (cs_coverage cs) (Fin 0) then [missing]
         else if fle (flit (3 / 4)) (cs_raw_score cs) then [strong]
         else (case weak of None \<Rightarrow> []
               | Some (t, code) \<Rightarrow> if flt (cs_raw_score cs) (flit t) then [code] else []))"

definition confidence_reasons :: "confidence \<Rightarrow> string list" where
  "confidence_reasons cf =
     [if fle (flit (8 / 10)) (cf_completeness cf) then ''HIGH_DATA_COMPLETENESS'' else ''LOW_DATA_COMPLETENESS'',
      if flt (cf_freshness cf) (flit (1 / 2)) then ''STALE_MARKET_DATA'' else ''FRESH_MARKET_DATA'',
      if flt (cf_evidence cf) (flit (1 / 2)) then ''LOW_EVIDENCE_COVERAGE'' else ''HIGH_EVIDENCE_COVERAGE'',
      if flt (cf_reliability cf) (flit (1 / 2)) then ''LOW_SOURCE_RELIABILITY'' else ''HIGH_SOURCE_RELIABILITY'']"

definition reason_codes :: "(category \<times> category_score) list \<Rightarrow> confidence \<Rightarrow> string list" where
  "reason_codes scores cf =
     category_reason scores DEMAND ''DEMAND_DATA_MISSING'' ''STRONG_DEMAND'' (Some (35 / 100, ''WEAK_DEMAND'')) @
     category_reason scores MOMENTUM ''INSUFFICIENT_MOMENTUM_DATA'' ''HIGH_MOMENTUM'' (Some (35 / 100, ''LOW_MOMENTUM'')) @
     category_reason scores COMMERCIAL_ATTRACTIVENESS ''COMMISSION_UNKNOWN'' ''FAVORABLE_ECONOMICS''
       (Some (35 / 100, ''LOW_COMMISSION'')) @
     category_reason scores TRUST ''TRUST_DATA_MISSING'' ''TRUST_SIGNAL_STRONG'' (Some (4 / 10, ''LOW_RATING'')) @
     category_reason scores CONTENTABILITY ''CONTENTABILITY_UNEVALUATED'' ''CONTENTABILITY_HIGH'' None @
     category_reason scores COMPETITION_OPPORTUNITY ''COMPETITION_DATA_MISSING'' ''COMPETITION_FAVORABLE''
       (Some (35 / 100, ''HIGH_SATURATION'')) @
     confidence_reasons cf"

section \<open>The score\<close>

definition policy_or_default :: "policy option \<Rightarrow> policy" where
  "policy_or_default pol = (case pol of None \<Rightarrow> default_policy | Some p \<Rightarrow> p)"

definition score_signals :: "string \<Rightarrow> string \<Rightarrow> signal list \<Rightarrow> py_datetime \<Rightarrow> policy \<Rightarrow> winning_score" where
  "score_signals cid platform ss now p =
     (let (scores, aw, asc) = category_loop ss (category_weights p) (Fin 0) (Fin 0);
          base = base_score_of aw asc;
          present = present_signals ss;
          cf = confidence_of p scores present;
          final = clamp (Fin 100) (fmul base (cf_overall cf))
      in \<lparr>ws_candidate_id = cid, ws_platform = platform, ws_base_score = base, ws_confidence = cf_overall cf,
          ws_final_score = final, ws_band = classify_decision p final (cf_overall cf), ws_categories = scores,
          ws_breakdown = cf, ws_supporting = supporting_signals present, ws_missing_or_weak = weak_signals ss,
          ws_evidence = unique_evidence (concat (map sg_evidence present)) {}, ws_reasons = reason_codes scores cf,
          ws_evaluated_at = now\<rparr>)"

definition score :: "string \<Rightarrow> string \<Rightarrow> signal list \<Rightarrow> py_datetime option \<Rightarrow> policy option \<Rightarrow> exn + winning_score" where
  "score cid platform ss evaluated pol =
     (case evaluated of
        None \<Rightarrow> Inl (ValueError ''evaluated_at timestamp is required for deterministic scoring'')
      | Some now \<Rightarrow> Inr (score_signals cid platform ss now (policy_or_default pol)))"

definition score_snapshot ::
  "libm \<Rightarrow> candidate \<Rightarrow> py_datetime option \<Rightarrow> signal list option \<Rightarrow> policy option \<Rightarrow> exn + winning_score" where
  "score_snapshot m sn evaluated semantic pol =
     (case evaluated of
        None \<Rightarrow> Inl (ValueError ''evaluated_at timestamp is required for deterministic scoring'')
      | Some now \<Rightarrow>
          let p = policy_or_default pol
          in bind_result (normalize_snapshot m sn (Some now) (Some p))
               (\<lambda>ss. score (sn_candidate_id sn) (sn_platform sn)
                       (ss @ (case semantic of None \<Rightarrow> [] | Some extra \<Rightarrow> extra)) (Some now) (Some p)))"

section \<open>The loop over the categories\<close>

lemma category_loop_entries:
  "fst (category_loop ss cws aw asc) = map (\<lambda>(c, w). (c, category_entry ss c w)) cws"
  by (induction ss cws aw asc rule: category_loop.induct) (auto simp: Let_def split: prod.split)

lemma score_categories:
  "ws_categories (score_signals cid pl ss now p) = map (\<lambda>(c, w). (c, category_entry ss c w)) (category_weights p)"
  using category_loop_entries [of ss "category_weights p" "Fin 0" "Fin 0"]
  by (auto simp: score_signals_def Let_def split: prod.split)

lemma score_parts:
  "ws_breakdown (score_signals cid pl ss now p) =
     confidence_of p (ws_categories (score_signals cid pl ss now p)) (present_signals ss)"
  "ws_confidence (score_signals cid pl ss now p) = cf_overall (ws_breakdown (score_signals cid pl ss now p))"
  "ws_final_score (score_signals cid pl ss now p) =
     clamp (Fin 100) (fmul (ws_base_score (score_signals cid pl ss now p)) (ws_confidence (score_signals cid pl ss now p)))"
  "ws_band (score_signals cid pl ss now p) =
     classify_decision p (ws_final_score (score_signals cid pl ss now p)) (ws_confidence (score_signals cid pl ss now p))"
  "\<exists>aw asc. ws_base_score (score_signals cid pl ss now p) = base_score_of aw asc"
  by (auto simp: score_signals_def Let_def split: prod.split)

lemma score_Inr: "score cid pl ss ev pol = Inr r \<longleftrightarrow>
    (\<exists>now. ev = Some now \<and> r = score_signals cid pl ss now (policy_or_default pol))"
  by (auto simp: score_def split: option.split)

lemma hundred_unit [simp]: "fle (Fin 0) (Fin 100)" "fle (Fin 0) (Fin 1)"
  by simp_all

lemma dimensions_in_range:
  "lies_in (Fin 1) (cf_completeness (confidence_of p sc pr))" "lies_in (Fin 1) (cf_freshness (confidence_of p sc pr))"
  "lies_in (Fin 1) (cf_reliability (confidence_of p sc pr))" "lies_in (Fin 1) (cf_evidence (confidence_of p sc pr))"
  "lies_in (Fin 1) (cf_overall (confidence_of p sc pr))"
  by (simp_all add: confidence_of_def Let_def data_completeness_def mean_of_present_def evidence_coverage_def)

lemma base_in_range: "lies_in (Fin 100) (ws_base_score (score_signals cid pl ss now p))"
  using score_parts(5) [of cid pl ss now p] by (auto simp: base_score_of_def)

lemma wf_float_fmul: "wf_float (fmul a b)"
  by (cases a; cases b) (simp_all add: wf_float_def is_double_def to_double_is_double [unfolded is_double_def] split: pyfloat.split)

lemma wf_hundred: "wf_float (Fin 100)" "wf_float (Fin 0)"
  by (simp_all add: wf_float_def is_double_numeral) (simp add: is_double_def to_double_def)

lemma base_wf: "wf_float (ws_base_score (score_signals cid pl ss now p))"
  using score_parts(5) [of cid pl ss now p]
  by (auto simp: base_score_of_def wf_hundred wf_float_fmul intro!: clamp_wf)

lemma final_is_product:
  "ws_final_score (score_signals cid pl ss now p) =
     fmul (ws_base_score (score_signals cid pl ss now p)) (ws_confidence (score_signals cid pl ss now p))"
  and final_below_base: "fle (ws_final_score (score_signals cid pl ss now p)) (ws_base_score (score_signals cid pl ss now p))"
proof -
  let ?b = "ws_base_score (score_signals cid pl ss now p)" and ?c = "ws_confidence (score_signals cid pl ss now p)"
  have c: "lies_in (Fin 1) ?c" by (simp add: score_parts dimensions_in_range)
  obtain b q where "?b = Fin b" "0 \<le> b" "?c = Fin q" "0 \<le> q"
    using lies_in_Fin [OF base_in_range] lies_in_Fin [OF c] by metis
  then have "fle (Fin 0) (fmul ?b ?c)" by (simp add: to_double_ge_zero)
  moreover have le: "fle (fmul ?b ?c) ?b" by (rule fmul_unit_le [OF base_wf base_in_range c])
  moreover have "fle ?b (Fin 100)" using base_in_range by (simp add: lies_in_def)
  ultimately have "lies_in (Fin 100) (fmul ?b ?c)" unfolding lies_in_def using fle_trans by blast
  then show p: "ws_final_score (score_signals cid pl ss now p) = fmul ?b ?c" by (simp add: score_parts(3) clamp_id)
  with le show "fle (ws_final_score (score_signals cid pl ss now p)) ?b" by simp
qed

section \<open>The bands\<close>

lemma band_insufficient_iff: "classify_decision p f c = INSUFFICIENT_DATA \<longleftrightarrow> flt c (po_insufficient p)"
  by (simp add: classify_decision_def)

lemma above_threshold_sufficient:
  assumes "mk_policy p = Inr p"
  shows "fle (po_recommended_confidence p) c \<Longrightarrow> \<not> flt c (po_insufficient p)"
    and "fle (po_review_confidence p) c \<Longrightarrow> \<not> flt c (po_insufficient p)"
  using thresholds_ordered [OF assms] by - (rule fle_not_flt, blast intro: fle_trans)+

lemma band_recommended_iff:
  assumes "mk_policy p = Inr p"
  shows "classify_decision p f c = RECOMMENDED \<longleftrightarrow>
    fle (po_recommended_score p) f \<and> fle (po_recommended_confidence p) c"
  using above_threshold_sufficient [OF assms] by (auto simp: classify_decision_def)

lemma band_at_least_review_iff:
  assumes "mk_policy p = Inr p"
  shows "classify_decision p f c \<in> {RECOMMENDED, NEEDS_REVIEW} \<longleftrightarrow>
    fle (po_review_score p) f \<and> fle (po_review_confidence p) c"
  using above_threshold_sufficient [OF assms] thresholds_ordered [OF assms]
  by (auto simp: classify_decision_def intro: fle_trans)

lemma band_monotone:
  assumes p: "mk_policy p = Inr p" and f: "fle f f'" and c: "fle c c'"
  shows "band_rank (classify_decision p f c) \<le> band_rank (classify_decision p f' c')"
proof -
  have I: "flt c' (po_insufficient p) \<Longrightarrow> flt c (po_insufficient p)"
    using c by (cases c; cases c'; cases "po_insufficient p") (auto simp: fle_def)
  have R: "classify_decision p f c = RECOMMENDED \<Longrightarrow> classify_decision p f' c' = RECOMMENDED"
    using band_recommended_iff [OF p] f c by (blast intro: fle_trans)
  have N: "classify_decision p f c \<in> {RECOMMENDED, NEEDS_REVIEW} \<Longrightarrow> classify_decision p f' c' \<in> {RECOMMENDED, NEEDS_REVIEW}"
    using band_at_least_review_iff [OF p] f c by (blast intro: fle_trans)
  show ?thesis
    using I R N band_insufficient_iff [of p f c] band_insufficient_iff [of p f' c']
    by (cases "classify_decision p f c"; cases "classify_decision p f' c'") auto
qed

section \<open>Nothing observed\<close>

lemma all_missing: "\<forall>s \<in> set ss. sg_provenance s = MISSING \<Longrightarrow> present_signals (category_signals ss c) = []"
  by (auto simp: present_signals_def category_signals_def filter_empty_conv)

lemma category_loop_missing:
  assumes "\<forall>s \<in> set ss. sg_provenance s = MISSING"
  shows "snd (category_loop ss cws aw asc) = (aw, asc)"
  using assms by (induction ss cws aw asc rule: category_loop.induct) (auto simp: all_missing Let_def split: prod.splits)

lemma to_double_zero [simp]: "to_double 0 = Fin 0"
  by (simp add: to_double_def)

lemma fdiv_zero: "flt (Fin 0) t \<Longrightarrow> fdiv (Fin 0) t = Fin 0"
  by (cases t) simp_all

lemma signal_coverage_missing: "present_signals ss = [] \<Longrightarrow> signal_coverage ss = Fin 0"
  by (simp add: signal_coverage_def total_weight_def fsum_def fdiv_zero)

lemma clamp_zero [simp]: "fle (Fin 0) hi \<Longrightarrow> clamp hi (Fin 0) = Fin 0"
  by (rule clamp_id) (simp add: lies_in_def)

lemma fmul_unit_zero: "lies_in (Fin 1) w \<Longrightarrow> fmul w (Fin 0) = Fin 0"
  by (cases w) (auto simp: lies_in_def)

lemma fsum_zeros: "\<forall>x \<in> set xs. x = Fin 0 \<Longrightarrow> fsum xs = Fin 0"
  unfolding fsum_def by (induction xs) auto

text \<open>The weights of a policy are floats.\<close>

definition float_weights :: "policy \<Rightarrow> bool" where
  "float_weights p \<longleftrightarrow> list_all wf_float (map snd (category_weights p))"

lemma zero_share:
  assumes "wf_float w" "is_finite w" "\<not> fle w (Fin 0)"
  shows "fmul (Fin 0) (fdiv w (Fin 100)) = Fin 0"
proof -
  obtain a where w: "w = Fin a" "0 < a" "is_double a"
    using assms by (cases w) (auto simp: is_finite_def wf_float_def)
  then have "fle (to_double (a / 100)) (Fin a)" by (intro to_double_le_double) auto
  then show ?thesis using w by (cases "to_double (a / 100)") (auto simp: to_double_def Let_def split: if_splits)
qed

lemma nothing_observed:
  assumes p: "mk_policy p = Inr p" "float_weights p" and s: "\<forall>s \<in> set ss. sg_provenance s = MISSING"
  shows "ws_base_score (score_signals cid pl ss now p) = Fin 0" "ws_final_score (score_signals cid pl ss now p) = Fin 0"
    "ws_confidence (score_signals cid pl ss now p) = Fin 0"
proof -
  let ?r = "score_signals cid pl ss now p"
  have pr: "present_signals ss = []" using s by (auto simp: present_signals_def filter_empty_conv)
  show base: "ws_base_score ?r = Fin 0"
    using category_loop_missing [OF s, of "category_weights p" "Fin 0" "Fin 0"]
    by (auto simp: score_signals_def Let_def base_score_of_def split: prod.split)
  have "fmul (cs_coverage (category_entry ss c w)) (fdiv (the (map_of (category_weights p) c)) (Fin 100)) = Fin 0"
    if "(c, w) \<in> set (category_weights p)" for c w
  proof -
    have "map_of (category_weights p) c = Some w" using that by (auto simp: category_weights_def)
    moreover have "wf_float w" using p(2) that by (force simp: float_weights_def list_all_iff)
    ultimately show ?thesis
      using category_weight_positive [OF p(1) that] all_missing [OF s, of c]
      by (simp add: category_entry_def signal_coverage_missing zero_share)
  qed
  then have "data_completeness p (ws_categories ?r) = Fin 0"
    unfolding data_completeness_def score_categories by (subst fsum_zeros) auto
  moreover have "fmul w (Fin 0) = Fin 0" if "w \<in> set (confidence_weights p)" for w
    using confidence_weight_unit [OF p(1) that] by (rule fmul_unit_zero)
  ultimately show c: "ws_confidence ?r = Fin 0"
    by (simp add: score_parts pr confidence_of_def Let_def mean_of_present_def evidence_coverage_def
        confidence_weights_def)
  show "ws_final_score ?r = Fin 0" by (simp add: final_is_product base c)
qed

section \<open>Evidence\<close>

lemma unique_evidence_keys:
  "evidence_key ` set (unique_evidence es seen) = evidence_key ` set es - seen"
  by (induction es seen rule: unique_evidence.induct) auto

lemma unique_evidence_distinct: "distinct (map evidence_key (unique_evidence es seen))"
  using unique_evidence_keys by (induction es seen rule: unique_evidence.induct) auto

lemma unique_evidence_subset: "set (unique_evidence es seen) \<subseteq> set es"
  by (induction es seen rule: unique_evidence.induct) auto

end
