(* ===== verification/Ranking.thy ===== *)
theory Ranking
  imports Scoring "HOL-Library.Multiset"
begin

text \<open>
  \<open>src/product_intelligence/ranking.py\<close>: the bounded ranking of candidate snapshots by their scores. The
  reasons of a \<open>CandidateRankingError\<close> are constructors; \<open>RankRaised\<close> is an exception of the scoring.
\<close>

datatype rank_error =
    NoEvaluationTime
  | CandidateCount nat
  | ShortlistNotInteger
  | ShortlistOutOfRange int
  | ShortlistTooLarge
  | DuplicateIds "string list"
  | RankRaised exn

record ranked =
  rk_candidate :: candidate
  rk_score :: winning_score

definition mk_ranked :: "candidate \<Rightarrow> winning_score \<Rightarrow> exn + ranked" where
  "mk_ranked sn ws =
     (if sn_candidate_id sn \<noteq> ws_candidate_id ws
      then Inl (ValueError ''candidate and score candidate_id values must match'')
      else if sn_platform sn \<noteq> ws_platform ws
      then Inl (ValueError ''candidate and score platform values must match'')
      else Inr \<lparr>rk_candidate = sn, rk_score = ws\<rparr>)"

text \<open>How many results a request asks for.\<close>

definition shortlist_of :: "nat \<Rightarrow> pyval \<Rightarrow> rank_error + nat" where
  "shortlist_of n want =
     (case want of
        PNone \<Rightarrow> Inr n
      | PInt k \<Rightarrow>
          if k < 1 \<or> 100 < k then Inl (ShortlistOutOfRange k)
          else if int n < k then Inl ShortlistTooLarge else Inr (nat k)
      | _ \<Rightarrow> Inl ShortlistNotInteger)"

fun repeated_ids :: "string list \<Rightarrow> string set \<Rightarrow> string set" where
  "repeated_ids [] seen = {}"
| "repeated_ids (i # ids) seen = (if i \<in> seen then {i} else {}) \<union> repeated_ids ids (insert i seen)"

definition sort_key_of :: "ranked \<Rightarrow> pyfloat \<times> pyfloat \<times> pyfloat \<times> pyfloat \<times> pyfloat \<times> pyfloat \<times> pyfloat \<times> string" where
  "sort_key_of r =
     (let s = rk_score r; c = ws_breakdown s
      in (fneg (ws_final_score s), fneg (ws_confidence s), fneg (ws_base_score s), fneg (cf_completeness c),
          fneg (cf_freshness c), fneg (cf_reliability c), fneg (cf_evidence c), sn_candidate_id (rk_candidate r)))"

definition rank_entry :: "libm \<Rightarrow> py_datetime \<Rightarrow> policy option \<Rightarrow> candidate \<Rightarrow> exn + ranked" where
  "rank_entry m now pol sn = bind_result (score_snapshot m sn (Some now) None pol) (mk_ranked sn)"

definition rank ::
  "libm \<Rightarrow> candidate list \<Rightarrow> py_datetime option \<Rightarrow> pyval \<Rightarrow> policy option \<Rightarrow> rank_error + ranked list" where
  "rank m cs evaluated want pol =
     (case evaluated of
        None \<Rightarrow> Inl NoEvaluationTime
      | Some now \<Rightarrow>
          if length cs < 1 \<or> 100 < length cs then Inl (CandidateCount (length cs))
          else bind_result (shortlist_of (length cs) want) (\<lambda>k.
            let dups = repeated_ids (map sn_candidate_id cs) {}
            in if dups \<noteq> {} then Inl (DuplicateIds (sorted_list_of_set dups))
               else (case collect_results (map (rank_entry m now pol) cs) of
                       Inl e \<Rightarrow> Inl (RankRaised e)
                     | Inr rs \<Rightarrow> Inr (take k (sort_key sort_key_of rs)))))"

section \<open>Requests\<close>

lemma repeated_ids_empty: "repeated_ids ids seen = {} \<longleftrightarrow> distinct ids \<and> set ids \<inter> seen = {}"
  by (induction ids arbitrary: seen) auto

lemma shortlist_Inr:
  "shortlist_of n want = Inr k \<longleftrightarrow>
     want = PNone \<and> k = n \<or> (\<exists>i. want = PInt i \<and> 1 \<le> i \<and> i \<le> 100 \<and> i \<le> int n \<and> k = nat i)"
  by (cases want) (auto simp: shortlist_of_def)

lemma shortlist_le: "shortlist_of n want = Inr k \<Longrightarrow> k \<le> n"
  by (auto simp: shortlist_Inr)

section \<open>Entries\<close>

lemma score_ids: "ws_candidate_id (score_signals cid pl ss now p) = cid" "ws_platform (score_signals cid pl ss now p) = pl"
  by (simp_all add: score_signals_def Let_def split: prod.split)

lemma policy_or_default_Some [simp]: "policy_or_default (Some p) = p"
  by (simp add: policy_or_default_def)

lemma mk_ranked_own: "mk_ranked sn (score_signals (sn_candidate_id sn) (sn_platform sn) ss now p) =
    Inr \<lparr>rk_candidate = sn, rk_score = score_signals (sn_candidate_id sn) (sn_platform sn) ss now p\<rparr>"
  by (simp add: mk_ranked_def score_ids)

lemma rank_entry_def':
  "rank_entry m now pol sn =
     bind_result (normalize_snapshot m sn (Some now) (Some (policy_or_default pol))) (\<lambda>ss.
       Inr \<lparr>rk_candidate = sn,
            rk_score = score_signals (sn_candidate_id sn) (sn_platform sn) ss now (policy_or_default pol)\<rparr>)"
  by (cases "normalize_snapshot m sn (Some now) (Some (policy_or_default pol))")
     (simp_all add: rank_entry_def score_snapshot_def score_def mk_ranked_own)

lemma rank_entry_Inr:
  "rank_entry m now pol sn = Inr e \<longleftrightarrow>
     (\<exists>ss. normalize_snapshot m sn (Some now) (Some (policy_or_default pol)) = Inr ss \<and>
       e = \<lparr>rk_candidate = sn,
            rk_score = score_signals (sn_candidate_id sn) (sn_platform sn) ss now (policy_or_default pol)\<rparr>)"
  by (auto simp: rank_entry_def' bind_result_Inr_iff)

lemma rank_entry_candidate: "rank_entry m now pol sn = Inr e \<Longrightarrow> rk_candidate e = sn"
  by (auto simp: rank_entry_Inr)

lemma entries_candidates: "map (rank_entry m now pol) cs = map Inr es \<Longrightarrow> map rk_candidate es = cs"
proof (induction cs arbitrary: es)
  case (Cons c cs)
  then show ?case by (cases es) (auto dest: rank_entry_candidate)
qed simp

lemma case_raised_Inr: "(case r of Inl e \<Rightarrow> Inl (RankRaised e) | Inr x \<Rightarrow> Inr (f x)) = Inr y \<longleftrightarrow> (\<exists>x. r = Inr x \<and> y = f x)"
  by (cases r) auto

lemma rank_Inr:
  "rank m cs ev want pol = Inr rs \<longleftrightarrow>
     (\<exists>now k es. ev = Some now \<and> 1 \<le> length cs \<and> length cs \<le> 100 \<and> shortlist_of (length cs) want = Inr k \<and>
        distinct (map sn_candidate_id cs) \<and> map (rank_entry m now pol) cs = map Inr es \<and>
        rs = take k (sort_key sort_key_of es))"
proof (cases ev)
  case (Some now)
  have "rank m cs (Some now) want pol = Inr rs \<longleftrightarrow> \<not> (length cs < 1 \<or> 100 < length cs) \<and>
      (\<exists>k. shortlist_of (length cs) want = Inr k \<and> repeated_ids (map sn_candidate_id cs) {} = {} \<and>
        (\<exists>es. collect_results (map (rank_entry m now pol) cs) = Inr es \<and> rs = take k (sort_key sort_key_of es)))"
    unfolding rank_def option.case Let_def
    by (cases "shortlist_of (length cs) want"; cases "repeated_ids (map sn_candidate_id cs) {} = {}")
       (simp_all add: case_raised_Inr)
  also have "\<dots> \<longleftrightarrow> (1 \<le> length cs \<and> length cs \<le> 100) \<and>
      (\<exists>k. shortlist_of (length cs) want = Inr k \<and> distinct (map sn_candidate_id cs) \<and>
        (\<exists>es. map (rank_entry m now pol) cs = map Inr es \<and> rs = take k (sort_key sort_key_of es)))"
    unfolding collect_results_Inr repeated_ids_empty de_Morgan_disj not_less by simp
  finally show ?thesis unfolding Some by blast
qed (simp add: rank_def)

section \<open>The order\<close>

lemma sort_key_inj: "distinct (map sn_candidate_id (map rk_candidate es)) \<Longrightarrow> inj_on sort_key_of (set es)"
  by (auto simp: sort_key_of_def Let_def distinct_map inj_on_def)

lemma sort_key_unique:
  assumes "mset es = mset es'" "inj_on sort_key_of (set es)"
  shows "sort_key sort_key_of es = sort_key sort_key_of es'"
  using assms by (intro sort_key_inj_key_eq) simp_all

lemma fneg_le: "x \<noteq> NaN \<Longrightarrow> y \<noteq> NaN \<Longrightarrow> fneg x \<le> fneg y \<longleftrightarrow> fle y x"
  by (cases x; cases y) (auto simp: less_eq_pyfloat_def fle_def)

lemma sort_key_final:
  assumes "sort_key_of x \<le> sort_key_of y" "ws_final_score (rk_score x) \<noteq> NaN" "ws_final_score (rk_score y) \<noteq> NaN"
  shows "fle (ws_final_score (rk_score y)) (ws_final_score (rk_score x))"
proof -
  from assms(1) have "fneg (ws_final_score (rk_score x)) \<le> fneg (ws_final_score (rk_score y))"
    by (auto simp: sort_key_of_def Let_def less_eq_prod_def)
  with assms(2,3) show ?thesis by (simp add: fneg_le)
qed

lemma entry_final_number: "rank_entry m now pol sn = Inr e \<Longrightarrow> ws_final_score (rk_score e) \<noteq> NaN"
proof -
  assume "rank_entry m now pol sn = Inr e"
  then have "lies_in (Fin 100) (ws_final_score (rk_score e))" by (auto simp: rank_entry_Inr score_parts(3))
  then show ?thesis by (rule lies_in_not_NaN)
qed

lemma sorted_take_drop:
  assumes "sorted (map f xs)" "x \<in> set (take k xs)" "y \<in> set (drop k xs)"
  shows "f x \<le> f y"
proof -
  from assms(1) have "sorted (map f (take k xs) @ map f (drop k xs))" by (simp flip: map_append)
  with assms(2,3) show ?thesis by (simp add: sorted_append)
qed

section \<open>When a ranking succeeds\<close>

lemma rank_entry_exists:
  assumes "mk_snapshot sn = Inr sn" "libm_ok m"
  shows "(\<exists>e. rank_entry m now pol sn = Inr e) \<longleftrightarrow> list_all short (diagnostics sn)"
  unfolding rank_entry_Inr using normalize_exists [OF assms, of now "Some (policy_or_default pol)"] by simp

lemma all_Inr_map: "(\<exists>es. map f cs = map Inr es) \<longleftrightarrow> (\<forall>c \<in> set cs. \<exists>e. f c = Inr e)"
  unfolding collect_results_Inr [symmetric] collect_results_exists by simp

lemma rank_exists:
  assumes "\<forall>c \<in> set cs. mk_snapshot c = Inr c" "libm_ok m"
  shows "(\<exists>rs. rank m cs (Some now) want pol = Inr rs) \<longleftrightarrow>
    1 \<le> length cs \<and> length cs \<le> 100 \<and> (\<exists>k. shortlist_of (length cs) want = Inr k) \<and>
    distinct (map sn_candidate_id cs) \<and> (\<forall>c \<in> set cs. list_all short (diagnostics c))"
proof -
  have "(\<exists>es. map (rank_entry m now pol) cs = map Inr es) \<longleftrightarrow> (\<forall>c \<in> set cs. list_all short (diagnostics c))"
    unfolding all_Inr_map using rank_entry_exists [OF _ assms(2)] assms(1) by simp
  then show ?thesis unfolding rank_Inr by auto
qed

lemma entries_permute:
  assumes "map (rank_entry m now pol) cs = map Inr es" "mset cs' = mset cs"
  shows "\<exists>es'. map (rank_entry m now pol) cs' = map Inr es' \<and> mset es' = mset es"
proof -
  have es: "es = map (\<lambda>c. projr (rank_entry m now pol c)) cs"
    using arg_cong [OF assms(1), of "map projr"] by (simp add: o_def)
  have "\<forall>c \<in> set cs. \<exists>e. rank_entry m now pol c = Inr e" using assms(1) all_Inr_map by metis
  moreover have "set cs' = set cs" using assms(2) by (metis set_mset_mset)
  ultimately have "map (rank_entry m now pol) cs' = map Inr (map (\<lambda>c. projr (rank_entry m now pol c)) cs')"
    by (auto simp: o_def)
  moreover have "mset (map (\<lambda>c. projr (rank_entry m now pol c)) cs') = mset es" using assms(2) es by simp
  ultimately show ?thesis by blast
qed

lemma rank_permute:
  assumes "rank m cs ev want pol = Inr rs" "mset cs' = mset cs"
  shows "rank m cs' ev want pol = Inr rs"
proof -
  from assms(1) obtain now k es where r: "ev = Some now" "1 \<le> length cs" "length cs \<le> 100"
    "shortlist_of (length cs) want = Inr k" "distinct (map sn_candidate_id cs)"
    "map (rank_entry m now pol) cs = map Inr es" "rs = take k (sort_key sort_key_of es)"
    unfolding rank_Inr by blast
  obtain es' where e: "map (rank_entry m now pol) cs' = map Inr es'" "mset es' = mset es"
    using entries_permute [OF r(6) assms(2)] by blast
  have len: "length cs' = length cs" using assms(2) by (metis size_mset)
  have d: "distinct (map sn_candidate_id cs')"
    using r(5) assms(2) by (metis mset_eq_imp_distinct_iff mset_map)
  have "inj_on sort_key_of (set es)" using r(5) entries_candidates [OF r(6)] by (intro sort_key_inj) simp
  then have "sort_key sort_key_of es = sort_key sort_key_of es'" using e(2) by (intro sort_key_unique) simp_all
  with r e len d show ?thesis unfolding rank_Inr by auto
qed

text \<open>Everybody on the list scores at least as high as everybody left out, and the list itself descends.\<close>

lemma rank_best_first:
  assumes "rank m cs ev want pol = Inr rs"
  shows "sorted_wrt (\<lambda>x y. fle (ws_final_score (rk_score y)) (ws_final_score (rk_score x))) rs"
    and "\<exists>k. shortlist_of (length cs) want = Inr k \<and> length rs = k"
    and "set (map rk_candidate rs) \<subseteq> set cs \<and> distinct (map sn_candidate_id (map rk_candidate rs))"
    and "\<forall>c \<in> set cs. c \<notin> set (map rk_candidate rs) \<longrightarrow> (\<exists>now e. ev = Some now \<and> rank_entry m now pol c = Inr e \<and>
           (\<forall>x \<in> set rs. fle (ws_final_score (rk_score e)) (ws_final_score (rk_score x))))"
    and "\<forall>x \<in> set rs. \<exists>now. ev = Some now \<and> rank_entry m now pol (rk_candidate x) = Inr x"
proof -
  from assms obtain now k es where r: "ev = Some now" "length cs \<le> 100"
    "shortlist_of (length cs) want = Inr k" "distinct (map sn_candidate_id cs)"
    "map (rank_entry m now pol) cs = map Inr es" and rs: "rs = take k (sort_key sort_key_of es)"
    unfolding rank_Inr by blast
  define so where "so = sort_key sort_key_of es"
  have "length es = length cs" using arg_cong [OF r(5), of length] by simp
  then have so: "set so = set es" "length so = length cs" "sorted (map sort_key_of so)" "mset so = mset es"
    by (simp_all add: so_def)
  have cand: "map rk_candidate es = cs" by (rule entries_candidates [OF r(5)])
  have entry: "rank_entry m now pol (rk_candidate e) = Inr e" if "e \<in> set es" for e
  proof -
    from that have "Inr e \<in> set (map (rank_entry m now pol) cs)" using r(5) by auto
    then obtain c where "rank_entry m now pol c = Inr e" by auto
    with rank_entry_candidate [OF this] show ?thesis by simp
  qed
  have order: "fle (ws_final_score (rk_score y)) (ws_final_score (rk_score x))"
    if "sort_key_of x \<le> sort_key_of y" "x \<in> set es" "y \<in> set es" for x y
    by (rule sort_key_final [OF that(1) entry_final_number [OF entry [OF that(2)]] entry_final_number [OF entry [OF that(3)]]])
  have sub: "set rs \<subseteq> set es" using so(1) set_take_subset [of k so] by (simp add: rs flip: so_def)
  have "sorted_wrt (\<lambda>x y. sort_key_of x \<le> sort_key_of y) so" using so(3) by (simp add: sorted_map)
  then have "sorted_wrt (\<lambda>x y. sort_key_of x \<le> sort_key_of y) rs"
    by (simp add: rs sorted_wrt_take flip: so_def)
  then show "sorted_wrt (\<lambda>x y. fle (ws_final_score (rk_score y)) (ws_final_score (rk_score x))) rs"
    using sub order by (auto elim!: sorted_wrt_mono_rel [rotated])
  show "\<exists>k. shortlist_of (length cs) want = Inr k \<and> length rs = k"
    using r(3) shortlist_le [OF r(3)] so(2) by (simp add: rs flip: so_def)
  have "distinct (map sn_candidate_id (map rk_candidate so))"
    using r(4) cand so(4) by (metis mset_eq_imp_distinct_iff mset_map)
  then have "distinct (map sn_candidate_id (map rk_candidate rs))"
    by (simp add: rs flip: so_def) (metis distinct_take take_map)
  moreover have "set (map rk_candidate rs) \<subseteq> set cs" using sub cand by auto
  ultimately show "set (map rk_candidate rs) \<subseteq> set cs \<and> distinct (map sn_candidate_id (map rk_candidate rs))" by blast
  show "\<forall>x \<in> set rs. \<exists>now. ev = Some now \<and> rank_entry m now pol (rk_candidate x) = Inr x"
    using r(1) sub entry by blast
  have left: "\<exists>e. rank_entry m now pol c = Inr e \<and> (\<forall>x \<in> set rs. fle (ws_final_score (rk_score e)) (ws_final_score (rk_score x)))"
    if "c \<in> set cs" "c \<notin> set (map rk_candidate rs)" for c
  proof -
    have "c \<in> set (map rk_candidate es)" using \<open>c \<in> set cs\<close> unfolding cand .
    then obtain e where e: "e \<in> set es" "rk_candidate e = c" by auto
    then have "e \<in> set so" "e \<notin> set (take k so)" using so(1) that(2) by (auto simp: rs simp flip: so_def)
    then have "e \<in> set (drop k so)" by (metis Un_iff append_take_drop_id set_append)
    then have "fle (ws_final_score (rk_score e)) (ws_final_score (rk_score x))" if "x \<in> set rs" for x
      using that sorted_take_drop [OF so(3), of x k e] order [of x e] sub e by (auto simp: rs simp flip: so_def)
    with entry [OF e(1)] e(2) show ?thesis by blast
  qed
  then show "\<forall>c \<in> set cs. c \<notin> set (map rk_candidate rs) \<longrightarrow> (\<exists>now e. ev = Some now \<and> rank_entry m now pol c = Inr e \<and>
           (\<forall>x \<in> set rs. fle (ws_final_score (rk_score e)) (ws_final_score (rk_score x))))"
    using r(1) by blast
qed

end
