(* ===== verification/Scoring_Properties.thy ===== *)
theory Scoring_Properties
  imports Ranking
begin

text \<open>The properties of product scoring and ranking, with their witnesses.\<close>

section \<open>Inputs of the witnesses\<close>

definition ex_time :: py_datetime where
  "ex_time = \<lparr>dt_wall = 63900000000000000, dt_offset = None\<rparr>"

definition ex_snapshot :: candidate where
  "ex_snapshot =
     \<lparr>sn_candidate_id = ''c1'', sn_platform = ''shopee'', sn_url = ''https://x'', sn_observed_at = ex_time,
      sn_title = ''Lamp'', sn_source_product_id = None, sn_collector = ''discovery_adapter'', sn_shop_id = None,
      sn_shop_name = None, sn_category = None, sn_brand = None, sn_model = None, sn_price = Some NaN,
      sn_original_price = None, sn_discount_percent = None, sn_sold_count = Some 1200, sn_rating = None,
      sn_review_count = None, sn_commission_rate = None, sn_commission_value = None, sn_creator_count = None,
      sn_video_count = None, sn_similar_listing_count = None, sn_sales_velocity = Some PosInf,
      sn_review_velocity = None, sn_creator_velocity = None, sn_video_velocity = None\<rparr>"

text \<open>A logarithm that counts the digits.\<close>

definition ex_libm :: libm where
  "ex_libm =
     \<lparr>log10_int = (\<lambda>n. Fin (of_nat (length (nat_str (nat n)) - 1))),
      log10_float = (\<lambda>x. case x of Fin q \<Rightarrow> Fin (of_nat (length (nat_str (nat \<lfloor>q\<rfloor>)) - 1)) | _ \<Rightarrow> PosInf),
      half_pow = (\<lambda>x. Fin (1 / 2))\<rparr>"

lemma ex_libm_ok: "libm_ok ex_libm"
  by (auto simp: libm_ok_def ex_libm_def split: pyfloat.split)

lemma ex_snapshot_valid: "mk_snapshot ex_snapshot = Inr ex_snapshot"
  by (simp add: mk_snapshot_def raise_first_Inr snapshot_guards_def ex_snapshot_def negative_float_def
      negative_int_def outside_def)

lemma nat_str_1200: "nat_str 1200 = ''1200''"
  by code_simp

lemma ex_snapshot_short: "list_all short (diagnostics ex_snapshot)"
  by (simp add: diagnostics_def ex_snapshot_def fixed_str_def int_str_def nat_str_1200)

lemma second_valid: "mk_snapshot (ex_snapshot\<lparr>sn_candidate_id := ''c2''\<rparr>) = Inr (ex_snapshot\<lparr>sn_candidate_id := ''c2''\<rparr>)"
  by (simp add: mk_snapshot_def raise_first_Inr snapshot_guards_def ex_snapshot_def negative_float_def
      negative_int_def outside_def)

lemma second_short: "list_all short (diagnostics (ex_snapshot\<lparr>sn_candidate_id := ''c2''\<rparr>))"
  by (simp add: diagnostics_def ex_snapshot_def fixed_str_def int_str_def nat_str_1200)

lemma ex_ranking: "\<exists>rs. rank ex_libm [ex_snapshot, ex_snapshot\<lparr>sn_candidate_id := ''c2''\<rparr>] (Some ex_time) (PInt 1) None = Inr rs"
  by (subst rank_exists)
     (simp_all add: ex_libm_ok ex_snapshot_valid second_valid ex_snapshot_short second_short,
      simp_all add: shortlist_of_def ex_snapshot_def)

text \<open>A semantic signal with an unlimited weight.\<close>

definition heavy_signal :: "pyfloat \<Rightarrow> signal_evidence list \<Rightarrow> signal" where
  "heavy_signal x es =
     \<lparr>sg_name = ''hook_angles'', sg_category = CONTENTABILITY, sg_score = x, sg_provenance = DERIVED,
      sg_evidence = es, sg_freshness = Fin 1, sg_reliability = Fin 1, sg_weight = PosInf\<rparr>"

section \<open>Scoring\<close>

text \<open>C36. Whatever the signals, their weights being infinite or no numbers included, the base and the final
  score lie between 0 and 100, the confidence and its four dimensions between 0 and 1, every category between 0
  and its weight, and the final score never exceeds the base score.\<close>

theorem scores_are_bounded:
  assumes "score cid pl ss ev pol = Inr r" "mk_policy (policy_or_default pol) = Inr p"
  shows "lies_in (Fin 100) (ws_base_score r) \<and> lies_in (Fin 100) (ws_final_score r) \<and>
    lies_in (Fin 1) (ws_confidence r) \<and> fle (ws_final_score r) (ws_base_score r) \<and>
    (\<forall>x \<in> {cf_completeness (ws_breakdown r), cf_freshness (ws_breakdown r), cf_reliability (ws_breakdown r),
            cf_evidence (ws_breakdown r)}. lies_in (Fin 1) x) \<and>
    map fst (ws_categories r) = map fst (category_weights p) \<and>
    (\<forall>(c, cs) \<in> set (ws_categories r). cs_category cs = c \<and> map_of (category_weights p) c = Some (cs_weight cs) \<and>
       lies_in (Fin 1) (cs_raw_score cs) \<and> lies_in (Fin 1) (cs_coverage cs) \<and> lies_in (cs_weight cs) (cs_weighted_score cs))"
proof -
  from assms(1) obtain now where r: "r = score_signals cid pl ss now (policy_or_default pol)"
    unfolding score_Inr by blast
  note p = valid_policy_same [OF assms(2)]
  have pos: "fle (Fin 0) w" if "(c, w) \<in> set (category_weights p)" for c w
    using category_weight_positive [OF assms(2)] that p by (cases w) (fastforce simp: is_finite_def)+
  have w: "map_of (category_weights p) c = Some w" if "(c, w) \<in> set (category_weights p)" for c w
    using that by (auto simp: category_weights_def)
  have "\<forall>(c, cs) \<in> set (ws_categories r). cs_category cs = c \<and> map_of (category_weights p) c = Some (cs_weight cs) \<and>
       lies_in (Fin 1) (cs_raw_score cs) \<and> lies_in (Fin 1) (cs_coverage cs) \<and> lies_in (cs_weight cs) (cs_weighted_score cs)"
    using pos w unfolding r score_categories p [symmetric] by (auto simp: category_entry_def)
  moreover have "map fst (ws_categories r) = map fst (category_weights p)"
    unfolding r score_categories p by (simp add: o_def case_prod_beta)
  ultimately show ?thesis
    unfolding r using base_in_range final_below_base
    by (simp add: score_parts(1,2) dimensions_in_range) (simp add: score_parts(3))
qed

lemma heavy_score: "\<exists>r. score ''c1'' ''shopee'' [heavy_signal NaN []] (Some ex_time) None = Inr r"
  by (simp add: score_def)

theorem scores_are_bounded_witness:
  "\<exists>r. score ''c1'' ''shopee'' [heavy_signal NaN []] (Some ex_time) None = Inr r \<and>
     lies_in (Fin 100) (ws_base_score r) \<and> fle (ws_final_score r) (ws_base_score r)"
  using heavy_score scores_are_bounded [of _ _ _ _ None _ default_policy] default_policy_valid
  by (fastforce simp: policy_or_default_def)

text \<open>Under a valid policy a product is recommended exactly when both its final score and its confidence reach
  the thresholds of a recommendation, it is at least put up for review exactly when both reach the thresholds of
  a review, it lacks data exactly when its confidence is under the limit, and a product that is no worse in
  both numbers never lands in a worse band.\<close>

theorem bands_are_exact_and_monotone:
  assumes "mk_policy p = Inr p"
  shows "(classify_decision p f c = RECOMMENDED \<longleftrightarrow> fle (po_recommended_score p) f \<and> fle (po_recommended_confidence p) c) \<and>
    (classify_decision p f c \<in> {RECOMMENDED, NEEDS_REVIEW} \<longleftrightarrow> fle (po_review_score p) f \<and> fle (po_review_confidence p) c) \<and>
    (classify_decision p f c = INSUFFICIENT_DATA \<longleftrightarrow> flt c (po_insufficient p)) \<and>
    (fle f f' \<and> fle c c' \<longrightarrow> band_rank (classify_decision p f c) \<le> band_rank (classify_decision p f' c'))"
  using band_recommended_iff [OF assms] band_at_least_review_iff [OF assms] band_insufficient_iff
    band_monotone [OF assms] by simp

theorem bands_are_exact_and_monotone_witness:
  "mk_policy default_policy = Inr default_policy \<and>
   (classify_decision default_policy (Fin 90) (Fin 1) = RECOMMENDED \<longleftrightarrow>
      fle (Fin 80) (Fin 90) \<and> fle (flit (3 / 4)) (Fin 1)) \<and>
   band_rank (classify_decision default_policy (Fin 70) (Fin (1 / 2))) \<le> band_rank (classify_decision default_policy (Fin 90) (Fin 1))"
  using bands_are_exact_and_monotone [OF default_policy_valid, of "Fin 90" "Fin 1"]
    bands_are_exact_and_monotone [OF default_policy_valid, of "Fin 70" "Fin (1 / 2)" "Fin 90" "Fin 1"]
    default_policy_valid
  by (simp add: default_policy_def)

text \<open>A product of which nothing was observed scores 0 with confidence 0 and, as long as the policy asks
  for any confidence at all, is not judged.\<close>

theorem unobserved_product_is_not_judged:
  assumes "score cid pl ss ev pol = Inr r" "mk_policy (policy_or_default pol) = Inr p" "float_weights p"
    and "\<forall>s \<in> set ss. sg_provenance s = MISSING" "flt (Fin 0) (po_insufficient p)"
  shows "ws_base_score r = Fin 0 \<and> ws_final_score r = Fin 0 \<and> ws_confidence r = Fin 0 \<and> ws_band r = INSUFFICIENT_DATA"
proof -
  from assms(1) obtain now where r: "r = score_signals cid pl ss now p"
    unfolding score_Inr using valid_policy_same [OF assms(2)] by blast
  have "mk_policy p = Inr p" using assms(2) valid_policy_same [OF assms(2)] by simp
  from nothing_observed [OF this assms(3,4)] assms(5) show ?thesis
    unfolding r by (simp add: score_parts(4) band_insufficient_iff)
qed

lemma default_float_weights: "float_weights default_policy" "flt (Fin 0) (po_insufficient default_policy)"
  by (simp_all add: float_weights_def category_weights_def default_policy_def wf_float_def is_double_numeral float_values)

theorem unobserved_product_is_not_judged_witness:
  "ws_band (score_signals ''c1'' ''shopee'' [] ex_time default_policy) = INSUFFICIENT_DATA"
  by (rule unobserved_product_is_not_judged [of "''c1''" "''shopee''" "[]" "Some ex_time" None _ default_policy,
        THEN conjunct2, THEN conjunct2, THEN conjunct2])
     (simp_all add: score_def policy_or_default_def default_policy_valid default_float_weights)

section \<open>Infinite weights\<close>

text \<open>Sums with an infinite term: \<open>nan\<close> stays, and from the infinite term on the sum is infinite or \<open>nan\<close>.\<close>

lemma fadd_ge_zero: "fle (Fin 0) a \<Longrightarrow> fle (Fin 0) b \<Longrightarrow> fle (Fin 0) (fadd a b)"
  by (cases a; cases b) (auto simp: to_double_ge_zero)

lemma fadd_infinite: "fle (Fin 0) x \<Longrightarrow> fadd PosInf x = PosInf" "fle (Fin 0) x \<Longrightarrow> fadd x PosInf = PosInf"
  by (cases x; simp)+

lemma fadd_NaN [simp]: "fadd NaN x = NaN" "fadd x NaN = NaN"
  by (cases x; simp)+

lemma infinite_sum:
  "\<forall>x \<in> set xs. fle (Fin 0) x \<Longrightarrow> fle (Fin 0) a \<Longrightarrow> a = PosInf \<or> PosInf \<in> set xs \<Longrightarrow> foldl fadd a xs = PosInf"
  by (induction xs arbitrary: a) (auto simp: fadd_infinite fadd_ge_zero)

lemma undefined_sum:
  "\<forall>x \<in> set xs. x = NaN \<or> fle (Fin 0) x \<Longrightarrow> a = NaN \<or> fle (Fin 0) a \<Longrightarrow>
     a \<in> {PosInf, NaN} \<or> set xs \<inter> {PosInf, NaN} \<noteq> {} \<Longrightarrow> foldl fadd a xs \<in> {PosInf, NaN}"
proof (induction xs arbitrary: a)
  case (Cons x xs)
  have "fadd a x = NaN \<or> fle (Fin 0) (fadd a x)" using Cons.prems(1,2) fadd_ge_zero by auto
  moreover have "a \<in> {PosInf, NaN} \<or> x \<in> {PosInf, NaN} \<Longrightarrow> fadd a x \<in> {PosInf, NaN}"
    using Cons.prems(1,2) by (auto simp: fadd_infinite)
  ultimately have "foldl fadd (fadd a x) xs \<in> {PosInf, NaN}" using Cons.prems by (intro Cons.IH) auto
  then show ?case by simp
qed auto

text \<open>The mean of valid signals, one of them with an infinite weight.\<close>

lemma weighted_term:
  assumes "lies_in (Fin 1) x" "\<not> fle w (Fin 0)" "w \<noteq> NaN"
  shows "fle (Fin 0) w" "fmul x w = NaN \<or> fle (Fin 0) (fmul x w)" "w = PosInf \<Longrightarrow> fmul x w \<in> {PosInf, NaN}"
proof -
  obtain q where q: "x = Fin q" "0 \<le> q" using lies_in_Fin [OF assms(1)] by blast
  show "fle (Fin 0) w" using assms(2,3) by (cases w) auto
  show "fmul x w = NaN \<or> fle (Fin 0) (fmul x w)" "w = PosInf \<Longrightarrow> fmul x w \<in> {PosInf, NaN}"
    using q assms(2,3) by (cases w; auto simp: to_double_ge_zero fsign_def)+
qed

lemma infinite_mean:
  assumes "\<forall>s \<in> set ss. lies_in (Fin 1) (sg_score s) \<and> \<not> fle (sg_weight s) (Fin 0) \<and> sg_weight s \<noteq> NaN"
    and "h \<in> set ss" "sg_weight h = PosInf"
  shows "weighted_mean sg_score ss = NaN"
proof -
  have "total_weight ss = PosInf"
    unfolding total_weight_def fsum_def using assms weighted_term(1)
    by (intro infinite_sum) (auto simp: image_iff intro!: bexI [of _ h])
  moreover have "fsum (map (\<lambda>s. fmul (sg_score s) (sg_weight s)) ss) \<in> {PosInf, NaN}"
    unfolding fsum_def
  proof (rule undefined_sum)
    show "\<forall>x \<in> set (map (\<lambda>s. fmul (sg_score s) (sg_weight s)) ss). x = NaN \<or> fle (Fin 0) x"
      using assms(1) weighted_term(2) by auto
    have "fmul (sg_score h) (sg_weight h) \<in> {PosInf, NaN}" using assms weighted_term(3) by blast
    moreover have "fmul (sg_score h) (sg_weight h) \<in> set (map (\<lambda>s. fmul (sg_score s) (sg_weight s)) ss)"
      using assms(2) by simp
    ultimately show "Fin 0 \<in> {PosInf, NaN} \<or>
        set (map (\<lambda>s. fmul (sg_score s) (sg_weight s)) ss) \<inter> {PosInf, NaN} \<noteq> {}" by blast
  qed simp
  ultimately show ?thesis by (auto simp: weighted_mean_def)
qed

lemma mk_signal_parts:
  "mk_signal s = Inr s \<Longrightarrow> lies_in (Fin 1) (sg_score s) \<and> \<not> fle (sg_weight s) (Fin 0)"
  unfolding mk_signal_def raise_first_Inr by (auto simp: signal_guards_def)

lemma infinite_category:
  assumes "\<forall>s \<in> set ss. mk_signal s = Inr s \<and> sg_weight s \<noteq> NaN"
    and "h \<in> set ss" "sg_provenance h \<noteq> MISSING" "sg_weight h = PosInf"
  shows "present_signals (category_signals ss (sg_category h)) \<noteq> []" "category_raw ss (sg_category h) = NaN"
proof -
  let ?ps = "present_signals (category_signals ss (sg_category h))"
  have h: "h \<in> set ?ps" using assms(2,3) by (simp add: present_signals_def category_signals_def)
  have "\<forall>s \<in> set ?ps. lies_in (Fin 1) (sg_score s) \<and> \<not> fle (sg_weight s) (Fin 0) \<and> sg_weight s \<noteq> NaN"
    using assms(1) mk_signal_parts by (auto simp: present_signals_def category_signals_def)
  from infinite_mean [OF this h assms(4)] h show "?ps \<noteq> []" "category_raw ss (sg_category h) = NaN"
    by (auto simp: category_raw_def Let_def)
qed

text \<open>One undefined category makes the sum of the points undefined; the sum of the weights stays positive.\<close>

lemma category_loop_undefined:
  "asc = NaN \<or> (\<exists>c \<in> fst ` set cws. present_signals (category_signals ss c) \<noteq> [] \<and> category_raw ss c = NaN) \<Longrightarrow>
     snd (snd (category_loop ss cws aw asc)) = NaN"
proof (induction ss cws aw asc rule: category_loop.induct)
  case (2 ss c w cws aw asc)
  show ?case
  proof (cases "present_signals (category_signals ss c) = []")
    case True
    then have "asc = NaN \<or> (\<exists>c \<in> fst ` set cws. present_signals (category_signals ss c) \<noteq> [] \<and> category_raw ss c = NaN)"
      using 2(2) by auto
    with 2(1) True show ?thesis by (simp add: Let_def case_prod_beta)
  next
    case False
    then have "fadd asc (fmul (category_raw ss c) w) = NaN \<or>
        (\<exists>c \<in> fst ` set cws. present_signals (category_signals ss c) \<noteq> [] \<and> category_raw ss c = NaN)"
      using 2(2) by auto
    with 2(1) False show ?thesis by (simp add: Let_def case_prod_beta)
  qed
qed simp

lemma fadd_positive:
  assumes "fle (Fin 0) a" "wf_float w" "is_finite w" "\<not> fle w (Fin 0)"
  shows "flt (Fin 0) (fadd a w)"
proof -
  obtain q where q: "w = Fin q" "0 < q" "is_double q"
    using assms by (cases w) (auto simp: is_finite_def wf_float_def)
  show ?thesis
  proof (cases a)
    case (Fin x)
    then have "\<not> flt (to_double (x + q)) (Fin q)" using assms(1) q by (intro to_double_ge_double) auto
    moreover have "fle (Fin 0) (to_double (x + q))" using Fin assms(1) q(2) by (intro to_double_ge_zero) auto
    ultimately show ?thesis using Fin q by (cases "to_double (x + q)") auto
  qed (use assms q in auto)
qed

lemma category_loop_weight:
  "\<forall>w \<in> snd ` set cws. wf_float w \<and> is_finite w \<and> \<not> fle w (Fin 0) \<Longrightarrow> fle (Fin 0) aw \<Longrightarrow>
     flt (Fin 0) aw \<or> (\<exists>c \<in> fst ` set cws. present_signals (category_signals ss c) \<noteq> []) \<Longrightarrow>
     flt (Fin 0) (fst (snd (category_loop ss cws aw asc)))"
proof (induction ss cws aw asc rule: category_loop.induct)
  case (2 ss c w cws aw asc)
  have w: "flt (Fin 0) (fadd aw w)" "fle (Fin 0) (fadd aw w)"
    using fadd_positive [of aw w] 2(2,3) by (auto simp: fle_def)
  show ?case
  proof (cases "present_signals (category_signals ss c) = []")
    case True
    with 2(4) have "flt (Fin 0) aw \<or> (\<exists>c \<in> fst ` set cws. present_signals (category_signals ss c) \<noteq> [])" by auto
    with 2(1-3) True show ?thesis by (simp add: Let_def case_prod_beta)
  next
    case False
    with 2(1,2) w show ?thesis by (simp add: Let_def case_prod_beta)
  qed
qed simp

text \<open>C40. The constructor of a signal accepts an infinite weight, and one observed signal that has it decides the
  base score alone: among any signals the constructor accepts (weights that are not \<open>nan\<close>), in any category and
  under any valid policy, the base score is 100, whatever this signal and the others score, 0 included.\<close>

theorem infinite_weight_saturates_the_score:
  assumes "\<forall>s \<in> set ss. mk_signal s = Inr s \<and> sg_weight s \<noteq> NaN"
    and "h \<in> set ss" "sg_provenance h \<noteq> MISSING" "sg_weight h = PosInf"
    and "mk_policy p = Inr p" "float_weights p"
  shows "ws_base_score (score_signals cid pl ss now p) = Fin 100"
proof -
  note h = infinite_category [OF assms(1-4)]
  obtain wt where c: "(sg_category h, wt) \<in> set (category_weights p)"
    by (cases "sg_category h") (auto simp: category_weights_def)
  have w: "\<forall>w \<in> snd ` set (category_weights p). wf_float w \<and> is_finite w \<and> \<not> fle w (Fin 0)"
    using category_weight_positive [OF assms(5)] assms(6) by (force simp: float_weights_def list_all_iff)
  have c: "sg_category h \<in> fst ` set (category_weights p)" using c by force
  obtain scores aw asc where l: "category_loop ss (category_weights p) (Fin 0) (Fin 0) = (scores, aw, asc)"
    by (metis prod_cases3)
  have "snd (snd (category_loop ss (category_weights p) (Fin 0) (Fin 0))) = NaN"
    using h c by (intro category_loop_undefined disjI2) blast
  with l have "asc = NaN" by simp
  moreover have "flt (Fin 0) (fst (snd (category_loop ss (category_weights p) (Fin 0) (Fin 0))))"
    using h(1) c by (intro category_loop_weight [OF w] disjI2) (simp, blast)
  ultimately have "base_score_of aw asc = Fin 100"
    using l by (simp add: base_score_of_def clamp_def fmin_def fmax_def)
  with l show ?thesis by (simp add: score_signals_def Let_def)
qed

theorem infinite_weight_saturates_the_score_witness:
  "mk_signal (heavy_signal (Fin 0) []) = Inr (heavy_signal (Fin 0) []) \<and>
   ws_base_score (score_signals ''c1'' ''shopee''
     [heavy_signal (Fin 0) [], (heavy_signal (Fin 0) [])\<lparr>sg_name := ''hook_pace'', sg_weight := Fin 1\<rparr>] ex_time default_policy) = Fin 100"
proof -
  have m: "mk_signal (heavy_signal (Fin 0) []) = Inr (heavy_signal (Fin 0) [])"
    "mk_signal ((heavy_signal (Fin 0) [])\<lparr>sg_name := ''hook_pace'', sg_weight := Fin 1\<rparr>) =
       Inr ((heavy_signal (Fin 0) [])\<lparr>sg_name := ''hook_pace'', sg_weight := Fin 1\<rparr>)"
    by (simp_all add: mk_signal_def raise_first_Inr signal_guards_def heavy_signal_def factual_signals_def
        semantic_signals_def lies_in_def)
  with infinite_weight_saturates_the_score [of "[heavy_signal (Fin 0) [],
      (heavy_signal (Fin 0) [])\<lparr>sg_name := ''hook_pace'', sg_weight := Fin 1\<rparr>]" "heavy_signal (Fin 0) []" default_policy]
    default_policy_valid default_float_weights(1)
  show ?thesis by (simp add: heavy_signal_def)
qed

section \<open>Snapshots\<close>

text \<open>C38. When a snapshot is normalised, the result is exactly the nine canonical signals in the registered order
  and category, each acceptable to the constructor of signals, missing exactly when its field was not observed,
  and otherwise carrying one piece of evidence with the printed value and the time of the observation.\<close>

theorem normalisation_is_canonical:
  assumes "normalize_snapshot m sn ev pol = Inr ss"
  shows "map sg_name ss = map fst factual_signals \<and> map sg_category ss = map snd factual_signals \<and>
    (\<forall>s \<in> set ss. mk_signal s = Inr s) \<and>
    map (\<lambda>s. sg_provenance s = MISSING) ss = map (\<lambda>t. t = None) (diagnostics sn) \<and>
    list_all2 (\<lambda>t s. t \<noteq> None \<longrightarrow> (\<exists>e. sg_evidence s = [e] \<and> ev_raw_value e = t \<and> ev_observed_at e = sn_observed_at sn))
      (diagnostics sn) ss"
proof -
  have c: "list_all2 (\<lambda>((n, c), t) s. canonical_signal sn n c t s) (zip factual_signals (diagnostics sn)) ss"
    by (rule normalize_canonical [OF assms])
  have len: "length factual_signals = 9" "length (diagnostics sn) = 9"
    by (simp_all add: factual_signals_def diagnostics_def)
  with list_all2_lengthD [OF c] have ss: "length ss = 9" by simp
  have k: "canonical_signal sn (fst (factual_signals ! i)) (snd (factual_signals ! i)) (diagnostics sn ! i) (ss ! i)"
    if "i < 9" for i
    using list_all2_nthD2 [OF c, of i] that len ss by (simp add: case_prod_beta)
  have "map sg_name ss = map fst factual_signals" "map sg_category ss = map snd factual_signals"
    using len ss k by (auto intro!: nth_equalityI simp: canonical_signal_def)
  moreover have "\<forall>s \<in> set ss. mk_signal s = Inr s"
    using ss k by (auto simp: in_set_conv_nth canonical_signal_def)
  moreover have "map (\<lambda>s. sg_provenance s = MISSING) ss = map (\<lambda>t. t = None) (diagnostics sn)"
  proof (rule nth_equalityI)
    fix i assume "i < length (map (\<lambda>s. sg_provenance s = MISSING) ss)"
    with ss k [of i] len show "map (\<lambda>s. sg_provenance s = MISSING) ss ! i = map (\<lambda>t. t = None) (diagnostics sn) ! i"
      by (auto simp: canonical_signal_def split: option.splits)
  qed (simp add: ss len)
  moreover have "diagnostics sn ! i \<noteq> None \<longrightarrow> (\<exists>e. sg_evidence (ss ! i) = [e] \<and> ev_raw_value e = diagnostics sn ! i \<and>
      ev_observed_at e = sn_observed_at sn)" if "i < 9" for i
    using k [OF that] by (auto simp: canonical_signal_def)
  ultimately show ?thesis using len ss by (simp add: list_all2_conv_all_nth)
qed

theorem normalisation_is_canonical_witness:
  "\<exists>ss. normalize_snapshot ex_libm ex_snapshot (Some ex_time) None = Inr ss \<and>
     map sg_name ss = map fst factual_signals"
proof -
  obtain ss where "normalize_snapshot ex_libm ex_snapshot (Some ex_time) None = Inr ss"
    using normalize_exists [OF ex_snapshot_valid ex_libm_ok, of ex_time None] ex_snapshot_short by blast
  with normalisation_is_canonical [OF this] show ?thesis by blast
qed

text \<open>C39. A valid snapshot is scored exactly when none of the texts printed for its evidence is longer than 120
  characters; otherwise a value error is raised. So a snapshot with a count of more than 120 digits is accepted
  by its own constructor and cannot be scored.\<close>

theorem valid_snapshot_scores_iff_short:
  assumes "mk_snapshot sn = Inr sn" "libm_ok m"
  shows "((\<exists>r. score_snapshot m sn (Some now) None pol = Inr r) \<longleftrightarrow>
      (\<forall>t. Some t \<in> set (diagnostics sn) \<longrightarrow> length t \<le> 120)) \<and>
    (\<forall>e. score_snapshot m sn (Some now) None pol = Inl e \<longrightarrow> (\<exists>t. e = ValueError t))"
proof -
  have "(\<forall>t. Some t \<in> set (diagnostics sn) \<longrightarrow> length t \<le> 120) \<longleftrightarrow> list_all short (diagnostics sn)"
    unfolding list_all_iff short_def by blast
  then have "(\<exists>r. score_snapshot m sn (Some now) None pol = Inr r) \<longleftrightarrow>
      (\<forall>t. Some t \<in> set (diagnostics sn) \<longrightarrow> length t \<le> 120)"
    using normalize_exists [OF assms, of now "Some (policy_or_default pol)"]
    by (simp add: score_snapshot_def Let_def bind_result_Inr_iff score_def)
  moreover have "\<exists>t. e = ValueError t" if "score_snapshot m sn (Some now) None pol = Inl e" for e
    using that normalize_value_errors
    by (auto simp: score_snapshot_def Let_def bind_result_Inl_iff score_def value_errors_def)
  ultimately show ?thesis by blast
qed

definition ex_huge_snapshot :: candidate where
  "ex_huge_snapshot = ex_snapshot\<lparr>sn_sold_count := Some (10 ^ 120)\<rparr>"

lemma nat_str_length: "10 ^ k \<le> n \<Longrightarrow> k < length (nat_str n)"
proof (induction k arbitrary: n)
  case 0
  show ?case by (subst nat_str.simps) simp
next
  case (Suc k)
  then have "10 ^ k \<le> n div 10" "\<not> n < 10" by (auto simp: less_eq_div_iff_mult_less_eq mult.commute not_less intro: order_trans [rotated])
  with Suc.IH [of "n div 10"] show ?case by (subst nat_str.simps) simp
qed

lemma ex_huge_valid: "mk_snapshot ex_huge_snapshot = Inr ex_huge_snapshot"
  by (simp add: mk_snapshot_def raise_first_Inr snapshot_guards_def ex_huge_snapshot_def ex_snapshot_def
      negative_float_def negative_int_def outside_def)

lemma ex_huge_text: "Some (int_str (10 ^ 120)) \<in> set (diagnostics ex_huge_snapshot)" "\<not> length (int_str (10 ^ 120)) \<le> 120"
proof -
  show "Some (int_str (10 ^ 120)) \<in> set (diagnostics ex_huge_snapshot)"
    by (simp add: diagnostics_def ex_huge_snapshot_def)
  have "120 < length (nat_str (10 ^ 120))" by (rule nat_str_length) simp
  moreover have "int_str (10 ^ 120) = nat_str (10 ^ 120)" unfolding int_str_def by (simp add: nat_power_eq)
  ultimately show "\<not> length (int_str (10 ^ 120)) \<le> 120" by simp
qed

theorem valid_snapshot_scores_iff_short_witness:
  "(\<exists>r. score_snapshot ex_libm ex_snapshot (Some ex_time) None None = Inr r) \<and>
   mk_snapshot ex_huge_snapshot = Inr ex_huge_snapshot \<and>
   \<not> (\<exists>r. score_snapshot ex_libm ex_huge_snapshot (Some ex_time) None None = Inr r)"
proof -
  have "\<forall>t. Some t \<in> set (diagnostics ex_snapshot) \<longrightarrow> length t \<le> 120"
    using ex_snapshot_short unfolding list_all_iff short_def by blast
  then show ?thesis
    using valid_snapshot_scores_iff_short [OF ex_snapshot_valid ex_libm_ok, of ex_time None]
      valid_snapshot_scores_iff_short [OF ex_huge_valid ex_libm_ok, of ex_time None] ex_huge_valid ex_huge_text
    by blast
qed

section \<open>Ranking\<close>

text \<open>A ranking request over valid snapshots is served exactly when it has 1 to 100 candidates with
  distinct ids, a shortlist size that is absent or an integer between 1 and the number of candidates, and every
  candidate can be scored.\<close>

theorem ranking_accepts_exactly:
  assumes "\<forall>c \<in> set cs. mk_snapshot c = Inr c" "libm_ok m"
  shows "(\<exists>rs. rank m cs (Some now) want pol = Inr rs) \<longleftrightarrow>
    1 \<le> length cs \<and> length cs \<le> 100 \<and> (want = PNone \<or> (\<exists>k. want = PInt k \<and> 1 \<le> k \<and> k \<le> int (length cs))) \<and>
    distinct (map sn_candidate_id cs) \<and>
    (\<forall>c \<in> set cs. \<exists>r. score_snapshot m c (Some now) None pol = Inr r)"
proof -
  have "(\<exists>r. score_snapshot m c (Some now) None pol = Inr r) \<longleftrightarrow> list_all short (diagnostics c)" if "c \<in> set cs" for c
    using normalize_exists [of c m now "Some (policy_or_default pol)"] assms that
    by (simp add: score_snapshot_def Let_def bind_result_Inr_iff score_def)
  moreover have "length cs \<le> 100 \<Longrightarrow> (\<exists>k. shortlist_of (length cs) want = Inr k) \<longleftrightarrow>
      want = PNone \<or> (\<exists>k. want = PInt k \<and> 1 \<le> k \<and> k \<le> int (length cs))"
    by (auto simp: shortlist_Inr)
  ultimately show ?thesis unfolding rank_exists [OF assms] by blast
qed

theorem ranking_accepts_exactly_witness:
  "\<not> (\<exists>rs. rank ex_libm [ex_snapshot, ex_snapshot] (Some ex_time) PNone None = Inr rs)"
  by (subst ranking_accepts_exactly) (simp_all add: ex_libm_ok ex_snapshot_valid)

text \<open>C37. A ranking lists as many candidates as were asked for, each once and with its own score, from the
  highest final score down, and no candidate left out has a higher final score than one on the list.\<close>

theorem ranking_is_best_first:
  assumes "rank m cs ev want pol = Inr rs"
  shows "shortlist_of (length cs) want = Inr (length rs) \<and>
    sorted_wrt (\<lambda>x y. fle (ws_final_score (rk_score y)) (ws_final_score (rk_score x))) rs \<and>
    set (map rk_candidate rs) \<subseteq> set cs \<and> distinct (map rk_candidate rs) \<and>
    (\<forall>x \<in> set rs. score_snapshot m (rk_candidate x) ev None pol = Inr (rk_score x)) \<and>
    (\<forall>c \<in> set cs - set (map rk_candidate rs). \<exists>r. score_snapshot m c ev None pol = Inr r \<and>
       (\<forall>x \<in> set rs. fle (ws_final_score r) (ws_final_score (rk_score x))))"
proof -
  have e: "score_snapshot m c ev None pol = Inr (rk_score e)" if "ev = Some now" "rank_entry m now pol c = Inr e" for now c e
    using that by (auto simp: rank_entry_def bind_result_Inr_iff mk_ranked_def split: if_splits)
  note r = rank_best_first [OF assms]
  from r(3) have d: "distinct (map rk_candidate rs)" by (simp only: distinct_map)
  have own: "\<forall>x \<in> set rs. score_snapshot m (rk_candidate x) ev None pol = Inr (rk_score x)"
    using r(5) e by blast
  have rest: "\<forall>c \<in> set cs - set (map rk_candidate rs). \<exists>r. score_snapshot m c ev None pol = Inr r \<and>
       (\<forall>x \<in> set rs. fle (ws_final_score r) (ws_final_score (rk_score x)))"
    using r(4) e by blast
  from r(1-3) d own rest show ?thesis by blast
qed

theorem ranking_is_best_first_witness:
  "\<exists>rs. rank ex_libm [ex_snapshot, ex_snapshot\<lparr>sn_candidate_id := ''c2''\<rparr>] (Some ex_time) (PInt 1) None = Inr rs \<and>
     length rs = 1"
proof -
  obtain rs where r: "rank ex_libm [ex_snapshot, ex_snapshot\<lparr>sn_candidate_id := ''c2''\<rparr>] (Some ex_time) (PInt 1) None = Inr rs"
    using ex_ranking by blast
  have "length rs = 1" using ranking_is_best_first [OF r, THEN conjunct1] by (simp add: shortlist_of_def)
  with r show ?thesis by blast
qed

text \<open>The ranking, ties included, is the same whatever order the candidates come in.\<close>

theorem ranking_ignores_input_order:
  assumes "rank m cs ev want pol = Inr rs" "mset cs' = mset cs"
  shows "rank m cs' ev want pol = Inr rs"
  by (rule rank_permute [OF assms])

theorem ranking_ignores_input_order_witness:
  "\<exists>rs. rank ex_libm [ex_snapshot, ex_snapshot\<lparr>sn_candidate_id := ''c2''\<rparr>] (Some ex_time) (PInt 1) None = Inr rs \<and>
     rank ex_libm [ex_snapshot\<lparr>sn_candidate_id := ''c2''\<rparr>, ex_snapshot] (Some ex_time) (PInt 1) None = Inr rs"
proof -
  obtain rs where r: "rank ex_libm [ex_snapshot, ex_snapshot\<lparr>sn_candidate_id := ''c2''\<rparr>] (Some ex_time) (PInt 1) None = Inr rs"
    using ex_ranking by blast
  have "rank ex_libm [ex_snapshot\<lparr>sn_candidate_id := ''c2''\<rparr>, ex_snapshot] (Some ex_time) (PInt 1) None = Inr rs"
    by (rule ranking_ignores_input_order [OF r]) simp
  with r show ?thesis by blast
qed

end
