(* ===== verification/Py_Json.thy ===== *)
theory Py_Json
  imports Executor_Lease "HOL-Library.List_Lexorder" "HOL-Library.Char_ord" "HOL-Library.Product_Lexorder"
begin

text \<open>
  \<open>json.dumps(value, sort_keys=True, separators=(",", ":"))\<close>, with or without \<open>ensure_ascii\<close>, of the values the
  dispatch, paid API and External Brain contracts serialise: there are no floats among them.
\<close>

datatype jval =
    JNull
  | JBool bool
  | JInt int
  | JStr string
  | JList "jval list"
  | JObj "(string \<times> jval) list"

definition json_int :: "int \<Rightarrow> string" where
  "json_int n = (if n < 0 then ''-'' @ nat_str (nat (- n)) else nat_str (nat n))"

lemma size_snd_less [termination_simp]: "(k, v) \<in> set kvs \<Longrightarrow> size v < Suc (size_list (size_prod (\<lambda>_. 0) size) kvs)"
  by (induction kvs) auto

fun json_dump :: "bool \<Rightarrow> jval \<Rightarrow> string" where
  "json_dump ensure_ascii JNull = ''null''"
| "json_dump ensure_ascii (JBool b) = (if b then ''true'' else ''false'')"
| "json_dump ensure_ascii (JInt n) = json_int n"
| "json_dump ensure_ascii (JStr s) = json_str ensure_ascii s"
| "json_dump ensure_ascii (JList vs) = ''['' @ comma_list (map (json_dump ensure_ascii) vs) @ '']''"
| "json_dump ensure_ascii (JObj kvs) =
     ''{'' @ comma_list (map snd (sort_key fst
       (map (\<lambda>(k, v). (k, json_str ensure_ascii k @ '':'' @ json_dump ensure_ascii v)) kvs))) @ ''}''"

abbreviation json_text :: "jval \<Rightarrow> string" where
  "json_text \<equiv> json_dump False"

definition json_size :: "jval \<Rightarrow> nat" where
  "json_size v = utf8_length (json_text v)"

fun jopt :: "('a \<Rightarrow> jval) \<Rightarrow> 'a option \<Rightarrow> jval" where
  "jopt f None = JNull"
| "jopt f (Some x) = f x"

text \<open>\<open>json.loads\<close> of that text: the pairs of an object come in the order of their keys.\<close>

fun py_of_json :: "jval \<Rightarrow> pyval" where
  "py_of_json JNull = PNone"
| "py_of_json (JBool b) = PBool b"
| "py_of_json (JInt n) = PInt n"
| "py_of_json (JStr s) = PStr s"
| "py_of_json (JList vs) = PList (map py_of_json vs)"
| "py_of_json (JObj kvs) = PDict (sort_key fst (map (\<lambda>(k, v). (k, py_of_json v)) kvs))"

lemma map_of_sort_key:
  assumes "distinct (map fst kvs)"
  shows "map_of (sort_key fst kvs) = map_of kvs"
proof
  fix k
  have "distinct (map fst (sort_key fst kvs))" using assms by (simp add: distinct_map)
  then show "map_of (sort_key fst kvs) k = map_of kvs k"
    using assms by (cases "map_of kvs k") (metis map_of_eq_None_iff image_set set_sort, metis map_of_eq_Some_iff set_sort)
qed

lemma dget_sort_key: "distinct (map fst kvs) \<Longrightarrow> dget (sort_key fst kvs) k v = dget kvs k v"
  by (simp add: dget_def map_of_sort_key)

lemma json_int_nonempty: "json_text (JObj kvs) \<noteq> []"
  by simp

end
