(* ===== verification/Dispatch.thy ===== *)
theory Dispatch
  imports Py_Json "HOL-Library.Multiset"
begin

text \<open>
  \<open>src/aios_bridge/continuity/dispatch.py\<close>: the deterministic choice of a Brain or an Executor, with the
  capability declarations of \<open>continuity/brain.py\<close> and \<open>continuity/executor.py\<close>.

  A constructor \<open>mk_X\<close> takes values of the declared types (the tests and conversions of other types are left
  out) and returns the normalised record or the reason of its \<open>ContinuityStateValidationError\<close>. SHA-256 is a
  parameter.
\<close>

section \<open>Enumerations\<close>

datatype brain_operation = B_TASK | B_TASK_AND_PLAN | B_PLAN | B_DIAGNOSIS | B_PATCH_PROPOSAL | B_REVIEW

fun brain_operation_value :: "brain_operation \<Rightarrow> string" where
  "brain_operation_value B_TASK = ''TASK''"
| "brain_operation_value B_TASK_AND_PLAN = ''TASK_AND_PLAN''"
| "brain_operation_value B_PLAN = ''PLAN''"
| "brain_operation_value B_DIAGNOSIS = ''DIAGNOSIS''"
| "brain_operation_value B_PATCH_PROPOSAL = ''PATCH_PROPOSAL''"
| "brain_operation_value B_REVIEW = ''REVIEW''"

datatype execution_capability = REPOSITORY_READ | FILESYSTEM_WRITE | SHELL | TEST_EXECUTION | LOCAL_GIT | BROWSER

fun capability_value :: "execution_capability \<Rightarrow> string" where
  "capability_value REPOSITORY_READ = ''REPOSITORY_READ''"
| "capability_value FILESYSTEM_WRITE = ''FILESYSTEM_WRITE''"
| "capability_value SHELL = ''SHELL''"
| "capability_value TEST_EXECUTION = ''TEST_EXECUTION''"
| "capability_value LOCAL_GIT = ''LOCAL_GIT''"
| "capability_value BROWSER = ''BROWSER''"

datatype actor_kind = BRAIN | EXECUTOR

fun actor_kind_value :: "actor_kind \<Rightarrow> string" where
  "actor_kind_value BRAIN = ''BRAIN''"
| "actor_kind_value EXECUTOR = ''EXECUTOR''"

datatype capacity_state = AVAILABLE | LIMITED | QUOTA_EXHAUSTED | UNAVAILABLE | UNKNOWN

fun capacity_state_value :: "capacity_state \<Rightarrow> string" where
  "capacity_state_value AVAILABLE = ''AVAILABLE''"
| "capacity_state_value LIMITED = ''LIMITED''"
| "capacity_state_value QUOTA_EXHAUSTED = ''QUOTA_EXHAUSTED''"
| "capacity_state_value UNAVAILABLE = ''UNAVAILABLE''"
| "capacity_state_value UNKNOWN = ''UNKNOWN''"

datatype capacity_class = SUBSCRIPTION | PAID_API

fun capacity_class_value :: "capacity_class \<Rightarrow> string" where
  "capacity_class_value SUBSCRIPTION = ''SUBSCRIPTION''"
| "capacity_class_value PAID_API = ''PAID_API''"

datatype dispatch_status = SELECTED | WAIT | NO_COMPATIBLE_CANDIDATE

fun dispatch_status_value :: "dispatch_status \<Rightarrow> string" where
  "dispatch_status_value SELECTED = ''SELECTED''"
| "dispatch_status_value WAIT = ''WAIT''"
| "dispatch_status_value NO_COMPATIBLE_CANDIDATE = ''NO_COMPATIBLE_CANDIDATE''"

datatype dispatch_reason = SELECTED_COMPATIBLE_AVAILABLE | WAIT_CAPACITY | NO_COMPATIBLE

fun dispatch_reason_value :: "dispatch_reason \<Rightarrow> string" where
  "dispatch_reason_value SELECTED_COMPATIBLE_AVAILABLE = ''SELECTED_COMPATIBLE_AVAILABLE''"
| "dispatch_reason_value WAIT_CAPACITY = ''WAIT_CAPACITY''"
| "dispatch_reason_value NO_COMPATIBLE = ''NO_COMPATIBLE_CANDIDATE''"

datatype candidate_reason =
    ELIGIBLE | OPERATION_UNSUPPORTED | CONTEXT_TOO_LARGE | REQUIRED_CAPABILITY_MISSING | PAID_API_NOT_ALLOWED
  | CAPACITY_LIMITED | CAPACITY_QUOTA_EXHAUSTED | CAPACITY_UNAVAILABLE | CAPACITY_UNKNOWN

fun candidate_reason_value :: "candidate_reason \<Rightarrow> string" where
  "candidate_reason_value ELIGIBLE = ''ELIGIBLE''"
| "candidate_reason_value OPERATION_UNSUPPORTED = ''OPERATION_UNSUPPORTED''"
| "candidate_reason_value CONTEXT_TOO_LARGE = ''CONTEXT_TOO_LARGE''"
| "candidate_reason_value REQUIRED_CAPABILITY_MISSING = ''REQUIRED_CAPABILITY_MISSING''"
| "candidate_reason_value PAID_API_NOT_ALLOWED = ''PAID_API_NOT_ALLOWED''"
| "candidate_reason_value CAPACITY_LIMITED = ''CAPACITY_LIMITED''"
| "candidate_reason_value CAPACITY_QUOTA_EXHAUSTED = ''CAPACITY_QUOTA_EXHAUSTED''"
| "candidate_reason_value CAPACITY_UNAVAILABLE = ''CAPACITY_UNAVAILABLE''"
| "candidate_reason_value CAPACITY_UNKNOWN = ''CAPACITY_UNKNOWN''"

datatype dispatch_error =
    ActorIdInvalid string
  | NotDeclarative
  | NoOperations
  | DuplicateValue string
  | ContextOutOfRange int
  | SerializedTooLarge nat
  | CandidateIdMismatch string string
  | RankNegative int
  | UnsupportedSchemaVersion string
  | NoCandidates
  | DuplicateActors
  | RunnableNotCompatible
  | ReasonsInvalid
  | EligibleNotAlone
  | MissingRank
  | BadRequestFingerprint string
  | NoEvaluations
  | ReasonMismatch
  | SelectedMissing
  | SelectedNotRunnable string
  | SelectedForbidden

section \<open>Capabilities\<close>

definition valid_actor_id :: "string \<Rightarrow> bool" where
  "valid_actor_id s \<longleftrightarrow> validate_actor_id ''actor_id'' (PStr s) = Inr s"

definition check_size :: "jval \<Rightarrow> 'a \<Rightarrow> dispatch_error + 'a" where
  "check_size j x = (if max_serialized_bytes < json_size j then Inl (SerializedTooLarge (json_size j)) else Inr x)"

record brain_capability =
  bc_brain_id :: string
  bc_operations :: "brain_operation list"
  bc_max_context :: "int option"
  bc_declarative :: bool

definition brain_capability_dict :: "brain_capability \<Rightarrow> jval" where
  "brain_capability_dict c =
     JObj [(''brain_id'', JStr (bc_brain_id c)), (''declarative_only'', JBool (bc_declarative c)),
           (''max_context_bytes'', jopt JInt (bc_max_context c)),
           (''supported_operations'', JList (map (JStr \<circ> brain_operation_value) (bc_operations c)))]"

definition mk_brain_capability :: "brain_capability \<Rightarrow> dispatch_error + brain_capability" where
  "mk_brain_capability c =
     (if \<not> valid_actor_id (bc_brain_id c) then Inl (ActorIdInvalid (bc_brain_id c))
      else if \<not> bc_declarative c then Inl NotDeclarative
      else if bc_operations c = [] then Inl NoOperations
      else if \<not> distinct (bc_operations c) then Inl (DuplicateValue ''supported_operations'')
      else case bc_max_context c of
             None \<Rightarrow> check_size (brain_capability_dict c) c
           | Some n \<Rightarrow> if n < 0 \<or> 1024 * 1024 * 1024 < n then Inl (ContextOutOfRange n)
                       else check_size (brain_capability_dict c) c)"

record executor_capabilities =
  ec_executor_id :: string
  ec_operations :: "execution_operation list"
  ec_capabilities :: "execution_capability list"
  ec_declarative :: bool

definition executor_capabilities_dict :: "executor_capabilities \<Rightarrow> jval" where
  "executor_capabilities_dict c =
     JObj [(''declarative_only'', JBool (ec_declarative c)), (''executor_id'', JStr (ec_executor_id c)),
           (''supported_capabilities'', JList (map (JStr \<circ> capability_value) (ec_capabilities c))),
           (''supported_operations'', JList (map (JStr \<circ> operation_value) (ec_operations c)))]"

definition mk_executor_capabilities :: "executor_capabilities \<Rightarrow> dispatch_error + executor_capabilities" where
  "mk_executor_capabilities c =
     (if \<not> ec_declarative c then Inl NotDeclarative
      else if \<not> valid_actor_id (ec_executor_id c) then Inl (ActorIdInvalid (ec_executor_id c))
      else if \<not> distinct (ec_operations c) then Inl (DuplicateValue ''supported_operations'')
      else if \<not> distinct (ec_capabilities c) then Inl (DuplicateValue ''supported_capabilities'')
      else let c' = c\<lparr>ec_operations := sort_key operation_value (ec_operations c),
                      ec_capabilities := sort_key capability_value (ec_capabilities c)\<rparr>
           in check_size (executor_capabilities_dict c') c')"

section \<open>Candidates\<close>

record brain_candidate =
  bd_brain_id :: string
  bd_capability :: brain_capability
  bd_state :: capacity_state
  bd_class :: capacity_class
  bd_rank :: int

definition brain_candidate_dict :: "brain_candidate \<Rightarrow> jval" where
  "brain_candidate_dict c =
     JObj [(''brain_id'', JStr (bd_brain_id c)), (''capability'', brain_capability_dict (bd_capability c)),
           (''capacity_class'', JStr (capacity_class_value (bd_class c))),
           (''capacity_state'', JStr (capacity_state_value (bd_state c))), (''preference_rank'', JInt (bd_rank c))]"

definition mk_brain_candidate :: "brain_candidate \<Rightarrow> dispatch_error + brain_candidate" where
  "mk_brain_candidate c =
     (if \<not> valid_actor_id (bd_brain_id c) then Inl (ActorIdInvalid (bd_brain_id c))
      else if bd_brain_id c \<noteq> bc_brain_id (bd_capability c)
      then Inl (CandidateIdMismatch (bd_brain_id c) (bc_brain_id (bd_capability c)))
      else if bd_rank c < 0 then Inl (RankNegative (bd_rank c))
      else check_size (brain_candidate_dict c) c)"

record executor_candidate =
  xd_executor_id :: string
  xd_capabilities :: executor_capabilities
  xd_state :: capacity_state
  xd_class :: capacity_class
  xd_rank :: int

definition executor_candidate_dict :: "executor_candidate \<Rightarrow> jval" where
  "executor_candidate_dict c =
     JObj [(''capabilities'', executor_capabilities_dict (xd_capabilities c)),
           (''capacity_class'', JStr (capacity_class_value (xd_class c))),
           (''capacity_state'', JStr (capacity_state_value (xd_state c))),
           (''executor_id'', JStr (xd_executor_id c)), (''preference_rank'', JInt (xd_rank c))]"

definition mk_executor_candidate :: "executor_candidate \<Rightarrow> dispatch_error + executor_candidate" where
  "mk_executor_candidate c =
     (if \<not> valid_actor_id (xd_executor_id c) then Inl (ActorIdInvalid (xd_executor_id c))
      else if xd_executor_id c \<noteq> ec_executor_id (xd_capabilities c)
      then Inl (CandidateIdMismatch (xd_executor_id c) (ec_executor_id (xd_capabilities c)))
      else if xd_rank c < 0 then Inl (RankNegative (xd_rank c))
      else check_size (executor_candidate_dict c) c)"

section \<open>Requests\<close>

record brain_request =
  br_operation :: brain_operation
  br_candidates :: "brain_candidate list"
  br_required_context :: "int option"
  br_allow_paid :: bool
  br_schema :: string

definition brain_request_dict :: "brain_request \<Rightarrow> jval" where
  "brain_request_dict r =
     JObj [(''allow_paid_api'', JBool (br_allow_paid r)),
           (''candidates'', JList (map brain_candidate_dict (sort_key bd_brain_id (br_candidates r)))),
           (''operation'', JStr (brain_operation_value (br_operation r))),
           (''required_context_bytes'', jopt JInt (br_required_context r)),
           (''schema_version'', JStr (br_schema r))]"

definition mk_brain_request :: "brain_request \<Rightarrow> dispatch_error + brain_request" where
  "mk_brain_request r =
     (if br_schema r \<noteq> ''1'' then Inl (UnsupportedSchemaVersion (br_schema r))
      else if (case br_required_context r of None \<Rightarrow> False | Some n \<Rightarrow> n < 0)
      then Inl (ContextOutOfRange (the (br_required_context r)))
      else if br_candidates r = [] then Inl NoCandidates
      else if \<not> distinct (map bd_brain_id (br_candidates r)) then Inl DuplicateActors
      else let r' = r\<lparr>br_candidates := sort_key bd_brain_id (br_candidates r)\<rparr>
           in check_size (brain_request_dict r') r')"

record executor_request =
  xr_operation :: execution_operation
  xr_candidates :: "executor_candidate list"
  xr_required :: "execution_capability list"
  xr_allow_paid :: bool
  xr_schema :: string

definition executor_request_dict :: "executor_request \<Rightarrow> jval" where
  "executor_request_dict r =
     JObj [(''allow_paid_api'', JBool (xr_allow_paid r)),
           (''candidates'', JList (map executor_candidate_dict (sort_key xd_executor_id (xr_candidates r)))),
           (''operation'', JStr (operation_value (xr_operation r))),
           (''required_capabilities'', JList (map (JStr \<circ> capability_value) (xr_required r))),
           (''schema_version'', JStr (xr_schema r))]"

definition mk_executor_request :: "executor_request \<Rightarrow> dispatch_error + executor_request" where
  "mk_executor_request r =
     (if xr_schema r \<noteq> ''1'' then Inl (UnsupportedSchemaVersion (xr_schema r))
      else if xr_candidates r = [] then Inl NoCandidates
      else if \<not> distinct (map xd_executor_id (xr_candidates r)) then Inl DuplicateActors
      else if \<not> distinct (xr_required r) then Inl (DuplicateValue ''required_capabilities'')
      else let r' = r\<lparr>xr_candidates := sort_key xd_executor_id (xr_candidates r),
                      xr_required := sort_key capability_value (xr_required r)\<rparr>
           in check_size (executor_request_dict r') r')"

section \<open>Evaluations and results\<close>

record candidate_evaluation =
  ev_actor :: string
  ev_compatible :: bool
  ev_runnable :: bool
  ev_reasons :: "candidate_reason list"
  ev_class :: capacity_class
  ev_state :: capacity_state
  ev_rank :: int

definition mk_evaluation :: "candidate_evaluation \<Rightarrow> dispatch_error + candidate_evaluation" where
  "mk_evaluation e =
     (if \<not> valid_actor_id (ev_actor e) then Inl (ActorIdInvalid (ev_actor e))
      else if ev_runnable e \<and> \<not> ev_compatible e then Inl RunnableNotCompatible
      else if ev_rank e < 0 then Inl (RankNegative (ev_rank e))
      else if ev_reasons e = [] \<or> \<not> distinct (ev_reasons e) then Inl ReasonsInvalid
      else if ELIGIBLE \<in> set (ev_reasons e) \<and> length (ev_reasons e) \<noteq> 1 then Inl EligibleNotAlone
      else Inr (e\<lparr>ev_reasons := sort_key candidate_reason_value (ev_reasons e)\<rparr>))"

definition evaluation_dict :: "candidate_evaluation \<Rightarrow> jval" where
  "evaluation_dict e =
     JObj [(''actor_id'', JStr (ev_actor e)), (''capacity_class'', JStr (capacity_class_value (ev_class e))),
           (''capacity_state'', JStr (capacity_state_value (ev_state e))), (''compatible'', JBool (ev_compatible e)),
           (''preference_rank'', JInt (ev_rank e)),
           (''reasons'', JList (map (JStr \<circ> candidate_reason_value) (ev_reasons e))),
           (''runnable'', JBool (ev_runnable e))]"

record dispatch_result =
  dr_kind :: actor_kind
  dr_status :: dispatch_status
  dr_selected :: "string option"
  dr_reason :: dispatch_reason
  dr_fingerprint :: string
  dr_evaluations :: "candidate_evaluation list"
  dr_schema :: string

definition dispatch_result_dict :: "dispatch_result \<Rightarrow> jval" where
  "dispatch_result_dict d =
     JObj [(''actor_kind'', JStr (actor_kind_value (dr_kind d))),
           (''evaluations'', JList (map evaluation_dict (dr_evaluations d))),
           (''reason'', JStr (dispatch_reason_value (dr_reason d))),
           (''request_fingerprint'', JStr (dr_fingerprint d)), (''schema_version'', JStr (dr_schema d)),
           (''selected_actor_id'', jopt JStr (dr_selected d)),
           (''status'', JStr (dispatch_status_value (dr_status d)))]"

fun expected_reason :: "dispatch_status \<Rightarrow> dispatch_reason" where
  "expected_reason SELECTED = SELECTED_COMPATIBLE_AVAILABLE"
| "expected_reason WAIT = WAIT_CAPACITY"
| "expected_reason NO_COMPATIBLE_CANDIDATE = NO_COMPATIBLE"

definition hex_digits :: "nat \<Rightarrow> string \<Rightarrow> bool" where
  "hex_digits n s \<longleftrightarrow> length s = n \<and> list_all lower_hex s"

definition selected_evaluations :: "string \<Rightarrow> candidate_evaluation list \<Rightarrow> candidate_evaluation list" where
  "selected_evaluations a evs = filter (\<lambda>e. ev_actor e = a) evs"

definition check_selected :: "dispatch_result \<Rightarrow> dispatch_error option" where
  "check_selected d =
     (case (dr_status d, dr_selected d) of
        (SELECTED, None) \<Rightarrow> Some SelectedMissing
      | (SELECTED, Some a) \<Rightarrow>
          if \<not> valid_actor_id a then Some (ActorIdInvalid a)
          else (case selected_evaluations a (dr_evaluations d) of
                  [e] \<Rightarrow> if ev_compatible e \<and> ev_runnable e then None else Some (SelectedNotRunnable a)
                | _ \<Rightarrow> Some (SelectedNotRunnable a))
      | (_, Some a) \<Rightarrow> Some SelectedForbidden
      | (_, None) \<Rightarrow> None)"

definition mk_dispatch_result :: "dispatch_result \<Rightarrow> dispatch_error + dispatch_result" where
  "mk_dispatch_result d =
     (if dr_schema d \<noteq> ''1'' then Inl (UnsupportedSchemaVersion (dr_schema d))
      else if \<not> hex_digits 64 (dr_fingerprint d) then Inl (BadRequestFingerprint (dr_fingerprint d))
      else if dr_evaluations d = [] then Inl NoEvaluations
      else if \<not> distinct (map ev_actor (dr_evaluations d)) then Inl DuplicateActors
      else if dr_reason d \<noteq> expected_reason (dr_status d) then Inl ReasonMismatch
      else case check_selected d of
             Some e \<Rightarrow> Inl e
           | None \<Rightarrow> (let d' = d\<lparr>dr_evaluations := sort_key ev_actor (dr_evaluations d)\<rparr>
                      in check_size (dispatch_result_dict d') d'))"

section \<open>Dispatch\<close>

fun capacity_evidence :: "capacity_state \<Rightarrow> bool \<times> candidate_reason list" where
  "capacity_evidence AVAILABLE = (True, [ELIGIBLE])"
| "capacity_evidence LIMITED = (True, [CAPACITY_LIMITED])"
| "capacity_evidence QUOTA_EXHAUSTED = (False, [CAPACITY_QUOTA_EXHAUSTED])"
| "capacity_evidence UNAVAILABLE = (False, [CAPACITY_UNAVAILABLE])"
| "capacity_evidence UNKNOWN = (False, [CAPACITY_UNKNOWN])"

fun class_rank :: "capacity_class \<Rightarrow> nat" where
  "class_rank SUBSCRIPTION = 0"
| "class_rank PAID_API = 1"

fun runnable_rank :: "capacity_state \<Rightarrow> nat option" where
  "runnable_rank AVAILABLE = Some 0"
| "runnable_rank LIMITED = Some 1"
| "runnable_rank _ = None"

definition selection_key :: "candidate_evaluation \<Rightarrow> nat \<times> nat \<times> int \<times> string" where
  "selection_key e = (class_rank (ev_class e), the (runnable_rank (ev_state e)), ev_rank e, ev_actor e)"

text \<open>A missing key of \<open>_CAPACITY_STATE_RUNNABLE_RANK\<close> is a \<open>KeyError\<close>.\<close>

definition build_result :: "actor_kind \<Rightarrow> string \<Rightarrow> candidate_evaluation list \<Rightarrow> dispatch_error + dispatch_result" where
  "build_result kind fp evs =
     (let runnable = filter (\<lambda>e. ev_compatible e \<and> ev_runnable e) evs;
          result = (\<lambda>status selected. mk_dispatch_result
            \<lparr>dr_kind = kind, dr_status = status, dr_selected = selected, dr_reason = expected_reason status,
             dr_fingerprint = fp, dr_evaluations = evs, dr_schema = ''1''\<rparr>)
      in if runnable \<noteq> []
         then if list_ex (\<lambda>e. runnable_rank (ev_state e) = None) runnable then Inl MissingRank
              else result SELECTED (Some (ev_actor (arg_min_list selection_key runnable)))
         else if list_ex ev_compatible evs then result WAIT None
         else result NO_COMPATIBLE_CANDIDATE None)"

fun collect_evaluations :: "('e + 'a) list \<Rightarrow> 'e + 'a list" where
  "collect_evaluations [] = Inr []"
| "collect_evaluations (r # rs) = bind_result r (\<lambda>x. bind_result (collect_evaluations rs) (\<lambda>xs. Inr (x # xs)))"

definition evaluate_candidate :: "string \<Rightarrow> candidate_reason list \<Rightarrow> capacity_class \<Rightarrow> capacity_state \<Rightarrow> int \<Rightarrow>
    dispatch_error + candidate_evaluation" where
  "evaluate_candidate actor incompatibilities cls st rank =
     (let compatible = (incompatibilities = []); (runnable, reasons) = capacity_evidence st
      in mk_evaluation \<lparr>ev_actor = actor, ev_compatible = compatible, ev_runnable = compatible \<and> runnable,
           ev_reasons = (if compatible then reasons else incompatibilities),
           ev_class = cls, ev_state = st, ev_rank = rank\<rparr>)"

definition brain_incompatibilities :: "brain_request \<Rightarrow> brain_candidate \<Rightarrow> candidate_reason list" where
  "brain_incompatibilities r c =
     (if br_operation r \<in> set (bc_operations (bd_capability c)) then [] else [OPERATION_UNSUPPORTED]) @
     (case (br_required_context r, bc_max_context (bd_capability c)) of
        (Some n, Some m) \<Rightarrow> if m < n then [CONTEXT_TOO_LARGE] else []
      | _ \<Rightarrow> []) @
     (if bd_class c = PAID_API \<and> \<not> br_allow_paid r then [PAID_API_NOT_ALLOWED] else [])"

definition evaluate_brain :: "brain_request \<Rightarrow> brain_candidate \<Rightarrow> dispatch_error + candidate_evaluation" where
  "evaluate_brain r c =
     evaluate_candidate (bd_brain_id c) (brain_incompatibilities r c) (bd_class c) (bd_state c) (bd_rank c)"

definition brain_request_fingerprint :: "(string \<Rightarrow> string) \<Rightarrow> brain_request \<Rightarrow> string" where
  "brain_request_fingerprint sha256 r = sha256 (json_text (brain_request_dict r))"

definition dispatch_brain :: "(string \<Rightarrow> string) \<Rightarrow> brain_request \<Rightarrow> dispatch_error + dispatch_result" where
  "dispatch_brain sha256 r =
     bind_result (collect_evaluations (map (evaluate_brain r) (br_candidates r)))
       (build_result BRAIN (brain_request_fingerprint sha256 r))"

definition executor_incompatibilities :: "executor_request \<Rightarrow> executor_candidate \<Rightarrow> candidate_reason list" where
  "executor_incompatibilities r c =
     (if xr_operation r \<in> set (ec_operations (xd_capabilities c)) then [] else [OPERATION_UNSUPPORTED]) @
     (if set (xr_required r) \<subseteq> set (ec_capabilities (xd_capabilities c)) then [] else [REQUIRED_CAPABILITY_MISSING]) @
     (if xd_class c = PAID_API \<and> \<not> xr_allow_paid r then [PAID_API_NOT_ALLOWED] else [])"

definition evaluate_executor :: "executor_request \<Rightarrow> executor_candidate \<Rightarrow> dispatch_error + candidate_evaluation" where
  "evaluate_executor r c =
     evaluate_candidate (xd_executor_id c) (executor_incompatibilities r c) (xd_class c) (xd_state c) (xd_rank c)"

definition executor_request_fingerprint :: "(string \<Rightarrow> string) \<Rightarrow> executor_request \<Rightarrow> string" where
  "executor_request_fingerprint sha256 r = sha256 (json_text (executor_request_dict r))"

definition dispatch_executor :: "(string \<Rightarrow> string) \<Rightarrow> executor_request \<Rightarrow> dispatch_error + dispatch_result" where
  "dispatch_executor sha256 r =
     bind_result (collect_evaluations (map (evaluate_executor r) (xr_candidates r)))
       (build_result EXECUTOR (executor_request_fingerprint sha256 r))"

section \<open>Lemmas\<close>

lemma check_size_Inr: "check_size j x = Inr y \<longleftrightarrow> y = x \<and> json_size j \<le> max_serialized_bytes"
  by (auto simp: check_size_def)

lemma check_size_Inl: "check_size j x = Inl e \<longleftrightarrow> e = SerializedTooLarge (json_size j) \<and> max_serialized_bytes < json_size j"
  by (auto simp: check_size_def)

lemma collect_evaluations_Inr: "collect_evaluations (map f xs) = Inr ys \<longleftrightarrow> list_all2 (\<lambda>x y. f x = Inr y) xs ys"
proof (induction xs arbitrary: ys)
  case (Cons x xs)
  then show ?case by (cases ys) (auto simp: bind_result_Inr)
qed auto

text \<open>What an evaluation says of the candidate: its flags and its place in the order of preference.\<close>

lemma evaluate_candidate_Inr:
  assumes "evaluate_candidate a incs cls st rank = Inr e"
  shows "ev_actor e = a" "ev_compatible e \<longleftrightarrow> incs = []" "ev_runnable e \<longleftrightarrow> incs = [] \<and> runnable_rank st \<noteq> None"
    "selection_key e = (class_rank cls, the (runnable_rank st), rank, a)" "ev_state e = st" "ev_class e = cls"
  using assms
  by (cases st; auto simp: evaluate_candidate_def mk_evaluation_def selection_key_def Let_def split: if_splits)+

lemma evaluate_candidate_total:
  assumes "valid_actor_id a" "0 \<le> rank" "distinct incs" "ELIGIBLE \<notin> set incs"
  shows "\<exists>e. evaluate_candidate a incs cls st rank = Inr e"
  using assms by (cases st) (auto simp: evaluate_candidate_def mk_evaluation_def Let_def)

lemma brain_incompatibilities_distinct: "distinct (brain_incompatibilities r c) \<and> ELIGIBLE \<notin> set (brain_incompatibilities r c)"
  by (auto simp: brain_incompatibilities_def split: option.splits)

lemma executor_incompatibilities_distinct:
  "distinct (executor_incompatibilities r c) \<and> ELIGIBLE \<notin> set (executor_incompatibilities r c)"
  by (auto simp: executor_incompatibilities_def)

lemma mk_dispatch_result_Inr:
  assumes "mk_dispatch_result d = Inr d'"
  shows "d' = d\<lparr>dr_evaluations := sort_key ev_actor (dr_evaluations d)\<rparr>"
  using assms by (auto simp: mk_dispatch_result_def Let_def check_size_Inr split: if_splits option.splits)

definition is_candidate :: "candidate_evaluation \<Rightarrow> bool" where
  "is_candidate e \<longleftrightarrow> ev_compatible e \<and> ev_runnable e"

lemma is_candidate_abs: "(\<lambda>e. ev_compatible e \<and> ev_runnable e) = is_candidate"
  by (simp add: fun_eq_iff is_candidate_def)

lemma build_result_Inr:
  assumes "build_result kind fp evs = Inr d"
  shows "dr_kind d = kind" and "dr_fingerprint d = fp"
    and "dr_status d =
      (if \<exists>e\<in>set evs. is_candidate e then SELECTED
       else if \<exists>e\<in>set evs. ev_compatible e then WAIT else NO_COMPATIBLE_CANDIDATE)"
    and "dr_selected d =
      (if \<exists>e\<in>set evs. is_candidate e
       then Some (ev_actor (arg_min_list selection_key (filter is_candidate evs))) else None)"
proof -
  note d = assms [unfolded build_result_def Let_def is_candidate_abs]
  show "dr_kind d = kind" "dr_fingerprint d = fp"
    using d by (auto dest!: mk_dispatch_result_Inr split: if_splits)
  show "dr_status d =
      (if \<exists>e\<in>set evs. is_candidate e then SELECTED
       else if \<exists>e\<in>set evs. ev_compatible e then WAIT else NO_COMPATIBLE_CANDIDATE)"
    using d by (auto dest!: mk_dispatch_result_Inr simp: filter_empty_conv list_ex_iff split: if_splits)
  show "dr_selected d =
      (if \<exists>e\<in>set evs. is_candidate e
       then Some (ev_actor (arg_min_list selection_key (filter is_candidate evs))) else None)"
    using d by (auto dest!: mk_dispatch_result_Inr simp: filter_empty_conv split: if_splits)
qed

lemma build_result_selects:
  assumes "build_result kind fp evs = Inr d" and "dr_selected d = Some a"
  shows "\<exists>e\<in>set evs. is_candidate e \<and> ev_actor e = a \<and>
    (\<forall>e'\<in>set evs. is_candidate e' \<longrightarrow> selection_key e \<le> selection_key e')"
proof -
  let ?c = "filter is_candidate evs"
  from build_result_Inr(4) [OF assms(1)] assms(2) have ne: "?c \<noteq> []"
    and a: "a = ev_actor (arg_min_list selection_key ?c)"
    by (auto simp: filter_empty_conv split: if_splits)
  from ne have "arg_min_list selection_key ?c \<in> set ?c" by (rule arg_min_list_in)
  moreover have "selection_key (arg_min_list selection_key ?c) = Min (selection_key ` set ?c)"
    using ne by (rule f_arg_min_list_f)
  ultimately show ?thesis using a by (intro bexI [of _ "arg_min_list selection_key ?c"]) auto
qed

text \<open>With distinct valid actors and a hexadecimal fingerprint, only the size of the result can be refused.\<close>

definition made_or_too_large :: "dispatch_error + 'a \<Rightarrow> bool" where
  "made_or_too_large r \<longleftrightarrow>
     (case r of Inr _ \<Rightarrow> True | Inl (SerializedTooLarge n) \<Rightarrow> max_serialized_bytes < n | Inl _ \<Rightarrow> False)"

lemma made_check_size: "made_or_too_large (check_size j x)"
  by (simp add: check_size_def made_or_too_large_def)

lemma filter_key_eq: "distinct (map f xs) \<Longrightarrow> m \<in> set xs \<Longrightarrow> filter (\<lambda>x. f x = f m) xs = [m]"
  by (induction xs) (auto simp: filter_empty_conv image_iff)

lemma build_result_total:
  assumes evs: "evs \<noteq> []" "distinct (map ev_actor evs)" "\<forall>e\<in>set evs. valid_actor_id (ev_actor e)"
    and rank: "\<forall>e\<in>set evs. is_candidate e \<longrightarrow> runnable_rank (ev_state e) \<noteq> None"
    and fp: "hex_digits 64 fp"
  shows "made_or_too_large (build_result kind fp evs)"
proof -
  have made: "made_or_too_large (mk_dispatch_result r)"
    if "check_selected r = None" "dr_fingerprint r = fp" "dr_evaluations r = evs" "dr_schema r = ''1''"
      "dr_reason r = expected_reason (dr_status r)" for r
    using that evs fp by (simp add: mk_dispatch_result_def Let_def made_check_size)
  show ?thesis
  proof (cases "filter is_candidate evs = []")
    case True
    then show ?thesis by (auto simp: build_result_def Let_def check_selected_def is_candidate_abs intro!: made)
  next
    case False
    let ?m = "arg_min_list selection_key (filter is_candidate evs)"
    from False have m: "?m \<in> set evs" "is_candidate ?m" using arg_min_list_in [of "filter is_candidate evs" selection_key] by auto
    with m(1) evs(2) filter_key_eq [of ev_actor evs ?m] have "filter (\<lambda>e. ev_actor e = ev_actor ?m) evs = [?m]"
      by simp
    with m evs(3) have sel: "check_selected \<lparr>dr_kind = kind, dr_status = SELECTED, dr_selected = Some (ev_actor ?m),
        dr_reason = expected_reason SELECTED, dr_fingerprint = fp, dr_evaluations = evs, dr_schema = ''1''\<rparr> = None"
      by (simp add: check_selected_def selected_evaluations_def is_candidate_def)
    from rank have "\<not> list_ex (\<lambda>e. runnable_rank (ev_state e) = None) (filter is_candidate evs)"
      by (auto simp: list_ex_iff)
    with False made [OF sel] show ?thesis by (simp add: build_result_def Let_def is_candidate_abs)
  qed
qed

lemma list_all2_left: "list_all2 P xs ys \<Longrightarrow> x \<in> set xs \<Longrightarrow> \<exists>y\<in>set ys. P x y"
  by (induction rule: list_all2_induct) auto

lemma list_all2_right: "list_all2 P xs ys \<Longrightarrow> y \<in> set ys \<Longrightarrow> \<exists>x\<in>set xs. P x y"
  by (induction rule: list_all2_induct) auto

text \<open>
  What both dispatchers promise, of candidates with any incompatibility test. The order: a subscription before a paid
  candidate, an available before a limited one, then the preference, then the identity.
\<close>

definition candidate_key :: "capacity_class \<Rightarrow> capacity_state \<Rightarrow> int \<Rightarrow> string \<Rightarrow> nat \<times> nat \<times> int \<times> string" where
  "candidate_key cls st rank actor =
     ((if cls = PAID_API then 1 else 0), (if st = AVAILABLE then 0 else 1), rank, actor)"

lemma ranks_are_candidate_key:
  assumes "runnable_rank st \<noteq> None"
  shows "(class_rank cls, the (runnable_rank st), rank, actor) = candidate_key cls st rank actor"
  using assms by (cases cls; cases st) (simp_all add: candidate_key_def)

lemma dispatch_selects:
  assumes evs: "list_all2 (\<lambda>c e. evaluate_candidate (actor c) (incs c) (cls c) (st c) (rank c) = Inr e) cs evs"
    and d: "build_result kind fp evs = Inr d" and a: "dr_selected d = Some a"
  shows "dr_status d = SELECTED \<and> (\<exists>c\<in>set cs. actor c = a \<and> incs c = [] \<and> runnable_rank (st c) \<noteq> None \<and>
    (\<forall>c'\<in>set cs. incs c' = [] \<and> runnable_rank (st c') \<noteq> None \<longrightarrow>
       candidate_key (cls c) (st c) (rank c) (actor c) \<le> candidate_key (cls c') (st c') (rank c') (actor c')))"
proof -
  have cand: "is_candidate e \<longleftrightarrow> incs c = [] \<and> runnable_rank (st c) \<noteq> None"
    "is_candidate e \<Longrightarrow> selection_key e = candidate_key (cls c) (st c) (rank c) (actor c)" "ev_actor e = actor c"
    if "evaluate_candidate (actor c) (incs c) (cls c) (st c) (rank c) = Inr e" for c e
    using evaluate_candidate_Inr [OF that] by (auto simp: is_candidate_def ranks_are_candidate_key)
  from build_result_selects [OF d a] obtain e where e: "e \<in> set evs" "is_candidate e" "ev_actor e = a"
    and least: "\<And>e'. e' \<in> set evs \<Longrightarrow> is_candidate e' \<Longrightarrow> selection_key e \<le> selection_key e'" by blast
  obtain c where c: "c \<in> set cs" "evaluate_candidate (actor c) (incs c) (cls c) (st c) (rank c) = Inr e"
    using list_all2_right [OF evs e(1)] by blast
  have "candidate_key (cls c) (st c) (rank c) (actor c) \<le> candidate_key (cls c') (st c') (rank c') (actor c')"
    if "c' \<in> set cs" and ok: "incs c' = [] \<and> runnable_rank (st c') \<noteq> None" for c'
  proof -
    from list_all2_left [OF evs that(1)] obtain e' where e': "e' \<in> set evs"
      "evaluate_candidate (actor c') (incs c') (cls c') (st c') (rank c') = Inr e'" by blast
    with least [OF e'(1)] cand [OF e'(2)] cand [OF c(2)] e(2) ok show ?thesis by simp
  qed
  moreover have "dr_status d = SELECTED" using build_result_Inr(3) [OF d] e(1,2) by auto
  ultimately show ?thesis
    using c(1) e(2,3) cand [OF c(2)] by (intro conjI bexI [of _ c] ballI impI) simp_all
qed

lemma dispatch_selects_nobody:
  assumes evs: "list_all2 (\<lambda>c e. evaluate_candidate (actor c) (incs c) (cls c) (st c) (rank c) = Inr e) cs evs"
    and d: "build_result kind fp evs = Inr d" and none: "dr_selected d = None"
  shows "(\<forall>c\<in>set cs. incs c = [] \<longrightarrow> runnable_rank (st c) = None) \<and>
    dr_status d = (if \<exists>c\<in>set cs. incs c = [] then WAIT else NO_COMPATIBLE_CANDIDATE)"
proof -
  from build_result_Inr(4) [OF d] none have no: "\<not> (\<exists>e\<in>set evs. is_candidate e)" by (auto split: if_splits)
  have "\<exists>e\<in>set evs. ev_compatible e = (incs c = []) \<and> is_candidate e = (incs c = [] \<and> runnable_rank (st c) \<noteq> None)"
    if "c \<in> set cs" for c
  proof -
    from list_all2_left [OF evs that] obtain e where e: "e \<in> set evs"
      "evaluate_candidate (actor c) (incs c) (cls c) (st c) (rank c) = Inr e" by blast
    from evaluate_candidate_Inr(2,3) [OF e(2)] e(1) show ?thesis by (intro bexI [of _ e]) (simp_all add: is_candidate_def)
  qed
  moreover have "\<exists>c\<in>set cs. ev_compatible e = (incs c = [])" if "e \<in> set evs" for e
    using list_all2_right [OF evs that] evaluate_candidate_Inr(2) by blast
  ultimately have "\<forall>c\<in>set cs. incs c = [] \<longrightarrow> runnable_rank (st c) = None"
    "(\<exists>e\<in>set evs. ev_compatible e) \<longleftrightarrow> (\<exists>c\<in>set cs. incs c = [])"
    using no by blast+
  with no build_result_Inr(3) [OF d] show ?thesis by simp
qed

lemma evaluations_total:
  assumes "\<And>c. c \<in> set cs \<Longrightarrow> \<exists>e. f c = Inr e"
  shows "\<exists>evs. collect_evaluations (map f cs) = Inr evs"
  using assms
proof (induction cs)
  case (Cons c cs)
  then show ?case by (fastforce simp: bind_result_def)
qed simp

section \<open>The two dispatchers\<close>

text \<open>The reference notions: a candidate fits a request, and can be started now.\<close>

definition brain_fits :: "brain_request \<Rightarrow> brain_candidate \<Rightarrow> bool" where
  "brain_fits r c \<longleftrightarrow>
     br_operation r \<in> set (bc_operations (bd_capability c)) \<and>
     (case (br_required_context r, bc_max_context (bd_capability c)) of (Some n, Some m) \<Rightarrow> n \<le> m | _ \<Rightarrow> True) \<and>
     (bd_class c = PAID_API \<longrightarrow> br_allow_paid r)"

definition executor_fits :: "executor_request \<Rightarrow> executor_candidate \<Rightarrow> bool" where
  "executor_fits r c \<longleftrightarrow>
     xr_operation r \<in> set (ec_operations (xd_capabilities c)) \<and>
     set (xr_required r) \<subseteq> set (ec_capabilities (xd_capabilities c)) \<and>
     (xd_class c = PAID_API \<longrightarrow> xr_allow_paid r)"

definition startable :: "capacity_state \<Rightarrow> bool" where
  "startable st \<longleftrightarrow> st = AVAILABLE \<or> st = LIMITED"

definition brain_key :: "brain_candidate \<Rightarrow> nat \<times> nat \<times> int \<times> string" where
  "brain_key c = candidate_key (bd_class c) (bd_state c) (bd_rank c) (bd_brain_id c)"

definition executor_key :: "executor_candidate \<Rightarrow> nat \<times> nat \<times> int \<times> string" where
  "executor_key c = candidate_key (xd_class c) (xd_state c) (xd_rank c) (xd_executor_id c)"

lemma startable_rank: "startable st \<longleftrightarrow> runnable_rank st \<noteq> None"
  by (cases st) (simp_all add: startable_def)

lemma brain_fits_incompatibilities: "brain_incompatibilities r c = [] \<longleftrightarrow> brain_fits r c"
  by (auto simp: brain_incompatibilities_def brain_fits_def not_less split: option.splits)

lemma executor_fits_incompatibilities: "executor_incompatibilities r c = [] \<longleftrightarrow> executor_fits r c"
  by (auto simp: executor_incompatibilities_def executor_fits_def)

lemma dispatch_brain_Inr:
  assumes "dispatch_brain sha256 r = Inr d"
  obtains evs where
    "list_all2 (\<lambda>c e. evaluate_candidate (bd_brain_id c) (brain_incompatibilities r c) (bd_class c) (bd_state c) (bd_rank c) = Inr e)
       (br_candidates r) evs"
    "build_result BRAIN (brain_request_fingerprint sha256 r) evs = Inr d"
  using assms by (auto simp: dispatch_brain_def bind_result_Inr collect_evaluations_Inr evaluate_brain_def)

lemma dispatch_executor_Inr:
  assumes "dispatch_executor sha256 r = Inr d"
  obtains evs where
    "list_all2 (\<lambda>c e. evaluate_candidate (xd_executor_id c) (executor_incompatibilities r c) (xd_class c) (xd_state c) (xd_rank c)
       = Inr e) (xr_candidates r) evs"
    "build_result EXECUTOR (executor_request_fingerprint sha256 r) evs = Inr d"
  using assms by (auto simp: dispatch_executor_def bind_result_Inr collect_evaluations_Inr evaluate_executor_def)

lemma dispatch_brain_selected:
  assumes "dispatch_brain sha256 r = Inr d" and "dr_selected d = Some a"
  shows "dr_status d = SELECTED \<and> (\<exists>c\<in>set (br_candidates r). bd_brain_id c = a \<and> brain_fits r c \<and> startable (bd_state c) \<and>
    (\<forall>c'\<in>set (br_candidates r). brain_fits r c' \<and> startable (bd_state c') \<longrightarrow> brain_key c \<le> brain_key c'))"
  using assms(1)
proof (rule dispatch_brain_Inr)
  fix evs
  assume a: "list_all2 (\<lambda>c e. evaluate_candidate (bd_brain_id c) (brain_incompatibilities r c) (bd_class c) (bd_state c) (bd_rank c)
      = Inr e) (br_candidates r) evs" "build_result BRAIN (brain_request_fingerprint sha256 r) evs = Inr d"
  from dispatch_selects [OF a assms(2)] show ?thesis
    by (simp add: brain_fits_incompatibilities startable_rank brain_key_def)
qed

lemma dispatch_executor_selected:
  assumes "dispatch_executor sha256 r = Inr d" and "dr_selected d = Some a"
  shows "dr_status d = SELECTED \<and> (\<exists>c\<in>set (xr_candidates r). xd_executor_id c = a \<and> executor_fits r c \<and> startable (xd_state c) \<and>
    (\<forall>c'\<in>set (xr_candidates r). executor_fits r c' \<and> startable (xd_state c') \<longrightarrow> executor_key c \<le> executor_key c'))"
  using assms(1)
proof (rule dispatch_executor_Inr)
  fix evs
  assume a: "list_all2 (\<lambda>c e. evaluate_candidate (xd_executor_id c) (executor_incompatibilities r c) (xd_class c) (xd_state c)
      (xd_rank c) = Inr e) (xr_candidates r) evs"
    "build_result EXECUTOR (executor_request_fingerprint sha256 r) evs = Inr d"
  from dispatch_selects [OF a assms(2)] show ?thesis
    by (simp add: executor_fits_incompatibilities startable_rank executor_key_def)
qed

lemma dispatch_brain_nobody:
  assumes "dispatch_brain sha256 r = Inr d" and "dr_selected d = None"
  shows "(\<forall>c\<in>set (br_candidates r). brain_fits r c \<longrightarrow> \<not> startable (bd_state c)) \<and>
    dr_status d = (if \<exists>c\<in>set (br_candidates r). brain_fits r c then WAIT else NO_COMPATIBLE_CANDIDATE)"
  using assms(1)
proof (rule dispatch_brain_Inr)
  fix evs
  assume a: "list_all2 (\<lambda>c e. evaluate_candidate (bd_brain_id c) (brain_incompatibilities r c) (bd_class c) (bd_state c) (bd_rank c)
      = Inr e) (br_candidates r) evs" "build_result BRAIN (brain_request_fingerprint sha256 r) evs = Inr d"
  from dispatch_selects_nobody [OF a assms(2)] show ?thesis
    by (simp add: brain_fits_incompatibilities startable_rank)
qed

lemma dispatch_executor_nobody:
  assumes "dispatch_executor sha256 r = Inr d" and "dr_selected d = None"
  shows "(\<forall>c\<in>set (xr_candidates r). executor_fits r c \<longrightarrow> \<not> startable (xd_state c)) \<and>
    dr_status d = (if \<exists>c\<in>set (xr_candidates r). executor_fits r c then WAIT else NO_COMPATIBLE_CANDIDATE)"
  using assms(1)
proof (rule dispatch_executor_Inr)
  fix evs
  assume a: "list_all2 (\<lambda>c e. evaluate_candidate (xd_executor_id c) (executor_incompatibilities r c) (xd_class c) (xd_state c)
      (xd_rank c) = Inr e) (xr_candidates r) evs"
    "build_result EXECUTOR (executor_request_fingerprint sha256 r) evs = Inr d"
  from dispatch_selects_nobody [OF a assms(2)] show ?thesis
    by (simp add: executor_fits_incompatibilities startable_rank)
qed

lemma mk_brain_candidate_Inr:
  assumes "mk_brain_candidate c = Inr c'"
  shows "c' = c" "valid_actor_id (bd_brain_id c)" "0 \<le> bd_rank c" "bd_brain_id c = bc_brain_id (bd_capability c)"
  using assms by (auto simp: mk_brain_candidate_def check_size_Inr split: if_splits)

lemma mk_brain_request_Inr:
  assumes "mk_brain_request r = Inr r'"
  shows "r' = r\<lparr>br_candidates := sort_key bd_brain_id (br_candidates r)\<rparr>" "br_schema r = ''1''"
    "br_candidates r \<noteq> []" "distinct (map bd_brain_id (br_candidates r))"
    "\<forall>n. br_required_context r = Some n \<longrightarrow> 0 \<le> n" "json_size (brain_request_dict r') \<le> max_serialized_bytes"
  using assms by (auto simp: mk_brain_request_def Let_def check_size_Inr split: if_splits option.splits)

lemma mk_executor_request_Inr:
  assumes "mk_executor_request r = Inr r'"
  shows "r' = r\<lparr>xr_candidates := sort_key xd_executor_id (xr_candidates r),
      xr_required := sort_key capability_value (xr_required r)\<rparr>"
    "xr_candidates r \<noteq> []" "distinct (map xd_executor_id (xr_candidates r))"
  using assms by (auto simp: mk_executor_request_def Let_def check_size_Inr split: if_splits)

lemma dispatch_total:
  assumes "cs \<noteq> []" "distinct (map actor cs)" and "hex_digits 64 fp"
    and ok: "\<And>c. c \<in> set cs \<Longrightarrow> valid_actor_id (actor c) \<and> 0 \<le> rank c \<and> distinct (incs c) \<and> ELIGIBLE \<notin> set (incs c)"
  shows "made_or_too_large (bind_result
      (collect_evaluations (map (\<lambda>c. evaluate_candidate (actor c) (incs c) (cls c) (st c) (rank c)) cs)) (build_result kind fp))"
proof -
  let ?f = "\<lambda>c. evaluate_candidate (actor c) (incs c) (cls c) (st c) (rank c)"
  obtain evs where evs: "collect_evaluations (map ?f cs) = Inr evs"
    using evaluations_total [of cs ?f] evaluate_candidate_total ok by blast
  then have all: "list_all2 (\<lambda>c e. ?f c = Inr e) cs evs" by (simp add: collect_evaluations_Inr)
  then have "map ev_actor evs = map actor cs"
    by (induction rule: list_all2_induct) (simp_all add: evaluate_candidate_Inr)
  moreover from this assms(1) have "evs \<noteq> []" by auto
  moreover have "valid_actor_id (ev_actor e) \<and> (is_candidate e \<longrightarrow> runnable_rank (ev_state e) \<noteq> None)"
    if "e \<in> set evs" for e
  proof -
    from list_all2_right [OF all that] obtain c where c: "c \<in> set cs" "?f c = Inr e" by blast
    from evaluate_candidate_Inr [OF c(2)] ok [OF c(1)] show ?thesis by (simp add: is_candidate_def)
  qed
  ultimately have "made_or_too_large (build_result kind fp evs)"
    using assms(2,3) by (intro build_result_total) auto
  with evs show ?thesis by (simp add: bind_result_def)
qed

lemma dispatch_brain_total:
  assumes "mk_brain_request r = Inr r'" and "\<forall>c\<in>set (br_candidates r). mk_brain_candidate c = Inr c"
    and "\<And>x. hex_digits 64 (sha256 x)"
  shows "made_or_too_large (dispatch_brain sha256 r')"
proof -
  note r = mk_brain_request_Inr [OF assms(1)]
  have "distinct (map bd_brain_id (br_candidates r'))"
    using r(4) by (simp add: r(1) distinct_map)
  moreover have "br_candidates r' \<noteq> []"
    using r(3) by (metis r(1) brain_request.select_convs(2) brain_request.surjective brain_request.update_convs(2)
        set_empty set_sort)
  moreover have "valid_actor_id (bd_brain_id c) \<and> 0 \<le> bd_rank c" if "c \<in> set (br_candidates r')" for c
    using that assms(2) mk_brain_candidate_Inr [of c c] by (auto simp: r(1))
  ultimately show ?thesis
    unfolding dispatch_brain_def evaluate_brain_def
    using dispatch_total [of "br_candidates r'" bd_brain_id "brain_request_fingerprint sha256 r'" bd_rank
        "brain_incompatibilities r'" bd_class bd_state BRAIN]
    by (simp add: brain_request_fingerprint_def assms(3) brain_incompatibilities_distinct)
qed

text \<open>The order in which the candidates are given does not reach a request.\<close>

lemma sort_key_distinct_mset:
  assumes "mset xs = mset ys" and "distinct (map f xs)"
  shows "sort_key f xs = sort_key f ys"
proof (rule sort_key_inj_key_eq)
  show "mset xs = mset (sort_key f ys)" using assms(1) by simp
  show "inj_on f (set xs)" using assms(2) by (simp add: distinct_map)
qed simp

lemma brain_request_order:
  assumes "mset cs = mset cs'"
  shows "mk_brain_request (r\<lparr>br_candidates := cs\<rparr>) = mk_brain_request (r\<lparr>br_candidates := cs'\<rparr>)"
proof (cases "distinct (map bd_brain_id cs)")
  case True
  moreover have "distinct (map bd_brain_id cs')" "cs = [] \<longleftrightarrow> cs' = []"
    using True assms by (metis mset_map mset_eq_imp_distinct_iff) (metis assms mset_zero_iff)
  ultimately show ?thesis
    by (simp add: mk_brain_request_def sort_key_distinct_mset [OF assms True] Let_def)
next
  case False
  moreover have "\<not> distinct (map bd_brain_id cs')" "cs = [] \<longleftrightarrow> cs' = []"
    using False assms by (metis mset_map mset_eq_imp_distinct_iff) (metis assms mset_zero_iff)
  ultimately show ?thesis by (simp add: mk_brain_request_def)
qed

end
