(* ===== verification/Paid_Grant.thy ===== *)
theory Paid_Grant
  imports Dispatch
begin

text \<open>
  \<open>src/aios_bridge/paid_api_grant.py\<close>: the one-shot permission of a human for one call of a paid model, its
  validation, its serialised form and the two checks a caller makes against it. Every \<open>ValueError\<close> is a
  constructor of \<open>grant_error\<close>, with the name of the field. SHA-256 is a parameter.
\<close>

datatype grant_error =
    GrantNotAString string
  | GrantNotAnInteger string
  | GrantPadded string
  | GrantTooLong string
  | GrantUnprintable string
  | GrantBadFormat string
  | GrantSchemaInvalid
  | GrantActorKindInvalid
  | GrantNotForBrain
  | GrantOperationInvalid
  | GrantPathInvalid
  | GrantOutOfRange string
  | GrantForged
  | GrantTooLarge
  | GrantNotAnObject
  | GrantInexactFields
  | GrantMalformed
  | GrantMismatch string
  | GrantNegativeTokens
  | GrantExceeded string

section \<open>Validators\<close>

text \<open>\<open>str.isprintable\<close> of a Latin-1 character: neither a control character, nor \<open>U+00A0\<close>, nor the soft hyphen.\<close>

definition is_printable :: "char \<Rightarrow> bool" where
  "is_printable c \<longleftrightarrow> in_range 32 126 c \<or> in_range 161 172 c \<or> in_range 174 255 c"

definition grant_id_re :: rx where
  "grant_id_re = Then (some_chars lower_alnum) (Optional (Then (Many lease_id_char) (Chars lower_alnum)))"

definition grant_task_re :: rx where
  "grant_task_re = Then (lit ''TASK-'') (some_chars is_digit)"

definition is_alnum :: "char \<Rightarrow> bool" where
  "is_alnum c \<longleftrightarrow> is_upper c \<or> is_lower c \<or> is_digit c"

definition grant_actor_re :: rx where
  "grant_actor_re = Then (Chars is_alnum) (Many (\<lambda>c. is_alnum c \<or> c \<in> set ''_.:-''))"

definition require_string :: "pyval \<Rightarrow> string \<Rightarrow> grant_error + string" where
  "require_string v field = (case v of PStr s \<Rightarrow> Inr s | _ \<Rightarrow> Inl (GrantNotAString field))"

definition require_int :: "pyval \<Rightarrow> string \<Rightarrow> grant_error + int" where
  "require_int v field = (case v of PInt n \<Rightarrow> Inr n | _ \<Rightarrow> Inl (GrantNotAnInteger field))"

definition bounded_identifier :: "pyval \<Rightarrow> string \<Rightarrow> nat \<Rightarrow> rx option \<Rightarrow> grant_error + string" where
  "bounded_identifier v field maximum pattern =
     bind_result (require_string v field) (\<lambda>s.
       if s = [] \<or> s \<noteq> strip s then Inl (GrantPadded field)
       else if maximum < length s then Inl (GrantTooLong field)
       else if \<not> list_all is_printable s then Inl (GrantUnprintable field)
       else (case pattern of
               Some r \<Rightarrow> if re_fullmatch r s = None then Inl (GrantBadFormat field) else Inr s
             | None \<Rightarrow> Inr s))"

definition parse_actor_kind :: "pyval \<Rightarrow> grant_error + actor_kind" where
  "parse_actor_kind v =
     (if v = PStr ''BRAIN'' then Inr BRAIN
      else if v = PStr ''EXECUTOR'' then Inl GrantNotForBrain else Inl GrantActorKindInvalid)"

definition all_brain_operations :: "brain_operation list" where
  "all_brain_operations = [B_TASK, B_TASK_AND_PLAN, B_PLAN, B_DIAGNOSIS, B_PATCH_PROPOSAL, B_REVIEW]"

definition parse_brain_operation :: "pyval \<Rightarrow> grant_error + brain_operation" where
  "parse_brain_operation v =
     (case v of
        PStr s \<Rightarrow> (case find (\<lambda>opn. brain_operation_value opn = s) all_brain_operations of
                     Some opn \<Rightarrow> Inr opn | None \<Rightarrow> Inl GrantOperationInvalid)
      | _ \<Rightarrow> Inl GrantOperationInvalid)"

fun split_slash :: "string \<Rightarrow> string list" where
  "split_slash [] = [[]]"
| "split_slash (c # cs) =
     (if c = CHR ''/'' then [] # split_slash cs
      else (case split_slash cs of w # ws \<Rightarrow> (c # w) # ws | [] \<Rightarrow> [[c]]))"

definition canonical_path :: "string \<Rightarrow> bool" where
  "canonical_path s \<longleftrightarrow>
     take 4 s = ''.ai/'' \<and> list_all (\<lambda>c. c \<notin> {CHR 0x5C, CHR '':'', CHR 0x00, CHR 0x0D, CHR 0x0A}) s \<and>
     list_all (\<lambda>w. w \<noteq> [] \<and> w \<noteq> ''.'' \<and> w \<noteq> ''..'') (split_slash s)"

definition validate_artifact_path :: "pyval \<Rightarrow> grant_error + string" where
  "validate_artifact_path v =
     bind_result (require_string v ''authorized_artifact_path'') (\<lambda>s. if canonical_path s then Inr s else Inl GrantPathInvalid)"

definition require_hex :: "nat \<Rightarrow> pyval \<Rightarrow> string \<Rightarrow> grant_error + string" where
  "require_hex n v field =
     bind_result (require_string v field) (\<lambda>s.
       if re_fullmatch (times n (Chars lower_hex)) s = None then Inl (GrantBadFormat field) else Inr s)"

definition require_between :: "int \<Rightarrow> int \<Rightarrow> pyval \<Rightarrow> string \<Rightarrow> grant_error + int" where
  "require_between a b v field =
     bind_result (require_int v field) (\<lambda>n. if a \<le> n \<and> n \<le> b then Inr n else Inl (GrantOutOfRange field))"

section \<open>The grant\<close>

record paid_grant =
  pg_schema :: string
  pg_id :: string
  pg_task :: string
  pg_kind :: actor_kind
  pg_brain :: string
  pg_provider :: string
  pg_model :: string
  pg_operation :: brain_operation
  pg_path :: string
  pg_blob :: string
  pg_max_input :: int
  pg_max_output :: int
  pg_max_calls :: int
  pg_expires :: int
  pg_workspace :: string
  pg_fingerprint :: string

definition grant_semantics :: "paid_grant \<Rightarrow> (string \<times> jval) list" where
  "grant_semantics g =
     [(''schema_version'', JStr (pg_schema g)), (''grant_id'', JStr (pg_id g)), (''task_id'', JStr (pg_task g)),
      (''actor_kind'', JStr (actor_kind_value (pg_kind g))), (''brain_id'', JStr (pg_brain g)),
      (''provider_id'', JStr (pg_provider g)), (''model_id'', JStr (pg_model g)),
      (''brain_operation'', JStr (brain_operation_value (pg_operation g))),
      (''authorized_artifact_path'', JStr (pg_path g)), (''authorized_artifact_blob_sha'', JStr (pg_blob g)),
      (''max_input_tokens'', JInt (pg_max_input g)), (''max_output_tokens'', JInt (pg_max_output g)),
      (''max_calls'', JInt (pg_max_calls g)), (''expires_at_epoch_seconds'', JInt (pg_expires g)),
      (''workspace_id'', JStr (pg_workspace g))]"

definition grant_dict :: "paid_grant \<Rightarrow> (string \<times> jval) list" where
  "grant_dict g = grant_semantics g @ [(''grant_fingerprint'', JStr (pg_fingerprint g))]"

definition grant_json :: "paid_grant \<Rightarrow> string" where
  "grant_json g = json_text (JObj (grant_dict g))"

definition grant_digest :: "(string \<Rightarrow> string) \<Rightarrow> paid_grant \<Rightarrow> string" where
  "grant_digest sha256 g = sha256 (json_text (JObj (grant_semantics g)))"

text \<open>\<open>__post_init__\<close>: the stored fingerprint is computed when none is given and compared otherwise.\<close>

definition seal_grant :: "(string \<Rightarrow> string) \<Rightarrow> pyval \<Rightarrow> paid_grant \<Rightarrow> grant_error + paid_grant" where
  "seal_grant sha256 fp g =
     bind_result
       (if fp = PNone then Inr (g\<lparr>pg_fingerprint := grant_digest sha256 g\<rparr>)
        else bind_result (require_hex 64 fp ''grant_fingerprint'') (\<lambda>s.
               if s \<noteq> grant_digest sha256 g then Inl GrantForged else Inr (g\<lparr>pg_fingerprint := s\<rparr>)))
       (\<lambda>g. if max_serialized_bytes < utf8_length (grant_json g) then Inl GrantTooLarge else Inr g)"

definition mk_grant :: "(string \<Rightarrow> string) \<Rightarrow> (string \<Rightarrow> pyval) \<Rightarrow> grant_error + paid_grant" where
  "mk_grant sha256 arg =
     (if arg ''schema_version'' \<noteq> PStr ''1'' then Inl GrantSchemaInvalid else
      bind_result (bounded_identifier (arg ''grant_id'') ''grant_id'' 96 (Some grant_id_re)) (\<lambda>gid.
      bind_result (require_string (arg ''task_id'') ''task_id'') (\<lambda>task.
      if re_fullmatch grant_task_re task = None then Inl (GrantBadFormat ''task_id'') else
      bind_result (parse_actor_kind (arg ''actor_kind'')) (\<lambda>kind.
      bind_result (bounded_identifier (arg ''brain_id'') ''brain_id'' 128 (Some grant_actor_re)) (\<lambda>brain.
      bind_result (bounded_identifier (arg ''provider_id'') ''provider_id'' 128 (Some grant_actor_re)) (\<lambda>provider.
      bind_result (bounded_identifier (arg ''model_id'') ''model_id'' 256 None) (\<lambda>model.
      bind_result (parse_brain_operation (arg ''brain_operation'')) (\<lambda>opn.
      bind_result (validate_artifact_path (arg ''authorized_artifact_path'')) (\<lambda>path.
      bind_result (require_hex 40 (arg ''authorized_artifact_blob_sha'') ''authorized_artifact_blob_sha'') (\<lambda>blob.
      bind_result (require_between 1 1000000 (arg ''max_input_tokens'') ''max_input_tokens'') (\<lambda>inp.
      bind_result (require_between 1 262144 (arg ''max_output_tokens'') ''max_output_tokens'') (\<lambda>out.
      bind_result (require_between 1 1 (arg ''max_calls'') ''max_calls'') (\<lambda>calls.
      bind_result (require_int (arg ''expires_at_epoch_seconds'') ''expires_at_epoch_seconds'') (\<lambda>expires.
      if expires \<le> 0 then Inl (GrantOutOfRange ''expires_at_epoch_seconds'') else
      bind_result (require_hex 64 (arg ''workspace_id'') ''workspace_id'') (\<lambda>ws.
        seal_grant sha256 (arg ''grant_fingerprint'')
          \<lparr>pg_schema = ''1'', pg_id = gid, pg_task = task, pg_kind = kind, pg_brain = brain, pg_provider = provider,
           pg_model = model, pg_operation = opn, pg_path = path, pg_blob = blob, pg_max_input = inp,
           pg_max_output = out, pg_max_calls = calls, pg_expires = expires, pg_workspace = ws,
           pg_fingerprint = []\<rparr>)))))))))))))))"

definition grant_fields :: "string list" where
  "grant_fields =
     [''schema_version'', ''grant_id'', ''task_id'', ''actor_kind'', ''brain_id'', ''provider_id'', ''model_id'',
      ''brain_operation'', ''authorized_artifact_path'', ''authorized_artifact_blob_sha'', ''max_input_tokens'',
      ''max_output_tokens'', ''max_calls'', ''expires_at_epoch_seconds'', ''workspace_id'', ''grant_fingerprint'']"

definition grant_from_dict :: "(string \<Rightarrow> string) \<Rightarrow> pyval \<Rightarrow> grant_error + paid_grant" where
  "grant_from_dict sha256 v =
     (case v of
        PDict d \<Rightarrow>
          if list_all (\<lambda>(k, _). k \<in> set grant_fields) d \<and> list_all (has_key d) grant_fields
          then mk_grant sha256 (\<lambda>k. dget d k PNone) else Inl GrantInexactFields
      | _ \<Rightarrow> Inl GrantNotAnObject)"

text \<open>
  \<open>from_json\<close> of the bytes of a file. Here \<open>fb_json\<close> holds every pair of an object of the text, in order, and
  nothing when the bytes are not UTF-8 or the text is not JSON.
\<close>

fun repeated_keys :: "pyval \<Rightarrow> bool" where
  "repeated_keys (PDict d) \<longleftrightarrow> \<not> distinct (map fst d) \<or> list_ex (\<lambda>(_, v). repeated_keys v) d"
| "repeated_keys (PList vs) \<longleftrightarrow> list_ex repeated_keys vs"
| "repeated_keys _ \<longleftrightarrow> False"

definition grant_from_json :: "(string \<Rightarrow> string) \<Rightarrow> file_body \<Rightarrow> grant_error + paid_grant" where
  "grant_from_json sha256 b =
     (case fb_json b of
        None \<Rightarrow> Inl GrantMalformed
      | Some v \<Rightarrow> if repeated_keys v then Inl GrantMalformed else grant_from_dict sha256 v)"

section \<open>What a caller checks\<close>

record grant_use =
  gu_task :: string
  gu_workspace :: string
  gu_brain :: string
  gu_provider :: string
  gu_model :: string
  gu_operation :: brain_operation
  gu_path :: string
  gu_blob :: string

definition validate_grant_binding :: "(string \<Rightarrow> string) \<Rightarrow> paid_grant \<Rightarrow> grant_use \<Rightarrow> grant_error + unit" where
  "validate_grant_binding sha256 g u =
     (if pg_kind g \<noteq> BRAIN then Inl GrantNotForBrain
      else if pg_max_calls g \<noteq> 1 then Inl (GrantOutOfRange ''max_calls'')
      else if pg_fingerprint g \<noteq> grant_digest sha256 g then Inl GrantForged
      else if gu_task u \<noteq> pg_task g then Inl (GrantMismatch ''task_id'')
      else if gu_workspace u \<noteq> pg_workspace g then Inl (GrantMismatch ''workspace_id'')
      else if gu_brain u \<noteq> pg_brain g then Inl (GrantMismatch ''brain_id'')
      else if gu_provider u \<noteq> pg_provider g then Inl (GrantMismatch ''provider_id'')
      else if gu_model u \<noteq> pg_model g then Inl (GrantMismatch ''model_id'')
      else if gu_path u \<noteq> pg_path g then Inl (GrantMismatch ''authorized_artifact_path'')
      else if gu_blob u \<noteq> pg_blob g then Inl (GrantMismatch ''authorized_artifact_blob_sha'')
      else if gu_operation u \<noteq> pg_operation g then Inl (GrantMismatch ''brain_operation'')
      else Inr ())"

definition validate_grant_budget :: "paid_grant \<Rightarrow> int \<Rightarrow> int \<Rightarrow> grant_error + unit" where
  "validate_grant_budget g inp out =
     (if inp < 0 \<or> out < 0 then Inl GrantNegativeTokens
      else if pg_max_input g < inp then Inl (GrantExceeded ''input'')
      else if pg_max_output g < out then Inl (GrantExceeded ''output'')
      else Inr ())"

section \<open>Lemmas\<close>

definition grant_body :: "paid_grant \<Rightarrow> file_body" where
  "grant_body g = \<lparr>fb_size = utf8_length (grant_json g), fb_json = Some (py_of_json (JObj (grant_dict g)))\<rparr>"

text \<open>A grant that the constructor accepts, given its own fields.\<close>

definition grant_items :: "paid_grant \<Rightarrow> pydict" where
  "grant_items g = map (\<lambda>(k, v). (k, py_of_json v)) (grant_dict g)"

definition wf_grant :: "(string \<Rightarrow> string) \<Rightarrow> paid_grant \<Rightarrow> bool" where
  "wf_grant sha256 g \<longleftrightarrow> mk_grant sha256 (\<lambda>k. dget (grant_items g) k PNone) = Inr g"

lemma require_Inr:
  "require_string v field = Inr s \<Longrightarrow> v = PStr s"
  "require_int v field = Inr n \<Longrightarrow> v = PInt n"
  "bounded_identifier v field m r = Inr s \<Longrightarrow> v = PStr s"
  "require_hex k v field = Inr s \<Longrightarrow> v = PStr s"
  "require_between a b v field = Inr n \<Longrightarrow> v = PInt n \<and> a \<le> n \<and> n \<le> b"
  "validate_artifact_path v = Inr s \<Longrightarrow> v = PStr s \<and> canonical_path s"
proof -
  show s: "require_string v field = Inr s \<Longrightarrow> v = PStr s" for v field s
    by (auto simp: require_string_def split: pyval.splits)
  show i: "require_int v field = Inr n \<Longrightarrow> v = PInt n" for v field n
    by (auto simp: require_int_def split: pyval.splits)
qed (auto simp: bounded_identifier_def require_hex_def require_between_def validate_artifact_path_def bind_result_Inr
    require_string_def require_int_def split: pyval.splits if_splits option.splits)

lemma parse_actor_kind_Inr: "parse_actor_kind v = Inr k \<Longrightarrow> k = BRAIN \<and> v = PStr ''BRAIN''"
  by (auto simp: parse_actor_kind_def split: if_splits)

lemma parse_brain_operation_Inr: "parse_brain_operation v = Inr opn \<Longrightarrow> v = PStr (brain_operation_value opn)"
  by (auto simp: parse_brain_operation_def find_Some_iff split: pyval.splits option.splits)

lemma seal_grant_Inr:
  assumes "seal_grant sha256 fp g = Inr g'"
  shows "g' = g\<lparr>pg_fingerprint := grant_digest sha256 g\<rparr> \<and> (fp = PNone \<or> fp = PStr (grant_digest sha256 g)) \<and>
    utf8_length (grant_json g') \<le> max_serialized_bytes"
  using assms by (auto simp: seal_grant_def bind_result_Inr dest: require_Inr split: if_splits)

lemma grant_digest_fingerprint: "grant_digest sha256 (g\<lparr>pg_fingerprint := s\<rparr>) = grant_digest sha256 g"
  by (simp add: grant_digest_def grant_semantics_def)

text \<open>The argument of each field of an accepted grant is the value of that field.\<close>

lemma mk_grant_Inr:
  assumes "mk_grant sha256 arg = Inr g"
  shows "arg ''schema_version'' = PStr (pg_schema g)" "arg ''grant_id'' = PStr (pg_id g)"
    "arg ''task_id'' = PStr (pg_task g)" "arg ''actor_kind'' = PStr ''BRAIN''" "pg_kind g = BRAIN"
    "arg ''brain_id'' = PStr (pg_brain g)" "arg ''provider_id'' = PStr (pg_provider g)"
    "arg ''model_id'' = PStr (pg_model g)" "arg ''brain_operation'' = PStr (brain_operation_value (pg_operation g))"
    "arg ''authorized_artifact_path'' = PStr (pg_path g)" "arg ''authorized_artifact_blob_sha'' = PStr (pg_blob g)"
    "arg ''max_input_tokens'' = PInt (pg_max_input g)" "arg ''max_output_tokens'' = PInt (pg_max_output g)"
    "arg ''max_calls'' = PInt (pg_max_calls g)" "arg ''expires_at_epoch_seconds'' = PInt (pg_expires g)"
    "arg ''workspace_id'' = PStr (pg_workspace g)" "pg_schema g = ''1''"
    "1 \<le> pg_max_input g \<and> pg_max_input g \<le> 1000000" "1 \<le> pg_max_output g \<and> pg_max_output g \<le> 262144"
    "pg_max_calls g = 1" "0 < pg_expires g" "canonical_path (pg_path g)"
  using assms unfolding mk_grant_def
  by (auto simp: bind_result_Inr split: if_splits
      dest!: require_Inr parse_actor_kind_Inr parse_brain_operation_Inr seal_grant_Inr)


lemma mk_grant_seal: "mk_grant sha256 arg = Inr g \<Longrightarrow> \<exists>g0. seal_grant sha256 (arg ''grant_fingerprint'') g0 = Inr g"
  by (auto simp: mk_grant_def bind_result_Inr split: if_splits)

lemma mk_grant_fingerprint:
  assumes "mk_grant sha256 arg = Inr g"
  shows "pg_fingerprint g = grant_digest sha256 g" "utf8_length (grant_json g) \<le> max_serialized_bytes"
    "arg ''grant_fingerprint'' = PNone \<or> arg ''grant_fingerprint'' = PStr (pg_fingerprint g)"
  using mk_grant_seal [OF assms] by (auto dest!: seal_grant_Inr simp: grant_digest_fingerprint)

lemma grant_field_names: "map fst (grant_items g) = grant_fields" "distinct grant_fields"
  by (simp_all add: grant_items_def grant_dict_def grant_semantics_def grant_fields_def)

lemma grant_items_get:
  "dget (grant_items g) ''schema_version'' v = PStr (pg_schema g)"
  "dget (grant_items g) ''grant_id'' v = PStr (pg_id g)"
  "dget (grant_items g) ''task_id'' v = PStr (pg_task g)"
  "dget (grant_items g) ''actor_kind'' v = PStr (actor_kind_value (pg_kind g))"
  "dget (grant_items g) ''brain_id'' v = PStr (pg_brain g)"
  "dget (grant_items g) ''provider_id'' v = PStr (pg_provider g)"
  "dget (grant_items g) ''model_id'' v = PStr (pg_model g)"
  "dget (grant_items g) ''brain_operation'' v = PStr (brain_operation_value (pg_operation g))"
  "dget (grant_items g) ''authorized_artifact_path'' v = PStr (pg_path g)"
  "dget (grant_items g) ''authorized_artifact_blob_sha'' v = PStr (pg_blob g)"
  "dget (grant_items g) ''max_input_tokens'' v = PInt (pg_max_input g)"
  "dget (grant_items g) ''max_output_tokens'' v = PInt (pg_max_output g)"
  "dget (grant_items g) ''max_calls'' v = PInt (pg_max_calls g)"
  "dget (grant_items g) ''expires_at_epoch_seconds'' v = PInt (pg_expires g)"
  "dget (grant_items g) ''workspace_id'' v = PStr (pg_workspace g)"
  "dget (grant_items g) ''grant_fingerprint'' v = PStr (pg_fingerprint g)"
  by (simp_all add: dget_def grant_items_def grant_dict_def grant_semantics_def)

text \<open>A grant made without a fingerprint is made again from its own dictionary when SHA-256 gives hexadecimal digits.\<close>

lemma mk_grant_cong:
  assumes "\<And>k. k \<in> set grant_fields \<Longrightarrow> arg k = arg' k"
  shows "mk_grant sha256 arg = mk_grant sha256 arg'"
proof -
  have "list_all (\<lambda>k. arg k = arg' k) grant_fields" using assms by (simp add: list_all_iff)
  then show ?thesis by (simp add: grant_fields_def mk_grant_def cong: if_cong)
qed

definition is_digest :: "(string \<Rightarrow> string) \<Rightarrow> bool" where
  "is_digest sha256 \<longleftrightarrow> (\<forall>s. re_fullmatch (times 64 (Chars lower_hex)) (sha256 s) \<noteq> None)"

lemma seal_given:
  assumes "seal_grant sha256 PNone g = Inr g'" and "is_digest sha256"
  shows "seal_grant sha256 (PStr (pg_fingerprint g')) g = Inr g'"
  using seal_grant_Inr [OF assms(1)] assms(2)
  by (auto simp: seal_grant_def bind_result_def require_hex_def require_string_def is_digest_def grant_digest_def not_less)

lemma mk_grant_given:
  assumes "mk_grant sha256 arg = Inr g" and "is_digest sha256"
  shows "mk_grant sha256 (arg(''grant_fingerprint'' := PStr (pg_fingerprint g))) = Inr g"
proof (cases "arg ''grant_fingerprint'' = PNone")
  case True
  with assms(1) have "\<exists>g0. seal_grant sha256 PNone g0 = Inr g \<and>
      mk_grant sha256 (arg(''grant_fingerprint'' := PStr (pg_fingerprint g))) = seal_grant sha256 (PStr (pg_fingerprint g)) g0"
    by (auto simp: mk_grant_def bind_result_Inr split: if_splits)
  with seal_given assms(2) show ?thesis by metis
next
  case False
  with mk_grant_fingerprint(3) [OF assms(1)] have "arg(''grant_fingerprint'' := PStr (pg_fingerprint g)) = arg"
    by auto
  with assms(1) show ?thesis by simp
qed

lemma mk_grant_wf:
  assumes "mk_grant sha256 arg = Inr g" and "is_digest sha256"
  shows "wf_grant sha256 g"
proof -
  note f = mk_grant_Inr [OF assms(1)]
  have "mk_grant sha256 (\<lambda>k. dget (grant_items g) k PNone) =
      mk_grant sha256 (arg(''grant_fingerprint'' := PStr (pg_fingerprint g)))"
  proof (rule mk_grant_cong)
    fix k
    assume "k \<in> set grant_fields"
    moreover have "list_all (\<lambda>k. dget (grant_items g) k PNone = (arg(''grant_fingerprint'' := PStr (pg_fingerprint g))) k)
        grant_fields"
      by (simp add: grant_fields_def grant_items_get f)
    ultimately show "dget (grant_items g) k PNone = (arg(''grant_fingerprint'' := PStr (pg_fingerprint g))) k"
      unfolding list_all_iff by (rule bspec [rotated])
  qed
  with mk_grant_given [OF assms] show ?thesis by (simp add: wf_grant_def)
qed

lemma wf_grant_facts:
  assumes "wf_grant sha256 g"
  shows "pg_fingerprint g = grant_digest sha256 g" "utf8_length (grant_json g) \<le> max_serialized_bytes"
    "pg_kind g = BRAIN" "pg_max_calls g = 1"
    "1 \<le> pg_max_input g \<and> pg_max_input g \<le> 1000000" "1 \<le> pg_max_output g \<and> pg_max_output g \<le> 262144"
    "0 < pg_expires g" "canonical_path (pg_path g)"
  using assms [unfolded wf_grant_def] by (rule mk_grant_fingerprint mk_grant_Inr)+

text \<open>What is written for a grant is read back as that grant.\<close>

lemma grant_body_read:
  assumes "wf_grant sha256 g"
  shows "grant_from_json sha256 (grant_body g) = Inr g"
proof -
  let ?d = "sort_key fst (grant_items g)"
  have body: "fb_json (grant_body g) = Some (PDict ?d)"
    by (simp add: grant_body_def grant_items_def)
  have keys: "distinct (map fst (grant_items g))" using grant_field_names by simp
  have "distinct (map fst ?d)" using keys by (simp add: distinct_map)
  moreover have "\<not> repeated_keys v" if "(k, v) \<in> set (grant_items g)" for k v
    using that by (auto simp: grant_items_def grant_dict_def grant_semantics_def)
  ultimately have "\<not> repeated_keys (PDict ?d)" by (auto simp: list_ex_iff)
  moreover have "list_all (\<lambda>(k, _). k \<in> set grant_fields) ?d" "list_all (has_key ?d) grant_fields"
    using grant_field_names(1) [of g]
    by (auto simp: list_all_iff has_key_def map_of_sort_key [OF keys] map_of_eq_None_iff simp flip: grant_field_names(1) [of g])
      force
  ultimately show ?thesis
    using assms by (simp add: grant_from_json_def body grant_from_dict_def dget_sort_key [OF keys] wf_grant_def)
qed

lemma grant_body_size: "fb_size (grant_body g) \<noteq> 0"
  by (simp add: grant_body_def grant_json_def utf8_length_def)

lemma grant_from_json_wf:
  assumes "grant_from_json sha256 b = Inr g" and "is_digest sha256"
  shows "wf_grant sha256 g"
  using assms by (auto simp: grant_from_json_def grant_from_dict_def intro: mk_grant_wf split: option.splits if_splits pyval.splits)

end
