(* ===== verification/Grant_Store.thy ===== *)
theory Grant_Store
  imports Paid_Grant Lease_Store
begin

text \<open>
  \<open>src/aios_bridge/runtime_paid_api_grant.py\<close>: the file system store of paid API grants. A grant is ACTIVE
  when its file is in the task's \<open>active\<close> directory and CONSUMED when it is in \<open>consumed\<close>; the file is
  named after the SHA-256 of the grant id. A mutating call holds the thread and the file lock of the task, so it
  is one step; a read is one step as well. What the operating system does in a call is an input, as in the store of
  executor leases, with the same outcomes of a write. A call that is killed before it opens the file changes
  nothing, like one whose open fails.
\<close>

datatype grant_store_error =
    StoreTaskInvalid
  | StoreGrantIdInvalid
  | StoreWorkspaceInvalid
  | StoreNowInvalid
  | StoreWrongWorkspace
  | StoreForged
  | StoreExpired
  | StateIsDirectory
  | StateReadFailed
  | StateEmpty
  | StateTooLarge
  | StateInvalid grant_error
  | StateWrongTask
  | StateWrongGrant
  | StateWrongWorkspace
  | StateForged
  | StateContradictory
  | StateNotExact
  | GrantAlreadyUsed
  | GrantNotActive
  | GrantAlreadyConsumed
  | GuardFailed
  | StateMkdirFailed
  | ActivateFailed
  | ConsumeFailed
  | ConsumedExists
  | ActiveRemains
  | StoreKilled

datatype state_entry = StateDir | StateFile file_body

record grant_dir =
  gd_active :: "string \<Rightarrow> state_entry option"
  gd_consumed :: "string \<Rightarrow> state_entry option"

record grant_store =
  gs_workspace :: string
  gs_tasks :: "string \<Rightarrow> grant_dir"

section \<open>Reading\<close>

definition store_task_id :: "string \<Rightarrow> bool" where
  "store_task_id t \<longleftrightarrow> re_fullmatch grant_task_re t \<noteq> None"

definition store_grant_id :: "string \<Rightarrow> bool" where
  "store_grant_id g \<longleftrightarrow> length g \<le> 96 \<and> re_fullmatch grant_id_re g \<noteq> None"

text \<open>\<open>AtomicPaidApiGrantStore.__init__\<close>, on a root directory with the given content.\<close>

definition grant_store_init :: "(string \<Rightarrow> grant_dir) \<Rightarrow> string \<Rightarrow> grant_store_error + grant_store" where
  "grant_store_init tasks ws =
     (if re_fullmatch (times 64 (Chars lower_hex)) ws = None then Inl StoreWorkspaceInvalid
      else Inr \<lparr>gs_workspace = ws, gs_tasks = tasks\<rparr>)"

definition strict_read ::
  "(string \<Rightarrow> string) \<Rightarrow> bool \<Rightarrow> grant_store \<Rightarrow> string \<Rightarrow> string \<Rightarrow> state_entry \<Rightarrow> grant_store_error + paid_grant" where
  "strict_read sha256 readable s t gid e =
     (case e of
        StateDir \<Rightarrow> Inl StateIsDirectory
      | StateFile b \<Rightarrow>
          if \<not> readable then Inl StateReadFailed
          else if fb_size b = 0 then Inl StateEmpty
          else if max_serialized_bytes < fb_size b then Inl StateTooLarge
          else (case grant_from_json sha256 b of
                  Inl err \<Rightarrow> Inl (StateInvalid err)
                | Inr g \<Rightarrow>
                    if pg_task g \<noteq> t then Inl StateWrongTask
                    else if pg_id g \<noteq> gid then Inl StateWrongGrant
                    else if pg_workspace g \<noteq> gs_workspace s then Inl StateWrongWorkspace
                    else if pg_fingerprint g \<noteq> grant_digest sha256 g then Inl StateForged
                    else Inr g))"

definition read_optional ::
  "(string \<Rightarrow> string) \<Rightarrow> bool \<Rightarrow> grant_store \<Rightarrow> string \<Rightarrow> string \<Rightarrow> state_entry option
     \<Rightarrow> grant_store_error + paid_grant option" where
  "read_optional sha256 readable s t gid e =
     (case e of None \<Rightarrow> Inr None | Some e \<Rightarrow> bind_result (strict_read sha256 readable s t gid e) (\<lambda>g. Inr (Some g)))"

definition inspect_key ::
  "(string \<Rightarrow> string) \<Rightarrow> bool \<Rightarrow> string \<Rightarrow> string \<Rightarrow> grant_store
     \<Rightarrow> grant_store_error + paid_grant option \<times> paid_grant option" where
  "inspect_key sha256 readable t gid s =
     (if \<not> store_task_id t then Inl StoreTaskInvalid
      else if \<not> store_grant_id gid then Inl StoreGrantIdInvalid
      else (let a = gd_active (gs_tasks s t) (sha256 gid); c = gd_consumed (gs_tasks s t) (sha256 gid)
            in if a \<noteq> None \<and> c \<noteq> None then Inl StateContradictory
               else bind_result (read_optional sha256 readable s t gid a) (\<lambda>active.
                    bind_result (read_optional sha256 readable s t gid c) (\<lambda>consumed. Inr (active, consumed)))))"

definition load_active_grant ::
  "(string \<Rightarrow> string) \<Rightarrow> bool \<Rightarrow> string \<Rightarrow> string \<Rightarrow> grant_store \<Rightarrow> grant_store_error + paid_grant option" where
  "load_active_grant sha256 readable t gid s = map_sum id fst (inspect_key sha256 readable t gid s)"

definition load_consumed_grant ::
  "(string \<Rightarrow> string) \<Rightarrow> bool \<Rightarrow> string \<Rightarrow> string \<Rightarrow> grant_store \<Rightarrow> grant_store_error + paid_grant option" where
  "load_consumed_grant sha256 readable t gid s = map_sum id snd (inspect_key sha256 readable t gid s)"

text \<open>\<open>_validate_grant\<close>, \<open>_validate_now\<close>, \<open>_require_unexpired\<close> and \<open>_require_exact_match\<close>.\<close>

definition validate_grant :: "(string \<Rightarrow> string) \<Rightarrow> paid_grant \<Rightarrow> grant_store \<Rightarrow> grant_store_error + unit" where
  "validate_grant sha256 g s =
     (if pg_workspace g \<noteq> gs_workspace s then Inl StoreWrongWorkspace
      else if pg_fingerprint g \<noteq> grant_digest sha256 g then Inl StoreForged
      else Inr ())"

definition validate_now :: "int \<Rightarrow> grant_store_error + unit" where
  "validate_now now = (if now < 0 then Inl StoreNowInvalid else Inr ())"

definition require_unexpired :: "paid_grant \<Rightarrow> int \<Rightarrow> grant_store_error + unit" where
  "require_unexpired g now = (if pg_expires g \<le> now then Inl StoreExpired else Inr ())"

definition require_exact_match :: "(string \<Rightarrow> string) \<Rightarrow> paid_grant \<Rightarrow> paid_grant \<Rightarrow> grant_store_error + unit" where
  "require_exact_match sha256 actual expected =
     (if actual \<noteq> expected \<or> grant_digest sha256 actual \<noteq> grant_digest sha256 expected then Inl StateNotExact
      else Inr ())"

definition require_active_grant ::
  "(string \<Rightarrow> string) \<Rightarrow> bool \<Rightarrow> paid_grant \<Rightarrow> int \<Rightarrow> grant_store \<Rightarrow> grant_store_error + paid_grant" where
  "require_active_grant sha256 readable expected now s =
     bind_result (validate_grant sha256 expected s) (\<lambda>_.
     bind_result (validate_now now) (\<lambda>_.
     bind_result (load_active_grant sha256 readable (pg_task expected) (pg_id expected) s) (\<lambda>active.
       case active of
         None \<Rightarrow> Inl GrantNotActive
       | Some g \<Rightarrow> bind_result (require_exact_match sha256 g expected) (\<lambda>_.
                   bind_result (require_unexpired g now) (\<lambda>_. Inr g)))))"

section \<open>Activation\<close>

definition put_active :: "string \<Rightarrow> string \<Rightarrow> state_entry option \<Rightarrow> grant_store \<Rightarrow> grant_store" where
  "put_active t k e s =
     s\<lparr>gs_tasks := (gs_tasks s)(t := (gs_tasks s t)\<lparr>gd_active := (gd_active (gs_tasks s t))(k := e)\<rparr>)\<rparr>"

definition grant_body_prefix :: "nat \<Rightarrow> paid_grant \<Rightarrow> file_body" where
  "grant_body_prefix n g = (if fb_size (grant_body g) \<le> n then grant_body g else \<lparr>fb_size = n, fb_json = None\<rparr>)"

definition left_over :: "bool \<Rightarrow> file_body \<Rightarrow> state_entry option" where
  "left_over removed b = (if removed then None else Some (StateFile b))"

record activate_io =
  gi_guard :: bool
  gi_readable :: bool
  gi_mkdir :: bool
  gi_write :: write_outcome
  gi_reread :: bool
  gi_removed :: bool

definition activate ::
  "(string \<Rightarrow> string) \<Rightarrow> activate_io \<Rightarrow> paid_grant \<Rightarrow> int \<Rightarrow> grant_store
     \<Rightarrow> (grant_store_error + paid_grant) \<times> grant_store" where
  "activate sha256 io g now s =
     (case bind_result (validate_grant sha256 g s) (\<lambda>_. bind_result (validate_now now) (\<lambda>_. require_unexpired g now)) of
        Inl e \<Rightarrow> (Inl e, s)
      | Inr _ \<Rightarrow>
          if max_serialized_bytes < fb_size (grant_body g) then (Inl StateTooLarge, s)
          else if \<not> store_task_id (pg_task g) then (Inl StoreTaskInvalid, s)
          else if \<not> store_grant_id (pg_id g) then (Inl StoreGrantIdInvalid, s)
          else if \<not> gi_guard io then (Inl GuardFailed, s)
          else (case inspect_key sha256 (gi_readable io) (pg_task g) (pg_id g) s of
                  Inl e \<Rightarrow> (Inl e, s)
                | Inr (active, consumed) \<Rightarrow>
                    if active \<noteq> None \<or> consumed \<noteq> None then (Inl GrantAlreadyUsed, s)
                    else if \<not> gi_mkdir io then (Inl StateMkdirFailed, s)
                    else (let put = (\<lambda>e. put_active (pg_task g) (sha256 (pg_id g)) e s);
                              written = put (Some (StateFile (grant_body g)))
                          in case gi_write io of
                               W_OpenFailed \<Rightarrow> (Inl ActivateFailed, s)
                             | W_WriteFailed n removed \<Rightarrow> (Inl ActivateFailed, put (left_over removed (grant_body_prefix n g)))
                             | W_SyncFailed removed \<Rightarrow> (Inl ActivateFailed, put (left_over removed (grant_body g)))
                             | W_CloseFailed removed \<Rightarrow> (Inl ActivateFailed, put (left_over removed (grant_body g)))
                             | W_Killed n \<Rightarrow> (Inl StoreKilled, put (Some (StateFile (grant_body_prefix n g))))
                             | W_Fine \<Rightarrow>
                                 (case bind_result (strict_read sha256 (gi_reread io) s (pg_task g) (pg_id g)
                                           (StateFile (grant_body g)))
                                         (\<lambda>loaded. bind_result (require_exact_match sha256 loaded g) (\<lambda>_. Inr loaded)) of
                                    Inr loaded \<Rightarrow> (Inr loaded, written)
                                  | Inl e \<Rightarrow> (Inl e, put (left_over (gi_removed io) (grant_body g)))))))"

section \<open>Consumption\<close>

text \<open>A kill is before or after the rename.\<close>

datatype replace_outcome = P_Fine | P_Failed | P_KilledBefore | P_KilledAfter

record consume_io =
  ci_guard :: bool
  ci_readable :: bool
  ci_replace :: replace_outcome
  ci_reread :: bool

definition move_to_consumed :: "string \<Rightarrow> string \<Rightarrow> grant_store \<Rightarrow> grant_store" where
  "move_to_consumed t k s =
     (let d = gs_tasks s t
      in s\<lparr>gs_tasks := (gs_tasks s)(t := d\<lparr>gd_active := (gd_active d)(k := None),
                                        gd_consumed := (gd_consumed d)(k := gd_active d k)\<rparr>)\<rparr>)"

text \<open>The checks of \<open>consume\<close> under the guard, and the verification after the rename.\<close>

definition check_consumable ::
  "(string \<Rightarrow> string) \<Rightarrow> bool \<Rightarrow> paid_grant \<Rightarrow> int \<Rightarrow> grant_store \<Rightarrow> grant_store_error + unit" where
  "check_consumable sha256 readable expected now s =
     bind_result (inspect_key sha256 readable (pg_task expected) (pg_id expected) s) (\<lambda>(active, consumed).
       case active of
         None \<Rightarrow> Inl (if consumed \<noteq> None then GrantAlreadyConsumed else GrantNotActive)
       | Some g \<Rightarrow>
           if consumed \<noteq> None then Inl StateContradictory
           else bind_result (require_exact_match sha256 g expected) (\<lambda>_.
                bind_result (require_unexpired g now) (\<lambda>_.
                  if gd_consumed (gs_tasks s (pg_task expected)) (sha256 (pg_id expected)) \<noteq> None
                  then Inl ConsumedExists else Inr ())))"

definition verify_consumed ::
  "(string \<Rightarrow> string) \<Rightarrow> bool \<Rightarrow> paid_grant \<Rightarrow> grant_store \<Rightarrow> grant_store_error + paid_grant" where
  "verify_consumed sha256 readable expected s =
     (let d = gs_tasks s (pg_task expected); k = sha256 (pg_id expected)
      in case gd_consumed d k of
           None \<Rightarrow> Inl StateReadFailed
         | Some e \<Rightarrow>
             bind_result (strict_read sha256 readable s (pg_task expected) (pg_id expected) e) (\<lambda>g.
             bind_result (require_exact_match sha256 g expected) (\<lambda>_.
               if gd_active d k \<noteq> None then Inl ActiveRemains else Inr g)))"

definition consume ::
  "(string \<Rightarrow> string) \<Rightarrow> consume_io \<Rightarrow> paid_grant \<Rightarrow> int \<Rightarrow> grant_store
     \<Rightarrow> (grant_store_error + paid_grant) \<times> grant_store" where
  "consume sha256 io expected now s =
     (case bind_result (validate_grant sha256 expected s) (\<lambda>_. validate_now now) of
        Inl e \<Rightarrow> (Inl e, s)
      | Inr _ \<Rightarrow>
          if \<not> store_task_id (pg_task expected) then (Inl StoreTaskInvalid, s)
          else if \<not> store_grant_id (pg_id expected) then (Inl StoreGrantIdInvalid, s)
          else if \<not> ci_guard io then (Inl GuardFailed, s)
          else (case check_consumable sha256 (ci_readable io) expected now s of
                  Inl e \<Rightarrow> (Inl e, s)
                | Inr _ \<Rightarrow>
                    (let moved = move_to_consumed (pg_task expected) (sha256 (pg_id expected)) s
                     in case ci_replace io of
                          P_Failed \<Rightarrow> (Inl ConsumeFailed, s)
                        | P_KilledBefore \<Rightarrow> (Inl StoreKilled, s)
                        | P_KilledAfter \<Rightarrow> (Inl StoreKilled, moved)
                        | P_Fine \<Rightarrow> (verify_consumed sha256 (ci_reread io) expected moved, moved))))"

section \<open>Calls by any number of processes\<close>

datatype grant_call = Activate activate_io paid_grant int | Consume consume_io paid_grant int

fun grant_step :: "(string \<Rightarrow> string) \<Rightarrow> grant_call \<Rightarrow> grant_store \<Rightarrow> (grant_store_error + paid_grant) \<times> grant_store" where
  "grant_step sha256 (Activate io g now) s = activate sha256 io g now s"
| "grant_step sha256 (Consume io g now) s = consume sha256 io g now s"

fun grant_run ::
  "(string \<Rightarrow> string) \<Rightarrow> grant_call list \<Rightarrow> grant_store
     \<Rightarrow> (grant_call \<times> (grant_store_error + paid_grant)) list \<times> grant_store" where
  "grant_run sha256 [] s = ([], s)"
| "grant_run sha256 (c # cs) s =
     (let (r, s') = grant_step sha256 c s; (rs, s'') = grant_run sha256 cs s' in ((c, r) # rs, s''))"

section \<open>What can be done only once\<close>

text \<open>
  The contract of a resource that a step may spend: spending needs it unspent, and nothing makes it unspent again.
  Then of all the steps of a run at most one spends it, whatever the other steps are and however they end.
\<close>

locale one_shot =
  fixes step :: "'c \<Rightarrow> 's \<Rightarrow> 'r \<times> 's"
    and run :: "'c list \<Rightarrow> 's \<Rightarrow> ('c \<times> 'r) list \<times> 's"
    and spends :: "'k \<Rightarrow> 'c \<Rightarrow> 'r \<Rightarrow> bool"
    and used :: "'k \<Rightarrow> 's \<Rightarrow> bool"
  assumes run_Nil: "run [] s = ([], s)"
    and run_Cons: "run (c # cs) s = (let (r, s') = step c s; (rs, s'') = run cs s' in ((c, r) # rs, s''))"
    and used_stays: "step c s = (r, s') \<Longrightarrow> used k s \<Longrightarrow> used k s'"
    and spends_unused: "step c s = (r, s') \<Longrightarrow> spends k c r \<Longrightarrow> \<not> used k s"
    and spends_uses: "step c s = (r, s') \<Longrightarrow> spends k c r \<Longrightarrow> used k s'"
begin

definition spendings :: "'k \<Rightarrow> ('c \<times> 'r) list \<Rightarrow> nat" where
  "spendings k rs = length (filter (\<lambda>(c, r). spends k c r) rs)"

lemma used_for_good: "run cs s = (rs, s') \<Longrightarrow> used k s \<Longrightarrow> used k s' \<and> spendings k rs = 0"
proof (induction cs arbitrary: s rs)
  case Nil
  then show ?case by (simp add: run_Nil spendings_def)
next
  case (Cons c cs)
  obtain r t qs where st: "step c s = (r, t)" and qs: "run cs t = (qs, s')" "rs = (c, r) # qs"
    using Cons.prems(1) by (auto simp: run_Cons split: prod.splits)
  from Cons.IH [OF qs(1) used_stays [OF st Cons.prems(2)]] spends_unused [OF st] Cons.prems(2)
  show ?case by (auto simp: qs(2) spendings_def)
qed

lemma spent_at_most_once: "run cs s = (rs, s') \<Longrightarrow> spendings k rs \<le> 1 \<and> (spendings k rs = 1 \<longrightarrow> used k s')"
proof (induction cs arbitrary: s rs)
  case Nil
  then show ?case by (simp add: run_Nil spendings_def)
next
  case (Cons c cs)
  obtain r t qs where st: "step c s = (r, t)" and qs: "run cs t = (qs, s')" "rs = (c, r) # qs"
    using Cons.prems(1) by (auto simp: run_Cons split: prod.splits)
  show ?case
  proof (cases "spends k c r")
    case True
    from used_for_good [OF qs(1) spends_uses [OF st True]] True show ?thesis by (simp add: qs(2) spendings_def)
  next
    case False
    with Cons.IH [OF qs(1)] show ?thesis by (simp add: qs(2) spendings_def)
  qed
qed

end

section \<open>Lemmas\<close>

definition grant_key :: "(string \<Rightarrow> string) \<Rightarrow> paid_grant \<Rightarrow> string \<times> string" where
  "grant_key sha256 g = (pg_task g, sha256 (pg_id g))"

definition active_at :: "string \<times> string \<Rightarrow> grant_store \<Rightarrow> state_entry option" where
  "active_at k s = gd_active (gs_tasks s (fst k)) (snd k)"

definition consumed_at :: "string \<times> string \<Rightarrow> grant_store \<Rightarrow> state_entry option" where
  "consumed_at k s = gd_consumed (gs_tasks s (fst k)) (snd k)"

lemma put_active_at [simp]:
  "gs_workspace (put_active t k e s) = gs_workspace s"
  "active_at key (put_active t k e s) = (if key = (t, k) then e else active_at key s)"
  "consumed_at key (put_active t k e s) = consumed_at key s"
  by (cases key; simp add: put_active_def active_at_def consumed_at_def)+

lemma move_to_consumed_at [simp]:
  "gs_workspace (move_to_consumed t k s) = gs_workspace s"
  "active_at key (move_to_consumed t k s) = (if key = (t, k) then None else active_at key s)"
  "consumed_at key (move_to_consumed t k s) = (if key = (t, k) then active_at key s else consumed_at key s)"
  by (cases key; simp add: move_to_consumed_def active_at_def consumed_at_def Let_def)+

lemma strict_read_workspace: "gs_workspace s' = gs_workspace s \<Longrightarrow> strict_read sha256 rd s' t gid e = strict_read sha256 rd s t gid e"
  by (auto simp: strict_read_def split: state_entry.splits sum.splits)

lemma inspect_key_Inr:
  assumes "inspect_key sha256 rd t gid s = Inr (a, c)"
  shows "a = None \<longleftrightarrow> active_at (t, sha256 gid) s = None" "c = None \<longleftrightarrow> consumed_at (t, sha256 gid) s = None"
    "a = None \<or> c = None"
    "a = Some g \<Longrightarrow> \<exists>e. active_at (t, sha256 gid) s = Some e \<and> strict_read sha256 rd s t gid e = Inr g"
  using assms
  by (auto simp: inspect_key_def Let_def read_optional_def bind_result_Inr active_at_def consumed_at_def
      split: if_splits option.splits)

lemma strict_read_Inr:
  assumes "strict_read sha256 rd s t gid e = Inr g"
  obtains b where "e = StateFile b" "grant_from_json sha256 b = Inr g" "rd" "pg_task g = t" "pg_id g = gid"
    "pg_workspace g = gs_workspace s"
  using assms by (auto simp: strict_read_def split: state_entry.splits if_splits sum.splits)

text \<open>A call leaves the store alone, or it acts on its own key in the one way its kind allows.\<close>

definition written_entry :: "paid_grant \<Rightarrow> state_entry option \<Rightarrow> bool" where
  "written_entry g e \<longleftrightarrow> e = None \<or> (\<exists>n. e = Some (StateFile (grant_body_prefix n g)))"

lemma full_prefix: "grant_body_prefix (fb_size (grant_body g)) g = grant_body g"
  by (simp add: grant_body_prefix_def)

lemma written_entry_simps [simp]:
  "written_entry g None" "written_entry g (Some (StateFile (grant_body_prefix n g)))"
  "written_entry g (Some (StateFile (grant_body g)))" "written_entry g (left_over removed (grant_body g))"
  "written_entry g (left_over removed (grant_body_prefix n g))"
  unfolding written_entry_def left_over_def by (auto simp: full_prefix intro: exI [of _ "fb_size (grant_body g)"])

lemma activate_step:
  assumes "activate sha256 io g now s = (r, s')"
  shows "s' = s \<and> (\<exists>e. r = Inl e) \<or>
    (\<exists>e. s' = put_active (pg_task g) (sha256 (pg_id g)) e s \<and> written_entry g e \<and>
       active_at (grant_key sha256 g) s = None \<and> consumed_at (grant_key sha256 g) s = None \<and>
       ((\<exists>l. r = Inr l) \<longrightarrow> e = Some (StateFile (grant_body g))) \<and> now < pg_expires g \<and> pg_workspace g = gs_workspace s)"
proof (cases "bind_result (validate_grant sha256 g s) (\<lambda>_. bind_result (validate_now now) (\<lambda>_. require_unexpired g now))")
  case (Inl e)
  with assms show ?thesis by (auto simp: activate_def)
next
  case (Inr u)
  then have live: "now < pg_expires g" "pg_workspace g = gs_workspace s"
    by (auto simp: bind_result_Inr require_unexpired_def validate_grant_def split: if_splits)
  show ?thesis
  proof (cases "inspect_key sha256 (gi_readable io) (pg_task g) (pg_id g) s = Inr (None, None)")
    case False
    then show ?thesis
      using assms Inr by (auto simp: activate_def split: if_splits sum.splits)
  next
    case True
    from inspect_key_Inr(1,2) [OF True]
    have none: "active_at (grant_key sha256 g) s = None" "consumed_at (grant_key sha256 g) s = None"
      by (simp_all add: grant_key_def)
    show ?thesis
    proof (cases "gi_write io")
      case W_Fine
      then show ?thesis using assms Inr True live none
        by (auto simp: activate_def Let_def split: if_splits sum.splits)
    qed (use assms Inr True live none in \<open>auto simp: activate_def Let_def split: if_splits\<close>)
  qed
qed

lemma check_consumable_Inr:
  assumes "check_consumable sha256 rd g now s = Inr u"
  obtains b where "active_at (grant_key sha256 g) s = Some (StateFile b)" "consumed_at (grant_key sha256 g) s = None"
    "grant_from_json sha256 b = Inr g" "now < pg_expires g" "pg_workspace g = gs_workspace s"
proof -
  from assms obtain g' where i: "inspect_key sha256 rd (pg_task g) (pg_id g) s = Inr (Some g', None)"
    and x: "require_exact_match sha256 g' g = Inr ()" "require_unexpired g' now = Inr ()"
    by (auto simp: check_consumable_def bind_result_Inr split: option.splits if_splits)
  from x have g': "g' = g" "now < pg_expires g"
    by (auto simp: require_exact_match_def require_unexpired_def split: if_splits)
  from inspect_key_Inr(4) [OF i, of g] g' obtain e where e: "active_at (grant_key sha256 g) s = Some e"
    "strict_read sha256 rd s (pg_task g) (pg_id g) e = Inr g" by (auto simp: grant_key_def)
  moreover from inspect_key_Inr(2) [OF i] have "consumed_at (grant_key sha256 g) s = None" by (simp add: grant_key_def)
  moreover from e(2) obtain b where "e = StateFile b" "grant_from_json sha256 b = Inr g"
    "pg_workspace g = gs_workspace s" by (rule strict_read_Inr)
  ultimately show ?thesis using g' that by blast
qed

lemma verify_consumed_Inr: "verify_consumed sha256 rd g s = Inr l \<Longrightarrow> l = g"
  by (auto simp: verify_consumed_def Let_def bind_result_Inr require_exact_match_def split: option.splits if_splits)

lemma consume_step:
  assumes "consume sha256 io g now s = (r, s')"
  shows "s' = s \<and> (\<exists>e. r = Inl e) \<or>
    (\<exists>b. s' = move_to_consumed (pg_task g) (sha256 (pg_id g)) s \<and> active_at (grant_key sha256 g) s = Some (StateFile b) \<and>
       consumed_at (grant_key sha256 g) s = None \<and> grant_from_json sha256 b = Inr g \<and> now < pg_expires g \<and>
       pg_workspace g = gs_workspace s \<and> (\<forall>l. r = Inr l \<longrightarrow> l = g))"
proof (cases "check_consumable sha256 (ci_readable io) g now s")
  case (Inl e)
  with assms show ?thesis by (auto simp: consume_def split: sum.splits if_splits)
next
  case (Inr u)
  obtain b where "active_at (grant_key sha256 g) s = Some (StateFile b)" "consumed_at (grant_key sha256 g) s = None"
    "grant_from_json sha256 b = Inr g" "now < pg_expires g" "pg_workspace g = gs_workspace s"
    using Inr by (rule check_consumable_Inr)
  moreover from assms Inr have "s' = s \<and> (\<exists>e. r = Inl e) \<or>
      s' = move_to_consumed (pg_task g) (sha256 (pg_id g)) s \<and>
      ((\<exists>e. r = Inl e) \<or> r = verify_consumed sha256 (ci_reread io) g (move_to_consumed (pg_task g) (sha256 (pg_id g)) s))"
    by (cases "ci_replace io") (auto simp: consume_def Let_def split: sum.splits if_splits)
  ultimately show ?thesis by (auto dest: verify_consumed_Inr)
qed

lemma step_workspace: "grant_step sha256 c s = (r, s') \<Longrightarrow> gs_workspace s' = gs_workspace s"
  by (cases c) (auto dest!: activate_step consume_step)

text \<open>A successful consumption is the one use of its key.\<close>

fun spends_key :: "(string \<Rightarrow> string) \<Rightarrow> string \<times> string \<Rightarrow> grant_call \<Rightarrow> grant_store_error + paid_grant \<Rightarrow> bool" where
  "spends_key sha256 k (Consume io g now) r \<longleftrightarrow> grant_key sha256 g = k \<and> (\<exists>l. r = Inr l)"
| "spends_key sha256 k (Activate io g now) r \<longleftrightarrow> False"

interpretation spent_grant: one_shot "grant_step sha256" "grant_run sha256" "spends_key sha256" "\<lambda>k s. consumed_at k s \<noteq> None"
  for sha256
proof
  show "grant_run sha256 (c # cs) s = (let (r, s') = grant_step sha256 c s; (rs, s'') = grant_run sha256 cs s' in ((c, r) # rs, s''))" for c cs s
    by simp
  show "consumed_at k s' \<noteq> None" if "grant_step sha256 c s = (r, s')" "consumed_at k s \<noteq> None" for c s r s' k
    using that by (cases c) (auto dest!: activate_step consume_step simp: grant_key_def)
  show "\<not> consumed_at k s \<noteq> None" if "grant_step sha256 c s = (r, s')" "spends_key sha256 k c r" for c s r s' k
    using that by (cases c) (auto dest!: consume_step)
  show "consumed_at k s' \<noteq> None" if "grant_step sha256 c s = (r, s')" "spends_key sha256 k c r" for c s r s' k
    using that by (cases c) (auto dest!: consume_step simp: grant_key_def)
qed simp

text \<open>The life of a grant: nothing leads back, and no key has both states.\<close>

datatype grant_phase = Unused | Live | Spent | Contradictory

fun phase_of :: "state_entry option \<Rightarrow> state_entry option \<Rightarrow> grant_phase" where
  "phase_of None None = Unused"
| "phase_of (Some _) None = Live"
| "phase_of None (Some _) = Spent"
| "phase_of (Some _) (Some _) = Contradictory"

definition phase_at :: "string \<times> string \<Rightarrow> grant_store \<Rightarrow> grant_phase" where
  "phase_at k s = phase_of (active_at k s) (consumed_at k s)"

inductive grant_moves :: "grant_phase \<Rightarrow> grant_phase \<Rightarrow> bool" where
  stays: "grant_moves p p"
| activated: "grant_moves Unused Live"
| spent: "grant_moves Live Spent"

fun call_key :: "(string \<Rightarrow> string) \<Rightarrow> grant_call \<Rightarrow> string \<times> string" where
  "call_key sha256 (Activate io g now) = grant_key sha256 g"
| "call_key sha256 (Consume io g now) = grant_key sha256 g"

lemma grant_step_moves:
  assumes "grant_step sha256 c s = (r, s')"
  shows "grant_moves (phase_at k s) (phase_at k s')"
proof (cases c)
  case (Activate io g now)
  with assms activate_step [of sha256 io g now s r s'] show ?thesis
    by (auto simp: phase_at_def grant_key_def written_entry_def intro: grant_moves.intros)
next
  case (Consume io g now)
  with assms consume_step [of sha256 io g now s r s'] show ?thesis
    by (auto simp: phase_at_def grant_key_def intro: grant_moves.intros)
qed

lemma grant_step_other:
  assumes "grant_step sha256 c s = (r, s')" and "k \<noteq> call_key sha256 c"
  shows "phase_at k s' = phase_at k s"
proof (cases c)
  case (Activate io g now)
  with assms have "k \<noteq> (pg_task g, sha256 (pg_id g))" by (simp add: grant_key_def)
  with Activate assms(1) activate_step [of sha256 io g now s r s'] show ?thesis by (auto simp: phase_at_def)
next
  case (Consume io g now)
  with assms have "k \<noteq> (pg_task g, sha256 (pg_id g))" by (simp add: grant_key_def)
  with Consume assms(1) consume_step [of sha256 io g now s r s'] show ?thesis by (auto simp: phase_at_def)
qed

lemma activate_success:
  assumes "activate sha256 io g now s = (Inr l, s')"
  shows "phase_at (grant_key sha256 g) s = Unused" "phase_at (grant_key sha256 g) s' = Live"
  using activate_step [OF assms] by (auto simp: phase_at_def grant_key_def)

lemma consume_success:
  assumes "consume sha256 io g now s = (Inr l, s')"
  shows "phase_at (grant_key sha256 g) s = Live" "phase_at (grant_key sha256 g) s' = Spent"
  using consume_step [OF assms] by (auto simp: phase_at_def grant_key_def)

text \<open>Every ACTIVE file holds a beginning of a grant that some call was to activate.\<close>

fun activations :: "grant_call list \<Rightarrow> paid_grant list" where
  "activations [] = []"
| "activations (Activate io g now # cs) = g # activations cs"
| "activations (Consume io g now # cs) = activations cs"

lemma activations_iff: "g \<in> set (activations cs) \<longleftrightarrow> (\<exists>io now. Activate io g now \<in> set cs)"
  by (induction cs rule: activations.induct) auto

definition written_by :: "paid_grant set \<Rightarrow> grant_store \<Rightarrow> bool" where
  "written_by A s \<longleftrightarrow> (\<forall>k e. active_at k s = Some e \<longrightarrow> (\<exists>g\<in>A. written_entry g (Some e)))"

lemma written_by_step:
  assumes "grant_step sha256 c s = (r, s')" and "written_by A s"
  shows "written_by (A \<union> set (activations [c])) s'"
proof -
  have "active_at k s' = None \<or> active_at k s' = active_at k s \<or>
      (\<exists>g\<in>set (activations [c]). written_entry g (active_at k s'))" for k
  proof (cases c)
    case (Activate io g now)
    with assms(1) activate_step [of sha256 io g now s r s'] show ?thesis by (auto split: if_splits)
  next
    case (Consume io g now)
    with assms(1) consume_step [of sha256 io g now s r s'] show ?thesis by (auto split: if_splits)
  qed
  with assms(2) show ?thesis unfolding written_by_def by (metis UnCI option.distinct(1))
qed

lemma written_by_run:
  "grant_run sha256 cs s = (rs, s') \<Longrightarrow> written_by A s \<Longrightarrow>
     written_by (A \<union> set (activations cs)) s' \<and> gs_workspace s' = gs_workspace s"
proof (induction cs arbitrary: s rs A)
  case (Cons c cs)
  obtain r t qs where st: "grant_step sha256 c s = (r, t)" and qs: "grant_run sha256 cs t = (qs, s')"
    using Cons.prems(1) by (auto split: prod.splits)
  have "set (activations (c # cs)) = set (activations [c]) \<union> set (activations cs)" by (cases c) auto
  with Cons.IH [OF qs written_by_step [OF st Cons.prems(2)]] step_workspace [OF st] show ?case
    by (simp add: Un_assoc)
qed simp

lemma written_entry_read:
  assumes "written_entry g (Some (StateFile b))" and "grant_from_json sha256 b = Inr g'" and "wf_grant sha256 g"
  shows "g' = g"
  using assms grant_body_read [OF assms(3)]
  by (auto simp: written_entry_def grant_body_prefix_def grant_from_json_def split: if_splits)

text \<open>A grant that the constructor made passes the checks of the store on its names.\<close>

lemma wf_grant_names:
  assumes "wf_grant sha256 g"
  shows "store_task_id (pg_task g)" "store_grant_id (pg_id g)"
proof -
  have "bounded_identifier (PStr (pg_id g)) ''grant_id'' 96 (Some grant_id_re) = Inr (pg_id g)"
    and "re_fullmatch grant_task_re (pg_task g) \<noteq> None"
    using assms unfolding wf_grant_def mk_grant_def grant_items_get
    by (auto simp: bind_result_Inr require_string_def split: if_splits dest!: seal_grant_Inr dest: require_Inr)
  then show "store_task_id (pg_task g)" "store_grant_id (pg_id g)"
    by (auto simp: store_task_id_def store_grant_id_def bounded_identifier_def require_string_def bind_result_def
        split: if_splits)
qed

lemma strict_read_body:
  assumes "wf_grant sha256 g" and "pg_workspace g = gs_workspace s"
  shows "strict_read sha256 True s (pg_task g) (pg_id g) (StateFile (grant_body g)) = Inr g"
  using assms wf_grant_facts [OF assms(1)] grant_body_read [OF assms(1)] grant_body_size [of g]
  by (simp add: strict_read_def) (simp add: grant_body_def)

text \<open>A grant nobody has used yet, in a store that works.\<close>

lemma inspect_absent:
  assumes "wf_grant sha256 g" and "phase_at (grant_key sha256 g) s = Unused"
  shows "inspect_key sha256 readable (pg_task g) (pg_id g) s = Inr (None, None)"
proof -
  have "active_at (grant_key sha256 g) s = None" "consumed_at (grant_key sha256 g) s = None"
    using assms(2) by (auto simp: phase_at_def elim: phase_of.elims)
  with wf_grant_names [OF assms(1)] show ?thesis
    by (simp add: inspect_key_def read_optional_def bind_result_def active_at_def consumed_at_def grant_key_def)
qed

definition holds_grant :: "(string \<Rightarrow> string) \<Rightarrow> grant_store \<Rightarrow> paid_grant \<Rightarrow> bool" where
  "holds_grant sha256 s g \<longleftrightarrow>
     wf_grant sha256 g \<and> pg_workspace g = gs_workspace s \<and>
     active_at (grant_key sha256 g) s = Some (StateFile (grant_body g)) \<and> consumed_at (grant_key sha256 g) s = None"

lemma inspect_held:
  assumes "holds_grant sha256 s g"
  shows "inspect_key sha256 True (pg_task g) (pg_id g) s = Inr (Some g, None)"
  using assms wf_grant_names [of sha256 g] strict_read_body [of sha256 g s]
  by (simp add: holds_grant_def inspect_key_def read_optional_def bind_result_def active_at_def consumed_at_def grant_key_def)

lemma grant_valid: "wf_grant sha256 g \<Longrightarrow> pg_workspace g = gs_workspace s \<Longrightarrow> validate_grant sha256 g s = Inr ()"
  by (simp add: validate_grant_def wf_grant_facts)

lemma activate_fine:
  assumes "wf_grant sha256 g" "pg_workspace g = gs_workspace s" "phase_at (grant_key sha256 g) s = Unused"
    "0 \<le> now" "now < pg_expires g" "gi_guard io" "gi_mkdir io" "gi_write io = W_Fine" "gi_reread io"
  shows "\<exists>s'. activate sha256 io g now s = (Inr g, s') \<and> holds_grant sha256 s' g"
proof -
  let ?s' = "put_active (pg_task g) (sha256 (pg_id g)) (Some (StateFile (grant_body g))) s"
  have "\<not> max_serialized_bytes < fb_size (grant_body g)"
    using wf_grant_facts(2) [OF assms(1)] by (simp add: grant_body_def)
  then have "activate sha256 io g now s = (Inr g, ?s')"
    using assms wf_grant_names [OF assms(1)]
    by (simp add: activate_def grant_valid validate_now_def require_unexpired_def bind_result_def
        inspect_absent strict_read_body require_exact_match_def Let_def)
  moreover have "consumed_at (grant_key sha256 g) s = None"
    using assms(3) by (auto simp: phase_at_def elim: phase_of.elims)
  then have "holds_grant sha256 ?s' g" using assms(1,2) by (simp add: holds_grant_def grant_key_def)
  ultimately show ?thesis by blast
qed

lemma require_active_fine:
  assumes "holds_grant sha256 s g" "0 \<le> now" "now < pg_expires g"
  shows "require_active_grant sha256 True g now s = Inr g"
  using assms inspect_held [OF assms(1)] grant_valid [of sha256 g s]
  by (simp add: require_active_grant_def load_active_grant_def holds_grant_def validate_now_def require_exact_match_def
      require_unexpired_def bind_result_def)

lemma consume_fine:
  assumes h: "holds_grant sha256 s g" and now: "0 \<le> now" "now < pg_expires g"
    and io: "ci_guard io" "ci_readable io" "ci_replace io = P_Fine" "ci_reread io"
  shows "\<exists>s'. consume sha256 io g now s = (Inr g, s') \<and> phase_at (grant_key sha256 g) s' = Spent"
proof -
  let ?s' = "move_to_consumed (pg_task g) (sha256 (pg_id g)) s"
  have g: "wf_grant sha256 g" "pg_workspace g = gs_workspace s" using h by (simp_all add: holds_grant_def)
  have none: "gd_consumed (gs_tasks s (pg_task g)) (sha256 (pg_id g)) = None"
    using h by (simp add: holds_grant_def consumed_at_def grant_key_def)
  have "check_consumable sha256 True g now s = Inr ()"
    using inspect_held [OF h] now none
    by (simp add: check_consumable_def bind_result_def require_exact_match_def require_unexpired_def)
  moreover have "verify_consumed sha256 True g ?s' = Inr g"
  proof -
    have "gd_consumed (gs_tasks ?s' (pg_task g)) (sha256 (pg_id g)) = Some (StateFile (grant_body g))"
      "gd_active (gs_tasks ?s' (pg_task g)) (sha256 (pg_id g)) = None"
      using h by (simp_all add: move_to_consumed_def holds_grant_def active_at_def grant_key_def Let_def)
    with strict_read_body [OF g(1), of ?s'] g(2) show ?thesis
      by (simp add: verify_consumed_def bind_result_def require_exact_match_def)
  qed
  ultimately have "consume sha256 io g now s = (Inr g, ?s')"
    using io now wf_grant_names [OF g(1)] grant_valid [OF g]
    by (simp add: consume_def bind_result_def validate_now_def Let_def)
  moreover have "phase_at (grant_key sha256 g) ?s' = Spent"
    using h by (simp add: phase_at_def grant_key_def holds_grant_def)
  ultimately show ?thesis by blast
qed

end
