(* ===== verification/Brain_Contracts.thy ===== *)
theory Brain_Contracts
  imports Py_Json
begin

text \<open>
  \<open>src/aios_bridge/external_brain/contracts.py\<close>, \<open>budget.py\<close>, \<open>usage.py\<close> and \<open>prompt.py\<close>: the values exchanged
  with a model. A constructor \<open>mk_X\<close> takes values of the declared types and returns the value or the field its
  \<open>ContractValidationError\<close> is about.
\<close>

datatype brain_error =
    ContractInvalid string
  | CorrelationFailed string
  | OutputInvalid string
  | ContextIntegrity
  | SensitivePath
  | SecretMarker
  | MissingTask
  | MandatoryTooLarge int

section \<open>Enumerations\<close>

datatype context_kind = CK_TASK | CK_CONTRACT | CK_SOURCE | CK_TEST | CK_DIFF | CK_ERROR | CK_ARCHITECTURE

fun context_kind_value :: "context_kind \<Rightarrow> string" where
  "context_kind_value CK_TASK = ''TASK''"
| "context_kind_value CK_CONTRACT = ''CONTRACT''"
| "context_kind_value CK_SOURCE = ''SOURCE''"
| "context_kind_value CK_TEST = ''TEST''"
| "context_kind_value CK_DIFF = ''DIFF''"
| "context_kind_value CK_ERROR = ''ERROR''"
| "context_kind_value CK_ARCHITECTURE = ''ARCHITECTURE''"

datatype brain_role = ARCHITECT | CODER | DEBUGGER | REVIEWER

fun brain_role_value :: "brain_role \<Rightarrow> string" where
  "brain_role_value ARCHITECT = ''ARCHITECT''"
| "brain_role_value CODER = ''CODER''"
| "brain_role_value DEBUGGER = ''DEBUGGER''"
| "brain_role_value REVIEWER = ''REVIEWER''"

datatype model_operation = X_PLAN | X_GENERATE_PATCH | X_DIAGNOSE_FAILURE | X_REVIEW_PATCH

fun model_operation_value :: "model_operation \<Rightarrow> string" where
  "model_operation_value X_PLAN = ''PLAN''"
| "model_operation_value X_GENERATE_PATCH = ''GENERATE_PATCH''"
| "model_operation_value X_DIAGNOSE_FAILURE = ''DIAGNOSE_FAILURE''"
| "model_operation_value X_REVIEW_PATCH = ''REVIEW_PATCH''"

datatype output_type = O_PLAN | O_PATCH_PROPOSAL | O_DIAGNOSIS | O_REVIEW

fun output_type_value :: "output_type \<Rightarrow> string" where
  "output_type_value O_PLAN = ''PLAN''"
| "output_type_value O_PATCH_PROPOSAL = ''PATCH_PROPOSAL''"
| "output_type_value O_DIAGNOSIS = ''DIAGNOSIS''"
| "output_type_value O_REVIEW = ''REVIEW''"

datatype response_status =
    RS_SUCCESS | RS_FAILED | RS_RATE_LIMITED | RS_UNAVAILABLE | RS_TIMEOUT | RS_AUTH_ERROR | RS_INVALID_RESPONSE

fun response_status_value :: "response_status \<Rightarrow> string" where
  "response_status_value RS_SUCCESS = ''SUCCESS''"
| "response_status_value RS_FAILED = ''FAILED''"
| "response_status_value RS_RATE_LIMITED = ''RATE_LIMITED''"
| "response_status_value RS_UNAVAILABLE = ''UNAVAILABLE''"
| "response_status_value RS_TIMEOUT = ''TIMEOUT''"
| "response_status_value RS_AUTH_ERROR = ''AUTH_ERROR''"
| "response_status_value RS_INVALID_RESPONSE = ''INVALID_RESPONSE''"

fun expected_output :: "model_operation \<Rightarrow> output_type" where
  "expected_output X_PLAN = O_PLAN"
| "expected_output X_GENERATE_PATCH = O_PATCH_PROPOSAL"
| "expected_output X_DIAGNOSE_FAILURE = O_DIAGNOSIS"
| "expected_output X_REVIEW_PATCH = O_REVIEW"

section \<open>Requests\<close>

record context_item =
  it_kind :: context_kind
  it_content :: string
  it_path :: "string option"
  it_priority :: int
  it_sha :: "string option"

definition any_hex :: "char \<Rightarrow> bool" where
  "any_hex c \<longleftrightarrow> lower_hex c \<or> in_range 65 70 c"

definition hex_64_re :: rx where
  "hex_64_re = Then (times 64 (Chars any_hex)) Dollar"

definition mk_context_item :: "context_item \<Rightarrow> brain_error + context_item" where
  "mk_context_item i =
     (case it_sha i of
        None \<Rightarrow> Inr i
      | Some h \<Rightarrow> if re_match hex_64_re h = None then Inl (ContractInvalid ''content_sha256'') else Inr i)"

definition context_item_dict :: "context_item \<Rightarrow> jval" where
  "context_item_dict i =
     JObj [(''kind'', JStr (context_kind_value (it_kind i))), (''content'', JStr (it_content i)),
           (''path'', jopt JStr (it_path i)), (''priority'', JInt (it_priority i)),
           (''content_sha256'', jopt JStr (it_sha i))]"

record model_request =
  rq_schema :: string
  rq_id :: string
  rq_task :: string
  rq_role :: brain_role
  rq_operation :: model_operation
  rq_instruction :: string
  rq_context :: "context_item list"
  rq_output :: output_type
  rq_provider :: "string option"
  rq_model :: "string option"
  rq_max_input :: "int option"
  rq_max_output :: "int option"

definition positive_option :: "int option \<Rightarrow> bool" where
  "positive_option v \<longleftrightarrow> (case v of None \<Rightarrow> True | Some n \<Rightarrow> 0 < n)"

definition mk_model_request :: "model_request \<Rightarrow> brain_error + model_request" where
  "mk_model_request r =
     (if rq_schema r \<noteq> ''1'' then Inl (ContractInvalid ''schema_version'')
      else if strip (rq_id r) = [] then Inl (ContractInvalid ''request_id'')
      else if re_match task_id_re (rq_task r) = None then Inl (ContractInvalid ''task_id'')
      else if strip (rq_instruction r) = [] then Inl (ContractInvalid ''instruction'')
      else if rq_output r \<noteq> expected_output (rq_operation r) then Inl (ContractInvalid ''output_format'')
      else if \<not> positive_option (rq_max_input r) then Inl (ContractInvalid ''max_input_tokens'')
      else if \<not> positive_option (rq_max_output r) then Inl (ContractInvalid ''max_output_tokens'')
      else Inr r)"

definition model_request_dict :: "model_request \<Rightarrow> jval" where
  "model_request_dict r =
     JObj [(''schema_version'', JStr (rq_schema r)), (''request_id'', JStr (rq_id r)), (''task_id'', JStr (rq_task r)),
           (''role'', JStr (brain_role_value (rq_role r))),
           (''operation'', JStr (model_operation_value (rq_operation r))),
           (''instruction'', JStr (rq_instruction r)),
           (''context'', JList (map context_item_dict (rq_context r))),
           (''output_format'', JStr (output_type_value (rq_output r))), (''provider'', jopt JStr (rq_provider r)),
           (''model'', jopt JStr (rq_model r)), (''max_input_tokens'', jopt JInt (rq_max_input r)),
           (''max_output_tokens'', jopt JInt (rq_max_output r))]"

section \<open>Responses\<close>

record model_response =
  rp_schema :: string
  rp_id :: string
  rp_task :: string
  rp_provider :: string
  rp_model :: string
  rp_status :: response_status
  rp_output :: "output_type option"
  rp_content :: "string option"
  rp_input_tokens :: "int option"
  rp_output_tokens :: "int option"
  rp_latency :: "int option"
  rp_provider_id :: "string option"
  rp_error_code :: "string option"
  rp_error_message :: "string option"

definition natural_option :: "int option \<Rightarrow> bool" where
  "natural_option v \<longleftrightarrow> (case v of None \<Rightarrow> True | Some n \<Rightarrow> 0 \<le> n)"

definition blank_option :: "string option \<Rightarrow> bool" where
  "blank_option v \<longleftrightarrow> (case v of None \<Rightarrow> True | Some s \<Rightarrow> strip s = [])"

definition mk_model_response :: "model_response \<Rightarrow> brain_error + model_response" where
  "mk_model_response r =
     (if rp_schema r \<noteq> ''1'' then Inl (ContractInvalid ''schema_version'')
      else if strip (rp_id r) = [] then Inl (ContractInvalid ''request_id'')
      else if strip (rp_task r) = [] then Inl (ContractInvalid ''task_id'')
      else if strip (rp_provider r) = [] then Inl (ContractInvalid ''provider'')
      else if strip (rp_model r) = [] then Inl (ContractInvalid ''model'')
      else if rp_status r = RS_SUCCESS \<and> rp_output r = None then Inl (ContractInvalid ''output_type'')
      else if rp_status r = RS_SUCCESS \<and> blank_option (rp_content r) then Inl (ContractInvalid ''content'')
      else if rp_status r = RS_SUCCESS \<and> rp_error_code r \<noteq> None then Inl (ContractInvalid ''error_code'')
      else if rp_status r = RS_SUCCESS \<and> rp_error_message r \<noteq> None then Inl (ContractInvalid ''error_message'')
      else if \<not> natural_option (rp_input_tokens r) then Inl (ContractInvalid ''input_tokens'')
      else if \<not> natural_option (rp_output_tokens r) then Inl (ContractInvalid ''output_tokens'')
      else if \<not> natural_option (rp_latency r) then Inl (ContractInvalid ''latency_ms'')
      else Inr r)"

definition validate_correlation :: "model_request \<Rightarrow> model_response \<Rightarrow> brain_error + unit" where
  "validate_correlation rq rp =
     (if rq_id rq \<noteq> rp_id rp then Inl (CorrelationFailed ''Request ID'')
      else if rq_task rq \<noteq> rp_task rp then Inl (CorrelationFailed ''Task ID'')
      else if rp_status rp = RS_SUCCESS \<and> rp_output rp \<noteq> Some (expected_output (rq_operation rq))
      then Inl (CorrelationFailed ''Output type'')
      else Inr ())"

section \<open>Budget and usage\<close>

record context_budget =
  cb_max :: int
  cb_reserve :: int

definition mk_context_budget :: "context_budget \<Rightarrow> brain_error + context_budget" where
  "mk_context_budget b =
     (if cb_max b \<le> 0 then Inl (ContractInvalid ''max_context_tokens'')
      else if cb_reserve b < 0 \<or> cb_max b \<le> cb_reserve b then Inl (ContractInvalid ''protocol_reserve_tokens'')
      else Inr b)"

definition available_tokens :: "context_budget \<Rightarrow> int" where
  "available_tokens b = cb_max b - cb_reserve b"

text \<open>A \<open>TokenCounter\<close>; the default one counts the bytes of the UTF-8 text.\<close>

record token_counter =
  tc_id :: string
  tc_exact :: bool
  tc_count :: "string \<Rightarrow> int"

definition utf8_counter :: token_counter where
  "utf8_counter = \<lparr>tc_id = ''utf8-byte-conservative-v1'', tc_exact = False, tc_count = (\<lambda>s. int (utf8_length s))\<rparr>"

record usage_record =
  us_schema :: string
  us_timestamp :: string
  us_request :: string
  us_task :: string
  us_provider :: string
  us_requested_model :: "string option"
  us_actual_model :: string
  us_status :: response_status
  us_input_tokens :: "int option"
  us_output_tokens :: "int option"
  us_reasoning_tokens :: "int option"
  us_cached_tokens :: "int option"
  us_latency :: "int option"
  us_provider_request :: "string option"
  us_context_fingerprint :: "string option"
  us_context_tokens :: "int option"
  us_counter :: "string option"
  us_exact :: "bool option"
  us_error_code :: "string option"

definition mk_usage_record :: "usage_record \<Rightarrow> brain_error + usage_record" where
  "mk_usage_record u =
     (if us_schema u \<noteq> ''1'' then Inl (ContractInvalid ''schema_version'')
      else if us_timestamp u = [] then Inl (ContractInvalid ''timestamp_utc'')
      else if us_request u = [] then Inl (ContractInvalid ''request_id'')
      else if us_task u = [] then Inl (ContractInvalid ''task_id'')
      else if us_provider u = [] then Inl (ContractInvalid ''provider'')
      else if us_actual_model u = [] then Inl (ContractInvalid ''actual_model'')
      else if \<not> natural_option (us_input_tokens u) then Inl (ContractInvalid ''provider_input_tokens'')
      else if \<not> natural_option (us_output_tokens u) then Inl (ContractInvalid ''provider_output_tokens'')
      else if \<not> natural_option (us_reasoning_tokens u) then Inl (ContractInvalid ''provider_reasoning_tokens'')
      else if \<not> natural_option (us_cached_tokens u) then Inl (ContractInvalid ''provider_cached_tokens'')
      else if \<not> natural_option (us_latency u) then Inl (ContractInvalid ''latency_ms'')
      else if \<not> natural_option (us_context_tokens u) then Inl (ContractInvalid ''context_counted_tokens'')
      else Inr u)"

text \<open>\<open>JsonlUsageLedger.append\<close>: the line reaches the file whole, or the call fails before or after it was written.\<close>

datatype ledger_outcome = L_Fine | L_FailedBefore | L_FailedAfter

fun ledger_append :: "ledger_outcome \<Rightarrow> usage_record \<Rightarrow> usage_record list \<Rightarrow> bool \<times> usage_record list" where
  "ledger_append L_Fine u us = (True, us @ [u])"
| "ledger_append L_FailedBefore u us = (False, us)"
| "ledger_append L_FailedAfter u us = (False, us @ [u])"

end
