(* ===== verification/Brain_Context.thy ===== *)
theory Brain_Context
  imports Brain_Contracts "HOL-Library.Multiset" "HOL-Library.Sublist"
begin

text \<open>
  \<open>src/aios_bridge/external_brain/context.py\<close>: the choice of the context sent to a model, from explicit
  candidates and within a token budget. SHA-256 and the token counter are parameters.
\<close>

definition nl :: string where
  "nl = [CHR 0x0A]"

definition render_context_item :: "context_item \<Rightarrow> string" where
  "render_context_item i =
     ''<<<CONTEXT kind='' @ context_kind_value (it_kind i) @
     (case it_path i of None \<Rightarrow> [] | Some p \<Rightarrow> if p = [] then [] else '' path='' @ p) @
     ''>>>'' @ nl @ it_content i @ nl @ ''<<<END_CONTEXT>>>''"

section \<open>Sensitive candidates\<close>

definition secret_markers :: "string list" where
  "secret_markers =
     map (\<lambda>s. ''-----BEGIN '' @ s @ ''PRIVATE KEY-----'') ['''', ''RSA '', ''OPENSSH '', ''EC '', ''DSA '', ''ENCRYPTED '']"

definition unix_path :: "string \<Rightarrow> string" where
  "unix_path s = map (\<lambda>c. if c = CHR 0x5C then CHR ''/'' else c) s"

definition basename :: "string \<Rightarrow> string" where
  "basename s = rev (takeWhile (\<lambda>c. c \<noteq> CHR ''/'') (rev s))"

definition begins :: "string \<Rightarrow> string \<Rightarrow> bool" where
  "begins p s \<longleftrightarrow> take (length p) s = p"

definition ends :: "string \<Rightarrow> string \<Rightarrow> bool" where
  "ends p s \<longleftrightarrow> begins (rev p) (rev s)"

definition sensitive_basename :: "string \<Rightarrow> bool" where
  "sensitive_basename b \<longleftrightarrow>
     b = ''.env'' \<or> begins ''.env.'' b \<or> b = ''.envrc'' \<or> ends ''.pem'' b \<or> ends ''.key'' b \<or>
     b \<in> set [''id_rsa'', ''id_ed25519'', ''id_dsa'', ''id_ecdsa''] \<or>
     begins ''id_rsa.'' b \<or> begins ''id_ed25519.'' b \<or> begins ''id_dsa.'' b \<or> begins ''id_ecdsa.'' b \<or>
     b \<in> set [''cookies'', ''login data'', ''web data'', ''cookies-journal'', ''login data-journal'', ''web data-journal'']"

definition check_sensitive :: "context_item \<Rightarrow> brain_error + unit" where
  "check_sensitive i =
     (if (case it_path i of None \<Rightarrow> False | Some p \<Rightarrow> p \<noteq> [] \<and> sensitive_basename (lower (basename (unix_path p))))
      then Inl SensitivePath
      else if list_ex (\<lambda>m. substr m (it_content i)) secret_markers then Inl SecretMarker
      else Inr ())"

section \<open>Results\<close>

datatype exclusion_reason = EX_DUPLICATE | EX_BUDGET

fun exclusion_value :: "exclusion_reason \<Rightarrow> string" where
  "exclusion_value EX_DUPLICATE = ''DUPLICATE''"
| "exclusion_value EX_BUDGET = ''BUDGET''"

record context_exclusion =
  ex_kind :: context_kind
  ex_path :: "string option"
  ex_sha :: string
  ex_tokens :: int
  ex_reason :: exclusion_reason

definition mk_exclusion :: "context_exclusion \<Rightarrow> brain_error + context_exclusion" where
  "mk_exclusion x =
     (if length (ex_sha x) \<noteq> 64 then Inl (ContractInvalid ''content_sha256'')
      else if ex_tokens x < 0 then Inl (ContractInvalid ''counted_tokens'') else Inr x)"

record context_build =
  cx_selected :: "context_item list"
  cx_excluded :: "context_exclusion list"
  cx_tokens :: int
  cx_max :: int
  cx_reserve :: int
  cx_counter :: string
  cx_exact :: bool
  cx_fingerprint :: string

definition mk_context_build :: "context_build \<Rightarrow> brain_error + context_build" where
  "mk_context_build c =
     (if cx_tokens c < 0 then Inl (ContractInvalid ''counted_tokens'')
      else if cx_max c \<le> 0 then Inl (ContractInvalid ''max_context_tokens'')
      else if cx_reserve c < 0 then Inl (ContractInvalid ''protocol_reserve_tokens'')
      else if cx_counter c = [] then Inl (ContractInvalid ''counter_id'')
      else if length (cx_fingerprint c) \<noteq> 64 then Inl (ContractInvalid ''context_fingerprint'')
      else Inr c)"

section \<open>The builder\<close>

text \<open>A candidate with the digest of its content.\<close>

type_synonym verified = "context_item \<times> string"

definition path_text :: "context_item \<Rightarrow> string" where
  "path_text i = (case it_path i of None \<Rightarrow> [] | Some p \<Rightarrow> p)"

definition sort_path :: "context_item \<Rightarrow> string" where
  "sort_path i = unix_path (path_text i)"

definition count_tokens :: "token_counter \<Rightarrow> string \<Rightarrow> brain_error + int" where
  "count_tokens tc s = (if tc_count tc s < 0 then Inl (ContractInvalid ''count'') else Inr (tc_count tc s))"

definition verify_item :: "(string \<Rightarrow> string) \<Rightarrow> context_item \<Rightarrow> brain_error + verified" where
  "verify_item sha256 i =
     bind_result (check_sensitive i) (\<lambda>_.
       let h = sha256 (it_content i)
       in case it_sha i of
            None \<Rightarrow> Inr (i, h)
          | Some e \<Rightarrow> if lower e \<noteq> lower h then Inl ContextIntegrity else Inr (i, h))"

fun verify_items :: "(string \<Rightarrow> string) \<Rightarrow> context_item list \<Rightarrow> brain_error + verified list" where
  "verify_items sha256 [] = Inr []"
| "verify_items sha256 (i # items) =
     bind_result (verify_item sha256 i) (\<lambda>v. bind_result (verify_items sha256 items) (\<lambda>vs. Inr (v # vs)))"

definition dedupe_key :: "verified \<Rightarrow> int \<times> string \<times> string \<times> string \<times> string" where
  "dedupe_key v = (case v of (i, h) \<Rightarrow> (- it_priority i, context_kind_value (it_kind i), sort_path i, h, path_text i))"

definition dedupe_identity :: "verified \<Rightarrow> context_kind \<times> string \<times> string" where
  "dedupe_identity v = (case v of (i, h) \<Rightarrow> (it_kind i, path_text i, h))"

definition exclude :: "token_counter \<Rightarrow> exclusion_reason \<Rightarrow> verified \<Rightarrow> brain_error + context_exclusion" where
  "exclude tc reason v =
     (case v of (i, h) \<Rightarrow>
        bind_result (count_tokens tc (render_context_item i)) (\<lambda>n.
          mk_exclusion \<lparr>ex_kind = it_kind i, ex_path = it_path i, ex_sha = h, ex_tokens = n, ex_reason = reason\<rparr>))"

fun dedupe ::
  "token_counter \<Rightarrow> (context_kind \<times> string \<times> string) list \<Rightarrow> verified list
     \<Rightarrow> brain_error + verified list \<times> context_exclusion list" where
  "dedupe tc seen [] = Inr ([], [])"
| "dedupe tc seen (v # vs) =
     (if dedupe_identity v \<in> set seen
      then bind_result (exclude tc EX_DUPLICATE v) (\<lambda>x.
           bind_result (dedupe tc seen vs) (\<lambda>(us, xs). Inr (us, x # xs)))
      else bind_result (dedupe tc (dedupe_identity v # seen) vs) (\<lambda>(us, xs). Inr (v # us, xs)))"

definition mandatory_key :: "verified \<Rightarrow> int \<times> string \<times> string \<times> string" where
  "mandatory_key v = (case v of (i, h) \<Rightarrow> (- it_priority i, sort_path i, h, path_text i))"

fun kind_precedence :: "context_kind \<Rightarrow> int" where
  "kind_precedence CK_ERROR = 80"
| "kind_precedence CK_DIFF = 80"
| "kind_precedence CK_TEST = 70"
| "kind_precedence CK_SOURCE = 60"
| "kind_precedence CK_ARCHITECTURE = 50"
| "kind_precedence _ = 0"

definition optional_key :: "verified \<Rightarrow> int \<times> int \<times> string \<times> string \<times> string" where
  "optional_key v =
     (case v of (i, h) \<Rightarrow> (- it_priority i, - kind_precedence (it_kind i), sort_path i, h, path_text i))"

fun count_all :: "token_counter \<Rightarrow> verified list \<Rightarrow> brain_error + int" where
  "count_all tc [] = Inr 0"
| "count_all tc (v # vs) =
     bind_result (count_tokens tc (render_context_item (fst v))) (\<lambda>n. bind_result (count_all tc vs) (\<lambda>m. Inr (n + m)))"

text \<open>The greedy selection of the optional candidates, from the tokens counted so far.\<close>

fun select_optional ::
  "token_counter \<Rightarrow> int \<Rightarrow> int \<Rightarrow> verified list \<Rightarrow> brain_error + verified list \<times> context_exclusion list \<times> int" where
  "select_optional tc available used [] = Inr ([], [], used)"
| "select_optional tc available used (v # vs) =
     bind_result (count_tokens tc (render_context_item (fst v))) (\<lambda>n.
       if used + n \<le> available
       then bind_result (select_optional tc available (used + n) vs) (\<lambda>(us, xs, t). Inr (v # us, xs, t))
       else bind_result (exclude tc EX_BUDGET v) (\<lambda>x.
            bind_result (select_optional tc available used vs) (\<lambda>(us, xs, t). Inr (us, x # xs, t))))"

definition exclusion_key :: "context_exclusion \<Rightarrow> string \<times> int \<times> string \<times> string \<times> string \<times> string" where
  "exclusion_key x =
     (let p = (case ex_path x of None \<Rightarrow> [] | Some p \<Rightarrow> p)
      in (exclusion_value (ex_reason x), - ex_tokens x, context_kind_value (ex_kind x), unix_path p, ex_sha x, p))"

definition fingerprint_payload :: "(string \<Rightarrow> string) \<Rightarrow> token_counter \<Rightarrow> context_budget \<Rightarrow> context_item list \<Rightarrow> jval" where
  "fingerprint_payload sha256 tc b items =
     JObj [(''selected'', JList (map (\<lambda>i. JObj [(''kind'', JStr (context_kind_value (it_kind i))),
              (''path'', jopt JStr (it_path i)), (''priority'', JInt (it_priority i)),
              (''content_sha256'', JStr (sha256 (it_content i)))]) items)),
           (''max_context_tokens'', JInt (cb_max b)), (''protocol_reserve_tokens'', JInt (cb_reserve b)),
           (''counter_id'', JStr (tc_id tc)), (''token_count_is_exact'', JBool (tc_exact tc))]"

definition build_context ::
  "(string \<Rightarrow> string) \<Rightarrow> token_counter \<Rightarrow> context_item list \<Rightarrow> context_budget \<Rightarrow> brain_error + context_build" where
  "build_context sha256 tc candidates b =
     bind_result (verify_items sha256 candidates) (\<lambda>verified.
     bind_result (dedupe tc [] (sort_key dedupe_key verified)) (\<lambda>(unique, duplicates).
       let tasks = filter (\<lambda>v. it_kind (fst v) = CK_TASK) unique;
           contracts = filter (\<lambda>v. it_kind (fst v) = CK_CONTRACT) unique;
           optional = filter (\<lambda>v. it_kind (fst v) \<notin> {CK_TASK, CK_CONTRACT}) unique
       in if tasks = [] then Inl MissingTask
          else let mandatory = sort_key mandatory_key tasks @ sort_key mandatory_key contracts
          in bind_result (count_all tc mandatory) (\<lambda>used.
             if available_tokens b < used then Inl (MandatoryTooLarge used)
             else bind_result (select_optional tc (available_tokens b) used (sort_key optional_key optional))
               (\<lambda>(chosen, over, used).
                  let selected = map fst (mandatory @ chosen)
                  in mk_context_build
                       \<lparr>cx_selected = selected, cx_excluded = sort_key exclusion_key (duplicates @ over),
                        cx_tokens = used, cx_max = cb_max b, cx_reserve = cb_reserve b, cx_counter = tc_id tc,
                        cx_exact = tc_exact tc,
                        cx_fingerprint = sha256 (json_dump True (fingerprint_payload sha256 tc b selected))\<rparr>))))"

section \<open>Lemmas\<close>

definition tokens_of :: "token_counter \<Rightarrow> context_item \<Rightarrow> int" where
  "tokens_of tc i = tc_count tc (render_context_item i)"

lemma count_tokens_Inr: "count_tokens tc (render_context_item i) = Inr n \<longleftrightarrow> n = tokens_of tc i \<and> 0 \<le> n"
  by (auto simp: count_tokens_def tokens_of_def)

lemma exclude_Inr: "exclude tc why v = Inr x \<Longrightarrow> ex_reason x = why \<and> ex_tokens x = tokens_of tc (fst v) \<and> 0 \<le> ex_tokens x"
  by (auto simp: exclude_def mk_exclusion_def bind_result_Inr count_tokens_Inr split: prod.splits if_splits)

lemma verify_items_Inr:
  "verify_items sha256 items = Inr vs \<Longrightarrow>
     vs = map (\<lambda>i. (i, sha256 (it_content i))) items \<and> (\<forall>i\<in>set items. check_sensitive i = Inr ())"
proof (induction items arbitrary: vs)
  case (Cons i items)
  then show ?case by (auto simp: bind_result_Inr verify_item_def Let_def split: option.splits if_splits)
qed simp

lemma verify_items_iff:
  "(\<exists>vs. verify_items sha256 items = Inr vs) \<longleftrightarrow> (\<forall>i\<in>set items. \<exists>v. verify_item sha256 i = Inr v)"
  by (induction items) (auto simp: bind_result_Inr)

lemma dedupe_Inr:
  "dedupe tc seen vs = Inr (us, xs) \<Longrightarrow>
     set us \<subseteq> set vs \<and> distinct (map dedupe_identity us) \<and> dedupe_identity ` set us \<inter> set seen = {} \<and>
     dedupe_identity ` set vs \<subseteq> set seen \<union> dedupe_identity ` set us \<and> (\<forall>x\<in>set xs. ex_reason x = EX_DUPLICATE)"
proof (induction vs arbitrary: seen us xs)
  case (Cons v vs)
  show ?case
  proof (cases "dedupe_identity v \<in> set seen")
    case True
    with Cons.prems obtain x ys where "exclude tc EX_DUPLICATE v = Inr x" "dedupe tc seen vs = Inr (us, ys)" "xs = x # ys"
      by (auto simp: bind_result_Inr)
    with Cons.IH [of seen us ys] exclude_Inr True show ?thesis by auto
  next
    case False
    with Cons.prems obtain ws where "dedupe tc (dedupe_identity v # seen) vs = Inr (ws, xs)" "us = v # ws"
      by (auto simp: bind_result_Inr)
    with Cons.IH [of "dedupe_identity v # seen" ws xs] False show ?thesis by auto
  qed
qed simp

lemma count_all_Inr:
  "count_all tc vs = Inr n \<Longrightarrow> n = sum_list (map (tokens_of tc \<circ> fst) vs) \<and> 0 \<le> n"
proof (induction vs arbitrary: n)
  case (Cons v vs)
  then obtain k m where "count_all tc vs = Inr m" "k = tokens_of tc (fst v)" "0 \<le> k" "n = k + m"
    by (auto simp: bind_result_Inr count_tokens_Inr)
  with Cons.IH [of m] show ?case by simp
qed simp

lemma select_optional_Inr:
  "select_optional tc available used vs = Inr (us, xs, t) \<Longrightarrow>
     used \<le> t \<and> (used \<le> available \<longrightarrow> t \<le> available) \<and> t = used + sum_list (map (tokens_of tc \<circ> fst) us) \<and>
     subseq us vs \<and> (\<forall>x\<in>set xs. ex_reason x = EX_BUDGET \<and> available < t + ex_tokens x)"
proof (induction vs arbitrary: used us xs)
  case (Cons v vs)
  obtain n where n: "n = tokens_of tc (fst v)" "0 \<le> n" "count_tokens tc (render_context_item (fst v)) = Inr n"
    using Cons.prems by (auto simp: bind_result_Inr count_tokens_Inr)
  show ?case
  proof (cases "used + n \<le> available")
    case True
    with Cons.prems n obtain ws where "select_optional tc available (used + n) vs = Inr (ws, xs, t)" "us = v # ws"
      by (auto simp: bind_result_Inr)
    with Cons.IH [of "used + n" ws xs] n True show ?thesis by auto
  next
    case False
    with Cons.prems n obtain x ys where x: "exclude tc EX_BUDGET v = Inr x" "xs = x # ys"
      and r: "select_optional tc available used vs = Inr (us, ys, t)"
      by (auto simp: bind_result_Inr)
    from Cons.IH [OF r] exclude_Inr [OF x(1)] n False x(2) show ?thesis by auto
  qed
qed simp

text \<open>The steps of a successful build.\<close>

lemma build_context_steps:
  assumes "build_context sha256 tc cs b = Inr c"
  obtains unique duplicates tasks contracts chosen over n where
    "dedupe tc [] (sort_key dedupe_key (map (\<lambda>i. (i, sha256 (it_content i))) cs)) = Inr (unique, duplicates)"
    "\<forall>i\<in>set cs. check_sensitive i = Inr ()"
    "tasks = filter (\<lambda>v. it_kind (fst v) = CK_TASK) unique" "tasks \<noteq> []"
    "contracts = filter (\<lambda>v. it_kind (fst v) = CK_CONTRACT) unique"
    "count_all tc (sort_key mandatory_key tasks @ sort_key mandatory_key contracts) = Inr n" "n \<le> available_tokens b"
    "select_optional tc (available_tokens b) n
       (sort_key optional_key (filter (\<lambda>v. it_kind (fst v) \<notin> {CK_TASK, CK_CONTRACT}) unique)) = Inr (chosen, over, cx_tokens c)"
    "cx_selected c = map fst (sort_key mandatory_key tasks @ sort_key mandatory_key contracts @ chosen)"
    "cx_excluded c = sort_key exclusion_key (duplicates @ over)"
  using assms verify_items_Inr
  by (auto simp: build_context_def Let_def mk_context_build_def bind_result_Inr not_less split: if_splits)


text \<open>What a build promises.\<close>

definition item_identity :: "(string \<Rightarrow> string) \<Rightarrow> context_item \<Rightarrow> context_kind \<times> string \<times> string" where
  "item_identity sha256 i = dedupe_identity (i, sha256 (it_content i))"

lemma build_context_budget:
  assumes "build_context sha256 tc cs b = Inr c"
  shows "cx_tokens c = sum_list (map (tokens_of tc) (cx_selected c))" "cx_tokens c \<le> available_tokens b"
    "\<forall>x\<in>set (cx_excluded c). ex_reason x = EX_BUDGET \<longrightarrow> available_tokens b < cx_tokens c + ex_tokens x"
proof -
  obtain unique duplicates tasks contracts chosen over n where steps:
    "dedupe tc [] (sort_key dedupe_key (map (\<lambda>i. (i, sha256 (it_content i))) cs)) = Inr (unique, duplicates)"
    "count_all tc (sort_key mandatory_key tasks @ sort_key mandatory_key contracts) = Inr n" "n \<le> available_tokens b"
    "select_optional tc (available_tokens b) n
       (sort_key optional_key (filter (\<lambda>v. it_kind (fst v) \<notin> {CK_TASK, CK_CONTRACT}) unique)) = Inr (chosen, over, cx_tokens c)"
    "cx_selected c = map fst (sort_key mandatory_key tasks @ sort_key mandatory_key contracts @ chosen)"
    "cx_excluded c = sort_key exclusion_key (duplicates @ over)"
    using assms by (rule build_context_steps)
  note sel = select_optional_Inr [OF steps(4)] and cnt = count_all_Inr [OF steps(2)]
  show "cx_tokens c = sum_list (map (tokens_of tc) (cx_selected c))" using sel cnt by (simp add: steps(5) comp_def)
  show "cx_tokens c \<le> available_tokens b" using sel steps(3) by simp
  show "\<forall>x\<in>set (cx_excluded c). ex_reason x = EX_BUDGET \<longrightarrow> available_tokens b < cx_tokens c + ex_tokens x"
    using sel dedupe_Inr [OF steps(1)] by (auto simp: steps(6))
qed

lemma distinct_map_filter_sort: "distinct (map f vs) \<Longrightarrow> distinct (map f (sort_key k (filter P vs)))"
  by (simp add: distinct_map inj_on_def)

lemma subseq_facts: "subseq xs ys \<Longrightarrow> set xs \<subseteq> set ys \<and> (distinct ys \<longrightarrow> distinct xs)"
  by (induction rule: list_emb.induct) auto

lemma identity_kind: "fst (dedupe_identity v) = it_kind (fst v)"
  by (simp add: dedupe_identity_def split: prod.splits)

lemma identity_disjoint:
  assumes "\<And>v w. v \<in> A \<Longrightarrow> w \<in> B \<Longrightarrow> it_kind (fst v) \<noteq> it_kind (fst w)"
  shows "dedupe_identity ` A \<inter> dedupe_identity ` B = {}"
proof (intro equals0I)
  fix x
  assume "x \<in> dedupe_identity ` A \<inter> dedupe_identity ` B"
  then have "x \<in> dedupe_identity ` A" "x \<in> dedupe_identity ` B" by simp_all
  then obtain v w where "v \<in> A" "w \<in> B" "dedupe_identity v = x" "dedupe_identity w = x" by (elim imageE) simp
  with assms [of v w] identity_kind [of v] identity_kind [of w] show False by simp
qed

lemma build_context_items:
  assumes "build_context sha256 tc cs b = Inr c"
  shows "set (cx_selected c) \<subseteq> set cs" "distinct (map (item_identity sha256) (cx_selected c))"
    "\<forall>i\<in>set (cx_selected c). check_sensitive i = Inr ()" "\<exists>i\<in>set (cx_selected c). it_kind i = CK_TASK"
    "\<forall>i\<in>set cs. it_kind i \<in> {CK_TASK, CK_CONTRACT} \<longrightarrow> item_identity sha256 i \<in> item_identity sha256 ` set (cx_selected c)"
proof -
  obtain unique duplicates tasks contracts chosen over n where steps:
    "dedupe tc [] (sort_key dedupe_key (map (\<lambda>i. (i, sha256 (it_content i))) cs)) = Inr (unique, duplicates)"
    "\<forall>i\<in>set cs. check_sensitive i = Inr ()"
    "tasks = filter (\<lambda>v. it_kind (fst v) = CK_TASK) unique" "tasks \<noteq> []"
    "contracts = filter (\<lambda>v. it_kind (fst v) = CK_CONTRACT) unique"
    "select_optional tc (available_tokens b) n
       (sort_key optional_key (filter (\<lambda>v. it_kind (fst v) \<notin> {CK_TASK, CK_CONTRACT}) unique)) = Inr (chosen, over, cx_tokens c)"
    "cx_selected c = map fst (sort_key mandatory_key tasks @ sort_key mandatory_key contracts @ chosen)"
    using assms by (rule build_context_steps)
  let ?vs = "sort_key mandatory_key tasks @ sort_key mandatory_key contracts @ chosen"
  let ?opt = "filter (\<lambda>v. it_kind (fst v) \<notin> {CK_TASK, CK_CONTRACT}) unique"
  note ded = dedupe_Inr [OF steps(1)]
  from select_optional_Inr [OF steps(6)] have sub: "subseq chosen (sort_key optional_key ?opt)" by simp
  have uniq: "set unique \<subseteq> (\<lambda>i. (i, sha256 (it_content i))) ` set cs" using ded by auto
  have chosen: "set chosen \<subseteq> set ?opt" using subseq_facts [OF sub] by auto
  have vs: "set ?vs \<subseteq> set unique" using chosen by (auto simp: steps(3,5))
  then have pair: "v = (fst v, sha256 (it_content (fst v)))" if "v \<in> set ?vs" for v using that uniq by auto
  show "set (cx_selected c) \<subseteq> set cs" using vs uniq by (fastforce simp: steps(7))
  with steps(2) show "\<forall>i\<in>set (cx_selected c). check_sensitive i = Inr ()" by blast
  show "\<exists>i\<in>set (cx_selected c). it_kind i = CK_TASK"
  proof -
    from steps(4) have "hd tasks \<in> set tasks" by simp
    moreover from this have "it_kind (fst (hd tasks)) = CK_TASK" unfolding steps(3) by simp
    ultimately show ?thesis unfolding steps(7) by (intro bexI [of _ "fst (hd tasks)"]) auto
  qed
  have d: "distinct (map dedupe_identity unique)" using ded by simp
  then have "distinct (map dedupe_identity (sort_key optional_key ?opt))" by (rule distinct_map_filter_sort)
  then have "distinct (map dedupe_identity chosen)" using subseq_facts [OF subseq_map [OF sub, of dedupe_identity]] by simp
  moreover have "distinct (map dedupe_identity (sort_key mandatory_key tasks))" "distinct (map dedupe_identity (sort_key mandatory_key contracts))"
    unfolding steps(3,5) by (rule distinct_map_filter_sort [OF d])+
  moreover have "dedupe_identity ` set tasks \<inter> dedupe_identity ` set contracts = {}"
    by (rule identity_disjoint) (auto simp: steps(3,5))
  moreover have "dedupe_identity ` (set tasks \<union> set contracts) \<inter> dedupe_identity ` set chosen = {}"
    using chosen by (intro identity_disjoint) (auto simp: steps(3,5))
  ultimately have "distinct (map dedupe_identity ?vs)" by (simp add: image_Un Int_Un_distrib Int_Un_distrib2)
  moreover have "map (item_identity sha256) (cx_selected c) = map dedupe_identity ?vs"
    unfolding steps(7) map_map using pair by (intro map_cong) (auto simp: item_identity_def)
  ultimately show "distinct (map (item_identity sha256) (cx_selected c))" by metis
  have "item_identity sha256 i \<in> item_identity sha256 ` set (cx_selected c)"
    if "i \<in> set cs" "it_kind i \<in> {CK_TASK, CK_CONTRACT}" for i
  proof -
    have "item_identity sha256 i \<in> dedupe_identity ` set (sort_key dedupe_key (map (\<lambda>i. (i, sha256 (it_content i))) cs))"
      unfolding item_identity_def using that(1) by (intro imageI) simp
    moreover have "dedupe_identity ` set (sort_key dedupe_key (map (\<lambda>i. (i, sha256 (it_content i))) cs)) \<subseteq> dedupe_identity ` set unique"
      using ded by (simp only: list.set(1) Un_empty_left)
    ultimately have "item_identity sha256 i \<in> dedupe_identity ` set unique" by (rule rev_subsetD)
    then obtain v where v: "v \<in> set unique" "dedupe_identity v = item_identity sha256 i" by (elim imageE) simp
    have "it_kind (fst v) = it_kind i"
      using identity_kind [of v] identity_kind [of "(i, sha256 (it_content i))"] v(2) by (simp add: item_identity_def)
    with v(1) that(2) have in_vs: "v \<in> set ?vs" by (auto simp: steps(3,5))
    have "item_identity sha256 (fst v) = item_identity sha256 i"
      using pair [OF in_vs] v(2) by (simp add: item_identity_def)
    moreover have "fst v \<in> set (cx_selected c)" unfolding steps(7) set_map using in_vs by (rule imageI)
    ultimately show ?thesis by (metis imageI)
  qed
  then show "\<forall>i\<in>set cs. it_kind i \<in> {CK_TASK, CK_CONTRACT} \<longrightarrow> item_identity sha256 i \<in> item_identity sha256 ` set (cx_selected c)"
    by blast
qed

lemma build_context_order:
  assumes "build_context sha256 tc cs b = Inr c" and "mset cs' = mset cs"
    and "inj_on (\<lambda>i. dedupe_key (i, sha256 (it_content i))) (set cs)"
  shows "build_context sha256 tc cs' b = Inr c"
proof -
  obtain vs where vs: "verify_items sha256 cs = Inr vs"
    using assms(1) by (auto simp: build_context_def bind_result_Inr)
  have "set cs' = set cs" using assms(2) by (metis mset_eq_setD)
  with vs obtain vs' where vs': "verify_items sha256 cs' = Inr vs'" using verify_items_iff [of sha256] by metis
  from verify_items_Inr [OF vs] verify_items_Inr [OF vs'] assms(2) have "mset vs = mset vs'" by simp
  moreover have "inj_on dedupe_key (set vs)"
    using verify_items_Inr [OF vs] assms(3) by (auto simp: inj_on_def)
  ultimately have "sort_key dedupe_key vs = sort_key dedupe_key vs'"
    by (intro sort_key_inj_key_eq) simp_all
  with assms(1) vs vs' show ?thesis by (simp add: build_context_def bind_result_def)
qed

end
