(* ===== verification/Brain_Validation.thy ===== *)
theory Brain_Validation
  imports Brain_Context
begin

text \<open>
  \<open>src/aios_bridge/external_brain/validation.py\<close> and \<open>prompt.py\<close>: the sections a model's answer must have, and
  the messages that ask for them.
\<close>

fun required_sections :: "output_type \<Rightarrow> string list" where
  "required_sections O_PLAN = [''SUMMARY'', ''STEPS'', ''FILES'', ''TESTS'', ''RISKS'']"
| "required_sections O_PATCH_PROPOSAL = [''SUMMARY'', ''FILES'', ''PATCH'', ''TESTS'', ''RISKS'']"
| "required_sections O_DIAGNOSIS = [''CAUSE'', ''EVIDENCE'', ''FIX'', ''TESTS'', ''RISKS'']"
| "required_sections O_REVIEW = [''STATUS'', ''FINDINGS'', ''TESTS'', ''RISKS'']"

section \<open>Section headers\<close>

fun up_to :: "nat \<Rightarrow> rx \<Rightarrow> rx" where
  "up_to 0 r = Nothing"
| "up_to (Suc n) r = Optional (Then r (up_to n r))"

definition header_char :: "char \<Rightarrow> bool" where
  "header_char c \<longleftrightarrow> is_upper c \<or> is_lower c \<or> is_digit c \<or> c = CHR ''_'' \<or> c = CHR '' ''"

definition key_char :: "char \<Rightarrow> bool" where
  "key_char c \<longleftrightarrow> is_upper c \<or> is_lower c \<or> is_digit c \<or> c = CHR ''_''"

text \<open>\<open>#{1,6}\s+([A-Za-z0-9_ ]+?)\s*\<close>, \<open>\*{2}([A-Za-z0-9_ ]+?)\*{2}\s*:?\<close> and \<open>([A-Za-z0-9_]+)\s*:\<close>\<close>

definition hash_header :: rx where
  "hash_header =
     Then (lit ''#'') (Then (up_to 5 (lit ''#'')) (Then (some_chars is_space)
       (Then (Capture (Then (Chars header_char) (Lazy header_char))) (Many is_space))))"

definition star_header :: rx where
  "star_header =
     Then (lit ''**'') (Then (Capture (Then (Chars header_char) (Lazy header_char)))
       (Then (lit ''**'') (Then (Many is_space) (Optional (lit '':'')))))"

definition colon_header :: rx where
  "colon_header = Then (Capture (some_chars key_char)) (Then (Many is_space) (lit '':''))"

definition section_header_re :: rx where
  "section_header_re =
     Then LineStart (Then (Or hash_header (Or star_header colon_header)) (Then (Many is_space) LineEnd))"

text \<open>The next match: the text before it, the character before the rest, the rest, and the groups.\<close>

fun next_match :: "rx \<Rightarrow> char option \<Rightarrow> string \<Rightarrow> (string \<times> char option \<times> string \<times> string list) option" where
  "next_match r prev [] =
     (case rx_run r (prev, [], []) of (p, rest, g) # _ \<Rightarrow> Some ([], p, rest, g) | [] \<Rightarrow> None)"
| "next_match r prev (c # cs) =
     (case rx_run r (prev, c # cs, []) of
        (p, rest, g) # _ \<Rightarrow> Some ([], p, rest, g)
      | [] \<Rightarrow> map_option (\<lambda>(skipped, m). (c # skipped, m)) (next_match r (Some c) cs))"

definition rstrip_header :: "string \<Rightarrow> string" where
  "rstrip_header s = rev (dropWhile (\<lambda>c. c = CHR '' '' \<or> c = CHR '':'') (rev s))"

text \<open>The one group that took part in the match.\<close>

definition header_name :: "string list \<Rightarrow> string" where
  "header_name g = strip (rstrip_header (upper (strip (concat (take 1 g)))))"

text \<open>
  The loop over \<open>finditer\<close>: the body of a section ends where the next match starts. A match is never empty, so as
  many rounds as there are characters are enough (\<open>rounds_enough\<close>).
\<close>

fun sections_from :: "nat \<Rightarrow> string \<Rightarrow> char option \<Rightarrow> string \<Rightarrow> (string \<times> string) list" where
  "sections_from 0 header prev s = [(header, strip s)]"
| "sections_from (Suc n) header prev s =
     (case next_match section_header_re prev s of
        None \<Rightarrow> [(header, strip s)]
      | Some (body, p, rest, g) \<Rightarrow> (header, strip body) # sections_from n (header_name g) p rest)"

definition parse_artifact_sections :: "string \<Rightarrow> brain_error + (string \<times> string) list" where
  "parse_artifact_sections content =
     (if strip content = [] then Inl (OutputInvalid ''content'')
      else (case next_match section_header_re None content of
              None \<Rightarrow> Inr []
            | Some (_, p, rest, g) \<Rightarrow> Inr (sections_from (length rest) (header_name g) p rest)))"

text \<open>A repeated header replaces the earlier section: the dictionary is the last entry for each name.\<close>

definition section_text :: "(string \<times> string) list \<Rightarrow> string \<Rightarrow> string" where
  "section_text ps k = (case map_of (rev ps) k of None \<Rightarrow> [] | Some b \<Rightarrow> b)"

definition line_break :: "char \<Rightarrow> bool" where
  "line_break c \<longleftrightarrow> (of_char c :: nat) \<in> {10, 11, 12, 13, 28, 29, 30, 133}"

text \<open>\<open>upper()\<close> of a Latin-1 text, as far as the letters from A to Z are concerned.\<close>

definition upper_letters :: "string \<Rightarrow> string" where
  "upper_letters s = concat (map (\<lambda>c. if (of_char c :: nat) = 223 then ''SS'' else [upper_char c]) s)"

definition cleaned_status :: "string \<Rightarrow> string" where
  "cleaned_status s =
     filter (\<lambda>c. is_upper c \<or> c = CHR ''_'')
       (rev (dropWhile (\<lambda>c. c = CHR ''.'') (rev (upper_letters (strip (takeWhile (\<lambda>c. \<not> line_break c) s))))))"

definition validate_artifact :: "output_type \<Rightarrow> string \<Rightarrow> brain_error + (string \<times> string) list" where
  "validate_artifact t content =
     bind_result (parse_artifact_sections content) (\<lambda>ps.
       if list_ex (\<lambda>k. strip (section_text ps k) = []) (required_sections t) then Inl (OutputInvalid ''sections'')
       else if t = O_REVIEW \<and> cleaned_status (strip (section_text ps ''STATUS'')) \<notin> {''PASS'', ''CHANGES_REQUIRED''}
       then Inl (OutputInvalid ''status'')
       else Inr ps)"

section \<open>Messages\<close>

fun join :: "string \<Rightarrow> string list \<Rightarrow> string" where
  "join sep [] = []"
| "join sep [x] = x"
| "join sep (x # xs) = x @ sep @ join sep xs"

definition system_message :: "brain_role \<Rightarrow> model_operation \<Rightarrow> output_type \<Rightarrow> string" where
  "system_message role opn out =
     join nl
       ([''You are an External Brain AI advisor acting in the role of '' @ brain_role_value role @ ''.'',
         ''Your operation is: '' @ model_operation_value opn @ ''.'',
         '''',
         ''GOVERNANCE & SAFETY INVARIANTS:'',
         ''1. You are a PROPOSAL-ONLY reasoning advisor.'',
         ''2. You have NO execution authority: you cannot read or write filesystem files directly, execute shell commands, run Git commands, browse the web, or apply patches.'',
         ''3. You must produce strictly structured markdown proposal content.'',
         ''4. Do NOT output tool calls, function calls, or execution scripts.'',
         ''5. Your output MUST be in '' @ output_type_value out @ '' format and include all required section headers:'',
         join nl (map (\<lambda>s. ''- `## '' @ s @ ''`'') (required_sections out))])"

definition user_message :: "model_request \<Rightarrow> string" where
  "user_message r =
     join (nl @ nl)
       [''## Task ID'' @ nl @ rq_task r,
        ''## Instruction'' @ nl @ rq_instruction r,
        ''## Context Items'' @ nl @
          (if rq_context r = [] then ''(No context items provided)''
           else join (nl @ nl) (map render_context_item (rq_context r))),
        ''## Output Requirements'' @ nl @
          ''Output MUST be in '' @ output_type_value (rq_output r) @ '' format conforming to operation '' @
          model_operation_value (rq_operation r) @ ''.'']"

definition render_messages :: "model_request \<Rightarrow> (string \<times> string) list" where
  "render_messages r =
     [(''system'', system_message (rq_role r) (rq_operation r) (rq_output r)), (''user'', user_message r)]"

section \<open>Lemmas\<close>

text \<open>A match never gives text back, and one that starts with a character takes it.\<close>

lemma star_run_length:
  assumes "\<And>st' st. st' \<in> set (f st) \<Longrightarrow> length (fst (snd st')) \<le> length (fst (snd st))"
  shows "st' \<in> set (star_run f n st) \<Longrightarrow> length (fst (snd st')) \<le> length (fst (snd st))"
proof (induction n arbitrary: st' st)
  case (Suc n)
  from Suc.prems consider "st' = st" | u where "u \<in> set (f st)" "st' \<in> set (star_run f n u)"
    by (auto split: if_splits)
  then show ?case
  proof cases
    case (2 u)
    from Suc.IH [OF 2(2)] assms [OF 2(1)] show ?thesis by (rule le_trans)
  qed simp
qed simp

lemma rx_run_length: "st' \<in> set (rx_run r st) \<Longrightarrow> length (fst (snd st')) \<le> length (fst (snd st))"
proof (induction r arbitrary: st' st)
  case (Then a b)
  then obtain u where "u \<in> set (rx_run a st)" "st' \<in> set (rx_run b u)" by auto
  with Then.IH(1) [of u st] Then.IH(2) [of st' u] show ?case by (meson le_trans)
next
  case (Star a)
  obtain p s g where st: "st = (p, s, g)" by (cases st)
  from Star.prems have "st' \<in> set (star_run (rx_run a) (length s) st)" by (simp add: st)
  with star_run_length [of "rx_run a"] Star.IH show ?case by blast
next
  case (Or a b)
  from Or.prems have "st' \<in> set (rx_run a st) \<or> st' \<in> set (rx_run b st)" by simp
  with Or.IH show ?case by blast
next
  case (Optional a)
  from Optional.prems have "st' \<in> set (rx_run a st) \<or> st' = st" by auto
  with Optional.IH show ?case by blast
next
  case (Capture a)
  obtain p s g where st: "st = (p, s, g)" by (cases st)
  from Capture.prems obtain u where "u \<in> set (rx_run a st)" "fst (snd st') = fst (snd u)"
    by (auto simp: st split: prod.splits)
  with Capture.IH [of u st] show ?case by simp
qed (case_tac [!] st, auto simp: advance_def split: list.splits if_splits)

definition takes :: "rx \<Rightarrow> bool" where
  "takes r \<longleftrightarrow> (\<forall>st st'. st' \<in> set (rx_run r st) \<longrightarrow> length (fst (snd st')) < length (fst (snd st)))"

lemma takes_Chars [simp]: "takes (Chars p)"
  by (auto simp: takes_def split: list.splits)

lemma takes_Then: "takes a \<or> takes b \<Longrightarrow> takes (Then a b)"
proof -
  assume t: "takes a \<or> takes b"
  have "length (fst (snd st')) < length (fst (snd st))" if "st' \<in> set (rx_run (Then a b) st)" for st st'
  proof -
    from that obtain u where u: "u \<in> set (rx_run a st)" "st' \<in> set (rx_run b u)" by auto
    have le: "length (fst (snd u)) \<le> length (fst (snd st))" "length (fst (snd st')) \<le> length (fst (snd u))"
      using rx_run_length u by blast+
    from t show ?thesis
    proof
      assume "takes a"
      with u(1) have "length (fst (snd u)) < length (fst (snd st))" unfolding takes_def by blast
      with le show ?thesis by simp
    next
      assume "takes b"
      with u(2) have "length (fst (snd st')) < length (fst (snd u))" unfolding takes_def by blast
      with le show ?thesis by simp
    qed
  qed
  then show "takes (Then a b)" unfolding takes_def by blast
qed

lemma takes_Or: "takes a \<Longrightarrow> takes b \<Longrightarrow> takes (Or a b)"
  unfolding takes_def rx_run.simps set_append by blast

lemma takes_Capture: "takes a \<Longrightarrow> takes (Capture a)"
proof -
  assume t: "takes a"
  have "length (fst (snd st')) < length (fst (snd st))" if "st' \<in> set (rx_run (Capture a) st)" for st st'
  proof -
    obtain p s g where st: "st = (p, s, g)" by (cases st)
    from that obtain u where "u \<in> set (rx_run a st)" "fst (snd st') = fst (snd u)"
      by (auto simp: st split: prod.splits)
    with t show ?thesis unfolding takes_def by metis
  qed
  then show "takes (Capture a)" unfolding takes_def by blast
qed

lemma takes_section_header: "takes section_header_re"
proof -
  have "takes hash_header" "takes star_header" "takes colon_header"
    unfolding hash_header_def star_header_def colon_header_def some_chars_def lit.simps
    by (simp_all add: takes_Then takes_Capture)
  then show ?thesis unfolding section_header_re_def by (simp add: takes_Then takes_Or)
qed

lemma next_match_takes:
  "next_match r prev s = Some (skipped, p, rest, g) \<Longrightarrow> takes r \<Longrightarrow> length rest < length s"
proof (induction r prev s arbitrary: skipped rule: next_match.induct)
  case (1 r prev)
  then have "(p, rest, g) \<in> set (rx_run r (prev, [], []))" by (auto split: list.splits)
  with 1(2) show ?case unfolding takes_def by fastforce
next
  case (2 r prev c cs)
  show ?case
  proof (cases "rx_run r (prev, c # cs, [])")
    case Nil
    with 2 show ?thesis by (auto simp: less_SucI)
  next
    case (Cons m ms)
    with 2(2) have "(p, rest, g) \<in> set (rx_run r (prev, c # cs, []))" by (auto split: prod.splits)
    with 2(3) show ?thesis unfolding takes_def by fastforce
  qed
qed

lemma rounds_enough: "length s \<le> n \<Longrightarrow> sections_from n header prev s = sections_from (length s) header prev s"
proof -
  have "sections_from (Suc n) header prev s = sections_from n header prev s" if "length s \<le> n" for n header prev s
    using that
  proof (induction n arbitrary: header prev s)
    case 0
    then have "next_match section_header_re prev s = None"
      using next_match_takes [OF _ takes_section_header, of prev s] by (cases "next_match section_header_re prev s") auto
    with 0 show ?case by simp
  next
    case (Suc n)
    show ?case
    proof (cases "next_match section_header_re prev s")
      case None
      then show ?thesis by simp
    next
      case (Some m)
      obtain body p rest g where m: "m = (body, p, rest, g)" by (cases m)
      from next_match_takes [OF Some [unfolded m] takes_section_header] Suc.prems have "length rest \<le> n" by simp
      from Suc.IH [OF this, of "header_name g" p] Some m show ?thesis by simp
    qed
  qed
  note more = this
  assume "length s \<le> n"
  then show ?thesis
  proof (induction rule: dec_induct)
    case (step m)
    with \<open>length s \<le> m\<close> show ?case using more by metis
  qed simp
qed

lemma validate_artifact_Inr:
  assumes "validate_artifact t content = Inr ps" and "k \<in> set (required_sections t)"
  shows "strip (section_text ps k) \<noteq> []"
  using assms by (auto simp: validate_artifact_def bind_result_Inr list_ex_iff split: if_splits)

end
