(* ===== verification/Brain_Gateway.thy ===== *)
theory Brain_Gateway
  imports Brain_Validation
begin

text \<open>
  \<open>src/aios_bridge/external_brain/gateway.py\<close>: one call of the configured provider, the checks of its answer and
  the usage record. The provider is not part of the sources: what it answers is an argument (\<open>None\<close> when it
  raises), and the calls made to it are listed in the state. The text of an exception is an argument, too.
\<close>

record gateway =
  gw_provider :: string
  gw_model :: string
  gw_has_ledger :: bool

record gateway_state =
  gt_calls :: "model_request list"
  gt_ledger :: "usage_record list"

record gateway_result =
  gr_response :: model_response
  gr_usage :: usage_record
  gr_persisted :: "bool option"
  gr_ledger_error :: "string option"

datatype gateway_error = GatewayContract brain_error | ProviderRaised

record gateway_io =
  go_reply :: "model_response option"
  go_timestamp :: string
  go_append :: ledger_outcome
  go_message :: "brain_error \<Rightarrow> string"

text \<open>Steps 1 and 2: nothing has been sent yet.\<close>

definition precheck :: "gateway \<Rightarrow> model_request \<Rightarrow> context_build option \<Rightarrow> brain_error + unit" where
  "precheck gw rq cx =
     (if rq_provider rq \<noteq> None \<and> rq_provider rq \<noteq> Some (gw_provider gw) then Inl (ContractInvalid ''provider'')
      else if (case cx of None \<Rightarrow> False | Some c \<Rightarrow> rq_context rq \<noteq> cx_selected c) then Inl (ContractInvalid ''context'')
      else Inr ())"

definition invalid_response :: "gateway \<Rightarrow> model_request \<Rightarrow> model_response \<Rightarrow> string \<Rightarrow> string \<Rightarrow> brain_error + model_response" where
  "invalid_response gw rq rp code msg =
     mk_model_response
       \<lparr>rp_schema = ''1'', rp_id = rq_id rq, rp_task = rq_task rq, rp_provider = gw_provider gw, rp_model = rp_model rp,
        rp_status = RS_INVALID_RESPONSE, rp_output = None, rp_content = None, rp_input_tokens = rp_input_tokens rp,
        rp_output_tokens = rp_output_tokens rp, rp_latency = rp_latency rp, rp_provider_id = rp_provider_id rp,
        rp_error_code = Some code, rp_error_message = Some msg\<rparr>"

text \<open>Steps 4 and 5.\<close>

definition checked_response ::
  "(brain_error \<Rightarrow> string) \<Rightarrow> gateway \<Rightarrow> model_request \<Rightarrow> model_response \<Rightarrow> brain_error + model_response" where
  "checked_response str gw rq rp =
     bind_result
       (case validate_correlation rq rp of
          Inl e \<Rightarrow> invalid_response gw rq rp ''CORRELATION_ERROR'' (str e)
        | Inr _ \<Rightarrow> Inr rp)
       (\<lambda>rp. if rp_status rp = RS_SUCCESS
             then (case validate_artifact (rq_output rq) (case rp_content rp of None \<Rightarrow> [] | Some s \<Rightarrow> s) of
                     Inl e \<Rightarrow> invalid_response gw rq rp ''INVALID_ARTIFACT_STRUCTURE''
                                (''Artifact structural validation failed: '' @ str e)
                   | Inr _ \<Rightarrow> Inr rp)
             else Inr rp)"

text \<open>Step 6.\<close>

definition usage_record_of ::
  "string \<Rightarrow> gateway \<Rightarrow> model_request \<Rightarrow> context_build option \<Rightarrow> model_response \<Rightarrow> brain_error + usage_record" where
  "usage_record_of timestamp gw rq cx rp =
     mk_usage_record
       \<lparr>us_schema = ''1'', us_timestamp = timestamp, us_request = rq_id rq, us_task = rq_task rq,
        us_provider = gw_provider gw, us_requested_model = rq_model rq, us_actual_model = rp_model rp,
        us_status = rp_status rp, us_input_tokens = rp_input_tokens rp, us_output_tokens = rp_output_tokens rp,
        us_reasoning_tokens = None, us_cached_tokens = None, us_latency = rp_latency rp,
        us_provider_request = rp_provider_id rp, us_context_fingerprint = map_option cx_fingerprint cx,
        us_context_tokens = map_option cx_tokens cx, us_counter = map_option cx_counter cx,
        us_exact = map_option cx_exact cx, us_error_code = rp_error_code rp\<rparr>"

definition gateway_invoke ::
  "gateway_io \<Rightarrow> gateway \<Rightarrow> model_request \<Rightarrow> context_build option \<Rightarrow> gateway_state
     \<Rightarrow> (gateway_error + gateway_result) \<times> gateway_state" where
  "gateway_invoke io gw rq cx w =
     (case precheck gw rq cx of
        Inl e \<Rightarrow> (Inl (GatewayContract e), w)
      | Inr _ \<Rightarrow>
          (let w = w\<lparr>gt_calls := gt_calls w @ [rq]\<rparr>
           in case go_reply io of
                None \<Rightarrow> (Inl ProviderRaised, w)
              | Some rp \<Rightarrow>
                  (case bind_result (checked_response (go_message io) gw rq rp) (\<lambda>rp.
                          bind_result (usage_record_of (go_timestamp io) gw rq cx rp) (\<lambda>u. Inr (rp, u))) of
                     Inl e \<Rightarrow> (Inl (GatewayContract e), w)
                   | Inr (rp, u) \<Rightarrow>
                       if gw_has_ledger gw
                       then (let (ok, l) = ledger_append (go_append io) u (gt_ledger w)
                             in (Inr \<lparr>gr_response = rp, gr_usage = u, gr_persisted = Some ok,
                                      gr_ledger_error = (if ok then None else Some ''LEDGER_WRITE_FAILED'')\<rparr>,
                                 w\<lparr>gt_ledger := l\<rparr>))
                       else (Inr \<lparr>gr_response = rp, gr_usage = u, gr_persisted = None, gr_ledger_error = None\<rparr>, w))))"

section \<open>Lemmas\<close>

lemma invalid_response_status: "invalid_response gw rq rp code msg = Inr rp' \<Longrightarrow> rp_status rp' = RS_INVALID_RESPONSE"
  by (auto simp: invalid_response_def mk_model_response_def split: if_splits)

lemma checked_response_success:
  assumes "checked_response str gw rq rp = Inr rp'" and "rp_status rp' = RS_SUCCESS"
  shows "rp' = rp" "rp_id rp = rq_id rq" "rp_task rp = rq_task rq" "rp_output rp = Some (expected_output (rq_operation rq))"
    "\<exists>ps. validate_artifact (rq_output rq) (case rp_content rp of None \<Rightarrow> [] | Some s \<Rightarrow> s) = Inr ps"
proof -
  obtain rp1 where 1: "(case validate_correlation rq rp of
        Inl e \<Rightarrow> invalid_response gw rq rp ''CORRELATION_ERROR'' (str e) | Inr _ \<Rightarrow> Inr rp) = Inr rp1"
    and 2: "(if rp_status rp1 = RS_SUCCESS
      then (case validate_artifact (rq_output rq) (case rp_content rp1 of None \<Rightarrow> [] | Some s \<Rightarrow> s) of
              Inl e \<Rightarrow> invalid_response gw rq rp1 ''INVALID_ARTIFACT_STRUCTURE''
                         (''Artifact structural validation failed: '' @ str e)
            | Inr _ \<Rightarrow> Inr rp1)
      else Inr rp1) = Inr rp'"
    using assms(1) unfolding checked_response_def bind_result_Inr by blast
  from 2 assms(2) have ok: "rp' = rp1" "rp_status rp1 = RS_SUCCESS"
    "\<exists>ps. validate_artifact (rq_output rq) (case rp_content rp1 of None \<Rightarrow> [] | Some s \<Rightarrow> s) = Inr ps"
    by (auto split: if_splits sum.splits dest: invalid_response_status)
  from 1 ok(2) obtain u where "validate_correlation rq rp = Inr u" "rp1 = rp"
    by (auto split: sum.splits dest: invalid_response_status)
  with ok show "rp' = rp" "rp_id rp = rq_id rq" "rp_task rp = rq_task rq" "rp_output rp = Some (expected_output (rq_operation rq))"
    "\<exists>ps. validate_artifact (rq_output rq) (case rp_content rp of None \<Rightarrow> [] | Some s \<Rightarrow> s) = Inr ps"
    by (auto simp: validate_correlation_def split: if_splits)
qed

lemma gateway_invoke_calls:
  assumes "gateway_invoke io gw rq cx w = (r, w')"
  shows "gt_calls w' = gt_calls w \<and> (\<exists>e. r = Inl (GatewayContract e)) \<and> gt_ledger w' = gt_ledger w \<or> gt_calls w' = gt_calls w @ [rq]"
  using assms by (auto simp: gateway_invoke_def Let_def split: sum.splits option.splits prod.splits if_splits)

lemma gateway_invoke_Inr:
  assumes "gateway_invoke io gw rq cx w = (Inr g, w')"
  obtains rp where "go_reply io = Some rp" "checked_response (go_message io) gw rq rp = Inr (gr_response g)"
    "usage_record_of (go_timestamp io) gw rq cx (gr_response g) = Inr (gr_usage g)" "gt_calls w' = gt_calls w @ [rq]"
    "gr_persisted g = (if gw_has_ledger gw then Some (fst (ledger_append (go_append io) (gr_usage g) (gt_ledger w))) else None)"
    "gt_ledger w' = (if gw_has_ledger gw then snd (ledger_append (go_append io) (gr_usage g) (gt_ledger w)) else gt_ledger w)"
  using assms
  by (auto simp: gateway_invoke_def Let_def bind_result_Inr split: sum.splits option.splits prod.splits if_splits)

lemma usage_record_of_status: "usage_record_of timestamp gw rq cx rp = Inr u \<Longrightarrow> us_status u = rp_status rp"
  by (auto simp: usage_record_of_def mk_usage_record_def split: if_splits)

end
