(* ===== verification/Brain_Escape.thy ===== *)
theory Brain_Escape
  imports Grant_Store Brain_Gateway
begin

text \<open>
  \<open>src/aios_bridge/paid_api_brain_escape.py\<close> and \<open>provider_input_budget.py\<close>: the one way a paid model is called
  under a grant. The coroutine is cut where other processes can run: the checks with the dispatch
  (\<open>prepare\<close>), the consumption of the grant, and the call of the gateway. The registered counter of input tokens,
  SHA-256 and SHA-1 are parameters.
\<close>

section \<open>Evidence of the input budget\<close>

record count_evidence =
  pe_provider :: string
  pe_model :: string
  pe_request :: string
  pe_tokens :: int
  pe_counter :: string
  pe_exact :: bool
  pe_schema :: string

definition exact_string :: "string \<Rightarrow> bool" where
  "exact_string s \<longleftrightarrow> s \<noteq> [] \<and> s = strip s"

datatype budget_error = BudgetSchema | BudgetString string | BudgetFingerprint | BudgetTokens | BudgetUntrusted

definition mk_count_evidence :: "count_evidence \<Rightarrow> budget_error + count_evidence" where
  "mk_count_evidence e =
     (if pe_schema e \<noteq> ''1'' then Inl BudgetSchema
      else if \<not> exact_string (pe_provider e) then Inl (BudgetString ''provider_id'')
      else if \<not> exact_string (pe_model e) then Inl (BudgetString ''model_id'')
      else if \<not> exact_string (pe_counter e) then Inl (BudgetString ''counter_id'')
      else if \<not> hex_digits 64 (pe_request e) then Inl BudgetFingerprint
      else if pe_tokens e < 0 then Inl BudgetTokens
      else Inr e)"

definition request_fingerprint :: "(string \<Rightarrow> string) \<Rightarrow> model_request \<Rightarrow> string" where
  "request_fingerprint sha256 r = sha256 (json_text (model_request_dict r))"

text \<open>A counter: whether its exact type is registered, its properties, and what it counts (\<open>None\<close> when it raises).\<close>

record input_counter =
  ic_registered :: bool
  ic_provider :: string
  ic_model :: string
  ic_id :: string
  ic_exact :: bool
  ic_count :: "model_request \<Rightarrow> count_evidence option"

section \<open>The checks\<close>

datatype escape_error =
    EscapeRejected string
  | EscapeStore grant_store_error
  | EscapeGrant grant_error
  | EscapeBudget budget_error
  | EscapeDispatch dispatch_error
  | EscapeGateway gateway_error
  | CounterRaised

record escape_args =
  ea_base :: brain_request
  ea_grant :: paid_grant
  ea_artifact_path :: string
  ea_artifact_blob :: string
  ea_request :: model_request
  ea_context :: context_build
  ea_counter :: input_counter
  ea_gateway :: gateway
  ea_now :: int

fun operation_map :: "brain_operation \<Rightarrow> model_operation option" where
  "operation_map B_PLAN = Some X_PLAN"
| "operation_map B_DIAGNOSIS = Some X_DIAGNOSE_FAILURE"
| "operation_map B_PATCH_PROPOSAL = Some X_GENERATE_PATCH"
| "operation_map B_REVIEW = Some X_REVIEW_PATCH"
| "operation_map _ = None"

definition git_blob_sha :: "(string \<Rightarrow> string) \<Rightarrow> string \<Rightarrow> string" where
  "git_blob_sha sha1 content = sha1 (''blob '' @ nat_str (utf8_length content) @ [CHR 0x00] @ content)"

fun require_all :: "(bool \<times> string) list \<Rightarrow> escape_error + unit" where
  "require_all [] = Inr ()"
| "require_all ((ok, why) # cs) = (if ok then require_all cs else Inl (EscapeRejected why))"

definition paid_candidates :: "brain_request \<Rightarrow> brain_candidate list" where
  "paid_candidates r = filter (\<lambda>c. bd_class c = PAID_API) (br_candidates r)"

text \<open>The checks of the request, of the gateway and of the artifact.\<close>

definition check_request ::
  "(string \<Rightarrow> string) \<Rightarrow> (string \<Rightarrow> string) \<Rightarrow> escape_args \<Rightarrow> grant_store \<Rightarrow> model_operation \<Rightarrow> escape_error + unit" where
  "check_request sha256 sha1 a s opn =
     (let g = ea_grant a; rq = ea_request a; cx = ea_context a; gw = ea_gateway a;
          matching = filter (\<lambda>i. it_path i = Some (pg_path g)) (cx_selected cx)
      in bind_result (require_all
           [(exact_string (gw_provider gw), ''gateway provider_id''), (exact_string (gw_model gw), ''gateway model_name'')]) (\<lambda>_.
         bind_result (map_sum EscapeGrant id (validate_grant_binding sha256 g
           \<lparr>gu_task = rq_task rq, gu_workspace = gs_workspace s, gu_brain = bd_brain_id (hd (paid_candidates (ea_base a))),
            gu_provider = gw_provider gw, gu_model = gw_model gw, gu_operation = br_operation (ea_base a),
            gu_path = ea_artifact_path a, gu_blob = ea_artifact_blob a\<rparr>)) (\<lambda>_.
         require_all
           [(rq_provider rq = Some (pg_provider g), ''model_request.provider''),
            (rq_model rq = Some (pg_model g), ''model_request.model''),
            (rq_operation rq = opn, ''model_request.operation''),
            (rq_context rq = cx_selected cx, ''model_request.context''),
            (ea_artifact_path a = pg_path g \<and> ea_artifact_blob a = pg_blob g, ''authorized artifact''),
            (length matching = 1, ''matching context item''),
            (git_blob_sha sha1 (it_content (hd matching)) = pg_blob g, ''artifact bytes''),
            (cx_exact cx, ''exact token counter''),
            (exact_string (cx_counter cx), ''context counter_id''),
            (rq_max_input rq \<noteq> None \<and> 0 < the (rq_max_input rq), ''max_input_tokens''),
            (rq_max_output rq \<noteq> None \<and> 0 < the (rq_max_output rq), ''max_output_tokens''),
            (cx_max cx = the (rq_max_input rq), ''context max tokens''),
            (cx_tokens cx + cx_reserve cx \<le> cx_max cx, ''context budget'')])))"

text \<open>The checks of the counter and of its evidence.\<close>

definition check_input :: "(string \<Rightarrow> string) \<Rightarrow> escape_args \<Rightarrow> escape_error + count_evidence" where
  "check_input sha256 a =
     (let g = ea_grant a; rq = ea_request a; ic = ea_counter a
      in if \<not> ic_registered ic then Inl (EscapeBudget BudgetUntrusted)
         else bind_result (require_all
           [(exact_string (ic_provider ic), ''counter provider_id''), (exact_string (ic_model ic), ''counter model_id''),
            (exact_string (ic_id ic), ''counter_id''), (ic_provider ic = pg_provider g, ''counter provider''),
            (ic_model ic = pg_model g, ''counter model''), (ic_exact ic, ''counter is_exact'')]) (\<lambda>_.
         case ic_count ic rq of
           None \<Rightarrow> Inl CounterRaised
         | Some e \<Rightarrow>
             bind_result (require_all
               [(pe_provider e = pg_provider g, ''evidence provider_id''), (pe_model e = pg_model g, ''evidence model_id''),
                (pe_counter e = ic_id ic, ''evidence counter_id''), (pe_exact e, ''evidence exact''),
                (pe_request e = request_fingerprint sha256 rq, ''evidence fingerprint''),
                (0 \<le> pe_tokens e, ''evidence tokens''),
                (pe_tokens e \<le> the (rq_max_input rq), ''provider input count'')]) (\<lambda>_. Inr e)))"

text \<open>Everything before the grant is spent: the effective request, the decision and whether the paid Brain was chosen.\<close>

record prepared =
  pr_request :: brain_request
  pr_dispatch :: dispatch_result
  pr_evidence :: count_evidence
  pr_paid :: bool

definition prepare ::
  "(string \<Rightarrow> string) \<Rightarrow> (string \<Rightarrow> string) \<Rightarrow> bool \<Rightarrow> escape_args \<Rightarrow> grant_store \<Rightarrow> escape_error + prepared" where
  "prepare sha256 sha1 readable a s =
     (let g = ea_grant a; base = ea_base a; rq = ea_request a; paid = paid_candidates base
      in bind_result (require_all
           [(0 \<le> ea_now a, ''now_epoch_seconds''), (\<not> br_allow_paid base, ''allow_paid_api''),
            (length paid = 1, ''one PAID_API candidate''), (bd_brain_id (hd paid) = pg_brain g, ''PAID_API candidate'')]) (\<lambda>_.
         bind_result (map_sum EscapeStore id (require_active_grant sha256 readable g (ea_now a) s)) (\<lambda>_.
         case operation_map (br_operation base) of
           None \<Rightarrow> Inl (EscapeRejected ''operation'')
         | Some opn \<Rightarrow>
             bind_result (check_request sha256 sha1 a s opn) (\<lambda>_.
             bind_result (check_input sha256 a) (\<lambda>evidence.
             bind_result (map_sum EscapeGrant id
                 (validate_grant_budget g (the (rq_max_input rq)) (the (rq_max_output rq)))) (\<lambda>_.
             bind_result (map_sum EscapeDispatch id (mk_brain_request (base\<lparr>br_allow_paid := True\<rparr>))) (\<lambda>effective.
             bind_result (map_sum EscapeDispatch id (dispatch_brain sha256 effective)) (\<lambda>d.
               if dr_kind d \<noteq> BRAIN then Inl (EscapeRejected ''actor_kind'')
               else (let chosen = (dr_status d = SELECTED \<and> dr_selected d = Some (bd_brain_id (hd paid)))
                     in if chosen \<and> dr_selected d \<noteq> Some (pg_brain g) then Inl (EscapeRejected ''selected Brain'')
                        else Inr \<lparr>pr_request = effective, pr_dispatch = d, pr_evidence = evidence, pr_paid = chosen\<rparr>)))))))))"

section \<open>The call\<close>

record escape_result =
  er_prepared :: prepared
  er_consumed :: bool
  er_gateway :: "gateway_result option"

text \<open>A call that nothing interrupts.\<close>

definition execute_escape ::
  "(string \<Rightarrow> string) \<Rightarrow> (string \<Rightarrow> string) \<Rightarrow> bool \<Rightarrow> consume_io \<Rightarrow> gateway_io \<Rightarrow> escape_args \<Rightarrow> grant_store \<Rightarrow> gateway_state
     \<Rightarrow> (escape_error + escape_result) \<times> grant_store \<times> gateway_state" where
  "execute_escape sha256 sha1 readable cio gio a s w =
     (case prepare sha256 sha1 readable a s of
        Inl e \<Rightarrow> (Inl e, s, w)
      | Inr p \<Rightarrow>
          if \<not> pr_paid p then (Inr \<lparr>er_prepared = p, er_consumed = False, er_gateway = None\<rparr>, s, w)
          else (case consume sha256 cio (ea_grant a) (ea_now a) s of
                  (Inl e, s) \<Rightarrow> (Inl (EscapeStore e), s, w)
                | (Inr _, s) \<Rightarrow>
                    (case gateway_invoke gio (ea_gateway a) (ea_request a) (Some (ea_context a)) w of
                       (Inl e, w) \<Rightarrow> (Inl (EscapeGateway e), s, w)
                     | (Inr r, w) \<Rightarrow> (Inr \<lparr>er_prepared = p, er_consumed = True, er_gateway = Some r\<rparr>, s, w))))"

text \<open>
  The calls of any number of coroutines, in any order of their three parts, beside any other use of the store.
  \<open>ew_calls\<close> lists the arguments of the coroutines that have sent their request to a provider, in that order.
\<close>

datatype escape_phase = Idle | Prepared escape_args | Paying escape_args

record escape_world =
  ew_store :: grant_store
  ew_phase :: "nat \<Rightarrow> escape_phase"
  ew_calls :: "escape_args list"
  ew_gateway :: gateway_state

datatype escape_step =
    DoPrepare nat bool escape_args
  | DoConsume nat consume_io
  | DoInvoke nat gateway_io
  | StoreCall grant_call

definition set_phase :: "nat \<Rightarrow> escape_phase \<Rightarrow> escape_world \<Rightarrow> escape_world" where
  "set_phase i ph w = w\<lparr>ew_phase := (ew_phase w)(i := ph)\<rparr>"

fun escape_run_step :: "(string \<Rightarrow> string) \<Rightarrow> (string \<Rightarrow> string) \<Rightarrow> escape_step \<Rightarrow> escape_world \<Rightarrow> escape_world" where
  "escape_run_step sha256 sha1 (DoPrepare i readable a) w =
     (case (ew_phase w i, prepare sha256 sha1 readable a (ew_store w)) of
        (Idle, Inr p) \<Rightarrow> if pr_paid p then set_phase i (Prepared a) w else w
      | _ \<Rightarrow> w)"
| "escape_run_step sha256 sha1 (DoConsume i cio) w =
     (case ew_phase w i of
        Prepared a \<Rightarrow>
          (case consume sha256 cio (ea_grant a) (ea_now a) (ew_store w) of
             (Inr _, s) \<Rightarrow> set_phase i (Paying a) (w\<lparr>ew_store := s\<rparr>)
           | (Inl _, s) \<Rightarrow> set_phase i Idle (w\<lparr>ew_store := s\<rparr>))
      | _ \<Rightarrow> w)"
| "escape_run_step sha256 sha1 (DoInvoke i gio) w =
     (case ew_phase w i of
        Paying a \<Rightarrow>
          (case gateway_invoke gio (ea_gateway a) (ea_request a) (Some (ea_context a)) (ew_gateway w) of
             (_, gt) \<Rightarrow>
               set_phase i Idle (w\<lparr>ew_gateway := gt,
                 ew_calls := (if gt_calls gt = gt_calls (ew_gateway w) then ew_calls w else ew_calls w @ [a])\<rparr>))
      | _ \<Rightarrow> w)"
| "escape_run_step sha256 sha1 (StoreCall c) w = w\<lparr>ew_store := snd (grant_step sha256 c (ew_store w))\<rparr>"

fun escape_run :: "(string \<Rightarrow> string) \<Rightarrow> (string \<Rightarrow> string) \<Rightarrow> escape_step list \<Rightarrow> escape_world \<Rightarrow> escape_world" where
  "escape_run sha256 sha1 [] w = w"
| "escape_run sha256 sha1 (x # xs) w = escape_run sha256 sha1 xs (escape_run_step sha256 sha1 x w)"

section \<open>Lemmas\<close>

lemma map_sum_id_Inr: "map_sum f id r = Inr x \<longleftrightarrow> r = Inr x"
  by (cases r) simp_all

lemma require_all_Inr: "require_all cs = Inr u \<longleftrightarrow> list_all fst cs"
  by (induction cs rule: require_all.induct) auto

text \<open>A request that a grant allows.\<close>

definition authorised :: "(string \<Rightarrow> string) \<Rightarrow> paid_grant \<Rightarrow> model_request \<Rightarrow> bool" where
  "authorised sha1 g rq \<longleftrightarrow>
     rq_task rq = pg_task g \<and> rq_provider rq = Some (pg_provider g) \<and> rq_model rq = Some (pg_model g) \<and>
     operation_map (pg_operation g) = Some (rq_operation rq) \<and>
     (\<exists>n. rq_max_input rq = Some n \<and> 0 < n \<and> n \<le> pg_max_input g) \<and>
     (\<exists>n. rq_max_output rq = Some n \<and> 0 < n \<and> n \<le> pg_max_output g) \<and>
     (\<exists>i. filter (\<lambda>i. it_path i = Some (pg_path g)) (rq_context rq) = [i] \<and> git_blob_sha sha1 (it_content i) = pg_blob g)"

declare require_all.simps [simp del]

lemma length_one: "length xs = Suc 0 \<longleftrightarrow> (\<exists>x. xs = [x])"
  by (cases xs) auto

lemma binding_Inr:
  "validate_grant_binding sha256 g u = Inr v \<Longrightarrow>
     gu_task u = pg_task g \<and> gu_workspace u = pg_workspace g \<and> gu_brain u = pg_brain g \<and>
     gu_provider u = pg_provider g \<and> gu_model u = pg_model g \<and> gu_operation u = pg_operation g \<and>
     gu_path u = pg_path g \<and> gu_blob u = pg_blob g"
  by (auto simp: validate_grant_binding_def split: if_splits)

lemma prepare_Inr:
  assumes "prepare sha256 sha1 readable a s = Inr p"
  obtains c opn u v w where "\<not> br_allow_paid (ea_base a)" "paid_candidates (ea_base a) = [c]" "bd_brain_id c = pg_brain (ea_grant a)"
    "require_active_grant sha256 readable (ea_grant a) (ea_now a) s = Inr u"
    "operation_map (br_operation (ea_base a)) = Some opn" "check_request sha256 sha1 a s opn = Inr v"
    "check_input sha256 a = Inr (pr_evidence p)"
    "validate_grant_budget (ea_grant a) (the (rq_max_input (ea_request a))) (the (rq_max_output (ea_request a))) = Inr w"
    "mk_brain_request ((ea_base a)\<lparr>br_allow_paid := True\<rparr>) = Inr (pr_request p)"
    "dispatch_brain sha256 (pr_request p) = Inr (pr_dispatch p)"
    "pr_paid p \<longleftrightarrow> dr_status (pr_dispatch p) = SELECTED \<and> dr_selected (pr_dispatch p) = Some (pg_brain (ea_grant a))"
  using assms unfolding prepare_def Let_def
  by (auto simp: bind_result_Inr map_sum_id_Inr require_all_Inr length_one split: option.splits if_splits)

lemma check_request_Inr:
  assumes "check_request sha256 sha1 a s opn = Inr v"
  shows "rq_task (ea_request a) = pg_task (ea_grant a)" "br_operation (ea_base a) = pg_operation (ea_grant a)"
    "gw_provider (ea_gateway a) = pg_provider (ea_grant a)" "gw_model (ea_gateway a) = pg_model (ea_grant a)"
    "rq_provider (ea_request a) = Some (pg_provider (ea_grant a))" "rq_model (ea_request a) = Some (pg_model (ea_grant a))"
    "rq_operation (ea_request a) = opn" "rq_context (ea_request a) = cx_selected (ea_context a)"
    "\<exists>i. filter (\<lambda>i. it_path i = Some (pg_path (ea_grant a))) (rq_context (ea_request a)) = [i] \<and>
       git_blob_sha sha1 (it_content i) = pg_blob (ea_grant a)"
    "\<exists>n. rq_max_input (ea_request a) = Some n \<and> 0 < n" "\<exists>n. rq_max_output (ea_request a) = Some n \<and> 0 < n"
proof -
  from assms obtain x where b: "validate_grant_binding sha256 (ea_grant a)
      \<lparr>gu_task = rq_task (ea_request a), gu_workspace = gs_workspace s,
       gu_brain = bd_brain_id (hd (paid_candidates (ea_base a))), gu_provider = gw_provider (ea_gateway a),
       gu_model = gw_model (ea_gateway a), gu_operation = br_operation (ea_base a), gu_path = ea_artifact_path a,
       gu_blob = ea_artifact_blob a\<rparr> = Inr x"
    unfolding check_request_def Let_def by (auto simp: bind_result_Inr map_sum_id_Inr)
  from binding_Inr [OF b] show "rq_task (ea_request a) = pg_task (ea_grant a)"
    "br_operation (ea_base a) = pg_operation (ea_grant a)" "gw_provider (ea_gateway a) = pg_provider (ea_grant a)"
    "gw_model (ea_gateway a) = pg_model (ea_grant a)" by simp_all
  show "rq_provider (ea_request a) = Some (pg_provider (ea_grant a))" "rq_model (ea_request a) = Some (pg_model (ea_grant a))"
    "rq_operation (ea_request a) = opn" "rq_context (ea_request a) = cx_selected (ea_context a)"
    "\<exists>i. filter (\<lambda>i. it_path i = Some (pg_path (ea_grant a))) (rq_context (ea_request a)) = [i] \<and>
       git_blob_sha sha1 (it_content i) = pg_blob (ea_grant a)"
    "\<exists>n. rq_max_input (ea_request a) = Some n \<and> 0 < n" "\<exists>n. rq_max_output (ea_request a) = Some n \<and> 0 < n"
    using assms unfolding check_request_def Let_def
    by (auto simp: bind_result_Inr map_sum_id_Inr require_all_Inr length_one)
qed

lemma prepare_authorised:
  assumes "prepare sha256 sha1 readable a s = Inr p"
  shows "authorised sha1 (ea_grant a) (ea_request a)" "gw_provider (ea_gateway a) = pg_provider (ea_grant a)"
    "rq_context (ea_request a) = cx_selected (ea_context a)"
proof -
  from assms obtain opn v w where
    p: "operation_map (br_operation (ea_base a)) = Some opn" "check_request sha256 sha1 a s opn = Inr v"
    "validate_grant_budget (ea_grant a) (the (rq_max_input (ea_request a))) (the (rq_max_output (ea_request a))) = Inr w"
    by (rule prepare_Inr)
  note r = check_request_Inr [OF p(2)]
  from p(3) have "the (rq_max_input (ea_request a)) \<le> pg_max_input (ea_grant a)"
    "the (rq_max_output (ea_request a)) \<le> pg_max_output (ea_grant a)"
    by (auto simp: validate_grant_budget_def split: if_splits)
  with r p(1) show "authorised sha1 (ea_grant a) (ea_request a)" by (auto simp: authorised_def)
  from r show "gw_provider (ea_gateway a) = pg_provider (ea_grant a)" "rq_context (ea_request a) = cx_selected (ea_context a)"
    by simp_all
qed

section \<open>Any interleaving\<close>

definition args_key :: "(string \<Rightarrow> string) \<Rightarrow> escape_args \<Rightarrow> string \<times> string" where
  "args_key sha256 a = grant_key sha256 (ea_grant a)"

text \<open>A call that may be sent: within the grant, to the provider it names, with the grant one of \<open>A\<close> and unexpired.\<close>

definition payable :: "(string \<Rightarrow> string) \<Rightarrow> paid_grant set \<Rightarrow> escape_args \<Rightarrow> bool" where
  "payable sha1 A a \<longleftrightarrow>
     authorised sha1 (ea_grant a) (ea_request a) \<and> gw_provider (ea_gateway a) = pg_provider (ea_grant a) \<and>
     ea_grant a \<in> A \<and> ea_now a < pg_expires (ea_grant a)"

definition spent_on :: "(string \<Rightarrow> string) \<Rightarrow> escape_world \<Rightarrow> escape_args \<Rightarrow> bool" where
  "spent_on sha256 w a \<longleftrightarrow> consumed_at (args_key sha256 a) (ew_store w) \<noteq> None"

definition escape_inv ::
  "(string \<Rightarrow> string) \<Rightarrow> (string \<Rightarrow> string) \<Rightarrow> paid_grant set \<Rightarrow> escape_world \<Rightarrow> bool" where
  "escape_inv sha256 sha1 A w \<longleftrightarrow>
     written_by A (ew_store w) \<and> gt_calls (ew_gateway w) = map ea_request (ew_calls w) \<and>
     distinct (map (args_key sha256) (ew_calls w)) \<and>
     (\<forall>a\<in>set (ew_calls w). payable sha1 A a \<and> spent_on sha256 w a) \<and>
     (\<forall>i a. ew_phase w i = Prepared a \<longrightarrow>
        authorised sha1 (ea_grant a) (ea_request a) \<and> gw_provider (ea_gateway a) = pg_provider (ea_grant a)) \<and>
     (\<forall>i a. ew_phase w i = Paying a \<longrightarrow>
        payable sha1 A a \<and> spent_on sha256 w a \<and> args_key sha256 a \<notin> args_key sha256 ` set (ew_calls w)) \<and>
     (\<forall>i j a b. ew_phase w i = Paying a \<and> ew_phase w j = Paying b \<and> args_key sha256 a = args_key sha256 b \<longrightarrow> i = j)"

fun step_activations :: "escape_step \<Rightarrow> paid_grant list" where
  "step_activations (StoreCall c) = activations [c]"
| "step_activations _ = []"

lemma written_by_mono: "written_by A s \<Longrightarrow> A \<subseteq> B \<Longrightarrow> written_by B s"
  unfolding written_by_def by blast

text \<open>Steps that only change the store: what is spent stays spent.\<close>

lemma store_change:
  assumes "escape_inv sha256 sha1 A w" and "written_by A s'"
    and "\<And>k. consumed_at k (ew_store w) \<noteq> None \<Longrightarrow> consumed_at k s' \<noteq> None"
  shows "escape_inv sha256 sha1 A (w\<lparr>ew_store := s'\<rparr>)"
  using assms unfolding escape_inv_def spent_on_def by simp

lemma idle_phase:
  assumes "escape_inv sha256 sha1 A w"
  shows "escape_inv sha256 sha1 A (set_phase i Idle w)"
  using assms unfolding escape_inv_def spent_on_def set_phase_def by simp

lemma prepare_step_inv:
  assumes "escape_inv sha256 sha1 A w" and "prepare sha256 sha1 readable a s = Inr p"
  shows "escape_inv sha256 sha1 A (set_phase i (Prepared a) w)"
  using assms(1) prepare_authorised [OF assms(2)] unfolding escape_inv_def spent_on_def set_phase_def by simp

lemma consume_step_inv:
  assumes inv: "escape_inv sha256 sha1 A w" and ph: "ew_phase w i = Prepared a"
    and c: "consume sha256 cio (ea_grant a) (ea_now a) (ew_store w) = (r, s')" and wf: "\<forall>g\<in>A. wf_grant sha256 g"
  shows "escape_inv sha256 sha1 A (w\<lparr>ew_store := s'\<rparr>)"
    and "r = Inr l \<Longrightarrow> escape_inv sha256 sha1 A (set_phase i (Paying a) (w\<lparr>ew_store := s'\<rparr>))"
proof -
  let ?c = "Consume cio (ea_grant a) (ea_now a)"
  have st: "grant_step sha256 ?c (ew_store w) = (r, s')" using c by simp
  have wr: "written_by A s'"
    using written_by_step [OF st, of A] inv by (simp add: escape_inv_def)
  have stays: "consumed_at k s' \<noteq> None" if "consumed_at k (ew_store w) \<noteq> None" for k
    using spent_grant.used_stays [OF st that] .
  show new: "escape_inv sha256 sha1 A (w\<lparr>ew_store := s'\<rparr>)" using store_change [OF inv wr stays] .
  assume r: "r = Inr l"
  with consume_step [OF c] obtain b where b: "s' = move_to_consumed (pg_task (ea_grant a)) (sha256 (pg_id (ea_grant a))) (ew_store w)"
    "active_at (args_key sha256 a) (ew_store w) = Some (StateFile b)" "consumed_at (args_key sha256 a) (ew_store w) = None"
    "grant_from_json sha256 b = Inr (ea_grant a)" "ea_now a < pg_expires (ea_grant a)"
    by (auto simp: args_key_def)
  from inv b(2) obtain g where g: "g \<in> A" "written_entry g (Some (StateFile b))"
    unfolding escape_inv_def written_by_def by blast
  with wf b(4) have "ea_grant a = g" using written_entry_read by blast
  with g(1) have member: "ea_grant a \<in> A" by simp
  have "authorised sha1 (ea_grant a) (ea_request a)" "gw_provider (ea_gateway a) = pg_provider (ea_grant a)"
    using inv ph unfolding escape_inv_def by blast+
  with member b(5) have pay: "payable sha1 A a" unfolding payable_def by simp
  have spent: "spent_on sha256 (w\<lparr>ew_store := s'\<rparr>) a"
    using b(1,2) by (simp add: spent_on_def args_key_def grant_key_def)
  have fresh: "\<not> spent_on sha256 w a" using b(3) by (simp add: spent_on_def)
  have "args_key sha256 a \<noteq> args_key sha256 x" if "spent_on sha256 w x" for x
    using fresh that by (auto simp: spent_on_def)
  with inv have others: "args_key sha256 a \<notin> args_key sha256 ` set (ew_calls w)"
    "ew_phase w j = Paying x \<Longrightarrow> args_key sha256 a \<noteq> args_key sha256 x" for j x
    unfolding escape_inv_def by blast+
  show "escape_inv sha256 sha1 A (set_phase i (Paying a) (w\<lparr>ew_store := s'\<rparr>))"
    using new pay spent others unfolding escape_inv_def set_phase_def spent_on_def by (auto split: if_splits) metis+
qed

lemma invoke_step_inv:
  assumes inv: "escape_inv sha256 sha1 A w" and ph: "ew_phase w i = Paying a"
    and g: "gateway_invoke gio (ea_gateway a) (ea_request a) cx (ew_gateway w) = (r, gt)"
  shows "escape_inv sha256 sha1 A (set_phase i Idle (w\<lparr>ew_gateway := gt,
    ew_calls := (if gt_calls gt = gt_calls (ew_gateway w) then ew_calls w else ew_calls w @ [a])\<rparr>))"
proof (cases "gt_calls gt = gt_calls (ew_gateway w)")
  case True
  then show ?thesis using inv unfolding escape_inv_def set_phase_def spent_on_def by simp
next
  case False
  with gateway_invoke_calls [OF g] have calls: "gt_calls gt = gt_calls (ew_gateway w) @ [ea_request a]" by auto
  have "args_key sha256 b \<noteq> args_key sha256 a" if "ew_phase w j = Paying b" "j \<noteq> i" for j b
    using inv ph that unfolding escape_inv_def by blast
  with False calls inv ph show ?thesis unfolding escape_inv_def set_phase_def spent_on_def by auto
qed

lemma escape_step_inv:
  assumes inv: "escape_inv sha256 sha1 A w" and wf: "\<forall>g\<in>A. wf_grant sha256 g" and act: "set (step_activations x) \<subseteq> A"
  shows "escape_inv sha256 sha1 A (escape_run_step sha256 sha1 x w)"
proof (cases x)
  case (DoPrepare i readable a)
  with inv prepare_step_inv show ?thesis by (auto split: escape_phase.splits sum.splits)
next
  case (DoConsume i cio)
  show ?thesis
  proof (cases "ew_phase w i")
    case (Prepared a)
    obtain r s' where c: "consume sha256 cio (ea_grant a) (ea_now a) (ew_store w) = (r, s')" by fastforce
    from consume_step_inv [OF inv Prepared c wf] idle_phase show ?thesis
      by (cases r) (simp_all add: DoConsume Prepared c)
  qed (use inv DoConsume in simp_all)
next
  case (DoInvoke i gio)
  show ?thesis
  proof (cases "ew_phase w i")
    case (Paying a)
    obtain r gt where g: "gateway_invoke gio (ea_gateway a) (ea_request a) (Some (ea_context a)) (ew_gateway w) = (r, gt)" by fastforce
    from invoke_step_inv [OF inv Paying g] show ?thesis by (simp add: DoInvoke Paying g)
  qed (use inv DoInvoke in simp_all)
next
  case (StoreCall c)
  obtain r s' where st: "grant_step sha256 c (ew_store w) = (r, s')" by fastforce
  have "written_by (A \<union> set (activations [c])) s'"
    using written_by_step [OF st] inv by (simp add: escape_inv_def)
  with act StoreCall have "written_by A s'" by (simp add: Un_absorb2)
  with store_change [OF inv this spent_grant.used_stays [OF st]] st show ?thesis by (simp add: StoreCall)
qed

definition escape_start :: "grant_store \<Rightarrow> escape_world" where
  "escape_start s = \<lparr>ew_store = s, ew_phase = (\<lambda>_. Idle), ew_calls = [], ew_gateway = \<lparr>gt_calls = [], gt_ledger = []\<rparr>\<rparr>"

lemma escape_run_inv:
  "escape_inv sha256 sha1 A w \<Longrightarrow> \<forall>g\<in>A. wf_grant sha256 g \<Longrightarrow> (\<Union>x\<in>set xs. set (step_activations x)) \<subseteq> A \<Longrightarrow>
     escape_inv sha256 sha1 A (escape_run sha256 sha1 xs w)"
  by (induction xs arbitrary: w) (simp_all add: escape_step_inv)

lemma escape_start_inv: "(\<forall>k. active_at k s = None) \<Longrightarrow> escape_inv sha256 sha1 A (escape_start s)"
  by (simp add: escape_inv_def escape_start_def written_by_def)

end
