(* ===== verification/Paid_Properties.thy ===== *)
theory Paid_Properties
  imports Brain_Escape
begin

text \<open>
  What the dispatch policy, the paid API grants, the context builder and the gateway guarantee. The examples use one
  task, one grant, a subscription Brain for reviews and a paid Brain for plans, and constant digests.
\<close>

section \<open>An example\<close>

definition digest :: "string \<Rightarrow> string" where
  "digest s = replicate 64 (CHR ''a'')"

definition blob_digest :: "string \<Rightarrow> string" where
  "blob_digest s = replicate 40 (CHR ''b'')"

definition sample_grant :: paid_grant where
  "sample_grant =
     \<lparr>pg_schema = ''1'', pg_id = ''g1'', pg_task = ''TASK-7'', pg_kind = BRAIN, pg_brain = ''paid'', pg_provider = ''mm'',
      pg_model = ''m3'', pg_operation = B_PLAN, pg_path = ''.ai/t.md'', pg_blob = blob_digest [], pg_max_input = 1000,
      pg_max_output = 100, pg_max_calls = 1, pg_expires = 50, pg_workspace = digest [], pg_fingerprint = digest []\<rparr>"

definition sample_brain :: "string \<Rightarrow> brain_operation \<Rightarrow> capacity_class \<Rightarrow> brain_candidate" where
  "sample_brain b opn cls =
     \<lparr>bd_brain_id = b, bd_capability = \<lparr>bc_brain_id = b, bc_operations = [opn], bc_max_context = None, bc_declarative = True\<rparr>,
      bd_state = AVAILABLE, bd_class = cls, bd_rank = 0\<rparr>"

definition sample_base :: brain_request where
  "sample_base =
     \<lparr>br_operation = B_PLAN, br_candidates = [sample_brain ''free'' B_REVIEW SUBSCRIPTION, sample_brain ''paid'' B_PLAN PAID_API],
      br_required_context = None, br_allow_paid = False, br_schema = ''1''\<rparr>"

definition sample_item :: context_item where
  "sample_item = \<lparr>it_kind = CK_TASK, it_content = ''plan'', it_path = Some ''.ai/t.md'', it_priority = 0, it_sha = None\<rparr>"

definition sample_model_request :: model_request where
  "sample_model_request =
     \<lparr>rq_schema = ''1'', rq_id = ''r1'', rq_task = ''TASK-7'', rq_role = ARCHITECT, rq_operation = X_PLAN,
      rq_instruction = ''plan it'', rq_context = [sample_item], rq_output = O_PLAN, rq_provider = Some ''mm'',
      rq_model = Some ''m3'', rq_max_input = Some 1000, rq_max_output = Some 100\<rparr>"

definition sample_build :: context_build where
  "sample_build =
     \<lparr>cx_selected = [sample_item], cx_excluded = [], cx_tokens = 70, cx_max = 1000, cx_reserve = 10, cx_counter = ''c'',
      cx_exact = True, cx_fingerprint = digest []\<rparr>"

definition sample_counter :: input_counter where
  "sample_counter =
     \<lparr>ic_registered = True, ic_provider = ''mm'', ic_model = ''m3'', ic_id = ''k'', ic_exact = True,
      ic_count = (\<lambda>_. Some \<lparr>pe_provider = ''mm'', pe_model = ''m3'', pe_request = digest [], pe_tokens = 90, pe_counter = ''k'',
        pe_exact = True, pe_schema = ''1''\<rparr>)\<rparr>"

definition sample_gateway :: gateway where
  "sample_gateway = \<lparr>gw_provider = ''mm'', gw_model = ''m3'', gw_has_ledger = True\<rparr>"

definition sample_args :: escape_args where
  "sample_args =
     \<lparr>ea_base = sample_base, ea_grant = sample_grant, ea_artifact_path = ''.ai/t.md'', ea_artifact_blob = blob_digest [],
      ea_request = sample_model_request, ea_context = sample_build, ea_counter = sample_counter,
      ea_gateway = sample_gateway, ea_now = 20\<rparr>"

definition new_store :: grant_store where
  "new_store = \<lparr>gs_workspace = digest [], gs_tasks = (\<lambda>t. \<lparr>gd_active = (\<lambda>k. None), gd_consumed = (\<lambda>k. None)\<rparr>)\<rparr>"

definition fine_activation :: activate_io where
  "fine_activation = \<lparr>gi_guard = True, gi_readable = True, gi_mkdir = True, gi_write = W_Fine, gi_reread = True, gi_removed = True\<rparr>"

definition fine_consume :: consume_io where
  "fine_consume = \<lparr>ci_guard = True, ci_readable = True, ci_replace = P_Fine, ci_reread = True\<rparr>"

definition silent_provider :: gateway_io where
  "silent_provider = \<lparr>go_reply = None, go_timestamp = ''now'', go_append = L_Fine, go_message = (\<lambda>_. [])\<rparr>"

definition active_store :: grant_store where
  "active_store = snd (activate digest fine_activation sample_grant 10 new_store)"

lemma digest_is_digest: "is_digest digest"
proof -
  have "re_fullmatch (times 64 (Chars lower_hex)) (replicate 64 (CHR ''a'')) \<noteq> None" by code_simp
  then show ?thesis by (simp add: is_digest_def digest_def)
qed

lemma sample_grant_fields:
  "bounded_identifier (PStr (pg_id sample_grant)) ''grant_id'' 96 (Some grant_id_re) = Inr (pg_id sample_grant)"
  "re_fullmatch grant_task_re (pg_task sample_grant) \<noteq> None"
  "bounded_identifier (PStr (pg_brain sample_grant)) ''brain_id'' 128 (Some grant_actor_re) = Inr (pg_brain sample_grant)"
  "bounded_identifier (PStr (pg_provider sample_grant)) ''provider_id'' 128 (Some grant_actor_re) = Inr (pg_provider sample_grant)"
  "bounded_identifier (PStr (pg_model sample_grant)) ''model_id'' 256 None = Inr (pg_model sample_grant)"
  "validate_artifact_path (PStr (pg_path sample_grant)) = Inr (pg_path sample_grant)"
  "require_hex 40 (PStr (pg_blob sample_grant)) ''authorized_artifact_blob_sha'' = Inr (pg_blob sample_grant)"
  "require_hex 64 (PStr (pg_workspace sample_grant)) ''workspace_id'' = Inr (pg_workspace sample_grant)"
  "require_hex 64 (PStr (pg_fingerprint sample_grant)) ''grant_fingerprint'' = Inr (pg_fingerprint sample_grant)"
  "utf8_length (grant_json sample_grant) \<le> max_serialized_bytes"
  by code_simp+

lemma sample_grant_wf: "wf_grant digest sample_grant"
proof -
  let ?g = "sample_grant\<lparr>pg_fingerprint := []\<rparr>"
  have "seal_grant digest (PStr (pg_fingerprint sample_grant)) ?g = Inr sample_grant"
    using sample_grant_fields(9,10)
    by (simp add: seal_grant_def bind_result_def grant_digest_def) (simp add: sample_grant_def digest_def)
  moreover have "?g = \<lparr>pg_schema = ''1'', pg_id = pg_id sample_grant, pg_task = pg_task sample_grant, pg_kind = BRAIN,
      pg_brain = pg_brain sample_grant, pg_provider = pg_provider sample_grant, pg_model = pg_model sample_grant,
      pg_operation = B_PLAN, pg_path = pg_path sample_grant, pg_blob = pg_blob sample_grant, pg_max_input = 1000,
      pg_max_output = 100, pg_max_calls = 1, pg_expires = 50, pg_workspace = pg_workspace sample_grant, pg_fingerprint = []\<rparr>"
    by (simp add: sample_grant_def)
  moreover have "pg_schema sample_grant = ''1''" "pg_kind sample_grant = BRAIN" "pg_operation sample_grant = B_PLAN"
    "pg_max_input sample_grant = 1000" "pg_max_output sample_grant = 100" "pg_max_calls sample_grant = 1"
    "pg_expires sample_grant = 50"
    by (simp_all add: sample_grant_def)
  ultimately show ?thesis
    using sample_grant_fields(1-8)
    by (simp add: wf_grant_def mk_grant_def grant_items_get bind_result_def parse_actor_kind_def parse_brain_operation_def
        all_brain_operations_def require_string_def require_int_def require_between_def)
qed

lemma sample_grant_held: "holds_grant digest active_store sample_grant" "gs_workspace active_store = gs_workspace new_store"
proof -
  have "phase_at (grant_key digest sample_grant) new_store = Unused"
    by (simp add: phase_at_def active_at_def consumed_at_def new_store_def)
  then obtain s where s: "activate digest fine_activation sample_grant 10 new_store = (Inr sample_grant, s)"
    and h: "holds_grant digest s sample_grant"
    using activate_fine [OF sample_grant_wf, of new_store 10 fine_activation]
    by (auto simp: fine_activation_def new_store_def sample_grant_def)
  then show "holds_grant digest active_store sample_grant" by (simp add: active_store_def)
  show "gs_workspace active_store = gs_workspace new_store"
    using step_workspace [of digest "Activate fine_activation sample_grant 10" new_store] s by (simp add: active_store_def)
qed

definition effective_base :: brain_request where
  "effective_base = sample_base\<lparr>br_allow_paid := True\<rparr>"

lemma sample_request_checked: "check_request digest blob_digest sample_args new_store X_PLAN = Inr ()"
  by code_simp

lemma sample_input_checked: "map_sum id (\<lambda>_. ()) (check_input digest sample_args) = Inr ()"
  by code_simp

lemma sample_effective: "mk_brain_request effective_base = Inr effective_base"
  by code_simp

lemma sample_dispatched:
  "map_sum id (\<lambda>d. (dr_kind d, dr_status d, dr_selected d)) (dispatch_brain digest effective_base) =
     Inr (BRAIN, SELECTED, Some ''paid'')"
  by code_simp

lemma map_sum_Inr: "map_sum id f r = Inr y \<longleftrightarrow> (\<exists>x. r = Inr x \<and> f x = y)"
  by (cases r) auto

lemma sample_prepared: "\<exists>p. prepare digest blob_digest True sample_args active_store = Inr p \<and> pr_paid p"
proof -
  have "require_active_grant digest True sample_grant 20 active_store = Inr sample_grant"
    by (rule require_active_fine [OF sample_grant_held(1)]) (simp_all add: sample_grant_def)
  moreover have "check_request digest blob_digest sample_args active_store X_PLAN = Inr ()"
    using sample_request_checked by (simp add: check_request_def sample_grant_held(2))
  moreover have "paid_candidates sample_base = [sample_brain ''paid'' B_PLAN PAID_API]"
    by (simp add: paid_candidates_def sample_base_def sample_brain_def)
  moreover obtain ev d where "check_input digest sample_args = Inr ev"
    "dispatch_brain digest effective_base = Inr d"
    "dr_kind d = BRAIN" "dr_status d = SELECTED" "dr_selected d = Some ''paid''"
    using sample_input_checked sample_dispatched unfolding map_sum_Inr by auto
  moreover have "ea_base sample_args = sample_base" "ea_grant sample_args = sample_grant" "ea_now sample_args = 20"
    "ea_request sample_args = sample_model_request" "br_operation sample_base = B_PLAN" "\<not> br_allow_paid sample_base"
    "rq_max_input sample_model_request = Some 1000" "rq_max_output sample_model_request = Some 100"
    "pg_brain sample_grant = ''paid''" "bd_brain_id (sample_brain ''paid'' B_PLAN PAID_API) = ''paid''"
    by (simp_all add: sample_args_def sample_base_def sample_model_request_def sample_grant_def sample_brain_def)
  moreover have "validate_grant_budget sample_grant 1000 100 = Inr ()"
    by (simp add: validate_grant_budget_def sample_grant_def)
  ultimately show ?thesis
    using sample_effective by (simp add: prepare_def Let_def bind_result_def require_all.simps effective_base_def [symmetric])
qed

definition sample_steps :: "escape_step list" where
  "sample_steps =
     [StoreCall (Activate fine_activation sample_grant 10), DoPrepare 0 True sample_args, DoConsume 0 fine_consume,
      DoInvoke 0 silent_provider]"

lemma sample_consumed: "\<exists>s. consume digest fine_consume sample_grant 20 active_store = (Inr sample_grant, s)"
  using consume_fine [OF sample_grant_held(1), of 20 fine_consume] by (auto simp: fine_consume_def sample_grant_def)

lemma sample_sent: "ew_calls (escape_run digest blob_digest sample_steps (escape_start new_store)) = [sample_args]"
proof -
  obtain p where p: "prepare digest blob_digest True sample_args active_store = Inr p" "pr_paid p"
    using sample_prepared by blast
  obtain s where s: "consume digest fine_consume sample_grant 20 active_store = (Inr sample_grant, s)"
    using sample_consumed by blast
  have "gateway_invoke silent_provider (ea_gateway sample_args) (ea_request sample_args) (Some (ea_context sample_args)) w =
      (Inl ProviderRaised, w\<lparr>gt_calls := gt_calls w @ [sample_model_request]\<rparr>)" for w
    by (simp add: gateway_invoke_def precheck_def silent_provider_def sample_args_def sample_gateway_def
        sample_model_request_def sample_build_def)
  moreover have "ea_grant sample_args = sample_grant" "ea_now sample_args = 20" by (simp_all add: sample_args_def)
  ultimately show ?thesis
    using p s by (simp add: sample_steps_def escape_start_def set_phase_def active_store_def)
qed

section \<open>Paid calls\<close>

text \<open>
  C4. However many coroutines use the paid escape in whatever interleaving, beside any other use of the store and with
  any failure or kill on the way: the requests that reach a provider are those of distinct grants, each within its
  grant (task, provider, model, operation, token limits, artifact), each under a grant that somebody activated, that
  had not expired, and that is spent.
\<close>

theorem one_paid_call_per_grant:
  assumes "\<forall>k. active_at k s = None" and "\<forall>io g now. StoreCall (Activate io g now) \<in> set xs \<longrightarrow> wf_grant sha256 g"
    and "w = escape_run sha256 sha1 xs (escape_start s)"
  shows "gt_calls (ew_gateway w) = map ea_request (ew_calls w) \<and> distinct (map (args_key sha256) (ew_calls w)) \<and>
    (\<forall>a\<in>set (ew_calls w). authorised sha1 (ea_grant a) (ea_request a) \<and>
       gw_provider (ea_gateway a) = pg_provider (ea_grant a) \<and> ea_now a < pg_expires (ea_grant a) \<and>
       consumed_at (args_key sha256 a) (ew_store w) \<noteq> None \<and> (\<exists>io now. StoreCall (Activate io (ea_grant a) now) \<in> set xs))"
proof -
  let ?A = "{g. \<exists>io now. StoreCall (Activate io g now) \<in> set xs}"
  have act: "set (step_activations x) \<subseteq> ?A" if "x \<in> set xs" for x
  proof (cases x)
    case (StoreCall c)
    with that show ?thesis by (cases c) auto
  qed simp_all
  have "escape_inv sha256 sha1 ?A w"
    unfolding assms(3)
  proof (rule escape_run_inv)
    show "escape_inv sha256 sha1 ?A (escape_start s)" using assms(1) by (rule escape_start_inv)
    show "\<forall>g\<in>?A. wf_grant sha256 g" using assms(2) by blast
    show "(\<Union>x\<in>set xs. set (step_activations x)) \<subseteq> ?A" using act by blast
  qed
  then show ?thesis unfolding escape_inv_def payable_def spent_on_def by blast
qed

theorem one_paid_call_per_grant_witness:
  "ew_calls (escape_run digest blob_digest sample_steps (escape_start new_store)) = [sample_args] \<and>
   authorised blob_digest sample_grant sample_model_request \<and>
   consumed_at (grant_key digest sample_grant) (ew_store (escape_run digest blob_digest sample_steps (escape_start new_store))) \<noteq> None"
proof -
  have "\<forall>k. active_at k new_store = None" by (simp add: active_at_def new_store_def)
  moreover have "\<forall>io g now. StoreCall (Activate io g now) \<in> set sample_steps \<longrightarrow> wf_grant digest g"
    by (simp add: sample_steps_def sample_grant_wf)
  ultimately show ?thesis
    using one_paid_call_per_grant [of new_store sample_steps digest _ blob_digest] sample_sent
    by (simp add: args_key_def) (simp add: sample_args_def)
qed

text \<open>
  C5. In one uninterrupted call the provider is reached at most once, and only after the grant, unspent until then, has
  been spent; whatever fails later, it stays spent. When the paid Brain is not chosen nothing is touched.
\<close>

theorem grant_is_spent_first:
  assumes "execute_escape sha256 sha1 readable cio gio a s w = (r, s', w')"
  shows "s' = s \<and> w' = w \<and> (\<forall>x. r = Inr x \<longrightarrow> \<not> er_consumed x \<and> er_gateway x = None) \<or>
    (\<exists>p. prepare sha256 sha1 readable a s = Inr p \<and> pr_paid p) \<and>
    consumed_at (args_key sha256 a) s = None \<and> consumed_at (args_key sha256 a) s' \<noteq> None \<and>
    (gt_calls w' = gt_calls w \<or> gt_calls w' = gt_calls w @ [ea_request a])"
proof (cases "prepare sha256 sha1 readable a s")
  case (Inl e)
  with assms show ?thesis by (auto simp: execute_escape_def)
next
  case (Inr p)
  show ?thesis
  proof (cases "pr_paid p")
    case False
    with assms Inr show ?thesis by (auto simp: execute_escape_def)
  next
    case True
    obtain rc sc where c: "consume sha256 cio (ea_grant a) (ea_now a) s = (rc, sc)" by fastforce
    obtain rg wg where g: "gateway_invoke gio (ea_gateway a) (ea_request a) (Some (ea_context a)) w = (rg, wg)" by fastforce
    from assms Inr True c g have res: "s' = sc" "case rc of Inl e \<Rightarrow> w' = w \<and> r = Inl (EscapeStore e) | Inr _ \<Rightarrow> w' = wg"
      by (auto simp: execute_escape_def split: sum.splits)
    from consume_step [OF c] show ?thesis
    proof (elim disjE conjE exE)
      fix e
      assume "sc = s" "rc = Inl e"
      with res show ?thesis by simp
    next
      fix b
      assume "sc = move_to_consumed (pg_task (ea_grant a)) (sha256 (pg_id (ea_grant a))) s"
        "active_at (grant_key sha256 (ea_grant a)) s = Some (StateFile b)" "consumed_at (grant_key sha256 (ea_grant a)) s = None"
      with res Inr True gateway_invoke_calls [OF g] show ?thesis
        by (auto simp: args_key_def grant_key_def split: sum.splits)
    qed
  qed
qed

theorem grant_is_spent_first_witness:
  "\<exists>r s' w'. execute_escape digest blob_digest True fine_consume silent_provider sample_args active_store
       \<lparr>gt_calls = [], gt_ledger = []\<rparr> = (r, s', w') \<and>
     (s' = active_store \<and> w' = \<lparr>gt_calls = [], gt_ledger = []\<rparr> \<or> consumed_at (args_key digest sample_args) s' \<noteq> None)"
proof -
  obtain r s' w' where e: "execute_escape digest blob_digest True fine_consume silent_provider sample_args active_store
      \<lparr>gt_calls = [], gt_ledger = []\<rparr> = (r, s', w')" by (metis prod_cases3)
  from grant_is_spent_first [OF e] e show ?thesis by blast
qed

text \<open>
  C6. The paid Brain is chosen only as a last resort: no subscription Brain that can start now fits the request.
\<close>

theorem paid_brain_is_last_resort:
  assumes "prepare sha256 sha1 readable a s = Inr p" and "pr_paid p"
    and "c \<in> set (br_candidates (ea_base a))" and "bd_class c = SUBSCRIPTION" and "startable (bd_state c)"
  shows "\<not> brain_fits (ea_base a) c"
proof
  assume fits: "brain_fits (ea_base a) c"
  obtain q where q: "paid_candidates (ea_base a) = [q]" "bd_brain_id q = pg_brain (ea_grant a)"
    and eff: "mk_brain_request ((ea_base a)\<lparr>br_allow_paid := True\<rparr>) = Inr (pr_request p)"
    and d: "dispatch_brain sha256 (pr_request p) = Inr (pr_dispatch p)"
    and paid: "dr_selected (pr_dispatch p) = Some (pg_brain (ea_grant a))"
    using assms(1,2) by (auto elim: prepare_Inr)
  note e = mk_brain_request_Inr [OF eff]
  have cands: "set (br_candidates (pr_request p)) = set (br_candidates (ea_base a))" by (simp add: e(1))
  from dispatch_brain_selected [OF d paid] obtain b where b: "b \<in> set (br_candidates (ea_base a))"
    "bd_brain_id b = pg_brain (ea_grant a)"
    and least: "\<And>c'. c' \<in> set (br_candidates (ea_base a)) \<Longrightarrow> brain_fits (pr_request p) c' \<Longrightarrow> startable (bd_state c') \<Longrightarrow>
      brain_key b \<le> brain_key c'"
    unfolding cands by blast
  have "q \<in> set (br_candidates (ea_base a))" "bd_class q = PAID_API"
    using q(1) by (auto simp: paid_candidates_def filter_eq_Cons_iff)
  moreover from e(4) have "inj_on bd_brain_id (set (br_candidates (ea_base a)))" by (simp add: distinct_map)
  ultimately have "b = q" using b q(2) by (simp add: inj_on_def)
  moreover have "brain_fits (pr_request p) c" using fits by (simp add: e(1) brain_fits_def)
  ultimately have "brain_key q \<le> brain_key c" using least [OF assms(3)] assms(5) by simp
  with \<open>bd_class q = PAID_API\<close> assms(4) show False by (simp add: brain_key_def candidate_key_def)
qed


theorem paid_brain_is_last_resort_witness: "\<not> brain_fits sample_base (sample_brain ''free'' B_REVIEW SUBSCRIPTION)"
proof -
  obtain p where "prepare digest blob_digest True sample_args active_store = Inr p" "pr_paid p"
    using sample_prepared by blast
  from paid_brain_is_last_resort [OF this, of "sample_brain ''free'' B_REVIEW SUBSCRIPTION"] show ?thesis
    by (simp add: sample_args_def) (simp add: sample_base_def sample_brain_def startable_def)
qed

section \<open>Grants\<close>

text \<open>
  C25. The stored grants refine a machine with three states: a call moves its own grant from UNUSED to ACTIVE or from
  ACTIVE to CONSUMED, or changes nothing, whatever fails; no grant has both states; and a successful activation or
  consumption is that very move.
\<close>

theorem grant_lifecycle:
  assumes "grant_step sha256 c s = (r, s')"
  shows "grant_moves (phase_at k s) (phase_at k s') \<and> (k \<noteq> call_key sha256 c \<longrightarrow> phase_at k s' = phase_at k s) \<and>
    ((\<exists>g. r = Inr g) \<longrightarrow>
       (case c of
          Activate io g now \<Rightarrow> phase_at (call_key sha256 c) s = Unused \<and> phase_at (call_key sha256 c) s' = Live
        | Consume io g now \<Rightarrow> phase_at (call_key sha256 c) s = Live \<and> phase_at (call_key sha256 c) s' = Spent))"
proof -
  have "case c of
      Activate io g now \<Rightarrow> phase_at (call_key sha256 c) s = Unused \<and> phase_at (call_key sha256 c) s' = Live
    | Consume io g now \<Rightarrow> phase_at (call_key sha256 c) s = Live \<and> phase_at (call_key sha256 c) s' = Spent"
    if "r = Inr g" for g
    using assms that by (cases c) (simp_all add: activate_success consume_success)
  with grant_step_moves [OF assms] grant_step_other [OF assms] show ?thesis by blast
qed

theorem grant_lifecycle_witness:
  "\<exists>s. grant_step digest (Consume fine_consume sample_grant 20) active_store = (Inr sample_grant, s) \<and>
     phase_at (grant_key digest sample_grant) s = Spent"
proof -
  obtain s where s: "consume digest fine_consume sample_grant 20 active_store = (Inr sample_grant, s)"
    using sample_consumed by blast
  then have "grant_step digest (Consume fine_consume sample_grant 20) active_store = (Inr sample_grant, s)" by simp
  from grant_lifecycle [OF this] this show ?thesis by auto
qed

text \<open>
  C26. A grant that nobody has used yet is honoured: in a store that works, its activation succeeds, and so does its
  consumption at any later time before it expires.
\<close>

theorem fresh_grant_is_honoured:
  assumes "mk_grant sha256 arg = Inr g" and "is_digest sha256" and "pg_workspace g = gs_workspace s"
    and "phase_at (grant_key sha256 g) s = Unused" and "0 \<le> now" "now < pg_expires g" "0 \<le> later" "later < pg_expires g"
    and "gi_guard io" "gi_mkdir io" "gi_write io = W_Fine" "gi_reread io"
    and "ci_guard cio" "ci_readable cio" "ci_replace cio = P_Fine" "ci_reread cio"
  shows "\<exists>s' s''. activate sha256 io g now s = (Inr g, s') \<and> require_active_grant sha256 True g later s' = Inr g \<and>
    consume sha256 cio g later s' = (Inr g, s'')"
proof -
  from mk_grant_wf [OF assms(1,2)] have "wf_grant sha256 g" .
  from activate_fine [OF this assms(3-6,9-12)] obtain s' where
    s': "activate sha256 io g now s = (Inr g, s')" "holds_grant sha256 s' g" by blast
  from require_active_fine [OF s'(2) assms(7,8)] consume_fine [OF s'(2) assms(7,8,13-16)] s'(1) show ?thesis by blast
qed

theorem fresh_grant_is_honoured_witness:
  "\<exists>s'. activate digest fine_activation sample_grant 10 new_store = (Inr sample_grant, s') \<and>
     require_active_grant digest True sample_grant 20 s' = Inr sample_grant"
  using fresh_grant_is_honoured [OF sample_grant_wf [unfolded wf_grant_def] digest_is_digest, of new_store 10 20 fine_activation fine_consume]
  by (auto simp: fine_activation_def fine_consume_def new_store_def sample_grant_def phase_at_def active_at_def consumed_at_def)

text \<open>
  C27. A grant that the constructor accepts fits the size limit, and what is written for it is read back as that grant;
  a file that is read at all holds a grant the constructor accepts.
\<close>

theorem grant_survives_its_file:
  assumes "is_digest sha256"
  shows "(\<forall>arg g. mk_grant sha256 arg = Inr g \<longrightarrow>
      grant_from_json sha256 (grant_body g) = Inr g \<and> fb_size (grant_body g) \<le> max_serialized_bytes) \<and>
    (\<forall>b g. grant_from_json sha256 b = Inr g \<longrightarrow> wf_grant sha256 g)"
proof -
  have "fb_size (grant_body g) \<le> max_serialized_bytes" if "wf_grant sha256 g" for g
    using wf_grant_facts(2) [OF that] by (simp add: grant_body_def)
  with assms grant_from_json_wf mk_grant_wf grant_body_read show ?thesis by blast
qed

theorem grant_survives_its_file_witness: "grant_from_json digest (grant_body sample_grant) = Inr sample_grant"
  using grant_survives_its_file [OF digest_is_digest] sample_grant_wf [unfolded wf_grant_def] by blast


section \<open>Dispatch\<close>

text \<open>
  C28. The Brain dispatcher selects somebody exactly when some candidate that fits the request can start; it then selects
  one such candidate that comes first in the order of capacity class, capacity state, preference and identity. Otherwise
  it says WAIT when some candidate fits and NO_COMPATIBLE_CANDIDATE when none does.
\<close>

theorem brain_dispatch_picks_best:
  assumes "dispatch_brain sha256 r = Inr d"
  shows "case dr_selected d of
      Some a \<Rightarrow> dr_status d = SELECTED \<and>
        (\<exists>c\<in>set (br_candidates r). bd_brain_id c = a \<and> brain_fits r c \<and> startable (bd_state c) \<and>
           (\<forall>c'\<in>set (br_candidates r). brain_fits r c' \<and> startable (bd_state c') \<longrightarrow> brain_key c \<le> brain_key c'))
    | None \<Rightarrow> \<not> (\<exists>c\<in>set (br_candidates r). brain_fits r c \<and> startable (bd_state c)) \<and>
        dr_status d = (if \<exists>c\<in>set (br_candidates r). brain_fits r c then WAIT else NO_COMPATIBLE_CANDIDATE)"
proof (cases "dr_selected d")
  case None
  from dispatch_brain_nobody [OF assms None] None show ?thesis by auto
next
  case (Some a)
  from dispatch_brain_selected [OF assms Some] Some show ?thesis by simp
qed

theorem brain_dispatch_picks_best_witness:
  "\<exists>d. dispatch_brain digest effective_base = Inr d \<and> dr_selected d = Some ''paid'' \<and> dr_status d = SELECTED"
proof -
  obtain d where "dispatch_brain digest effective_base = Inr d" "dr_selected d = Some ''paid''"
    using sample_dispatched unfolding map_sum_Inr by auto
  with brain_dispatch_picks_best [OF this(1)] show ?thesis by simp
qed

text \<open>
  C29. The Executor dispatcher selects by the same order among the candidates that support the operation and every required
  capability, a paid one only where that is allowed, and says WAIT or NO_COMPATIBLE_CANDIDATE on the same terms.
\<close>

theorem executor_dispatch_picks_best:
  assumes "dispatch_executor sha256 r = Inr d"
  shows "case dr_selected d of
      Some a \<Rightarrow> dr_status d = SELECTED \<and>
        (\<exists>c\<in>set (xr_candidates r). xd_executor_id c = a \<and> executor_fits r c \<and> startable (xd_state c) \<and>
           (\<forall>c'\<in>set (xr_candidates r). executor_fits r c' \<and> startable (xd_state c') \<longrightarrow> executor_key c \<le> executor_key c'))
    | None \<Rightarrow> \<not> (\<exists>c\<in>set (xr_candidates r). executor_fits r c \<and> startable (xd_state c)) \<and>
        dr_status d = (if \<exists>c\<in>set (xr_candidates r). executor_fits r c then WAIT else NO_COMPATIBLE_CANDIDATE)"
proof (cases "dr_selected d")
  case None
  from dispatch_executor_nobody [OF assms None] None show ?thesis by auto
next
  case (Some a)
  from dispatch_executor_selected [OF assms Some] Some show ?thesis by simp
qed

definition sample_executor_request :: executor_request where
  "sample_executor_request =
     \<lparr>xr_operation = OP_RUN,
      xr_candidates =
        [\<lparr>xd_executor_id = ''x'', xd_capabilities = \<lparr>ec_executor_id = ''x'', ec_operations = [OP_RUN], ec_capabilities = [SHELL],
            ec_declarative = True\<rparr>, xd_state = UNKNOWN, xd_class = SUBSCRIPTION, xd_rank = 0\<rparr>],
      xr_required = [SHELL], xr_allow_paid = False, xr_schema = ''1''\<rparr>"

lemma sample_executor_waits:
  "map_sum id (\<lambda>d. (dr_status d, dr_selected d)) (dispatch_executor digest sample_executor_request) = Inr (WAIT, None)"
  by code_simp

theorem executor_dispatch_picks_best_witness:
  "\<exists>d. dispatch_executor digest sample_executor_request = Inr d \<and>
     \<not> (\<exists>c\<in>set (xr_candidates sample_executor_request). executor_fits sample_executor_request c \<and> startable (xd_state c))"
proof -
  obtain d where "dispatch_executor digest sample_executor_request = Inr d" "dr_selected d = None"
    using sample_executor_waits unfolding map_sum_Inr by auto
  with executor_dispatch_picks_best [OF this(1)] show ?thesis by simp
qed

text \<open>
  C30. A request that its constructor accepts, with candidates theirs accepted, is always decided, unless the result
  itself is longer than 16384 bytes, which the limit on the request does not exclude; and a request is the same for its
  candidates in any order.
\<close>

theorem accepted_request_is_decided:
  assumes "mk_brain_request r = Inr r'" and "\<forall>c\<in>set (br_candidates r). mk_brain_candidate c = Inr c"
    and "\<forall>x. hex_digits 64 (sha256 x)" and "mset cs = mset (br_candidates r)"
  shows "((\<exists>d. dispatch_brain sha256 r' = Inr d) \<or> (\<exists>n > max_serialized_bytes. dispatch_brain sha256 r' = Inl (SerializedTooLarge n))) \<and>
    mk_brain_request (r\<lparr>br_candidates := cs\<rparr>) = Inr r'"
proof -
  have "made_or_too_large (dispatch_brain sha256 r')" using assms(1-3) by (intro dispatch_brain_total) simp_all
  then have "(\<exists>d. dispatch_brain sha256 r' = Inr d) \<or> (\<exists>n > max_serialized_bytes. dispatch_brain sha256 r' = Inl (SerializedTooLarge n))"
    by (auto simp: made_or_too_large_def split: sum.splits dispatch_error.splits)
  moreover have "mk_brain_request (r\<lparr>br_candidates := cs\<rparr>) = Inr r'"
    using brain_request_order [OF assms(4), of r] assms(1) by simp
  ultimately show ?thesis by blast
qed

lemma sample_candidates: "list_all (\<lambda>c. mk_brain_candidate c = Inr c) (br_candidates effective_base)"
  by code_simp

theorem accepted_request_is_decided_witness:
  "mk_brain_request (effective_base\<lparr>br_candidates := rev (br_candidates effective_base)\<rparr>) = Inr effective_base"
proof -
  have "hex_digits 64 (replicate 64 (CHR ''a''))" by code_simp
  then have "\<forall>x. hex_digits 64 (digest x)" by (simp add: digest_def)
  with accepted_request_is_decided [OF sample_effective, of digest "rev (br_candidates effective_base)"] sample_candidates
  show ?thesis by (simp add: list_all_iff)
qed

section \<open>Context and answers\<close>

text \<open>
  C31. The selected context costs what the token counter says and stays within the budget after the protocol reserve, and
  nothing that was left out for the budget would still have fitted.
\<close>

theorem context_stays_within_budget:
  assumes "build_context sha256 tc cs b = Inr c"
  shows "cx_tokens c = (\<Sum>i\<leftarrow>cx_selected c. tc_count tc (render_context_item i)) \<and> cx_tokens c + cb_reserve b \<le> cb_max b \<and>
    (\<forall>x\<in>set (cx_excluded c). ex_reason x = EX_BUDGET \<longrightarrow> cb_max b < cx_tokens c + ex_tokens x + cb_reserve b)"
proof -
  have "tokens_of tc = (\<lambda>i. tc_count tc (render_context_item i))" by (simp add: fun_eq_iff tokens_of_def)
  with build_context_budget [OF assms] show ?thesis by (auto simp: available_tokens_def)
qed

definition sample_notes :: context_item where
  "sample_notes = \<lparr>it_kind = CK_SOURCE, it_content = ''notes'', it_path = Some ''n'', it_priority = 5, it_sha = None\<rparr>"

definition sample_budget :: context_budget where
  "sample_budget = \<lparr>cb_max = 80, cb_reserve = 10\<rparr>"

lemma sample_built:
  "map_sum id (\<lambda>c. (cx_selected c, map ex_reason (cx_excluded c))) (build_context digest utf8_counter [sample_notes, sample_item] sample_budget) =
     Inr ([sample_item], [EX_BUDGET])"
  by code_simp

theorem context_stays_within_budget_witness:
  "\<exists>c. build_context digest utf8_counter [sample_notes, sample_item] sample_budget = Inr c \<and> cx_selected c = [sample_item] \<and>
     cx_tokens c \<le> 70"
proof -
  obtain c where c: "build_context digest utf8_counter [sample_notes, sample_item] sample_budget = Inr c"
    "cx_selected c = [sample_item]"
    using sample_built unfolding map_sum_Inr by auto
  with context_stays_within_budget [OF c(1)] show ?thesis by (simp add: sample_budget_def)
qed

text \<open>
  C32. Only given candidates are selected, none with a sensitive path or a private key, no two of the same kind, path and
  content; a TASK is among them, and every TASK and CONTRACT candidate is, or one identical to it.
\<close>

theorem mandatory_context_is_selected:
  assumes "build_context sha256 tc cs b = Inr c"
  shows "set (cx_selected c) \<subseteq> set cs \<and> (\<forall>i\<in>set (cx_selected c). check_sensitive i = Inr ()) \<and>
    distinct (map (item_identity sha256) (cx_selected c)) \<and> (\<exists>i\<in>set (cx_selected c). it_kind i = CK_TASK) \<and>
    (\<forall>i\<in>set cs. it_kind i \<in> {CK_TASK, CK_CONTRACT} \<longrightarrow> item_identity sha256 i \<in> item_identity sha256 ` set (cx_selected c))"
  using build_context_items [OF assms] by blast

theorem mandatory_context_is_selected_witness:
  "\<exists>c. build_context digest utf8_counter [sample_notes, sample_item] sample_budget = Inr c \<and>
     item_identity digest sample_item \<in> item_identity digest ` set (cx_selected c)"
proof -
  obtain c where c: "build_context digest utf8_counter [sample_notes, sample_item] sample_budget = Inr c"
    using sample_built unfolding map_sum_Inr by auto
  with mandatory_context_is_selected [OF c] show ?thesis by (simp add: sample_item_def)
qed

text \<open>
  C33. The build does not depend on the order of the candidates when no two different ones agree in priority, kind,
  path text and content digest.
\<close>

theorem context_ignores_input_order:
  assumes "build_context sha256 tc cs b = Inr c" and "mset cs' = mset cs"
    and "inj_on (\<lambda>i. dedupe_key (i, sha256 (it_content i))) (set cs)"
  shows "build_context sha256 tc cs' b = Inr c"
  using assms by (rule build_context_order)

theorem context_ignores_input_order_witness:
  "\<exists>c. build_context digest utf8_counter [sample_item, sample_notes] sample_budget = Inr c \<and> cx_selected c = [sample_item]"
proof -
  obtain c where c: "build_context digest utf8_counter [sample_notes, sample_item] sample_budget = Inr c"
    "cx_selected c = [sample_item]"
    using sample_built unfolding map_sum_Inr by auto
  have "inj_on (\<lambda>i. dedupe_key (i, digest (it_content i))) (set [sample_notes, sample_item])"
    by (simp add: dedupe_key_def sample_notes_def sample_item_def)
  with context_ignores_input_order [OF c(1), of "[sample_item, sample_notes]"] c(2) show ?thesis by simp
qed

text \<open>
  A missing path and an empty one have the same sort key and the same identity, so the first of two such candidates
  that is given is the one that stays, and the fingerprint tells them apart.
\<close>

definition pathless :: "string option \<Rightarrow> context_item" where
  "pathless p = \<lparr>it_kind = CK_TASK, it_content = ''plan'', it_path = p, it_priority = 0, it_sha = None\<rparr>"

lemma missing_path_first:
  "map_sum id cx_selected (build_context digest utf8_counter [pathless None, pathless (Some [])] sample_budget) = Inr [pathless None]"
  by code_simp

lemma empty_path_first:
  "map_sum id cx_selected (build_context digest utf8_counter [pathless (Some []), pathless None] sample_budget) = Inr [pathless (Some [])]"
  by code_simp

text \<open>
  C34. A SUCCESS result of the gateway is the provider's own answer: for this request and task, of the output type of
  the operation, with every required section present and not blank; and it is recorded as a success.
\<close>

theorem accepted_answer_is_checked:
  assumes "gateway_invoke io gw rq cx w = (Inr g, w')" and "rp_status (gr_response g) = RS_SUCCESS"
  shows "go_reply io = Some (gr_response g) \<and> rp_id (gr_response g) = rq_id rq \<and> rp_task (gr_response g) = rq_task rq \<and>
    rp_output (gr_response g) = Some (expected_output (rq_operation rq)) \<and> us_status (gr_usage g) = RS_SUCCESS \<and>
    gt_calls w' = gt_calls w @ [rq] \<and>
    (\<exists>ps. validate_artifact (rq_output rq) (case rp_content (gr_response g) of None \<Rightarrow> [] | Some s \<Rightarrow> s) = Inr ps \<and>
       (\<forall>k\<in>set (required_sections (rq_output rq)). strip (section_text ps k) \<noteq> []))"
proof -
  from assms(1) obtain rp where rp: "go_reply io = Some rp" "checked_response (go_message io) gw rq rp = Inr (gr_response g)"
    "usage_record_of (go_timestamp io) gw rq cx (gr_response g) = Inr (gr_usage g)" "gt_calls w' = gt_calls w @ [rq]"
    by (rule gateway_invoke_Inr)
  have "us_status (gr_usage g) = rp_status (gr_response g)"
    using rp(3) by (rule usage_record_of_status)
  with rp checked_response_success [OF rp(2) assms(2)] assms(2) validate_artifact_Inr show ?thesis by metis
qed

definition sample_answer :: model_response where
  "sample_answer =
     \<lparr>rp_schema = ''1'', rp_id = ''r1'', rp_task = ''TASK-7'', rp_provider = ''mm'', rp_model = ''m3'', rp_status = RS_SUCCESS,
      rp_output = Some O_PLAN,
      rp_content = Some (''# summary'' @ nl @ ''a'' @ nl @ ''STEPS:'' @ nl @ ''b'' @ nl @ ''**Files**'' @ nl @ ''c'' @ nl @
        ''## TESTS'' @ nl @ ''d'' @ nl @ ''risks:'' @ nl @ ''e''),
      rp_input_tokens = None, rp_output_tokens = None, rp_latency = None, rp_provider_id = None, rp_error_code = None,
      rp_error_message = None\<rparr>"

lemma sample_answer_sections:
  "validate_artifact O_PLAN (the (rp_content sample_answer)) =
     Inr [(''SUMMARY'', ''a''), (''STEPS'', ''b''), (''FILES'', ''c''), (''TESTS'', ''d''), (''RISKS'', ''e'')]"
  by code_simp

theorem accepted_answer_is_checked_witness:
  "\<exists>g w'. gateway_invoke (silent_provider\<lparr>go_reply := Some sample_answer\<rparr>) sample_gateway sample_model_request (Some sample_build)
       \<lparr>gt_calls = [], gt_ledger = []\<rparr> = (Inr g, w') \<and> gr_response g = sample_answer \<and>
     us_status (gr_usage g) = RS_SUCCESS \<and> length (gt_ledger w') = 1"
proof -
  let ?io = "silent_provider\<lparr>go_reply := Some sample_answer\<rparr>"
  have pre: "precheck sample_gateway sample_model_request (Some sample_build) = Inr ()"
    by (simp add: precheck_def sample_gateway_def sample_model_request_def sample_build_def)
  have "checked_response m sample_gateway sample_model_request sample_answer = Inr sample_answer" for m
  proof -
    have "validate_correlation sample_model_request sample_answer = Inr ()"
      by (simp add: validate_correlation_def sample_model_request_def sample_answer_def)
    moreover have "rq_output sample_model_request = O_PLAN" "rp_status sample_answer = RS_SUCCESS"
      "\<exists>s. rp_content sample_answer = Some s"
      by (simp_all add: sample_model_request_def sample_answer_def)
    ultimately show ?thesis using sample_answer_sections by (auto simp: checked_response_def bind_result_def)
  qed
  moreover obtain u where "usage_record_of ''now'' sample_gateway sample_model_request (Some sample_build) sample_answer = Inr u"
    by (simp add: usage_record_of_def mk_usage_record_def natural_option_def sample_gateway_def sample_model_request_def
        sample_build_def sample_answer_def)
  ultimately obtain g w' where g: "gateway_invoke ?io sample_gateway sample_model_request (Some sample_build)
      \<lparr>gt_calls = [], gt_ledger = []\<rparr> = (Inr g, w')" "gr_response g = sample_answer" "length (gt_ledger w') = 1"
    using pre by (simp add: gateway_invoke_def silent_provider_def bind_result_def sample_gateway_def)
  have "rp_status (gr_response g) = RS_SUCCESS" by (simp add: g(2) sample_answer_def)
  from accepted_answer_is_checked [OF g(1) this] g show ?thesis by blast
qed

end
